(* ===== verification/Prelude.thy ===== *)
theory Prelude
  imports Main "HOL-Library.Word" "HOL-Library.Product_Lexorder" "HOL-Library.Sublist"
begin

text \<open>
  Shared vocabulary of the development.

  \<^item> The machine types of the Go program: \<open>uuid\<close> for \<open>uuid.UUID\<close> (16 bytes, compared by
    PostgreSQL as an unsigned big-endian number, with \<open>uuid.Nil\<close> the zero value) and \<open>int64\<close>
    for \<open>int64\<close> and the 64-bit \<open>int\<close> of the amd64 build, read as signed by \<open>sint\<close>.
  \<^item> Result types: a fallible operation returns a sum, \<open>Inl\<close> the error and \<open>Inr\<close> the value.
  \<^item> Tables: a PostgreSQL table is a list of rows; \<open>update_where\<close> is an UPDATE with a WHERE
    clause, \<open>List.find\<close> is a query of one row, \<open>page\<close> is ORDER BY with LIMIT.
  \<^item> The collections of lemmas that carry the component proofs.
\<close>

named_theorems table_simps \<open>facts on tables (lists of rows) and their updates\<close>
named_theorems op_defs \<open>definitions of the operations, unfolded by the component proofs\<close>
named_theorems frame_simps \<open>what an operation leaves unchanged\<close>

section \<open>Machine types\<close>

type_synonym uuid = "128 word"
type_synonym int64 = "64 word"

definition uuid_nil :: uuid where
  "uuid_nil = 0"

lemma uuid_nil_eq [simp]: "(uuid_nil = x) = (x = 0)" "(x = uuid_nil) = (x = 0)"
  by (auto simp: uuid_nil_def)

text \<open>The comparison \<open>value <= 0\<close> and \<open>value < min\<close> of signed 64-bit integers.\<close>

definition i64_le :: "int64 \<Rightarrow> int64 \<Rightarrow> bool" where
  "i64_le a b \<longleftrightarrow> sint a \<le> sint b"

definition i64_less :: "int64 \<Rightarrow> int64 \<Rightarrow> bool" where
  "i64_less a b \<longleftrightarrow> sint a < sint b"

lemma i64_le_iff [simp]: "i64_le a b \<longleftrightarrow> sint a \<le> sint b"
  by (simp add: i64_le_def)

lemma i64_less_iff [simp]: "i64_less a b \<longleftrightarrow> sint a < sint b"
  by (simp add: i64_less_def)

lemma sint_int64_bounds: "- (2 ^ 63) \<le> sint (x :: int64)" "sint (x :: int64) < 2 ^ 63"
  using sint_range_size [of x] by (auto simp: word_size)

section \<open>Results\<close>

definition is_ok :: "'e + 'a \<Rightarrow> bool" where
  "is_ok r \<longleftrightarrow> (case r of Inl _ \<Rightarrow> False | Inr _ \<Rightarrow> True)"

lemma is_ok_simps [simp]: "is_ok (Inr x)" "\<not> is_ok (Inl e)"
  by (simp_all add: is_ok_def)

lemma is_ok_iff: "is_ok r \<longleftrightarrow> (\<exists>x. r = Inr x)"
  by (cases r) auto

section \<open>Tables\<close>

definition update_where :: "('r \<Rightarrow> bool) \<Rightarrow> ('r \<Rightarrow> 'r) \<Rightarrow> 'r list \<Rightarrow> 'r list" where
  "update_where P f rs = map (\<lambda>r. if P r then f r else r) rs"

lemma update_where_Nil [simp]: "update_where P f [] = []"
  by (simp add: update_where_def)

lemma update_where_Cons [simp]:
  "update_where P f (r # rs) = (if P r then f r else r) # update_where P f rs"
  by (simp add: update_where_def)

lemma length_update_where [simp]: "length (update_where P f rs) = length rs"
  by (simp add: update_where_def)

lemma set_update_where [table_simps]:
  "set (update_where P f rs) = (\<lambda>r. if P r then f r else r) ` set rs"
  by (simp add: update_where_def)

lemma update_where_none [table_simps]: "(\<And>r. r \<in> set rs \<Longrightarrow> \<not> P r) \<Longrightarrow> update_where P f rs = rs"
  by (induction rs) auto

lemma update_where_cong: "(\<And>r. r \<in> set rs \<Longrightarrow> P r = Q r) \<Longrightarrow> update_where P f rs = update_where Q f rs"
  by (induction rs) auto

lemma update_where_twice:
  assumes "\<And>r. f (f r) = f r" "\<And>r. Q (f r) = Q r"
  shows "update_where Q f (update_where P f rs) = update_where (\<lambda>r. P r \<or> Q r) f rs"
  using assms by (induction rs) auto

text \<open>A column that the update does not write keeps its values.\<close>

lemma map_update_where: "(\<And>r. P r \<Longrightarrow> g (f r) = g r) \<Longrightarrow> map g (update_where P f rs) = map g rs"
  by (induction rs) auto

text \<open>The rows that an update does not touch, and that its result does not join, stay as they are.\<close>

lemma filter_update_where:
  "(\<And>r. P r \<Longrightarrow> \<not> Q r \<and> \<not> Q (f r)) \<Longrightarrow> filter Q (update_where P f rs) = filter Q rs"
  by (induction rs) auto

text \<open>Looking a row up by a key after an update that keeps the key.\<close>

lemma find_update_where:
  assumes "\<And>r. Q (if P r then f r else r) = Q r"
  shows "find Q (update_where P f rs) = map_option (\<lambda>r. if P r then f r else r) (find Q rs)"
  using assms by (induction rs) (auto split: if_splits)

lemma find_append_last: "find P (rs @ [r]) =
    (case find P rs of Some x \<Rightarrow> Some x | None \<Rightarrow> if P r then Some r else None)"
  by (induction rs) auto

lemma find_SomeD: "find P rs = Some r \<Longrightarrow> r \<in> set rs \<and> P r"
  by (metis find_Some_iff nth_mem)

lemma find_None_iff_all: "find P rs = None \<longleftrightarrow> (\<forall>r \<in> set rs. \<not> P r)"
  by (auto simp: find_None_iff)

lemma find_cong_set: "(\<And>r. r \<in> set rs \<Longrightarrow> P r = Q r) \<Longrightarrow> find P rs = find Q rs"
  by (induction rs) auto

lemma find_unique_key:
  "distinct (map key rs) \<Longrightarrow> r \<in> set rs \<Longrightarrow> find (\<lambda>x. key x = key r) rs = Some r"
  by (induction rs) (auto simp: image_iff)

lemma distinct_key_eq:
  "distinct (map key rs) \<Longrightarrow> r \<in> set rs \<Longrightarrow> r' \<in> set rs \<Longrightarrow> key r = key r' \<Longrightarrow> r = r'"
  by (induction rs) (auto simp: image_iff)

lemma find_append: "find P (xs @ ys) = (case find P xs of Some x \<Rightarrow> Some x | None \<Rightarrow> find P ys)"
  by (induction xs) auto

text \<open>When some columns \<open>g\<close> of a table only ever grow by new rows, a lookup that depends on those
  columns alone keeps its result.\<close>

lemma find_prefix:
  assumes "prefix (map g xs) (map g ys)" "find P xs = Some x" "\<And>x y. g x = g y \<Longrightarrow> P x = P y"
  shows "\<exists>y. find P ys = Some y \<and> g y = g x"
  using assms(1,2)
proof (induction xs arbitrary: ys)
  case (Cons a xs)
  then obtain b ys' where ys: "ys = b # ys'" "g b = g a" "prefix (map g xs) (map g ys')"
    by (cases ys) auto
  then have P: "P b = P a" using assms(3) by blast
  show ?case
  proof (cases "P a")
    case True
    then show ?thesis using ys P Cons.prems(2) by simp
  next
    case False
    then have "find P xs = Some x" using Cons.prems(2) by simp
    from Cons.IH [OF ys(3) this] show ?thesis using False P ys(1) by simp
  qed
qed simp

section \<open>Ordered, limited queries\<close>

text \<open>\<open>SELECT .. WHERE P ORDER BY key ASC LIMIT n\<close>: PostgreSQL sorts the rows that pass the
  filter and returns the first \<open>n\<close>.\<close>

definition page :: "nat \<Rightarrow> ('r \<Rightarrow> 'k :: linorder) \<Rightarrow> ('r \<Rightarrow> bool) \<Rightarrow> 'r list \<Rightarrow> 'r list" where
  "page n key P rs = take n (sort_key key (filter P rs))"

lemma length_page: "length (page n key P rs) \<le> n"
  by (simp add: page_def)

lemma set_page: "set (page n key P rs) \<subseteq> {r \<in> set rs. P r}"
  unfolding page_def by (auto dest: in_set_takeD)

lemma sorted_page: "sorted (map key (page n key P rs))"
  by (simp add: page_def take_map [symmetric] sorted_wrt_take)

lemma page_complete: "length (filter P rs) \<le> n \<Longrightarrow> set (page n key P rs) = {r \<in> set rs. P r}"
  by (simp add: page_def)

text \<open>The rows on a page are those that pass the filter, when the page holds them all.\<close>

lemma page_ids:
  assumes "distinct (map key rs)" "length (filter P rs) \<le> n" "r \<in> set rs"
  shows "key r \<in> key ` set (page n k P rs) \<longleftrightarrow> P r"
  using page_complete [OF assms(2), of k] distinct_key_eq [OF assms(1)] assms(3) by auto

text \<open>What a limited query leaves out is not before what it returns.\<close>

lemma page_rest_ge:
  assumes "r \<in> set (page n key P rs)" "r' \<in> set rs" "P r'" "r' \<notin> set (page n key P rs)"
  shows "key r \<le> key r'"
proof -
  let ?s = "sort_key key (filter P rs)"
  have srt: "sorted (map key (take n ?s) @ map key (drop n ?s))"
    by (metis append_take_drop_id map_append sorted_sort_key)
  have "r' \<in> set ?s" using assms(2,3) by simp
  then have "r' \<in> set (take n ?s) \<union> set (drop n ?s)"
    by (metis append_take_drop_id set_append)
  with assms(4) have "r' \<in> set (drop n ?s)" by (auto simp: page_def)
  moreover have "r \<in> set (take n ?s)" using assms(1) by (simp add: page_def)
  ultimately show ?thesis using srt unfolding sorted_append by auto
qed

end
