(* ===== verification/Go_Strings.thy ===== *)
theory Go_Strings
  imports Prelude "HOL-Library.Char_ord"
begin

text \<open>
  The functions of Go's packages \<open>strings\<close>, \<open>strconv\<close> and \<open>fmt\<close> that the source calls. A Go
  string is a sequence of bytes, so it is a \<open>string\<close> (a list of bytes) here and \<open>len\<close> is
  \<open>length\<close>. Case mapping and white space follow the ASCII tables of the package (its fast path);
  a byte above 127 is left as it is.
\<close>

section \<open>Characters\<close>

definition is_upper_az :: "char \<Rightarrow> bool" where
  "is_upper_az c \<longleftrightarrow> CHR ''A'' \<le> c \<and> c \<le> CHR ''Z''"

definition is_lower_az :: "char \<Rightarrow> bool" where
  "is_lower_az c \<longleftrightarrow> CHR ''a'' \<le> c \<and> c \<le> CHR ''z''"

definition is_digit09 :: "char \<Rightarrow> bool" where
  "is_digit09 c \<longleftrightarrow> CHR ''0'' \<le> c \<and> c \<le> CHR ''9''"

definition is_ascii_space :: "char \<Rightarrow> bool" where
  "is_ascii_space c \<longleftrightarrow> c = CHR '' '' \<or> c = CHR 0x09 \<or> c = CHR 0x0A \<or> c = CHR 0x0B
     \<or> c = CHR 0x0C \<or> c = CHR 0x0D"

definition lower_char :: "char \<Rightarrow> char" where
  "lower_char c = (if is_upper_az c then char_of (of_char c + 32 :: nat) else c)"

definition upper_char :: "char \<Rightarrow> char" where
  "upper_char c = (if is_lower_az c then char_of (of_char c - 32 :: nat) else c)"

lemma of_char_less_256: "(of_char c :: nat) < 256"
  by (simp add: of_char_eq_iff)

lemma char_le_nat: "c \<le> d \<longleftrightarrow> (of_char c :: nat) \<le> of_char d"
  by (simp add: less_eq_char_def)

lemma of_char_char_of_nat: "n < 256 \<Longrightarrow> (of_char (char_of n) :: nat) = n"
  by simp

lemma char_range_simps:
  "is_upper_az c \<longleftrightarrow> (65::nat) \<le> of_char c \<and> (of_char c :: nat) \<le> 90"
  "is_lower_az c \<longleftrightarrow> (97::nat) \<le> of_char c \<and> (of_char c :: nat) \<le> 122"
  "is_digit09 c \<longleftrightarrow> (48::nat) \<le> of_char c \<and> (of_char c :: nat) \<le> 57"
  by (simp_all add: is_upper_az_def is_lower_az_def is_digit09_def char_le_nat)

lemma lower_char_idem [simp]: "lower_char (lower_char c) = lower_char c"
  by (auto simp: lower_char_def char_range_simps)

lemma lower_char_not_upper: "\<not> is_upper_az (lower_char c)"
  by (auto simp: lower_char_def char_range_simps)

lemma space_nat: "is_ascii_space c \<longleftrightarrow> (of_char c :: nat) \<in> {32, 9, 10, 11, 12, 13}"
proof -
  have *: "c = d \<longleftrightarrow> (of_char c :: nat) = of_char d" for d by simp
  show ?thesis unfolding is_ascii_space_def by (subst (1 2 3 4 5 6) *) simp
qed

lemma is_ascii_space_lower [simp]: "is_ascii_space (lower_char c) = is_ascii_space c"
  by (auto simp: lower_char_def space_nat char_range_simps)

section \<open>Package strings\<close>

definition to_lower :: "string \<Rightarrow> string" where
  "to_lower s = map lower_char s"

definition to_upper :: "string \<Rightarrow> string" where
  "to_upper s = map upper_char s"

definition trim_left :: "string \<Rightarrow> string" where
  "trim_left s = dropWhile is_ascii_space s"

definition trim_space :: "string \<Rightarrow> string" where
  "trim_space s = rev (trim_left (rev (trim_left s)))"

text \<open>\<open>strings.Split\<close> with a one-byte separator: one more part than there are separators.\<close>

fun go_split :: "char \<Rightarrow> string \<Rightarrow> string list" where
  "go_split sep [] = [[]]"
| "go_split sep (c # cs) =
     (if c = sep then [] # go_split sep cs
      else case go_split sep cs of [] \<Rightarrow> [[c]] | p # ps \<Rightarrow> (c # p) # ps)"

text \<open>\<open>strings.SplitN(s, sep, 2)\<close>: at most two parts, cut at the first separator.\<close>

definition split_n2 :: "char \<Rightarrow> string \<Rightarrow> string list" where
  "split_n2 sep s =
     (if sep \<in> set s then [takeWhile (\<lambda>c. c \<noteq> sep) s, tl (dropWhile (\<lambda>c. c \<noteq> sep) s)] else [s])"

fun contains :: "string \<Rightarrow> string \<Rightarrow> bool" where
  "contains [] sub = (sub = [])"
| "contains (c # cs) sub = (prefix sub (c # cs) \<or> contains cs sub)"

fun join :: "string \<Rightarrow> string list \<Rightarrow> string" where
  "join sep [] = []"
| "join sep [x] = x"
| "join sep (x # xs) = x @ sep @ join sep xs"

section \<open>Numbers\<close>

definition digit_char :: "int \<Rightarrow> char" where
  "digit_char d = char_of (48 + d)"

definition digit_value :: "char \<Rightarrow> int" where
  "digit_value c = of_char c - 48"

text \<open>\<open>strconv.Itoa\<close> and \<open>%d\<close>.\<close>

function dec :: "int \<Rightarrow> string" where
  "dec n = (if n < 10 then [digit_char n] else dec (n div 10) @ [digit_char (n mod 10)])"
  by pat_completeness auto
termination
  by (relation "measure nat") auto

declare dec.simps [simp del]

definition int_to_string :: "int \<Rightarrow> string" where
  "int_to_string i = (if i < 0 then ''-'' @ dec (- i) else dec i)"

definition nat_to_string :: "nat \<Rightarrow> string" where
  "nat_to_string n = dec (int n)"

text \<open>Zero-padded decimal of a fixed width, as \<open>time.Format\<close> prints its fields.\<close>

fun pad :: "nat \<Rightarrow> int \<Rightarrow> string" where
  "pad 0 n = []"
| "pad (Suc w) n = pad w (n div 10) @ [digit_char (n mod 10)]"

definition digits_value :: "string \<Rightarrow> int" where
  "digits_value s = foldl (\<lambda>n c. 10 * n + digit_value c) 0 s"

section \<open>Lemmas\<close>

lemma to_lower_idem [simp]: "to_lower (to_lower s) = to_lower s"
  by (simp add: to_lower_def)

lemma length_to_lower [simp]: "length (to_lower s) = length s"
  by (simp add: to_lower_def)

lemma trim_left_lower: "trim_left (to_lower s) = to_lower (trim_left s)"
  by (simp add: trim_left_def to_lower_def dropWhile_map comp_def)

lemma trim_space_lower: "trim_space (to_lower s) = to_lower (trim_space s)"
  by (simp add: trim_space_def trim_left_lower to_lower_def rev_map [symmetric])
     (simp add: trim_left_lower [unfolded to_lower_def] rev_map)

lemma trim_left_idem: "trim_left (trim_left s) = trim_left s"
  by (simp add: trim_left_def)

lemma trim_left_hd: "trim_left s = [] \<or> \<not> is_ascii_space (hd (trim_left s))"
  by (induction s) (auto simp: trim_left_def)

lemma trim_left_id: "s = [] \<or> \<not> is_ascii_space (hd s) \<Longrightarrow> trim_left s = s"
  by (cases s) (auto simp: trim_left_def)

lemma suffix_trim_left: "suffix (trim_left s) s"
  by (simp add: trim_left_def suffix_dropWhile)

lemma length_trim_left: "length (trim_left s) \<le> length s"
  by (simp add: trim_left_def length_dropWhile_le)

lemma length_trim_space: "length (trim_space s) \<le> length s"
  unfolding trim_space_def using length_trim_left le_trans by (metis length_rev)

lemma hd_rev_trim:
  assumes "t = [] \<or> \<not> is_ascii_space (hd t)"
  shows "rev (trim_left (rev t)) = [] \<or> \<not> is_ascii_space (hd (rev (trim_left (rev t))))"
proof (cases "rev (trim_left (rev t)) = []")
  case False
  obtain p where "rev t = p @ trim_left (rev t)"
    using suffix_trim_left suffix_def by blast
  then have "t = rev (trim_left (rev t)) @ rev p" by (metis rev_append rev_rev_ident)
  then have "hd (rev (trim_left (rev t))) = hd t" using False by (metis hd_append2)
  moreover have "t \<noteq> []" using False by (auto simp: trim_left_def)
  ultimately show ?thesis using assms by auto
qed simp

lemma trim_space_idem [simp]: "trim_space (trim_space s) = trim_space s"
proof -
  have a: "trim_left (trim_space s) = trim_space s"
    unfolding trim_space_def by (rule trim_left_id, rule hd_rev_trim, rule trim_left_hd)
  then have "trim_space (trim_space s) = rev (trim_left (rev (trim_space s)))"
    by (simp add: trim_space_def)
  also have "\<dots> = trim_space s" by (simp add: trim_space_def trim_left_idem)
  finally show ?thesis .
qed

lemma go_split_not_Nil [simp]: "go_split sep s \<noteq> []"
  by (induction s) (auto split: list.splits)

lemma go_split_no_sep: "sep \<notin> set s \<Longrightarrow> go_split sep s = [s]"
  by (induction s) auto

lemma go_split_append: "sep \<notin> set s \<Longrightarrow> go_split sep (s @ sep # t) = s # go_split sep t"
  by (induction s) auto

lemma split_n2_append: "sep \<notin> set s \<Longrightarrow> split_n2 sep (s @ sep # t) = [s, t]"
  by (induction s) (auto simp: split_n2_def)

lemma contains_iff: "contains s sub \<longleftrightarrow> sublist sub s"
proof (induction s)
  case (Cons c cs)
  then show ?case by (simp add: sublist_Cons_right)
qed simp

lemma length_pad [simp]: "length (pad w n) = w"
  by (induction w arbitrary: n) auto

lemma of_char_int: "(of_char c :: int) = int (of_char c)"
  by (simp add: of_nat_of_char)

lemma of_char_digit: "0 \<le> d \<Longrightarrow> d < 10 \<Longrightarrow> (of_char (digit_char d) :: int) = 48 + d"
  by (simp add: digit_char_def)

lemma digit_value_char [simp]: "0 \<le> d \<Longrightarrow> d < 10 \<Longrightarrow> digit_value (digit_char d) = d"
  by (simp add: digit_value_def of_char_digit)

lemma digit_char_is_digit [simp]:
  assumes "0 \<le> d" "d < 10"
  shows "is_digit09 (digit_char d)"
proof -
  have "int (of_char (digit_char d)) = 48 + d"
    using of_char_digit [OF assms] by (simp add: of_char_int)
  then show ?thesis using assms by (simp add: char_range_simps)
qed

lemma pad_digits: "c \<in> set (pad w n) \<Longrightarrow> is_digit09 c"
  by (induction w arbitrary: n) auto

lemma digits_value_snoc: "digits_value (s @ [c]) = 10 * digits_value s + digit_value c"
  by (simp add: digits_value_def)

lemma digits_value_pad: "0 \<le> n \<Longrightarrow> n < 10 ^ w \<Longrightarrow> digits_value (pad w n) = n"
proof (induction w arbitrary: n)
  case 0
  then show ?case by (simp add: digits_value_def)
next
  case (Suc w)
  then have "0 \<le> n div 10" "n div 10 < 10 ^ w" by auto
  with Suc.IH show ?case by (simp add: digits_value_snoc)
qed

lemma pad_inject:
  "0 \<le> m \<Longrightarrow> m < 10 ^ w \<Longrightarrow> 0 \<le> n \<Longrightarrow> n < 10 ^ w \<Longrightarrow> pad w m = pad w n \<Longrightarrow> m = n"
  by (metis digits_value_pad)

lemma dec_digits: "0 \<le> n \<Longrightarrow> c \<in> set (dec n) \<Longrightarrow> is_digit09 c"
  by (induction n rule: dec.induct) (subst (asm) (2) dec.simps, auto split: if_splits)

lemma digits_value_dec: "0 \<le> n \<Longrightarrow> digits_value (dec n) = n"
proof (induction n rule: dec.induct)
  case (1 n)
  then show ?case
    by (subst dec.simps) (auto simp: digits_value_snoc digits_value_def [of "[_]"])
qed

lemma digits_value_zeros: "digits_value (replicate k (CHR ''0'') @ s) = digits_value s"
  by (induction k) (auto simp: digits_value_def digit_value_def)

lemma digits_not_special:
  "is_digit09 c \<Longrightarrow> c \<noteq> CHR '':''" "is_digit09 c \<Longrightarrow> c \<noteq> CHR ''-''"
  "is_digit09 c \<Longrightarrow> c \<noteq> CHR ''.''" "is_digit09 c \<Longrightarrow> c \<noteq> CHR ''T''"
  "is_digit09 c \<Longrightarrow> c \<noteq> CHR ''Z''"
  by (auto simp: char_range_simps)

end
