(* ===== verification/Errors.thy ===== *)
theory Errors
  imports Go_Strings
begin

text \<open>
  Package \<open>internal/errors\<close> and Go's error values. An error of the program is a value of
  \<open>gerror\<close>: a sentinel, a \<open>DomainError\<close> with its cause, an accumulated \<open>ValidationError\<close>, a
  classified \<open>ProviderError\<close>, an error of the driver (\<open>pgx.ErrNoRows\<close> or a server error), a
  plain text error, or an error wrapped by \<open>fmt.Errorf("..: %w", err)\<close>. \<open>errors_is\<close> and
  \<open>errors_as_domain\<close> walk the chain of causes as \<open>errors.Is\<close> and \<open>errors.As\<close> do, while
  \<open>HTTPStatusFor\<close> and \<open>CodeFor\<close> test the outermost value only for \<open>DomainError\<close>.
\<close>

section \<open>Sentinels\<close>

datatype sentinel =
    ErrNotFound | ErrConflict | ErrInvalidInput | ErrDuplicatePlan | ErrPlanNotActive
  | ErrSubscriptionExpired | ErrDuplicateIdempotency | ErrMissingIdempotencyKey
  | ErrMissingTenantID | ErrProviderNotFound | ErrProviderError | ErrPayPerUseNotSupported
  | ErrPlansNotSupported | ErrProviderRequired | ErrNotSupported | ErrDuplicateTenantSlug
  | ErrDuplicateEmail | ErrKeyNotFound | ErrSignupDisabled | ErrProviderAuthFailure
  | ErrProviderRejected | ErrProviderRateLimited | ErrWebhookSignatureInvalid

record field_error =
  fe_field :: string
  fe_message :: string

datatype gerror =
    Sentinel sentinel
  | Domain string string nat sentinel  \<comment> \<open>code, message, HTTP status, cause\<close>
  | Validation "field_error list"
  | Provider_Error string nat string string  \<comment> \<open>category, HTTP status, code, message\<close>
  | No_Rows                            \<comment> \<open>\<open>pgx.ErrNoRows\<close>\<close>
  | Pg_Error string string             \<comment> \<open>SQLSTATE and primary message of a server error\<close>
  | Plain string
  | Wrap string gerror                 \<comment> \<open>the text before \<open>: %w\<close>, and the wrapped error\<close>

fun sentinel_text :: "sentinel \<Rightarrow> string" where
  "sentinel_text ErrNotFound = ''not found''"
| "sentinel_text ErrConflict = ''conflict''"
| "sentinel_text ErrInvalidInput = ''invalid input''"
| "sentinel_text ErrDuplicatePlan = ''plan with this slug already exists''"
| "sentinel_text ErrPlanNotActive = ''plan is not active''"
| "sentinel_text ErrSubscriptionExpired = ''subscription has expired''"
| "sentinel_text ErrDuplicateIdempotency = ''duplicate idempotency key''"
| "sentinel_text ErrMissingIdempotencyKey = ''Idempotency-Key header is required''"
| "sentinel_text ErrMissingTenantID = ''tenant ID missing from context''"
| "sentinel_text ErrProviderNotFound = ''provider not registered''"
| "sentinel_text ErrProviderError = ''provider error''"
| "sentinel_text ErrPayPerUseNotSupported = ''provider does not support pay-per-use billing''"
| "sentinel_text ErrPlansNotSupported = ''provider does not support plan-based billing''"
| "sentinel_text ErrProviderRequired = ''a provider must be set to update amount''"
| "sentinel_text ErrNotSupported = ''operation not supported by this provider''"
| "sentinel_text ErrDuplicateTenantSlug = ''a tenant with this slug already exists''"
| "sentinel_text ErrDuplicateEmail = ''this email is already registered''"
| "sentinel_text ErrKeyNotFound = ''api key not found''"
| "sentinel_text ErrSignupDisabled = ''new tenant signups are not allowed''"
| "sentinel_text ErrProviderAuthFailure = ''provider authentication failed''"
| "sentinel_text ErrProviderRejected = ''provider rejected the operation''"
| "sentinel_text ErrProviderRateLimited = ''provider rate limit exceeded''"
| "sentinel_text ErrWebhookSignatureInvalid = ''webhook signature is invalid''"

section \<open>The error interface\<close>

text \<open>\<open>ValidationError.Error\<close>: the fields joined, or a fixed text when there is none.\<close>

definition validation_text :: "field_error list \<Rightarrow> string" where
  "validation_text fs =
     (if fs = [] then ''validation error''
      else join ''; '' (map (\<lambda>f. fe_field f @ '': '' @ fe_message f) fs))"

text \<open>\<open>err.Error()\<close>. A server error of \<open>pgconn\<close> prints as severity, message and SQLSTATE.\<close>

fun error_text :: "gerror \<Rightarrow> string" where
  "error_text (Sentinel s) = sentinel_text s"
| "error_text (Domain code msg st cause) = msg"
| "error_text (Validation fs) = validation_text fs"
| "error_text (Provider_Error cat st code msg) =
     ''provider error ['' @ cat @ ''] '' @ nat_to_string st @ '': '' @ msg @ '' ('' @ code @ '')''"
| "error_text No_Rows = ''no rows in result set''"
| "error_text (Pg_Error state msg) = ''ERROR: '' @ msg @ '' (SQLSTATE '' @ state @ '')''"
| "error_text (Plain msg) = msg"
| "error_text (Wrap msg e) = msg @ '': '' @ error_text e"

text \<open>\<open>errors.Is(err, sentinel)\<close>: \<open>DomainError.Unwrap\<close> is its cause, \<open>ValidationError.Unwrap\<close>
  is \<open>ErrInvalidInput\<close>.\<close>

fun errors_is :: "gerror \<Rightarrow> sentinel \<Rightarrow> bool" where
  "errors_is (Sentinel s') s = (s' = s)"
| "errors_is (Domain code msg st cause) s = (cause = s)"
| "errors_is (Validation fs) s = (s = ErrInvalidInput)"
| "errors_is (Wrap msg e) s = errors_is e s"
| "errors_is _ s = False"

text \<open>\<open>errors.As(err, &de)\<close> for \<open>*DomainError\<close> and for \<open>*ValidationError\<close>.\<close>

fun errors_as_domain :: "gerror \<Rightarrow> (string \<times> string \<times> nat \<times> sentinel) option" where
  "errors_as_domain (Domain code msg st cause) = Some (code, msg, st, cause)"
| "errors_as_domain (Wrap msg e) = errors_as_domain e"
| "errors_as_domain _ = None"

fun errors_as_validation :: "gerror \<Rightarrow> field_error list option" where
  "errors_as_validation (Validation fs) = Some fs"
| "errors_as_validation (Wrap msg e) = errors_as_validation e"
| "errors_as_validation _ = None"

fun errors_as_provider :: "gerror \<Rightarrow> (string \<times> nat \<times> string \<times> string) option" where
  "errors_as_provider (Provider_Error cat st code msg) = Some (cat, st, code, msg)"
| "errors_as_provider (Wrap msg e) = errors_as_provider e"
| "errors_as_provider _ = None"

section \<open>HTTP status and code\<close>

definition sentinel_status :: "gerror \<Rightarrow> nat" where
  "sentinel_status err =
    (if errors_is err ErrNotFound \<or> errors_is err ErrKeyNotFound then 404
     else if errors_is err ErrConflict \<or> errors_is err ErrDuplicatePlan
       \<or> errors_is err ErrDuplicateIdempotency \<or> errors_is err ErrDuplicateTenantSlug
       \<or> errors_is err ErrDuplicateEmail then 409
     else if errors_is err ErrInvalidInput \<or> errors_is err ErrMissingIdempotencyKey then 400
     else if errors_is err ErrSignupDisabled then 403
     else if errors_is err ErrPlanNotActive \<or> errors_is err ErrSubscriptionExpired then 422
     else if errors_is err ErrPayPerUseNotSupported \<or> errors_is err ErrPlansNotSupported
       \<or> errors_is err ErrProviderRequired then 422
     else if errors_is err ErrProviderNotFound then 400
     else if errors_is err ErrProviderRejected then 422
     else if errors_is err ErrProviderRateLimited then 503
     else if errors_is err ErrWebhookSignatureInvalid then 401
     else if errors_is err ErrProviderError \<or> errors_is err ErrProviderAuthFailure then 502
     else if errors_is err ErrNotSupported then 501
     else 500)"

definition HTTPStatusFor :: "gerror \<Rightarrow> nat" where
  "HTTPStatusFor err =
    (case err of Domain code msg st cause \<Rightarrow> st | _ \<Rightarrow> sentinel_status err)"

definition sentinel_code :: "gerror \<Rightarrow> string" where
  "sentinel_code err =
    (if errors_is err ErrNotFound \<or> errors_is err ErrKeyNotFound then ''not_found''
     else if errors_is err ErrDuplicatePlan \<or> errors_is err ErrDuplicateTenantSlug
       \<or> errors_is err ErrDuplicateEmail then ''duplicate''
     else if errors_is err ErrPlanNotActive then ''plan_not_active''
     else if errors_is err ErrSubscriptionExpired then ''subscription_expired''
     else if errors_is err ErrDuplicateIdempotency then ''duplicate_idempotency_key''
     else if errors_is err ErrMissingIdempotencyKey then ''missing_idempotency_key''
     else if errors_is err ErrInvalidInput then ''invalid_input''
     else if errors_is err ErrConflict then ''conflict''
     else if errors_is err ErrPayPerUseNotSupported then ''pay_per_use_not_supported''
     else if errors_is err ErrPlansNotSupported then ''plans_not_supported''
     else if errors_is err ErrProviderRequired then ''provider_required''
     else if errors_is err ErrProviderNotFound then ''provider_not_found''
     else if errors_is err ErrProviderAuthFailure then ''provider_auth_failure''
     else if errors_is err ErrProviderRejected then ''provider_rejected''
     else if errors_is err ErrProviderRateLimited then ''provider_rate_limited''
     else if errors_is err ErrWebhookSignatureInvalid then ''webhook_signature_invalid''
     else if errors_is err ErrProviderError then ''provider_error''
     else if errors_is err ErrNotSupported then ''not_supported''
     else ''internal_error'')"

definition CodeFor :: "gerror \<Rightarrow> string" where
  "CodeFor err =
    (case err of Domain code msg st cause \<Rightarrow> code | _ \<Rightarrow> sentinel_code err)"

section \<open>Lemmas\<close>

text \<open>A chain of wrappers has at most one sentinel at its end, so the order of the switch cases
  of \<open>HTTPStatusFor\<close> never decides between two of them.\<close>

lemma errors_is_unique: "errors_is e s \<Longrightarrow> errors_is e s' \<Longrightarrow> s = s'"
  by (induction e) auto

fun root_sentinel :: "gerror \<Rightarrow> sentinel option" where
  "root_sentinel (Sentinel s) = Some s"
| "root_sentinel (Domain code msg st cause) = Some cause"
| "root_sentinel (Validation fs) = Some ErrInvalidInput"
| "root_sentinel (Wrap msg e) = root_sentinel e"
| "root_sentinel _ = None"

lemma errors_is_root: "errors_is e s \<longleftrightarrow> root_sentinel e = Some s"
  by (induction e) auto

text \<open>The status and the code of an error that is no \<open>DomainError\<close> depend on the sentinel at
  the end of its chain alone: wrapping never changes them.\<close>

lemma sentinel_status_Wrap [simp]: "sentinel_status (Wrap m e) = sentinel_status e"
  by (simp add: sentinel_status_def)

lemma sentinel_code_Wrap [simp]: "sentinel_code (Wrap m e) = sentinel_code e"
  by (simp add: sentinel_code_def)

lemma status_simps [simp]:
  "HTTPStatusFor (Wrap m e) = sentinel_status e"
  "HTTPStatusFor (Sentinel s) = sentinel_status (Sentinel s)"
  "HTTPStatusFor (Domain c m st s) = st"
  "HTTPStatusFor (Validation fs) = 400"
  "HTTPStatusFor No_Rows = 500"
  "HTTPStatusFor (Pg_Error q m) = 500"
  "HTTPStatusFor (Plain m) = 500"
  "HTTPStatusFor (Provider_Error a b c d) = 500"
  by (simp_all add: HTTPStatusFor_def sentinel_status_def)

lemma sentinel_status_simps [simp]:
  "sentinel_status No_Rows = 500"
  "sentinel_status (Pg_Error q m) = 500"
  "sentinel_status (Plain m) = 500"
  "sentinel_status (Validation fs) = 400"
  "sentinel_status (Provider_Error a b c d) = 500"
  by (simp_all add: sentinel_status_def)

lemma sentinel_status_no_root: "root_sentinel e = None \<Longrightarrow> sentinel_status e = 500"
  by (simp add: sentinel_status_def errors_is_root)

lemma sentinel_status_range:
  "sentinel_status e \<in> {400, 401, 403, 404, 409, 422, 500, 501, 502, 503}"
  by (simp add: sentinel_status_def)

end
