(* ===== verification/Validation.thy ===== *)
theory Validation
  imports Errors
begin

text \<open>
  Package \<open>internal/validation\<close>: each validator returns the field error of an invalid value, or
  \<open>None\<close> for Go's \<open>nil\<close>. \<open>v.Add\<close> over a \<open>ValidationError\<close> becomes \<open>collect\<close> over the list of
  the validators' results, in the order of the calls, and \<open>v.Err\<close> is \<open>validation_err\<close>.
\<close>

definition field_err :: "string \<Rightarrow> string \<Rightarrow> field_error" where
  "field_err f m = \<lparr>fe_field = f, fe_message = m\<rparr>"

definition add_fe :: "field_error list \<Rightarrow> field_error option \<Rightarrow> field_error list" where
  "add_fe fs fe = (case fe of None \<Rightarrow> fs | Some e \<Rightarrow> fs @ [e])"

definition collect :: "field_error option list \<Rightarrow> field_error list" where
  "collect fes = foldl add_fe [] fes"

definition validation_err :: "field_error list \<Rightarrow> gerror option" where
  "validation_err fs = (if fs \<noteq> [] then Some (Validation fs) else None)"

definition NonEmpty :: "string \<Rightarrow> string \<Rightarrow> field_error option" where
  "NonEmpty field value =
     (if trim_space value = [] then Some (field_err field ''must not be empty'') else None)"

definition MaxLength :: "string \<Rightarrow> string \<Rightarrow> nat \<Rightarrow> field_error option" where
  "MaxLength field value mx =
     (if mx < length value
      then Some (field_err field (''must be at most '' @ nat_to_string mx @ '' characters''))
      else None)"

definition MinInt :: "string \<Rightarrow> int64 \<Rightarrow> int64 \<Rightarrow> field_error option" where
  "MinInt field value mn =
     (if i64_less value mn
      then Some (field_err field (''must be at least '' @ int_to_string (sint mn))) else None)"

definition MaxInt :: "string \<Rightarrow> int64 \<Rightarrow> int64 \<Rightarrow> field_error option" where
  "MaxInt field value mx =
     (if i64_less mx value
      then Some (field_err field (''must be at most '' @ int_to_string (sint mx))) else None)"

definition PositiveInt :: "string \<Rightarrow> int64 \<Rightarrow> field_error option" where
  "PositiveInt field value =
     (if i64_le value 0 then Some (field_err field ''must be a positive integer'') else None)"

definition supported_currencies :: "string list" where
  "supported_currencies =
     [''ARS'', ''USD'', ''BRL'', ''CLP'', ''COP'', ''MXN'', ''UYU'', ''PEN'', ''EUR'', ''GBP'']"

text \<open>The message quotes the value with \<open>%q\<close>; the quoted form is the value between double
  quotes (escapes of non-printable bytes are not modelled).\<close>

definition ISOCurrency :: "string \<Rightarrow> string \<Rightarrow> field_error option" where
  "ISOCurrency field value =
     (if to_upper value \<notin> set supported_currencies
      then Some (field_err field
             (''must be a supported ISO 4217 currency code (got '' @ [CHR 0x22] @ value @ [CHR 0x22] @ '')''))
      else None)"

definition ValidEnum :: "string \<Rightarrow> string \<Rightarrow> string list \<Rightarrow> field_error option" where
  "ValidEnum field value allowed =
     (if value \<in> set allowed then None
      else Some (field_err field (''must be one of: '' @ join '', '' allowed)))"

text \<open>The pattern \<open>^[0-9a-f]{8}-[0-9a-f]{4}-[0-9a-f]{4}-[0-9a-f]{4}-[0-9a-f]{12}$\<close>.\<close>

definition is_hex_lower :: "char \<Rightarrow> bool" where
  "is_hex_lower c \<longleftrightarrow> is_digit09 c \<or> (CHR ''a'' \<le> c \<and> c \<le> CHR ''f'')"

definition uuid_shape :: "string \<Rightarrow> bool" where
  "uuid_shape s \<longleftrightarrow> length s = 36 \<and>
     (\<forall>i < 36. if i \<in> {8, 13, 18, 23} then s ! i = CHR ''-'' else is_hex_lower (s ! i))"

definition ValidUUID :: "string \<Rightarrow> string \<Rightarrow> field_error option" where
  "ValidUUID field value =
     (if \<not> uuid_shape (to_lower value) then Some (field_err field ''must be a valid UUID'') else None)"

section \<open>Lemmas\<close>

lemma collect_snoc: "collect (fes @ [fe]) = add_fe (collect fes) fe"
  by (simp add: collect_def)

lemma foldl_add_fe: "foldl add_fe fs fes = fs @ foldl add_fe [] fes"
proof (induction fes arbitrary: fs)
  case (Cons a fes)
  show ?case by (simp, subst (1 2) Cons) (simp add: add_fe_def split: option.split)
qed simp

lemma collect_Cons [simp]:
  "collect (fe # fes) = (case fe of None \<Rightarrow> collect fes | Some e \<Rightarrow> e # collect fes)"
  unfolding collect_def by (simp, subst foldl_add_fe) (simp add: add_fe_def split: option.split)

lemma collect_Nil [simp]: "collect [] = []"
  by (simp add: collect_def)

lemma collect_append [simp]: "collect (xs @ ys) = collect xs @ collect ys"
  by (induction xs) (auto split: option.split)

text \<open>\<open>v.Err()\<close> is \<open>nil\<close> exactly when every validator passed; an error is always
  \<open>ErrInvalidInput\<close> and is answered with status 400.\<close>

lemma collect_eq_Nil: "collect fes = [] \<longleftrightarrow> (\<forall>fe \<in> set fes. fe = None)"
  by (induction fes) (auto split: option.split)

lemma validation_err_None: "validation_err fs = None \<longleftrightarrow> fs = []"
  by (simp add: validation_err_def)

lemma validation_err_Some: "validation_err fs = Some e \<Longrightarrow> e = Validation fs \<and> fs \<noteq> []"
  by (auto simp: validation_err_def split: if_splits)

lemma validator_None:
  "NonEmpty f v = None \<longleftrightarrow> trim_space v \<noteq> []"
  "MaxLength f v n = None \<longleftrightarrow> length v \<le> n"
  "MinInt f x mn = None \<longleftrightarrow> sint mn \<le> sint x"
  "MaxInt f x mx = None \<longleftrightarrow> sint x \<le> sint mx"
  "PositiveInt f x = None \<longleftrightarrow> 0 < sint x"
  "ISOCurrency f v = None \<longleftrightarrow> to_upper v \<in> set supported_currencies"
  "ValidEnum f v allowed = None \<longleftrightarrow> v \<in> set allowed"
  "ValidUUID f v = None \<longleftrightarrow> uuid_shape (to_lower v)"
  by (auto simp: NonEmpty_def MaxLength_def MinInt_def MaxInt_def PositiveInt_def ISOCurrency_def
      ValidEnum_def ValidUUID_def not_le not_less)

end
