(* ===== verification/Go_Time.thy ===== *)
theory Go_Time
  imports Go_Strings
begin

text \<open>
  The part of Go's package \<open>time\<close> that the billing code rests on. A \<open>time.Time\<close> is the number of
  nanoseconds since the Unix epoch, in UTC (the zone of the container image). \<open>AddDate\<close> takes the
  civil date apart, adds to its fields and lets \<open>time.Date\<close> normalise the result: a month above
  12 carries into the year, and a day past the end of its month runs on into the next month.
  \<open>time.Date\<close> works on the mathematical day number; the 64-bit overflow of years beyond about
  292 billion is outside the model (a stored interval count is a 32-bit column).
\<close>

type_synonym gtime = int

section \<open>The civil calendar\<close>

datatype civil = Civil (cyear: int) (cmonth: int) (cday: int)

definition is_leap :: "int \<Rightarrow> bool" where
  "is_leap y \<longleftrightarrow> y mod 4 = 0 \<and> (y mod 100 \<noteq> 0 \<or> y mod 400 = 0)"

text \<open>Days from 0001-01-01 to the first day of year \<open>y\<close>, and from there to the first of a month.\<close>

definition days_before_year :: "int \<Rightarrow> int" where
  "days_before_year y = 365 * (y - 1) + (y - 1) div 4 - (y - 1) div 100 + (y - 1) div 400"

definition days_before_month :: "bool \<Rightarrow> int \<Rightarrow> int" where
  "days_before_month lp m =
     (if m \<le> 1 then 0 else if m = 2 then 31
      else (if lp then 1 else 0) +
        (if m = 3 then 59 else if m = 4 then 90 else if m = 5 then 120 else if m = 6 then 151
         else if m = 7 then 181 else if m = 8 then 212 else if m = 9 then 243 else if m = 10 then 273
         else if m = 11 then 304 else if m = 12 then 334 else 365))"

definition unix_epoch_days :: int where
  "unix_epoch_days = 719162"

text \<open>\<open>time.Date\<close>: the day number (from the Unix epoch) of a year, month and day, normalised.\<close>

definition date_to_days :: "int \<Rightarrow> int \<Rightarrow> int \<Rightarrow> int" where
  "date_to_days y m d =
     (let y' = y + (m - 1) div 12; m' = (m - 1) mod 12 + 1
      in days_before_year y' + days_before_month (is_leap y') m' + (d - 1) - unix_epoch_days)"

text \<open>\<open>Time.Date\<close>: the year is estimated from the length of the 400-year cycle and corrected by
  one where the estimate is off.\<close>

definition year_of :: "int \<Rightarrow> int" where
  "year_of n =
     (let e = (400 * n) div 146097 + 1
      in if n < days_before_year e then e - 1
         else if days_before_year (e + 1) \<le> n then e + 1 else e)"

definition month_of :: "bool \<Rightarrow> int \<Rightarrow> int" where
  "month_of lp yd =
     (let b = days_before_month lp in
      if yd < b 2 then 1 else if yd < b 3 then 2 else if yd < b 4 then 3 else if yd < b 5 then 4
      else if yd < b 6 then 5 else if yd < b 7 then 6 else if yd < b 8 then 7 else if yd < b 9 then 8
      else if yd < b 10 then 9 else if yd < b 11 then 10 else if yd < b 12 then 11 else 12)"

definition civil_of_days :: "int \<Rightarrow> civil" where
  "civil_of_days dn =
     (let n = dn + unix_epoch_days; y = year_of n; yd = n - days_before_year y; m = month_of (is_leap y) yd
      in Civil y m (yd - days_before_month (is_leap y) m + 1))"

section \<open>AddDate\<close>

definition ns_per_day :: int where
  "ns_per_day = 86400000000000"

definition civil_of :: "gtime \<Rightarrow> civil" where
  "civil_of t = civil_of_days (t div ns_per_day)"

definition add_date :: "gtime \<Rightarrow> int \<Rightarrow> int \<Rightarrow> int \<Rightarrow> gtime" where
  "add_date t years months days =
     (case civil_of t of Civil y m d \<Rightarrow>
        date_to_days (y + years) (m + months) (d + days) * ns_per_day + t mod ns_per_day)"

section \<open>Format and Parse\<close>

text \<open>\<open>appendInt\<close>: a sign, and the decimal digits padded with zeros to a width.\<close>

definition append_int :: "int \<Rightarrow> nat \<Rightarrow> string" where
  "append_int x w =
     (let s = dec \<bar>x\<bar>
      in (if x < 0 then ''-'' else '''') @ replicate (w - length s) (CHR ''0'') @ s)"

definition format_date :: "gtime \<Rightarrow> string" where
  "format_date t =
     (case civil_of t of Civil y m d \<Rightarrow>
        append_int y 4 @ ''-'' @ append_int m 2 @ ''-'' @ append_int d 2)"

text \<open>The layout \<open>RFC3339Nano\<close> of a time in UTC: the fraction loses its trailing zeros.\<close>

definition frac_string :: "int \<Rightarrow> string" where
  "frac_string ns =
     (if ns = 0 then [] else CHR ''.'' # rev (dropWhile (\<lambda>c. c = CHR ''0'') (rev (pad 9 ns))))"

definition format_rfc3339nano :: "gtime \<Rightarrow> string" where
  "format_rfc3339nano t =
     (let r = t mod ns_per_day; sec = r div 1000000000
      in format_date t @ ''T'' @ pad 2 (sec div 3600) @ '':'' @ pad 2 (sec div 60 mod 60) @ '':'' @
         pad 2 (sec mod 60) @ frac_string (r mod 1000000000) @ ''Z'')"

text \<open>\<open>time.Parse(time.RFC3339Nano, s)\<close>: an hour may have one digit, a fraction is optional, the
  zone is \<open>Z\<close> or a signed offset, and the fields are checked for their ranges.\<close>

definition days_in_month :: "int \<Rightarrow> int \<Rightarrow> int" where
  "days_in_month y m = days_before_month (is_leap y) (m + 1) - days_before_month (is_leap y) m"

definition all_digits :: "string \<Rightarrow> bool" where
  "all_digits s = list_all is_digit09 s"

definition parse_zone :: "string \<Rightarrow> int option" where
  "parse_zone s =
     (if s = ''Z'' then Some 0
      else case s of
        [sg, h1, h2, c, m1, m2] \<Rightarrow>
          if (sg = CHR ''+'' \<or> sg = CHR ''-'') \<and> c = CHR '':'' \<and> all_digits [h1, h2, m1, m2]
             \<and> digits_value [h1, h2] \<le> 24 \<and> digits_value [m1, m2] \<le> 60
          then Some ((if sg = CHR ''-'' then -1 else 1) *
                     (digits_value [h1, h2] * 3600 + digits_value [m1, m2] * 60))
          else None
      | _ \<Rightarrow> None)"

definition parse_frac :: "string \<Rightarrow> (int \<times> string) option" where
  "parse_frac s =
     (case s of
        c # d # rest \<Rightarrow>
          if (c = CHR ''.'' \<or> c = CHR '','') \<and> is_digit09 d
          then (let ds = takeWhile is_digit09 (d # rest)
                in Some (digits_value (take 9 (ds @ replicate 9 (CHR ''0''))),
                         dropWhile is_digit09 (d # rest)))
          else Some (0, s)
      | _ \<Rightarrow> Some (0, s))"

fun parse_hour :: "string \<Rightarrow> (int \<times> string) option" where
  "parse_hour (h1 # h2 # rest) =
     (if \<not> is_digit09 h1 then None
      else if is_digit09 h2 then Some (digits_value [h1, h2], rest)
      else Some (digits_value [h1], h2 # rest))"
| "parse_hour _ = None"

definition parse_clock :: "string \<Rightarrow> (int \<times> int \<times> int) option" where
  "parse_clock s =
     (case parse_hour s of
        None \<Rightarrow> None
      | Some (h, rest) \<Rightarrow>
         (case rest of
            c1 # m1 # m2 # c2 # s1 # s2 # fr \<Rightarrow>
              if c1 = CHR '':'' \<and> c2 = CHR '':'' \<and> all_digits [m1, m2, s1, s2] \<and> h < 24
                 \<and> digits_value [m1, m2] < 60 \<and> digits_value [s1, s2] < 60
              then (case parse_frac fr of
                      None \<Rightarrow> None
                    | Some (f, z) \<Rightarrow>
                       (case parse_zone z of
                          None \<Rightarrow> None
                        | Some off \<Rightarrow>
                            Some (h * 3600 + digits_value [m1, m2] * 60 + digits_value [s1, s2], f, off)))
              else None
          | _ \<Rightarrow> None))"

definition parse_rfc3339nano :: "string \<Rightarrow> gtime option" where
  "parse_rfc3339nano s =
     (let ys = take 4 s; ms = take 2 (drop 5 s); ds = take 2 (drop 8 s);
          y = digits_value ys; m = digits_value ms; d = digits_value ds
      in if 11 \<le> length s \<and> s ! 4 = CHR ''-'' \<and> s ! 7 = CHR ''-'' \<and> s ! 10 = CHR ''T''
            \<and> all_digits (ys @ ms @ ds)
            \<and> 1 \<le> m \<and> m \<le> 12 \<and> 1 \<le> d \<and> d \<le> days_in_month y m
         then (case parse_clock (drop 11 s) of
                 None \<Rightarrow> None
               | Some (sec, ns, off) \<Rightarrow>
                   Some (date_to_days y m d * ns_per_day + (sec - off) * 1000000000 + ns))
         else None)"

section \<open>The calendar\<close>

lemma days_before_month_bounds:
  "0 \<le> days_before_month lp m" "days_before_month lp m \<le> 366"
  by (auto simp: days_before_month_def)

lemma div_pred:
  assumes "0 < (k :: int)"
  shows "y div k = (y - 1) div k + (if y mod k = 0 then 1 else 0)"
proof (cases "y mod k = 0")
  case True
  then have "y - 1 = k * (y div k - 1) + (k - 1)" by (auto simp: algebra_simps)
  then have "(y - 1) div k = y div k - 1" by (rule int_div_pos_eq) (use assms in auto)
  with True show ?thesis by simp
next
  case False
  have "y - 1 = k * (y div k) + (y mod k - 1)" by (simp add: algebra_simps)
  moreover have "0 \<le> y mod k - 1" "y mod k - 1 < k"
    using False assms pos_mod_sign [of k y] pos_mod_bound [of k y] by linarith+
  ultimately have "(y - 1) div k = y div k" by (rule int_div_pos_eq)
  with False show ?thesis by simp
qed

lemma mod_400_cases:
  fixes y :: int
  shows "y mod 400 = 0 \<longrightarrow> y mod 100 = 0" "y mod 100 = 0 \<longrightarrow> y mod 4 = 0"
proof -
  have "400 dvd y \<Longrightarrow> 100 dvd y" by (rule dvd_trans [of 100 400 y]) simp
  then show "y mod 400 = 0 \<longrightarrow> y mod 100 = 0" by (simp add: dvd_eq_mod_eq_0)
  have "100 dvd y \<Longrightarrow> 4 dvd y" by (rule dvd_trans [of 4 100 y]) simp
  then show "y mod 100 = 0 \<longrightarrow> y mod 4 = 0" by (simp add: dvd_eq_mod_eq_0)
qed

lemma chain_cases:
  "P \<longrightarrow> Q \<Longrightarrow> Q \<longrightarrow> R
    \<Longrightarrow> (P \<and> Q \<and> R) \<or> (\<not> P \<and> Q \<and> R) \<or> (\<not> P \<and> \<not> Q \<and> R) \<or> (\<not> P \<and> \<not> Q \<and> \<not> R)"
  by auto

lemma year_length:
  "days_before_year (y + 1) = days_before_year y + (if is_leap y then 366 else 365)"
proof -
  have dbys: "days_before_year (y + 1) = 365 * y + y div 4 - y div 100 + y div 400"
    by (simp add: days_before_year_def)
  have eqs: "y div 4 = (y - 1) div 4 + (if y mod 4 = 0 then 1 else 0)"
    "y div 100 = (y - 1) div 100 + (if y mod 100 = 0 then 1 else 0)"
    "y div 400 = (y - 1) div 400 + (if y mod 400 = 0 then 1 else 0)"
    by (rule div_pred, simp)+
  show ?thesis
    using chain_cases [OF mod_400_cases [of y]]
    unfolding dbys unfolding eqs days_before_year_def by (elim disjE conjE) (simp_all add: is_leap_def)
qed

text \<open>Four hundred times the day number of a year is close to its share of the 400-year cycle.\<close>

lemma cycle_arith:
  fixes p a b c :: int
  assumes "4 * a + ra = p" "100 * b + rb = p" "400 * c + rc = p"
    and "0 \<le> ra" "ra \<le> 3" "0 \<le> rb" "rb \<le> 99" "0 \<le> rc" "rc \<le> 399"
  shows "146097 * p - 699 \<le> 400 * (365 * p + a - b + c)"
    and "400 * (365 * p + a - b + c) \<le> 146097 * p + 396"
proof -
  have "400 * (365 * p + a - b + c)
      = 146000 * p + 100 * (4 * a + ra) - 4 * (100 * b + rb) + (400 * c + rc) - 100 * ra + 4 * rb - rc"
    by (simp add: algebra_simps)
  then have "400 * (365 * p + a - b + c) = 146097 * p - 100 * ra + 4 * rb - rc"
    unfolding assms(1-3) by simp
  then show "146097 * p - 699 \<le> 400 * (365 * p + a - b + c)"
    "400 * (365 * p + a - b + c) \<le> 146097 * p + 396"
    using assms(4-9) by simp_all
qed

lemma mod_le_pred: "0 < (k :: int) \<Longrightarrow> p mod k \<le> k - 1"
  using pos_mod_bound [of k p] by linarith

lemma year_estimate:
  "146097 * (y - 1) - 699 \<le> 400 * days_before_year y"
  "400 * days_before_year y \<le> 146097 * (y - 1) + 396"
proof -
  let ?p = "y - 1"
  have eqs: "4 * (?p div 4) + ?p mod 4 = ?p" "100 * (?p div 100) + ?p mod 100 = ?p"
    "400 * (?p div 400) + ?p mod 400 = ?p"
    by (rule mult_div_mod_eq)+
  have "?p mod 4 \<le> 3" "?p mod 100 \<le> 99" "?p mod 400 \<le> 399"
    using mod_le_pred [of 4 ?p] mod_le_pred [of 100 ?p] mod_le_pred [of 400 ?p] by simp_all
  moreover have "0 \<le> ?p mod 4" "0 \<le> ?p mod 100" "0 \<le> ?p mod 400" by simp_all
  ultimately show "146097 * (y - 1) - 699 \<le> 400 * days_before_year y"
    "400 * days_before_year y \<le> 146097 * (y - 1) + 396"
    unfolding days_before_year_def using cycle_arith [OF eqs] by blast+
qed

lemma div_estimate:
  fixes x k :: int
  assumes "0 < k"
  shows "k * (x div k) \<le> x" "x < k * (x div k + 1)"
  using assms by (simp_all add: pos_mod_bound minus_mod_eq_mult_div [symmetric] distrib_left)

lemma year_of_bounds: "days_before_year (year_of n) \<le> n \<and> n < days_before_year (year_of n + 1)"
proof -
  define e where "e = (400 * n) div 146097 + 1"
  have e: "146097 * (e - 1) \<le> 400 * n" "400 * n < 146097 * e"
    unfolding e_def using div_estimate [of 146097 "400 * n"] by simp_all
  have lo: "days_before_year (e - 1) \<le> n"
    using year_estimate(2) [of "e - 1"] e(1) by simp
  have hi: "n < days_before_year (e + 2)"
    using year_estimate(1) [of "e + 2"] e(2) by simp
  show ?thesis
    using lo hi unfolding year_of_def e_def [symmetric] Let_def by (auto simp: add.commute add.left_commute)
qed

lemma days_before_month_values:
  "days_before_month lp 1 = 0" "days_before_month lp 2 = 31"
  "days_before_month lp 3 = (if lp then 60 else 59)" "days_before_month lp 4 = (if lp then 91 else 90)"
  "days_before_month lp 5 = (if lp then 121 else 120)" "days_before_month lp 6 = (if lp then 152 else 151)"
  "days_before_month lp 7 = (if lp then 182 else 181)" "days_before_month lp 8 = (if lp then 213 else 212)"
  "days_before_month lp 9 = (if lp then 244 else 243)" "days_before_month lp 10 = (if lp then 274 else 273)"
  "days_before_month lp 11 = (if lp then 305 else 304)" "days_before_month lp 12 = (if lp then 335 else 334)"
  "days_before_month lp 13 = (if lp then 366 else 365)"
  by (simp_all add: days_before_month_def)

lemma month_of_interval:
  fixes lp yd
  defines "b \<equiv> days_before_month lp"
  assumes "0 \<le> yd" "yd < b 13"
  obtains m where "month_of lp yd = m" "m \<in> {1..12}" "b m \<le> yd" "yd < b (m + 1)"
proof -
  consider "yd < b 2" | "b 2 \<le> yd" "yd < b 3" | "b 3 \<le> yd" "yd < b 4" | "b 4 \<le> yd" "yd < b 5"
    | "b 5 \<le> yd" "yd < b 6" | "b 6 \<le> yd" "yd < b 7" | "b 7 \<le> yd" "yd < b 8"
    | "b 8 \<le> yd" "yd < b 9" | "b 9 \<le> yd" "yd < b 10" | "b 10 \<le> yd" "yd < b 11"
    | "b 11 \<le> yd" "yd < b 12" | "b 12 \<le> yd"
    by linarith
  then show ?thesis
    using assms(2,3)
    by cases (rule that, auto simp: month_of_def Let_def b_def days_before_month_values split: if_splits)+
qed

lemma month_of_bounds:
  assumes "0 \<le> yd" "yd < (if lp then 366 else 365)"
  shows "1 \<le> month_of lp yd" "month_of lp yd \<le> 12"
    "days_before_month lp (month_of lp yd) \<le> yd" "yd < days_before_month lp (month_of lp yd + 1)"
proof -
  have "yd < days_before_month lp 13" using assms(2) by (simp add: days_before_month_values)
  then obtain m where "month_of lp yd = m" "m \<in> {1..12}" "days_before_month lp m \<le> yd"
    "yd < days_before_month lp (m + 1)" 
    using month_of_interval [OF assms(1)] by blast
  then show "1 \<le> month_of lp yd" "month_of lp yd \<le> 12"
    "days_before_month lp (month_of lp yd) \<le> yd" "yd < days_before_month lp (month_of lp yd + 1)"
    by auto
qed

text \<open>Taking a day number apart and putting it together again is the identity, and the parts are
  in range.\<close>

lemma civil_of_days_valid:
  assumes "civil_of_days n = Civil y m d"
  shows "1 \<le> m" "m \<le> 12" "1 \<le> d" "d \<le> days_in_month y m" "date_to_days y m d = n"
proof -
  let ?n = "n + unix_epoch_days"
  have y: "y = year_of ?n" and m: "m = month_of (is_leap y) (?n - days_before_year y)"
    and d: "d = ?n - days_before_year y - days_before_month (is_leap y) m + 1"
    using assms by (auto simp: civil_of_days_def Let_def)
  have "0 \<le> ?n - days_before_year y" "?n - days_before_year y < (if is_leap y then 366 else 365)"
    using year_of_bounds [of ?n] unfolding y year_length by auto
  note b = month_of_bounds [OF this, folded m]
  show "1 \<le> m" "m \<le> 12" by (rule b)+
  show "1 \<le> d" "d \<le> days_in_month y m"
    using b(3,4) by (auto simp: d days_in_month_def)
  have "(m - 1) div 12 = 0" "(m - 1) mod 12 = m - 1" using b(1,2) by auto
  then show "date_to_days y m d = n"
    by (simp add: date_to_days_def Let_def d)
qed

section \<open>Months on the time line\<close>

text \<open>The first day of the \<open>k\<close>-th month, counted through the years.\<close>

definition month_start :: "int \<Rightarrow> int" where
  "month_start k =
     days_before_year (k div 12) + days_before_month (is_leap (k div 12)) (k mod 12 + 1) - unix_epoch_days"

lemma date_to_days_month_start: "date_to_days y m d = month_start (12 * y + (m - 1)) + (d - 1)"
proof -
  have "(12 * y + (m - 1)) div 12 = y + (m - 1) div 12" "(12 * y + (m - 1)) mod 12 = (m - 1) mod 12"
    by (rule div_mult_self4, simp) (rule mod_mult_self4)
  then show ?thesis by (simp add: date_to_days_def month_start_def Let_def)
qed

lemma int_below_12:
  fixes m :: int
  assumes "0 \<le> m" "m < 12"
  shows "m = 11 \<or> m = 0 \<or> m = 1 \<or> m = 2 \<or> m = 3 \<or> m = 4 \<or> m = 5 \<or> m = 6 \<or> m = 7 \<or> m = 8 \<or> m = 9 \<or> m = 10"
  using assms by arith

lemma days_before_month_step:
  assumes "0 \<le> m" "m < 11"
  shows "days_before_month lp (m + 1) + 28 \<le> days_before_month lp (m + 2)"
    "days_before_month lp (m + 2) \<le> days_before_month lp (m + 1) + 31"
proof -
  have "m = 0 \<or> m = 1 \<or> m = 2 \<or> m = 3 \<or> m = 4 \<or> m = 5 \<or> m = 6 \<or> m = 7 \<or> m = 8 \<or> m = 9 \<or> m = 10"
    using assms int_below_12 [of m] by auto
  then show "days_before_month lp (m + 1) + 28 \<le> days_before_month lp (m + 2)"
    "days_before_month lp (m + 2) \<le> days_before_month lp (m + 1) + 31"
    by (elim disjE; simp add: days_before_month_values)+
qed

lemma month_start_step:
  "month_start k + 28 \<le> month_start (k + 1)" "month_start (k + 1) \<le> month_start k + 31"
proof -
  let ?y = "k div 12" and ?m = "k mod 12"
  have k: "12 * ?y + ?m = k" and m: "0 \<le> ?m" "?m < 12" by simp_all
  have "month_start k + 28 \<le> month_start (k + 1) \<and> month_start (k + 1) \<le> month_start k + 31"
  proof (cases "?m = 11")
    case True
    have k1: "k + 1 = 12 * (?y + 1) + 0" using k unfolding True by simp
    have "(k + 1) div 12 = ?y + 1" "(k + 1) mod 12 = 0"
      using int_div_pos_eq [OF k1] int_mod_pos_eq [OF k1] by simp_all
    with True show ?thesis
      unfolding month_start_def by (simp add: days_before_month_values year_length)
  next
    case False
    then have m': "?m < 11" using m by linarith
    have k1: "k + 1 = 12 * ?y + (?m + 1)" using k by simp
    have "(k + 1) div 12 = ?y" "(k + 1) mod 12 = ?m + 1"
      using m' m int_div_pos_eq [OF k1] int_mod_pos_eq [OF k1] by auto
    then show ?thesis
      using days_before_month_step [OF m(1) m', of "is_leap ?y"]
      unfolding month_start_def by (simp add: add.assoc)
  qed
  then show "month_start k + 28 \<le> month_start (k + 1)" "month_start (k + 1) \<le> month_start k + 31"
    by auto
qed

lemma month_start_add:
  "month_start k + 28 * int n \<le> month_start (k + int n)"
  "month_start (k + int n) \<le> month_start k + 31 * int n"
proof (induction n)
  case (Suc n)
  { case 1 show ?case using Suc(1) month_start_step(1) [of "k + int n"] by (simp add: algebra_simps) }
  { case 2 show ?case using Suc(2) month_start_step(2) [of "k + int n"] by (simp add: algebra_simps) }
qed auto

text \<open>Twelve months are 365 or 366 days.\<close>

lemma days_before_month_leap:
  assumes "0 \<le> m" "m < 12"
  shows "days_before_month lp (m + 1) \<le> days_before_month True (m + 1)"
    "days_before_month True (m + 1) \<le> days_before_month lp (m + 1) + 1"
    "days_before_month False (m + 1) \<le> days_before_month lp (m + 1)"
    "days_before_month lp (m + 1) \<le> days_before_month False (m + 1) + 1"
  by (auto simp: days_before_month_def)

lemma month_start_year: "month_start k + 365 \<le> month_start (k + 12)" "month_start (k + 12) \<le> month_start k + 366"
proof -
  let ?y = "k div 12" and ?m = "k mod 12"
  have d: "(k + 12) div 12 = ?y + 1" "(k + 12) mod 12 = ?m" by simp_all
  have m: "0 \<le> ?m" "?m < 12" by simp_all
  note bounds = days_before_month_leap [OF m, of "is_leap ?y"] days_before_month_leap [OF m, of "is_leap (?y + 1)"]
  show "month_start k + 365 \<le> month_start (k + 12)" "month_start (k + 12) \<le> month_start k + 366"
    using bounds by (cases "is_leap ?y"; simp add: month_start_def d year_length)+
qed

lemma month_start_years:
  "month_start k + 365 * int n \<le> month_start (k + 12 * int n)"
  "month_start (k + 12 * int n) \<le> month_start k + 366 * int n"
proof (induction n)
  case (Suc n)
  { case 1 show ?case using Suc(1) month_start_year(1) [of "k + 12 * int n"] by (simp add: algebra_simps) }
  { case 2 show ?case using Suc(2) month_start_year(2) [of "k + 12 * int n"] by (simp add: algebra_simps) }
qed auto

section \<open>How far AddDate moves a time\<close>

lemma add_date_alt:
  assumes "civil_of t = Civil y m d"
  shows "add_date t ys ms ds =
     t + (month_start (12 * y + (m - 1) + (12 * ys + ms)) - month_start (12 * y + (m - 1)) + ds) * ns_per_day"
proof -
  have "date_to_days y m d = t div ns_per_day"
    using civil_of_days_valid(5) assms unfolding civil_of_def by blast
  then have "t = (month_start (12 * y + (m - 1)) + (d - 1)) * ns_per_day + t mod ns_per_day"
    by (simp add: date_to_days_month_start)
  then show ?thesis
    unfolding add_date_def assms civil.case date_to_days_month_start
    by (simp add: algebra_simps)
qed

text \<open>Adding days moves a time by exactly that many days of 24 hours.\<close>

lemma add_days: "add_date t 0 0 n = t + n * ns_per_day"
  by (cases "civil_of t") (simp add: add_date_alt)

text \<open>Adding months moves it by 28 to 31 days a month, whatever the day of the month.\<close>

lemma add_months:
  assumes "0 \<le> n"
  shows "t + 28 * n * ns_per_day \<le> add_date t 0 n 0"
    and "add_date t 0 n 0 \<le> t + 31 * n * ns_per_day"
proof -
  obtain y m d where c: "civil_of t = Civil y m d" by (cases "civil_of t")
  let ?k = "12 * y + (m - 1)"
  have "28 * n \<le> month_start (?k + n) - month_start ?k" "month_start (?k + n) - month_start ?k \<le> 31 * n"
    using month_start_add [of ?k "nat n"] assms by auto
  moreover have "0 \<le> ns_per_day" by (simp add: ns_per_day_def)
  ultimately show "t + 28 * n * ns_per_day \<le> add_date t 0 n 0" "add_date t 0 n 0 \<le> t + 31 * n * ns_per_day"
    unfolding add_date_alt [OF c] by (auto intro!: mult_right_mono)
qed

lemma add_years:
  assumes "0 \<le> n"
  shows "t + 365 * n * ns_per_day \<le> add_date t n 0 0"
    and "add_date t n 0 0 \<le> t + 366 * n * ns_per_day"
proof -
  obtain y m d where c: "civil_of t = Civil y m d" by (cases "civil_of t")
  let ?k = "12 * y + (m - 1)"
  have "365 * n \<le> month_start (?k + 12 * n) - month_start ?k" "month_start (?k + 12 * n) - month_start ?k \<le> 366 * n"
    using month_start_years [of ?k "nat n"] assms by auto
  moreover have "0 \<le> ns_per_day" by (simp add: ns_per_day_def)
  ultimately show "t + 365 * n * ns_per_day \<le> add_date t n 0 0" "add_date t n 0 0 \<le> t + 366 * n * ns_per_day"
    unfolding add_date_alt [OF c] by (auto intro!: mult_right_mono)
qed

lemma add_12_months: "add_date t n 0 0 = add_date t 0 (12 * n) 0"
  by (cases "civil_of t") (simp add: add_date_alt)

section \<open>Printed times have colons, and parsing needs them\<close>

lemma parse_hour_suffix: "parse_hour s = Some (h, rest) \<Longrightarrow> set rest \<subseteq> set s"
  by (cases s rule: parse_hour.cases) (auto split: if_splits)

lemma parse_clock_needs_colon:
  assumes "CHR '':'' \<notin> set s"
  shows "parse_clock s = None"
proof (cases "parse_hour s")
  case (Some p)
  then obtain h rest where p: "parse_hour s = Some (h, rest)" by (cases p) auto
  then have "CHR '':'' \<notin> set rest" using parse_hour_suffix assms by blast
  then show ?thesis unfolding parse_clock_def p by (auto split: list.split)
qed (simp add: parse_clock_def)

lemma parse_needs_colon:
  assumes "CHR '':'' \<notin> set s"
  shows "parse_rfc3339nano s = None"
proof -
  have "parse_clock (drop 11 s) = None"
    by (rule parse_clock_needs_colon) (use assms in_set_dropD in fast)
  then show ?thesis unfolding parse_rfc3339nano_def Let_def by simp
qed

end
