(* ===== verification/Httputil.thy ===== *)
theory Httputil
  imports Errors
begin

text \<open>
  The request context of \<open>internal/middleware/context.go\<close> and the responses of
  \<open>internal/httputil/respond.go\<close>. A handler of the model returns the status with the value it
  would encode as JSON, an error envelope, an empty response, or \<open>Panicked\<close> where the Go code would
  dereference a nil error (the recovery middleware answers such a request with 500).
\<close>

section \<open>Request context\<close>

record go_context =
  cx_request_id :: "string option"
  cx_tenant_id :: "uuid option"

definition background :: go_context where
  "background = \<lparr>cx_request_id = None, cx_tenant_id = None\<rparr>"

definition WithRequestID :: "go_context \<Rightarrow> string \<Rightarrow> go_context" where
  "WithRequestID ctx requestID = ctx\<lparr>cx_request_id := Some requestID\<rparr>"

definition RequestIDFromContext :: "go_context \<Rightarrow> string" where
  "RequestIDFromContext ctx = (case cx_request_id ctx of Some x \<Rightarrow> x | None \<Rightarrow> [])"

definition WithTenantID :: "go_context \<Rightarrow> uuid \<Rightarrow> go_context" where
  "WithTenantID ctx tenantID = ctx\<lparr>cx_tenant_id := Some tenantID\<rparr>"

definition TenantIDFromContext :: "go_context \<Rightarrow> uuid" where
  "TenantIDFromContext ctx = (case cx_tenant_id ctx of Some t \<Rightarrow> t | None \<Rightarrow> uuid_nil)"

lemma context_simps [simp]:
  "TenantIDFromContext (WithTenantID ctx t) = t"
  "RequestIDFromContext (WithTenantID ctx t) = RequestIDFromContext ctx"
  "RequestIDFromContext (WithRequestID ctx r) = r"
  "TenantIDFromContext (WithRequestID ctx r) = TenantIDFromContext ctx"
  "TenantIDFromContext background = 0"
  by (simp_all add: TenantIDFromContext_def WithTenantID_def RequestIDFromContext_def WithRequestID_def
      background_def uuid_nil_def)

section \<open>Responses\<close>

record error_detail =
  ed_code :: string
  ed_message :: string
  ed_request_id :: string
  ed_fields :: "field_error list"

datatype 'a response =
    Response nat 'a
  | Error_Response nat error_detail
  | No_Content
  | Panicked

fun response_status :: "'a response \<Rightarrow> nat" where
  "response_status (Response st v) = st"
| "response_status (Error_Response st d) = st"
| "response_status No_Content = 204"
| "response_status Panicked = 500"

definition error_body :: "go_context \<Rightarrow> gerror \<Rightarrow> nat \<times> error_detail" where
  "error_body ctx err =
     (let requestID = RequestIDFromContext ctx;
          status = HTTPStatusFor err;
          (code, msg) = (case errors_as_domain err of
                           Some (c, m, st, cause) \<Rightarrow> (c, m)
                         | None \<Rightarrow> (CodeFor err, error_text err));
          fields = (case errors_as_validation err of Some fs \<Rightarrow> fs | None \<Rightarrow> []);
          detail = \<lparr>ed_code = code, ed_message = msg, ed_request_id = requestID, ed_fields = fields\<rparr>
      in (status,
          if status = 500
          then detail\<lparr>ed_message := ''an internal error occurred'', ed_code := ''internal_error'', ed_fields := []\<rparr>
          else detail))"

definition RespondError :: "go_context \<Rightarrow> gerror \<Rightarrow> 'a response" where
  "RespondError ctx err = (case error_body ctx err of (status, detail) \<Rightarrow> Error_Response status detail)"

definition RespondCreated :: "'a \<Rightarrow> 'a response" where
  "RespondCreated v = Response 201 v"

definition RespondOK :: "'a \<Rightarrow> 'a response" where
  "RespondOK v = Response 200 v"

text \<open>The common end of a handler: the error as a response, or the value through \<open>k\<close>.\<close>

definition respond :: "go_context \<Rightarrow> ('a \<Rightarrow> 'b response) \<Rightarrow> gerror + 'a \<Rightarrow> 'b response" where
  "respond ctx k r = (case r of Inl err \<Rightarrow> RespondError ctx err | Inr v \<Rightarrow> k v)"

section \<open>The limit parameter of a query\<close>

text \<open>\<open>json.Unmarshal([]byte(l), &limit)\<close> on a limit that starts at 20: white space around a JSON
  integer in range, or \<open>null\<close> (which assigns nothing); anything else is an error, after which the
  handlers go back to 20.\<close>

definition is_json_space :: "char \<Rightarrow> bool" where
  "is_json_space c \<longleftrightarrow> c = CHR '' '' \<or> c = CHR 0x09 \<or> c = CHR 0x0A \<or> c = CHR 0x0D"

definition json_trim :: "string \<Rightarrow> string" where
  "json_trim s = rev (dropWhile is_json_space (rev (dropWhile is_json_space s)))"

definition json_int :: "string \<Rightarrow> int64 option" where
  "json_int s =
     (let t = json_trim s;
          neg = (t \<noteq> [] \<and> hd t = CHR ''-'');
          ds = (if neg then tl t else t);
          v = (if neg then - digits_value ds else digits_value ds)
      in if ds \<noteq> [] \<and> list_all is_digit09 ds \<and> (hd ds = CHR ''0'' \<longrightarrow> tl ds = [])
            \<and> - (2 ^ 63) \<le> v \<and> v < 2 ^ 63
         then Some (word_of_int v) else None)"

definition query_limit :: "string \<Rightarrow> int64" where
  "query_limit l =
     (if l = [] \<or> json_trim l = ''null'' then 20
      else case json_int l of None \<Rightarrow> 20 | Some n \<Rightarrow> n)"

lemma response_status_simps [simp]:
  "response_status (RespondError ctx err) = HTTPStatusFor err"
  "response_status (RespondCreated v) = 201"
  "response_status (RespondOK v) = 200"
  by (simp_all add: RespondError_def error_body_def RespondCreated_def RespondOK_def Let_def split: prod.split)

lemma respond_simps [simp]:
  "respond ctx k (Inl err) = RespondError ctx err"
  "respond ctx k (Inr v) = k v"
  by (simp_all add: respond_def)

end
