(* ===== verification/Database.thy ===== *)
theory Database
  imports Validation Go_Time Httputil
begin

text \<open>
  The domain structs of the \<open>model.go\<close> files, the state of the running system, and the few
  PostgreSQL operations the repositories are written with.

  A table is the list of its rows in physical order; the constraints of \<open>migrations/*.up.sql\<close> are
  checked where a row is written. Columns that the program always fills are not optional here even
  where the schema allows NULL (the program has no other writer).

  The row-level security state of a connection is a \<open>session\<close>: a role that bypasses it, a connection on which
  \<open>app.current_tenant_id\<close> was never set, or one set to a tenant by the auth middleware. Reading
  the unset parameter is a server error. The program works with a pool of connections: the field \<open>session\<close> is
  that of the connection the next statement runs on, \<open>idle\<close> are the sessions of the other connections, and
  \<open>choices\<close> is which connection the pool hands out at each point where the model lets it choose
  (\<open>acquire\<close>; \<open>0\<close> is the one used last). It chooses anew after the statement with which the middleware sets
  the tenant; the statements of one handler then share a connection, where the code asks the pool before each.

  \<open>uuids\<close> is the stream of random UUIDs that \<open>gen_random_uuid()\<close> and \<open>uuid.New()\<close> draw from, \<open>jsonb\<close> is
  PostgreSQL's reading of a JSON text into its normal form (\<open>None\<close> for a text it refuses), \<open>charges\<close> lists the
  charge requests that have left for a payment provider, \<open>random\<close> is the byte stream of the operating system's
  random source. The clock stands still during a request; columns keep microseconds.
\<close>

section \<open>Domain structs\<close>

definition IntervalDay :: string where "IntervalDay = ''day''"
definition IntervalWeek :: string where "IntervalWeek = ''week''"
definition IntervalMonth :: string where "IntervalMonth = ''month''"
definition IntervalYear :: string where "IntervalYear = ''year''"

definition all_intervals :: "string list" where
  "all_intervals = [IntervalDay, IntervalWeek, IntervalMonth, IntervalYear]"

record plan =
  plan_ID :: uuid
  plan_TenantID :: uuid
  plan_Slug :: string
  plan_Name :: string
  plan_Description :: string
  plan_Amount :: int64
  plan_Currency :: string
  plan_Interval :: string
  plan_IntervalCount :: int64
  plan_TrialDays :: int64
  plan_IsActive :: bool
  plan_CreatedAt :: gtime
  plan_UpdatedAt :: gtime

record payment_method_info =
  pm_Type :: string
  pm_Brand :: string
  pm_LastFour :: string
  pm_Bank :: string

record payment =
  pay_ID :: uuid
  pay_TenantID :: uuid
  pay_SubscriptionID :: uuid
  pay_IdempotencyKey :: string
  pay_ProviderName :: string
  pay_ProviderChargeID :: string
  pay_Amount :: int64
  pay_Currency :: string
  pay_Status :: string
  pay_FailureReason :: string
  pay_PaymentMethod :: "payment_method_info option"
  pay_ProviderResponse :: "string option"
  pay_CreatedAt :: gtime
  pay_UpdatedAt :: gtime

text \<open>\<open>Tags\<close> and \<open>Metadata\<close> are slices: \<open>None\<close> is the nil slice. \<open>Payments\<close> is no column.\<close>

record subscription =
  sub_ID :: uuid
  sub_TenantID :: uuid
  sub_PlanID :: "uuid option"
  sub_Amount :: int64
  sub_Currency :: string
  sub_Interval :: string
  sub_IntervalCount :: int64
  sub_SubscriptionKey :: uuid
  sub_ExternalCustomerID :: string
  sub_Status :: string
  sub_ProviderName :: string
  sub_ProviderSubscriptionID :: string
  sub_CurrentPeriodStart :: gtime
  sub_CurrentPeriodEnd :: gtime
  sub_TrialEndsAt :: "gtime option"
  sub_CanceledAt :: "gtime option"
  sub_CancelAtPeriodEnd :: bool
  sub_Tags :: "string list option"
  sub_Metadata :: "string option"
  sub_Payments :: "payment list"
  sub_CreatedAt :: gtime
  sub_UpdatedAt :: gtime

text \<open>A row of the table also has the idempotency key, which the struct does not carry.\<close>

record sub_row =
  sr_sub :: subscription
  sr_idempotency_key :: string

record tenant =
  tn_ID :: uuid
  tn_Name :: string
  tn_Slug :: string
  tn_Email :: "string option"
  tn_IsActive :: bool
  tn_DefaultProviderName :: string
  tn_CreatedAt :: gtime
  tn_UpdatedAt :: gtime

text \<open>The key hash is a column that the struct \<open>APIKey\<close> does not carry.\<close>

record api_key =
  ak_ID :: uuid
  ak_TenantID :: uuid
  ak_KeyPrefix :: string
  ak_Scopes :: "string list"
  ak_Description :: string
  ak_LastUsedAt :: "gtime option"
  ak_ExpiresAt :: "gtime option"
  ak_IsActive :: bool
  ak_CreatedAt :: gtime

record api_key_row =
  kr_key :: api_key
  kr_key_hash :: string

text \<open>A row of \<open>provider_credentials\<close>: the configuration is the text of a JSONB document.\<close>

record credential_row =
  cd_ID :: uuid
  cd_TenantID :: uuid
  cd_ProviderName :: string
  cd_config :: string
  cd_webhook_secret :: "string option"
  cd_CreatedAt :: gtime
  cd_UpdatedAt :: gtime

text \<open>The password hash is a column that the struct \<open>User\<close> does not carry.\<close>

record user =
  us_ID :: uuid
  us_TenantID :: uuid
  us_Email :: string
  us_Role :: string
  us_Name :: string
  us_MustChangePassword :: bool
  us_IsActive :: bool
  us_CreatedAt :: gtime
  us_UpdatedAt :: gtime

record user_row =
  ur_user :: user
  ur_password_hash :: string

type_synonym config = "(string \<times> string) list"

record charge_request =
  cr_Amount :: int64
  cr_Currency :: string
  cr_Description :: string
  cr_ExternalCustomerID :: string
  cr_IdempotencyKey :: string
  cr_Config :: config
  cr_Metadata :: config

section \<open>The system\<close>

datatype session = Bypass | Unset | Current_Tenant uuid

record sys =
  clock :: gtime
  session :: session
  uuids :: "nat \<Rightarrow> uuid"
  drawn :: nat
  jsonb :: "string \<Rightarrow> string option"
  tenants :: "tenant list"
  plans :: "plan list"
  subscriptions :: "sub_row list"
  payments :: "payment list"
  charges :: "(string \<times> charge_request) list"
  api_keys :: "api_key_row list"
  credentials :: "credential_row list"
  users :: "user_row list"
  random :: "nat \<Rightarrow> char"
  random_pos :: nat
  idle :: "session list"
  choices :: "nat \<Rightarrow> nat"
  acquired :: nat

definition trunc_us :: "gtime \<Rightarrow> gtime" where
  "trunc_us t = t div 1000 * 1000"

definition db_now :: "sys \<Rightarrow> gtime" where
  "db_now s = trunc_us (clock s)"

definition next_uuid :: "sys \<Rightarrow> uuid" where
  "next_uuid s = uuids s (drawn s)"

definition draw :: "sys \<Rightarrow> sys" where
  "draw s = s\<lparr>drawn := Suc (drawn s)\<rparr>"

text \<open>\<open>crypto/rand.Read\<close> of \<open>n\<close> bytes; since Go 1.24 it does not return an error.\<close>

definition rand_read :: "nat \<Rightarrow> sys \<Rightarrow> string \<times> sys" where
  "rand_read n s = (map (\<lambda>i. random s (random_pos s + i)) [0..<n], s\<lparr>random_pos := random_pos s + n\<rparr>)"

text \<open>The pool hands out a connection: the one used last goes back to the pool, and the next statement may run on
  that or on any other.\<close>

definition acquire :: "sys \<Rightarrow> sys" where
  "acquire s =
     (let s1 = s\<lparr>acquired := Suc (acquired s)\<rparr>
      in case choices s (acquired s) of
           0 \<Rightarrow> s1
         | Suc k \<Rightarrow> (if k < length (idle s) then s1\<lparr>session := idle s ! k, idle := (idle s)[k := session s]\<rparr> else s1))"

section \<open>Server errors\<close>

definition quoted :: "string \<Rightarrow> string" where
  "quoted x = [CHR 0x22] @ x @ [CHR 0x22]"

definition unset_parameter :: gerror where
  "unset_parameter = Pg_Error ''42704''
     (''unrecognized configuration parameter '' @ quoted ''app.current_tenant_id'')"

definition rls_violation :: "string \<Rightarrow> gerror" where
  "rls_violation tbl = Pg_Error ''42501'' (''new row violates row-level security policy for table '' @ quoted tbl)"

definition unique_violation :: "string \<Rightarrow> gerror" where
  "unique_violation c = Pg_Error ''23505'' (''duplicate key value violates unique constraint '' @ quoted c)"

definition fk_violation :: "string \<Rightarrow> string \<Rightarrow> gerror" where
  "fk_violation tbl c = Pg_Error ''23503''
     (''insert or update on table '' @ quoted tbl @ '' violates foreign key constraint '' @ quoted c)"

definition check_violation :: "string \<Rightarrow> string \<Rightarrow> gerror" where
  "check_violation tbl c = Pg_Error ''23514''
     (''new row for relation '' @ quoted tbl @ '' violates check constraint '' @ quoted c)"

definition not_null_violation :: "string \<Rightarrow> string \<Rightarrow> gerror" where
  "not_null_violation tbl col = Pg_Error ''23502''
     (''null value in column '' @ quoted col @ '' of relation '' @ quoted tbl @ '' violates not-null constraint'')"

definition invalid_json :: gerror where
  "invalid_json = Pg_Error ''22P02'' ''invalid input syntax for type json''"

text \<open>The driver refuses to encode a Go \<open>int\<close> beyond 32 bits for an \<open>INT\<close> column.\<close>

definition int4_ok :: "int64 \<Rightarrow> bool" where
  "int4_ok x \<longleftrightarrow> - (2 ^ 31) \<le> sint x \<and> sint x < 2 ^ 31"

definition int4_overflow :: gerror where
  "int4_overflow = Plain ''failed to encode args: value out of range for int4''"

section \<open>Statements\<close>

definition check :: "bool \<Rightarrow> gerror \<Rightarrow> gerror option" where
  "check ok e = (if ok then None else Some e)"

fun first_error :: "gerror option list \<Rightarrow> gerror option" where
  "first_error [] = None"
| "first_error (Some e # es) = Some e"
| "first_error (None # es) = first_error es"

definition visible :: "sys \<Rightarrow> uuid \<Rightarrow> bool" where
  "visible s tenant =
     (case session s of Bypass \<Rightarrow> True | Unset \<Rightarrow> False | Current_Tenant t \<Rightarrow> t = tenant)"

definition session_check :: "sys \<Rightarrow> gerror option" where
  "session_check s = check (session s \<noteq> Unset) unset_parameter"

text \<open>The policy on a row to insert.\<close>

definition rls_check :: "sys \<Rightarrow> string \<Rightarrow> uuid \<Rightarrow> gerror option" where
  "rls_check s tbl tenant = first_error [session_check s, check (visible s tenant) (rls_violation tbl)]"

text \<open>\<open>SELECT .. WHERE P\<close> read by \<open>QueryRow\<close>: the first row the session sees.\<close>

definition query_row :: "sys \<Rightarrow> ('r \<Rightarrow> uuid) \<Rightarrow> ('r \<Rightarrow> bool) \<Rightarrow> 'r list \<Rightarrow> gerror + 'r" where
  "query_row s tenant_of P rows =
     (case session_check s of
        Some e \<Rightarrow> Inl e
      | None \<Rightarrow>
          (case find (\<lambda>r. visible s (tenant_of r) \<and> P r) rows of
             None \<Rightarrow> Inl No_Rows
           | Some r \<Rightarrow> Inr r))"

text \<open>\<open>UPDATE .. SET f WHERE P RETURNING\<close>: the rows written and the table after it. A constraint
  that a new row violates aborts the statement.\<close>

definition update_rows ::
  "sys \<Rightarrow> ('r \<Rightarrow> uuid) \<Rightarrow> ('r \<Rightarrow> bool) \<Rightarrow> ('r \<Rightarrow> 'r) \<Rightarrow> ('r \<Rightarrow> gerror option) \<Rightarrow> 'r list
    \<Rightarrow> gerror + ('r list \<times> 'r list)" where
  "update_rows s tenant_of P f constraints rows =
     (case session_check s of
        Some e \<Rightarrow> Inl e
      | None \<Rightarrow>
          (let hit = (\<lambda>r. visible s (tenant_of r) \<and> P r);
               written = map f (filter hit rows)
           in case first_error (map constraints written) of
                Some e \<Rightarrow> Inl e
              | None \<Rightarrow> Inr (written, update_where hit f rows)))"

text \<open>The usual end of a lookup: \<open>pgx.ErrNoRows\<close> becomes \<open>ErrNotFound\<close>, another error is wrapped.\<close>

definition not_found_or_wrap :: "string \<Rightarrow> gerror + 'r \<Rightarrow> gerror + 'r" where
  "not_found_or_wrap msg r =
     (case r of
        Inl err \<Rightarrow> (if err = No_Rows then Inl (Sentinel ErrNotFound) else Inl (Wrap msg err))
      | Inr x \<Rightarrow> Inr x)"

section \<open>Lemmas\<close>

lemma first_error_None: "first_error es = None \<longleftrightarrow> (\<forall>e \<in> set es. e = None)"
  by (induction es rule: first_error.induct) auto

lemma first_error_Some: "first_error es = Some e \<Longrightarrow> Some e \<in> set es"
  by (induction es rule: first_error.induct) auto

text \<open>The errors of the server and of the driver carry no sentinel, so they are answered with 500.\<close>

definition server_error :: "gerror \<Rightarrow> bool" where
  "server_error e \<longleftrightarrow> (case e of Pg_Error state msg \<Rightarrow> True | Plain msg \<Rightarrow> True | _ \<Rightarrow> False)"

lemma server_errors [simp]:
  "server_error unset_parameter" "server_error (rls_violation t)" "server_error (unique_violation c)"
  "server_error (fk_violation t c)" "server_error (check_violation t c)"
  "server_error (not_null_violation t c)" "server_error invalid_json" "server_error int4_overflow"
  "server_error (Pg_Error q m)" "server_error (Plain m)" "\<not> server_error No_Rows" "\<not> server_error (Sentinel x)"
  by (simp_all add: server_error_def unset_parameter_def rls_violation_def unique_violation_def fk_violation_def
      check_violation_def not_null_violation_def invalid_json_def int4_overflow_def)

lemma server_error_D:
  "server_error e \<Longrightarrow> root_sentinel e = None" "server_error e \<Longrightarrow> e \<noteq> No_Rows"
  "server_error e \<Longrightarrow> sentinel_status e = 500"
  by (auto simp: server_error_def split: gerror.splits)

lemma pred_option_check [simp]: "pred_option p (check c e) \<longleftrightarrow> (c \<or> p e)"
  by (simp add: check_def)

lemma pred_option_first_error [simp]:
  "(\<forall>x \<in> set es. pred_option p x) \<Longrightarrow> pred_option p (first_error es)"
  by (induction es rule: first_error.induct) auto

lemma check_simps [simp]: "check True e = None" "check False e = Some e"
  by (simp_all add: check_def)

lemma check_None: "check c e = None \<longleftrightarrow> c"
  by (simp add: check_def)

lemma check_Some: "check c e = Some e' \<longleftrightarrow> \<not> c \<and> e' = e"
  by (auto simp: check_def)

lemma server_checks [simp]:
  "pred_option server_error (session_check s)" "pred_option server_error (rls_check s tbl t)"
  by (simp_all add: session_check_def rls_check_def)

lemma pred_option_SomeD: "x = Some e \<Longrightarrow> pred_option p x \<Longrightarrow> p e"
  by simp

lemma session_check_None: "session_check s = None \<longleftrightarrow> session s \<noteq> Unset"
  by (simp add: session_check_def check_None)

lemma visible_not_unset: "visible s t \<Longrightarrow> session s \<noteq> Unset"
  by (auto simp: visible_def)

lemma rls_check_None: "rls_check s tbl t = None \<longleftrightarrow> visible s t"
  by (auto simp: rls_check_def session_check_def first_error_None check_None visible_not_unset)

lemma sys_draw_simps [simp]:
  "clock (draw s) = clock s" "session (draw s) = session s" "uuids (draw s) = uuids s"
  "drawn (draw s) = Suc (drawn s)" "jsonb (draw s) = jsonb s" "tenants (draw s) = tenants s"
  "plans (draw s) = plans s" "subscriptions (draw s) = subscriptions s"
  "payments (draw s) = payments s" "charges (draw s) = charges s"
  "api_keys (draw s) = api_keys s" "credentials (draw s) = credentials s" "users (draw s) = users s"
  "random (draw s) = random s" "random_pos (draw s) = random_pos s"
  "idle (draw s) = idle s" "choices (draw s) = choices s" "acquired (draw s) = acquired s"
  "visible (draw s) = visible s" "session_check (draw s) = session_check s"
  "rls_check (draw s) = rls_check s" "db_now (draw s) = db_now s"
  by (simp_all add: draw_def visible_def fun_eq_iff session_check_def rls_check_def db_now_def)

text \<open>A change of connection touches no table.\<close>

lemma acquire_fields [simp]:
  "clock (acquire s) = clock s" "uuids (acquire s) = uuids s" "drawn (acquire s) = drawn s" "jsonb (acquire s) = jsonb s"
  "tenants (acquire s) = tenants s" "plans (acquire s) = plans s" "subscriptions (acquire s) = subscriptions s"
  "payments (acquire s) = payments s" "charges (acquire s) = charges s" "api_keys (acquire s) = api_keys s"
  "credentials (acquire s) = credentials s" "users (acquire s) = users s" "random (acquire s) = random s"
  "random_pos (acquire s) = random_pos s" "choices (acquire s) = choices s" "length (idle (acquire s)) = length (idle s)"
  by (auto simp: acquire_def Let_def split: nat.split)

lemma acquire_session: "session (acquire s) = session s \<or> session (acquire s) \<in> set (idle s)"
  by (auto simp: acquire_def Let_def split: nat.split)

text \<open>The pool that always hands out the connection used last, for one because it has no other.\<close>

definition one_connection :: "sys \<Rightarrow> bool" where
  "one_connection s \<longleftrightarrow> idle s = [] \<or> (\<forall>n. choices s n = 0)"

lemma one_connection_acquire: "one_connection s \<Longrightarrow> acquire s = s\<lparr>acquired := Suc (acquired s)\<rparr>"
  by (auto simp: acquire_def Let_def one_connection_def split: nat.split)

lemma rand_read_simps [simp]:
  "length (fst (rand_read n s)) = n" "snd (rand_read n s) = s\<lparr>random_pos := random_pos s + n\<rparr>"
  by (simp_all add: rand_read_def)

text \<open>What the session does not see, a query does not return.\<close>

lemma query_row_Inr:
  "query_row s ten P rows = Inr r \<Longrightarrow> r \<in> set rows \<and> P r \<and> visible s (ten r)"
  by (auto simp: query_row_def split: option.splits dest!: find_SomeD)

lemma query_row_No_Rows:
  "query_row s ten P rows = Inl No_Rows
     \<longleftrightarrow> session s \<noteq> Unset \<and> (\<forall>r \<in> set rows. visible s (ten r) \<longrightarrow> \<not> P r)"
  by (auto simp: query_row_def session_check_def unset_parameter_def check_def find_None_iff_all
      split: option.splits if_splits dest: find_SomeD)

lemma query_row_unique:
  assumes "distinct (map key rows)" "r \<in> set rows" "visible s (ten r)"
  shows "query_row s ten (\<lambda>x. key x = key r) rows = Inr r"
proof -
  have "find (\<lambda>x. visible s (ten x) \<and> key x = key r) rows = find (\<lambda>x. key x = key r) rows"
    using distinct_key_eq [OF assms(1) _ assms(2)] assms(3) by (intro find_cong_set) blast
  then show ?thesis
    using find_unique_key [OF assms(1,2)] visible_not_unset [OF assms(3)]
    by (simp add: query_row_def session_check_def)
qed

lemma update_rows_Inr:
  assumes "update_rows s ten P f con rows = Inr (written, rows')"
  shows "rows' = update_where (\<lambda>r. visible s (ten r) \<and> P r) f rows"
    and "written = map f (filter (\<lambda>r. visible s (ten r) \<and> P r) rows)"
    and "\<forall>r \<in> set written. con r = None"
  using assms by (auto simp: update_rows_def Let_def first_error_None split: option.splits)

lemma not_found_or_wrap_simps [simp]:
  "not_found_or_wrap m (Inr x) = Inr x"
  "not_found_or_wrap m (Inl No_Rows) = Inl (Sentinel ErrNotFound)"
  "not_found_or_wrap m r = Inr y \<longleftrightarrow> r = Inr y"
  by (auto simp: not_found_or_wrap_def split: sum.splits)

lemma trunc_us_le: "trunc_us t \<le> t" "t < trunc_us t + 1000"
  using div_estimate [of 1000 t] by (simp_all add: trunc_us_def algebra_simps)

lemma trunc_us_idem [simp]: "trunc_us (trunc_us t) = trunc_us t"
  by (simp add: trunc_us_def)

lemma trunc_us_mono: "a \<le> b \<Longrightarrow> trunc_us a \<le> trunc_us b"
  by (simp add: trunc_us_def zdiv_mono1)

end
