(* ===== verification/Base64.thy ===== *)
theory Base64
  imports Go_Strings
begin

text \<open>
  Go's package \<open>encoding/base64\<close>, in the two variants the source uses: \<open>URLEncoding\<close> for the
  pagination cursors and \<open>StdEncoding\<close> for key hashes. Both pad with \<open>=\<close>; decoding skips carriage
  returns and newlines, and does not check the unused trailing bits (the package's non-strict mode).
  Decoding what was encoded gives the bytes back.
\<close>

definition std_alphabet :: string where
  "std_alphabet = ''ABCDEFGHIJKLMNOPQRSTUVWXYZabcdefghijklmnopqrstuvwxyz0123456789+/''"

definition url_alphabet :: string where
  "url_alphabet = ''ABCDEFGHIJKLMNOPQRSTUVWXYZabcdefghijklmnopqrstuvwxyz0123456789-_''"

fun index_of :: "'a \<Rightarrow> 'a list \<Rightarrow> nat option" where
  "index_of x [] = None"
| "index_of x (y # ys) = (if x = y then Some 0 else map_option Suc (index_of x ys))"

fun encode_bytes :: "string \<Rightarrow> nat list \<Rightarrow> string" where
  "encode_bytes al (x # y # z # rest) =
     al ! (x div 4) # al ! (x mod 4 * 16 + y div 16) # al ! (y mod 16 * 4 + z div 64) # al ! (z mod 64)
     # encode_bytes al rest"
| "encode_bytes al [x, y] =
     [al ! (x div 4), al ! (x mod 4 * 16 + y div 16), al ! (y mod 16 * 4), CHR ''='']"
| "encode_bytes al [x] = [al ! (x div 4), al ! (x mod 4 * 16), CHR ''='', CHR ''='']"
| "encode_bytes al [] = []"

definition encode_to_string :: "string \<Rightarrow> string \<Rightarrow> string" where
  "encode_to_string al s = encode_bytes al (map of_char s)"

text \<open>The first byte of a quantum, its first two bytes, and all three.\<close>

definition quantum1 :: "string \<Rightarrow> char \<Rightarrow> char \<Rightarrow> nat list option" where
  "quantum1 al a b =
     (case (index_of a al, index_of b al) of
        (Some u, Some v) \<Rightarrow> Some [u * 4 + v div 16]
      | _ \<Rightarrow> None)"

definition quantum2 :: "string \<Rightarrow> char \<Rightarrow> char \<Rightarrow> char \<Rightarrow> nat list option" where
  "quantum2 al a b c =
     (case (index_of a al, index_of b al, index_of c al) of
        (Some u, Some v, Some w) \<Rightarrow> Some [u * 4 + v div 16, v mod 16 * 16 + w div 4]
      | _ \<Rightarrow> None)"

definition quantum3 :: "string \<Rightarrow> char \<Rightarrow> char \<Rightarrow> char \<Rightarrow> char \<Rightarrow> nat list option" where
  "quantum3 al a b c d =
     (case (index_of a al, index_of b al, index_of c al, index_of d al) of
        (Some u, Some v, Some w, Some x) \<Rightarrow>
          Some [u * 4 + v div 16, v mod 16 * 16 + w div 4, w mod 4 * 64 + x]
      | _ \<Rightarrow> None)"

fun decode_chars :: "string \<Rightarrow> string \<Rightarrow> nat list option" where
  "decode_chars al [] = Some []"
| "decode_chars al (a # b # c # d # rest) =
     (if rest = [] \<and> d = CHR ''='' then
        (if c = CHR ''='' then quantum1 al a b else quantum2 al a b c)
      else case quantum3 al a b c d of
             None \<Rightarrow> None
           | Some bs \<Rightarrow> map_option (\<lambda>tl. bs @ tl) (decode_chars al rest))"
| "decode_chars al _ = None"

definition decode_string :: "string \<Rightarrow> string \<Rightarrow> string option" where
  "decode_string al s =
     map_option (map char_of)
       (decode_chars al (filter (\<lambda>c. c \<noteq> CHR 0x0A \<and> c \<noteq> CHR 0x0D) s))"

section \<open>Decoding what was encoded\<close>

definition good_alphabet :: "string \<Rightarrow> bool" where
  "good_alphabet al \<longleftrightarrow> length al = 64 \<and> distinct al
     \<and> CHR ''='' \<notin> set al \<and> CHR 0x0A \<notin> set al \<and> CHR 0x0D \<notin> set al"

lemma good_alphabets: "good_alphabet std_alphabet" "good_alphabet url_alphabet"
  by code_simp+

lemma index_of_nth: "distinct al \<Longrightarrow> n < length al \<Longrightarrow> index_of (al ! n) al = Some n"
  by (induction al arbitrary: n) (auto simp: nth_Cons split: nat.splits)

lemma index_of_good: "good_alphabet al \<Longrightarrow> n < 64 \<Longrightarrow> index_of (al ! n) al = Some n"
  by (simp add: good_alphabet_def index_of_nth)

lemma nth_good: "good_alphabet al \<Longrightarrow> n < 64 \<Longrightarrow> al ! n \<noteq> CHR ''=''"
  unfolding good_alphabet_def by (metis nth_mem)

lemma sextets:
  fixes x y z :: nat
  assumes "x < 256" "y < 256" "z < 256"
  shows "x div 4 < 64" "x mod 4 * 16 + y div 16 < 64" "y mod 16 * 4 + z div 64 < 64" "z mod 64 < 64"
    "x mod 4 * 16 < 64" "y mod 16 * 4 < 64"
  using assms by auto

lemma digit_split:
  fixes a b k :: nat
  assumes "b < k"
  shows "(a * k + b) div k = a" "(a * k + b) mod k = b"
  using assms by simp_all

lemma octets:
  fixes x y z :: nat
  assumes "x < 256" "y < 256" "z < 256"
  shows "x div 4 * 4 + (x mod 4 * 16 + y div 16) div 16 = x"
    "(x mod 4 * 16 + y div 16) mod 16 * 16 + (y mod 16 * 4 + z div 64) div 4 = y"
    "(y mod 16 * 4 + z div 64) mod 4 * 64 + z mod 64 = z"
    "x div 4 * 4 + x mod 4 * 16 div 16 = x"
    "(x mod 4 * 16 + y div 16) mod 16 * 16 + y mod 16 * 4 div 4 = y"
proof -
  have "y div 16 < 16" "z div 64 < 4" using assms by auto
  note d = digit_split [OF this(1)] digit_split [OF this(2)]
  show "x div 4 * 4 + (x mod 4 * 16 + y div 16) div 16 = x"
    "(x mod 4 * 16 + y div 16) mod 16 * 16 + (y mod 16 * 4 + z div 64) div 4 = y"
    "(y mod 16 * 4 + z div 64) mod 4 * 64 + z mod 64 = z"
    "x div 4 * 4 + x mod 4 * 16 div 16 = x"
    "(x mod 4 * 16 + y div 16) mod 16 * 16 + y mod 16 * 4 div 4 = y"
    unfolding d by simp_all
qed

lemma decode_encode_bytes:
  assumes "good_alphabet al" "\<forall>x \<in> set bs. x < 256"
  shows "decode_chars al (encode_bytes al bs) = Some bs"
  using assms
proof (induction al bs rule: encode_bytes.induct)
  case (1 al x y z rest)
  then have b: "x < 256" "y < 256" "z < 256" by auto
  have "quantum3 al (al ! (x div 4)) (al ! (x mod 4 * 16 + y div 16)) (al ! (y mod 16 * 4 + z div 64))
          (al ! (z mod 64)) = Some [x, y, z]"
    unfolding quantum3_def using 1(2) sextets [OF b] octets [OF b] by (simp add: index_of_good)
  moreover have "al ! (z mod 64) \<noteq> CHR ''=''" by (rule nth_good [OF 1(2)]) simp
  ultimately show ?case using 1 by simp
next
  case (2 al x y)
  then have b: "x < 256" "y < 256" "(0 :: nat) < 256" by auto
  have "quantum2 al (al ! (x div 4)) (al ! (x mod 4 * 16 + y div 16)) (al ! (y mod 16 * 4)) = Some [x, y]"
    unfolding quantum2_def using 2(1) sextets [OF b] octets [OF b] by (simp add: index_of_good)
  moreover have "al ! (y mod 16 * 4) \<noteq> CHR ''=''" by (rule nth_good [OF 2(1)]) (use b in simp)
  ultimately show ?case by simp
next
  case (3 al x)
  then have b: "x < 256" "(0 :: nat) < 256" "(0 :: nat) < 256" by auto
  have "quantum1 al (al ! (x div 4)) (al ! (x mod 4 * 16)) = Some [x]"
    unfolding quantum1_def using 3(1) sextets [OF b] octets [OF b] by (simp add: index_of_good)
  then show ?case by simp
qed simp

lemma set_encode_bytes:
  assumes "good_alphabet al" "\<forall>x \<in> set bs. x < 256"
  shows "set (encode_bytes al bs) \<subseteq> insert (CHR ''='') (set al)"
  using assms
proof (induction al bs rule: encode_bytes.induct)
  case (1 al x y z rest)
  then have b: "x < 256" "y < 256" "z < 256" and len: "length al = 64" by (auto simp: good_alphabet_def)
  show ?case using 1 sextets [OF b] len by auto
next
  case (2 al x y)
  then have b: "x < 256" "y < 256" "(0 :: nat) < 256" and len: "length al = 64" by (auto simp: good_alphabet_def)
  show ?case using sextets [OF b] len by auto
next
  case (3 al x)
  then have b: "x < 256" "(0 :: nat) < 256" "(0 :: nat) < 256" and len: "length al = 64"
    by (auto simp: good_alphabet_def)
  show ?case using sextets [OF b] len by auto
qed simp

theorem decode_encode_string:
  assumes "good_alphabet al"
  shows "decode_string al (encode_to_string al s) = Some s"
proof -
  let ?bs = "map of_char s :: nat list"
  have bytes: "\<forall>x \<in> set ?bs. x < 256" using of_char_less_256 by auto
  then have "filter (\<lambda>c. c \<noteq> CHR 0x0A \<and> c \<noteq> CHR 0x0D) (encode_bytes al ?bs) = encode_bytes al ?bs"
    using set_encode_bytes [OF assms bytes] assms
    by (intro filter_True) (auto simp: good_alphabet_def)
  then show ?thesis
    by (simp add: decode_string_def encode_to_string_def decode_encode_bytes [OF assms bytes] comp_def)
qed

end
