(* ===== verification/Cursor.thy ===== *)
theory Cursor
  imports Database Base64
begin

text \<open>
  The pagination cursor shared by the three \<open>List\<close> repositories: \<open>created_at\<close> in RFC 3339 with
  nanoseconds, a colon, the row id, all in base64. The text form of a UUID (\<open>uuid.UUID.String\<close>)
  and its parser (\<open>uuid.Parse\<close>) belong to a third-party package and are parameters.

  Building is as the comments say. Reading splits the decoded text at its FIRST colon, which is the
  one between the hours and the minutes of the timestamp, so what goes to \<open>time.Parse\<close> ends at the
  hour: every cursor is refused (\<open>parse_cursor_fails\<close>), those the service itself issued included.
\<close>

definition encode_cursor :: "(uuid \<Rightarrow> string) \<Rightarrow> gtime \<Rightarrow> uuid \<Rightarrow> string" where
  "encode_cursor uuid_string created_at rid =
     encode_to_string url_alphabet (format_rfc3339nano created_at @ '':'' @ uuid_string rid)"

text \<open>The decoding blocks of the three repositories, which differ in the result type only.\<close>

definition parse_cursor :: "(string \<Rightarrow> uuid option) \<Rightarrow> string \<Rightarrow> gerror + (gtime \<times> uuid)" where
  "parse_cursor uuid_parse cursor =
     (case decode_string url_alphabet cursor of
        None \<Rightarrow> Inl (Sentinel ErrInvalidInput)
      | Some decoded \<Rightarrow>
          (let parts = split_n2 (CHR '':'') decoded
           in if length parts \<noteq> 2 then Inl (Sentinel ErrInvalidInput)
              else case parse_rfc3339nano (parts ! 0) of
                     None \<Rightarrow> Inl (Sentinel ErrInvalidInput)
                   | Some t \<Rightarrow>
                       (case uuid_parse (parts ! 1) of
                          None \<Rightarrow> Inl (Sentinel ErrInvalidInput)
                        | Some rid \<Rightarrow> Inr (t, rid))))"

text \<open>The optional cursor of a list request; the empty string is no cursor.\<close>

definition list_cursor :: "(string \<Rightarrow> uuid option) \<Rightarrow> string \<Rightarrow> gerror + (gtime \<times> uuid) option" where
  "list_cursor uuid_parse cursor =
     (if cursor = [] then Inr None
      else case parse_cursor uuid_parse cursor of Inl e \<Rightarrow> Inl e | Inr c \<Rightarrow> Inr (Some c))"

text \<open>\<open>AND (created_at, id) > ($n, $m)\<close>\<close>

definition after_cursor :: "(gtime \<times> uuid) option \<Rightarrow> gtime \<Rightarrow> uuid \<Rightarrow> bool" where
  "after_cursor c created_at rid =
     (case c of None \<Rightarrow> True | Some (t, i) \<Rightarrow> t < created_at \<or> (t = created_at \<and> i < rid))"

text \<open>The limit of a repository (zero means 20), and the limit of a service (none or negative).\<close>

definition repo_limit :: "int64 \<Rightarrow> int64" where
  "repo_limit limit =
     (let limit = (if limit = 0 then 20 else limit) in if i64_less 100 limit then 100 else limit)"

definition service_limit :: "int64 \<Rightarrow> int64" where
  "service_limit limit =
     (let limit = (if i64_le limit 0 then 20 else limit) in if i64_less 100 limit then 100 else limit)"

text \<open>\<open>LIMIT %d\<close> with \<open>limit + 1\<close>: the server refuses a negative count, and for \<open>-1\<close> the slice
  \<open>rows[:limit]\<close> panics. The services never pass such a limit on.\<close>

definition limit_check :: "int64 \<Rightarrow> gerror option" where
  "limit_check limit =
     first_error
       [check (-1 \<le> sint limit) (Pg_Error ''2201W'' ''LIMIT must not be negative''),
        check (sint limit \<noteq> -1) (Plain ''runtime error: slice bounds out of range [:-1]'')]"

text \<open>The tail of each \<open>List\<close>: of the \<open>limit + 1\<close> rows fetched, the first \<open>limit\<close> are returned; the
  cursor is built from the row at index \<open>limit\<close>.\<close>

definition cut_page :: "(uuid \<Rightarrow> string) \<Rightarrow> ('r \<Rightarrow> gtime) \<Rightarrow> ('r \<Rightarrow> uuid) \<Rightarrow> nat \<Rightarrow> 'r list \<Rightarrow> 'r list \<times> string" where
  "cut_page uuid_string created_at ident limit rows =
     (if limit < length rows
      then (take limit rows, encode_cursor uuid_string (created_at (rows ! limit)) (ident (rows ! limit)))
      else (rows, []))"

section \<open>Lemmas\<close>

lemma split_n2_first: "length (split_n2 sep s) = 2 \<Longrightarrow> sep \<notin> set (split_n2 sep s ! 0)"
  by (auto simp: split_n2_def dest: set_takeWhileD split: if_splits)

lemma parse_cursor_fails: "parse_cursor uuid_parse cursor = Inl (Sentinel ErrInvalidInput)"
  unfolding parse_cursor_def Let_def
  by (auto split: option.split simp: parse_needs_colon split_n2_first)

lemma list_cursor_cases:
  "list_cursor uuid_parse cursor = (if cursor = [] then Inr None else Inl (Sentinel ErrInvalidInput))"
  by (simp add: list_cursor_def parse_cursor_fails)

lemma after_cursor_None [simp]: "after_cursor None t i"
  by (simp add: after_cursor_def)

text \<open>The order is strict: the row a cursor was built from is not after it.\<close>

lemma after_cursor_irrefl: "\<not> after_cursor (Some (t, i)) t i"
  by (simp add: after_cursor_def)

lemma after_cursor_iff: "after_cursor (Some (t, i)) t' i' \<longleftrightarrow> (t, i) < (t', i')"
  by (auto simp: after_cursor_def)

lemma service_limit_range: "1 \<le> sint (service_limit l)" "sint (service_limit l) \<le> 100"
  by (auto simp: service_limit_def Let_def)

lemma repo_limit_service [simp]: "repo_limit (service_limit l) = service_limit l"
  using service_limit_range [of l] by (auto simp: repo_limit_def Let_def)

lemma limit_check_service [simp]: "limit_check (service_limit l) = None"
  using service_limit_range [of l] by (simp add: limit_check_def first_error_None check_None)

lemma nat_service_limit: "1 \<le> nat (sint (service_limit l))" "nat (sint (service_limit l)) \<le> 100"
  using service_limit_range [of l] by auto

lemma encode_bytes_not_Nil: "bs \<noteq> [] \<Longrightarrow> encode_bytes al bs \<noteq> []"
  by (cases "(al, bs)" rule: encode_bytes.cases) auto

lemma encode_cursor_not_Nil [simp]: "encode_cursor uuid_string t i \<noteq> []" "[] \<noteq> encode_cursor uuid_string t i"
  using encode_bytes_not_Nil [of "map of_char (format_rfc3339nano t @ '':'' @ uuid_string i)" url_alphabet]
  by (auto simp: encode_cursor_def encode_to_string_def)

lemma fst_cut_page: "fst (cut_page us c i limit rows) = take limit rows"
  by (simp add: cut_page_def)

lemma cut_page_page:
  "fst (cut_page us c i limit (page (limit + 1) key P rows)) = page limit key P rows"
  by (simp add: fst_cut_page page_def min_def)

text \<open>The page of a list query: the first \<open>n\<close> matching rows in order, nothing before them left out,
  and the whole result when there is no next cursor.\<close>

lemma first_page:
  assumes "(xs, nc) = cut_page uuid_string created_at ident n (page (n + 1) key P rows)"
  shows "length xs \<le> n" "set xs \<subseteq> {r \<in> set rows. P r}" "sorted (map key xs)"
    "\<And>r q. r \<in> set xs \<Longrightarrow> q \<in> set rows \<Longrightarrow> P q \<Longrightarrow> q \<notin> set xs \<Longrightarrow> key r \<le> key q"
    "nc = [] \<Longrightarrow> set xs = {r \<in> set rows. P r}"
proof -
  have "fst (xs, nc) = page n key P rows" unfolding assms by (rule cut_page_page)
  then have pg: "xs = page n key P rows" by simp
  show "length xs \<le> n" "set xs \<subseteq> {r \<in> set rows. P r}" "sorted (map key xs)"
    unfolding pg by (rule length_page set_page sorted_page)+
  show "key r \<le> key q" if "r \<in> set xs" "q \<in> set rows" "P q" "q \<notin> set xs" for r q
    using that unfolding pg by (rule page_rest_ge)
  assume "nc = []"
  then have "length (page (n + 1) key P rows) \<le> n"
    using assms by (auto simp: cut_page_def not_less split: if_splits)
  then have "length (filter P rows) \<le> n" by (auto simp: page_def)
  then show "set xs = {r \<in> set rows. P r}" unfolding pg by (rule page_complete)
qed

end
