(* ===== verification/Idempotent_Store.thy ===== *)
theory Idempotent_Store
  imports Database
begin

text \<open>
  The contract behind the three creating operations of the API: plans are created by slug,
  subscriptions and payments by idempotency key, each with a flag that says whether this call
  created the record. What clients rely on is stated once for any operation that keeps the four
  laws of the locale: a key is created at most once over any sequence of calls, and every later
  call with the key returns the record of the first one.
\<close>

text \<open>A sequence of operations, with the result of each.\<close>

fun run_ops :: "('i \<Rightarrow> 's \<Rightarrow> 'r \<times> 's) \<Rightarrow> 'i list \<Rightarrow> 's \<Rightarrow> 'r list \<times> 's" where
  "run_ops f [] s = ([], s)"
| "run_ops f (i # is) s =
     (case f i s of (r, s1) \<Rightarrow> case run_ops f is s1 of (rs, s2) \<Rightarrow> (r # rs, s2))"

lemma run_ops_Cons [simp]:
  "fst (run_ops f (i # is) s) = fst (f i s) # fst (run_ops f is (snd (f i s)))"
  "snd (run_ops f (i # is) s) = snd (run_ops f is (snd (f i s)))"
  by (simp_all split: prod.split)

declare run_ops.simps(2) [simp del]

lemma length_run_ops [simp]: "length (fst (run_ops f is s)) = length is"
  by (induction "is" arbitrary: s) auto

definition was_created :: "gerror + 'v \<times> bool \<Rightarrow> bool" where
  "was_created r = (case r of Inr (v, c) \<Rightarrow> c | Inl e \<Rightarrow> False)"

lemma was_created_simps [simp]: "was_created (Inr (v, c)) = c" "\<not> was_created (Inl e)"
  by (simp_all add: was_created_def)

text \<open>How many of the calls with key \<open>k\<close> created a record.\<close>

definition creations :: "('i \<Rightarrow> 'k) \<Rightarrow> 'k \<Rightarrow> 'i list \<Rightarrow> (gerror + 'v \<times> bool) list \<Rightarrow> nat" where
  "creations key k is rs = length (filter (\<lambda>(i, r). key i = k \<and> was_created r) (zip is rs))"

locale idempotent_store =
  fixes create :: "'i \<Rightarrow> sys \<Rightarrow> (gerror + 'v \<times> bool) \<times> sys"
    and key :: "'i \<Rightarrow> 'k"
    and lookup :: "sys \<Rightarrow> 'k \<Rightarrow> 'v option"
    and ident :: "'v \<Rightarrow> uuid"
  assumes create_new: "create i s = (Inr (v, True), s') \<Longrightarrow> lookup s (key i) = None \<and> lookup s' (key i) = Some v"
    and create_dup: "create i s = (Inr (v, False), s')
      \<Longrightarrow> \<exists>w. lookup s (key i) = Some w \<and> ident w = ident v \<and> lookup s' (key i) = Some v"
    and create_err: "create i s = (Inl e, s') \<Longrightarrow> lookup s' (key i) = lookup s (key i)"
    and create_frame: "k \<noteq> key i \<Longrightarrow> lookup (snd (create i s)) k = lookup s k"
begin

lemma create_lookup:
  assumes "create i s = (Inr (v, c), s')"
  shows "lookup s' (key i) = Some v"
proof (cases c)
  case True
  then show ?thesis using create_new assms by simp
next
  case False
  then show ?thesis using create_dup assms by auto
qed

lemma create_ident:
  assumes "lookup s k = Some v"
  shows "\<exists>w. lookup (snd (create i s)) k = Some w \<and> ident w = ident v"
proof (cases "k = key i")
  case True
  obtain r s' where c: "create i s = (r, s')" by (cases "create i s") auto
  show ?thesis
  proof (cases r)
    case (Inl e)
    then show ?thesis using create_err [of i s e s'] c True assms by auto
  next
    case (Inr p)
    then obtain w b where "create i s = (Inr (w, b), s')" using c by (cases p) auto
    then show ?thesis
      using create_new [of i s w s'] create_dup [of i s w s'] True assms by (cases b) auto
  qed
next
  case False
  with assms show ?thesis by (simp add: create_frame)
qed

lemma create_known:
  assumes "lookup s (key i) = Some v" "create i s = (Inr (w, c), s')"
  shows "\<not> c \<and> ident w = ident v"
proof (cases c)
  case True
  then show ?thesis using create_new [of i s w s'] assms by simp
next
  case False
  then show ?thesis using create_dup [of i s w s'] assms by auto
qed

text \<open>A record keeps its identity over any sequence of calls.\<close>

lemma run_ident:
  "lookup s k = Some v \<Longrightarrow> \<exists>w. lookup (snd (run_ops create is s)) k = Some w \<and> ident w = ident v"
proof (induction "is" arbitrary: s v)
  case (Cons i "is")
  obtain w where "lookup (snd (create i s)) k = Some w" "ident w = ident v"
    using create_ident [OF Cons.prems] by blast
  then show ?case using Cons.IH [of "snd (create i s)" w] by auto
qed simp

text \<open>A retry, after any calls in between, returns the same record and does not create.\<close>

lemma retry:
  assumes "create i s = (Inr (v, c), s1)" "s2 = snd (run_ops create is s1)"
    and "key j = key i" "create j s2 = (Inr (w, c'), s3)"
  shows "\<not> c' \<and> ident w = ident v"
proof -
  obtain u where "lookup s2 (key i) = Some u" "ident u = ident v"
    using run_ident [OF create_lookup [OF assms(1)]] assms(2) by blast
  then show ?thesis using create_known [of s2 j u w c' s3] assms(3,4) by auto
qed

lemma known_no_creations:
  "lookup s k = Some v \<Longrightarrow> creations key k is (fst (run_ops create is s)) = 0"
proof (induction "is" arbitrary: s v)
  case (Cons i "is")
  obtain r s1 where c: "create i s = (r, s1)" by (cases "create i s") auto
  obtain w where "lookup s1 k = Some w" using create_ident [OF Cons.prems] c by (metis snd_conv)
  then have "creations key k is (fst (run_ops create is s1)) = 0" by (rule Cons.IH)
  moreover have "\<not> (key i = k \<and> was_created r)"
  proof (cases r)
    case (Inr p)
    then have "create i s = (Inr (fst p, snd p), s1)" using c by simp
    then have "key i = k \<longrightarrow> \<not> snd p" using create_known Cons.prems by blast
    with Inr show ?thesis by (cases p) auto
  qed simp
  ultimately show ?case by (simp add: c creations_def)
qed (simp add: creations_def)

text \<open>Over any sequence of calls a key is created at most once.\<close>

lemma at_most_once: "creations key k is (fst (run_ops create is s)) \<le> 1"
proof (induction "is" arbitrary: s)
  case (Cons i "is")
  obtain r s1 where c: "create i s = (r, s1)" by (cases "create i s") auto
  show ?case
  proof (cases "key i = k \<and> was_created r")
    case True
    then obtain v where "create i s = (Inr (v, True), s1)"
      using c by (cases r) auto
    then have "lookup s1 k = Some v" using create_lookup True by blast
    then have "creations key k is (fst (run_ops create is s1)) = 0" by (rule known_no_creations)
    with True show ?thesis by (simp add: c creations_def)
  next
    case False
    then have "creations key k (i # is) (fst (run_ops create (i # is) s))
        = creations key k is (fst (run_ops create is s1))"
      by (auto simp add: c creations_def)
    then show ?thesis using Cons.IH [of s1] by simp
  qed
qed (simp add: creations_def)

end

end
