(* ===== verification/Plan.thy ===== *)
theory Plan
  imports Cursor Idempotent_Store
begin

text \<open>
  Package \<open>internal/plan\<close>: the repository over table \<open>plans\<close>, the service with its validation, and
  the HTTP handlers. A plan is created by slug with an upsert: the slug of a tenant names one plan
  for ever, and creating it again returns the stored plan with only \<open>updated_at\<close> changed.
\<close>

section \<open>Inputs\<close>

record create_plan_input =
  cp_Slug :: string
  cp_Name :: string
  cp_Description :: string
  cp_Amount :: int64
  cp_Currency :: string
  cp_Interval :: string
  cp_IntervalCount :: int64
  cp_TrialDays :: int64

record update_plan_input =
  up_Name :: "string option"
  up_Description :: "string option"
  up_IsActive :: "bool option"

record list_plans_input =
  lp_IsActive :: "bool option"
  lp_Limit :: int64
  lp_Cursor :: string

record list_plans_result =
  lpr_Plans :: "plan list"
  lpr_NextCursor :: string

section \<open>Repository\<close>

definition plan_constraints :: "plan \<Rightarrow> gerror option" where
  "plan_constraints p = check (plan_Interval p \<in> set all_intervals) (check_violation ''plans'' ''plans_interval_check'')"

definition plan_row :: "uuid \<Rightarrow> uuid \<Rightarrow> create_plan_input \<Rightarrow> gtime \<Rightarrow> plan" where
  "plan_row pid tenantID input now =
     \<lparr>plan_ID = pid, plan_TenantID = tenantID, plan_Slug = cp_Slug input, plan_Name = cp_Name input,
      plan_Description = cp_Description input, plan_Amount = cp_Amount input,
      plan_Currency = cp_Currency input, plan_Interval = cp_Interval input,
      plan_IntervalCount = cp_IntervalCount input, plan_TrialDays = cp_TrialDays input,
      plan_IsActive = True, plan_CreatedAt = now, plan_UpdatedAt = now\<rparr>"

definition plan_slug_key :: "plan \<Rightarrow> uuid \<times> string" where
  "plan_slug_key p = (plan_TenantID p, plan_Slug p)"

definition plan_by_slug :: "sys \<Rightarrow> uuid \<times> string \<Rightarrow> plan option" where
  "plan_by_slug s k = find (\<lambda>p. plan_slug_key p = k) (plans s)"

text \<open>\<open>INSERT .. ON CONFLICT (tenant_id, slug) DO UPDATE SET updated_at = now()\<close>. The flag is the
  query's \<open>xmax = 0\<close>: the row was inserted and not updated.\<close>

definition plan_insert :: "uuid \<Rightarrow> create_plan_input \<Rightarrow> sys \<Rightarrow> (gerror + plan \<times> bool) \<times> sys" where
  "plan_insert tenantID input s =
     (case first_error [check (int4_ok (cp_IntervalCount input)) int4_overflow,
                        check (int4_ok (cp_TrialDays input)) int4_overflow] of
        Some err \<Rightarrow> (Inl err, s)
      | None \<Rightarrow>
         (let p = plan_row (next_uuid s) tenantID input (db_now s); s1 = draw s
          in case first_error [rls_check s ''plans'' tenantID, plan_constraints p] of
               Some err \<Rightarrow> (Inl err, s1)
             | None \<Rightarrow>
                (case plan_by_slug s (plan_slug_key p) of
                   Some old \<Rightarrow>
                     (Inr (old\<lparr>plan_UpdatedAt := db_now s\<rparr>, False),
                      s1\<lparr>plans := update_where (\<lambda>q. plan_slug_key q = plan_slug_key p)
                                     (\<lambda>q. q\<lparr>plan_UpdatedAt := db_now s\<rparr>) (plans s)\<rparr>)
                 | None \<Rightarrow>
                     (case first_error
                             [check (plan_ID p \<notin> plan_ID ` set (plans s)) (unique_violation ''plans_pkey''),
                              check (tenantID \<in> tn_ID ` set (tenants s))
                                (fk_violation ''plans'' ''plans_tenant_id_fkey'')] of
                        Some err \<Rightarrow> (Inl err, s1)
                      | None \<Rightarrow> (Inr (p, True), s1\<lparr>plans := plans s @ [p]\<rparr>)))))"

definition plan_repo_Upsert :: "uuid \<Rightarrow> create_plan_input \<Rightarrow> sys \<Rightarrow> (gerror + plan \<times> bool) \<times> sys" where
  "plan_repo_Upsert tenantID input s =
     (case plan_insert tenantID input s of
        (Inl err, s') \<Rightarrow> (Inl (Wrap ''upsert plan'' err), s')
      | (Inr res, s') \<Rightarrow> (Inr res, s'))"

definition plan_repo_GetByID :: "uuid \<Rightarrow> sys \<Rightarrow> gerror + plan" where
  "plan_repo_GetByID pid s =
     not_found_or_wrap ''get plan by id''
       (query_row s plan_TenantID (\<lambda>p. plan_ID p = pid) (plans s))"

definition plan_repo_GetBySlug :: "uuid \<Rightarrow> string \<Rightarrow> sys \<Rightarrow> gerror + plan" where
  "plan_repo_GetBySlug tenantID slug s =
     not_found_or_wrap ''get plan by slug''
       (query_row s plan_TenantID (\<lambda>p. plan_TenantID p = tenantID \<and> plan_Slug p = slug) (plans s))"

text \<open>The columns of the dynamic SET clause: each field that the request gave.\<close>

definition plan_patch :: "gtime \<Rightarrow> update_plan_input \<Rightarrow> plan \<Rightarrow> plan" where
  "plan_patch now input p =
     (let p = p\<lparr>plan_UpdatedAt := now\<rparr>;
          p = (case up_Name input of None \<Rightarrow> p | Some n \<Rightarrow> p\<lparr>plan_Name := n\<rparr>);
          p = (case up_Description input of None \<Rightarrow> p | Some d \<Rightarrow> p\<lparr>plan_Description := d\<rparr>)
      in (case up_IsActive input of None \<Rightarrow> p | Some a \<Rightarrow> p\<lparr>plan_IsActive := a\<rparr>))"

definition plan_repo_Update :: "uuid \<Rightarrow> update_plan_input \<Rightarrow> sys \<Rightarrow> (gerror + plan) \<times> sys" where
  "plan_repo_Update pid input s =
     (case update_rows s plan_TenantID (\<lambda>p. plan_ID p = pid) (plan_patch (db_now s) input)
             plan_constraints (plans s) of
        Inl err \<Rightarrow> (Inl (Wrap ''update plan'' err), s)
      | Inr ([], ps) \<Rightarrow> (Inl (Sentinel ErrNotFound), s)
      | Inr (p # _, ps) \<Rightarrow> (Inr p, s\<lparr>plans := ps\<rparr>))"

definition plan_list_filter ::
  "uuid \<Rightarrow> list_plans_input \<Rightarrow> (gtime \<times> uuid) option \<Rightarrow> plan \<Rightarrow> bool" where
  "plan_list_filter tenantID input cursor p \<longleftrightarrow>
     plan_TenantID p = tenantID
     \<and> (case lp_IsActive input of None \<Rightarrow> True | Some a \<Rightarrow> plan_IsActive p = a)
     \<and> after_cursor cursor (plan_CreatedAt p) (plan_ID p)"

definition plan_order :: "plan \<Rightarrow> gtime \<times> uuid" where
  "plan_order p = (plan_CreatedAt p, plan_ID p)"

definition plan_repo_List ::
  "(string \<Rightarrow> uuid option) \<Rightarrow> (uuid \<Rightarrow> string) \<Rightarrow> uuid \<Rightarrow> list_plans_input \<Rightarrow> sys
    \<Rightarrow> gerror + list_plans_result" where
  "plan_repo_List uuid_parse uuid_string tenantID input s =
     (let limit = repo_limit (lp_Limit input)
      in case list_cursor uuid_parse (lp_Cursor input) of
           Inl err \<Rightarrow> Inl err
         | Inr cursor \<Rightarrow>
            (case first_error [session_check s, limit_check limit] of
               Some err \<Rightarrow> Inl (Wrap ''list plans'' err)
             | None \<Rightarrow>
                (let n = nat (sint limit);
                     rows = page (n + 1) plan_order
                              (\<lambda>p. visible s (plan_TenantID p) \<and> plan_list_filter tenantID input cursor p)
                              (plans s);
                     (ps, next_cursor) = cut_page uuid_string plan_CreatedAt plan_ID n rows
                 in Inr \<lparr>lpr_Plans = ps, lpr_NextCursor = next_cursor\<rparr>)))"

definition plan_repo_Delete :: "uuid \<Rightarrow> sys \<Rightarrow> (gerror + unit) \<times> sys" where
  "plan_repo_Delete pid s =
     (case update_rows s plan_TenantID (\<lambda>p. plan_ID p = pid)
             (\<lambda>p. p\<lparr>plan_IsActive := False, plan_UpdatedAt := db_now s\<rparr>) plan_constraints (plans s) of
        Inl err \<Rightarrow> (Inl (Wrap ''delete plan'' err), s)
      | Inr (_, ps) \<Rightarrow> (Inr (), s\<lparr>plans := ps\<rparr>))"

section \<open>Service\<close>

definition isAlphanumericLower :: "char \<Rightarrow> bool" where
  "isAlphanumericLower ch \<longleftrightarrow>
     (CHR ''a'' \<le> ch \<and> ch \<le> CHR ''z'') \<or> (CHR ''0'' \<le> ch \<and> ch \<le> CHR ''9'')"

definition isValidSlugFormat :: "string \<Rightarrow> bool" where
  "isValidSlugFormat slug \<longleftrightarrow>
     (if length slug = 0 \<or> 64 < length slug then False
      else if length slug = 1 then isAlphanumericLower (slug ! 0)
      else if \<not> isAlphanumericLower (slug ! 0) \<or> \<not> isAlphanumericLower (slug ! (length slug - 1)) then False
      else list_all (\<lambda>ch. isAlphanumericLower ch \<or> ch = CHR ''-'') slug)"

definition validateCreateInput :: "create_plan_input \<Rightarrow> gerror option" where
  "validateCreateInput input =
     (let slug = to_lower (trim_space (cp_Slug input))
      in validation_err (collect
           [NonEmpty ''name'' (cp_Name input),
            MaxLength ''name'' (cp_Name input) 255,
            NonEmpty ''slug'' (cp_Slug input),
            (if slug \<noteq> [] \<and> \<not> isValidSlugFormat slug
             then Some (field_err ''slug'' ''must be lowercase alphanumeric with hyphens, 1-64 chars'')
             else None),
            PositiveInt ''amount'' (cp_Amount input),
            (if cp_Currency input \<noteq> [] then ISOCurrency ''currency'' (cp_Currency input) else None),
            (if cp_Interval input \<noteq> [] then ValidEnum ''interval'' (cp_Interval input) all_intervals else None),
            (if i64_less (cp_TrialDays input) 0
             then Some (field_err ''trial_days'' ''must not be negative'') else None)]))"

definition validateUpdateInput :: "update_plan_input \<Rightarrow> gerror option" where
  "validateUpdateInput input =
     validation_err (collect
       (case up_Name input of None \<Rightarrow> [] | Some n \<Rightarrow> [NonEmpty ''name'' n, MaxLength ''name'' n 255]))"

definition plan_defaults :: "create_plan_input \<Rightarrow> create_plan_input" where
  "plan_defaults input =
     (let input = (if cp_Currency input = [] then input\<lparr>cp_Currency := ''ARS''\<rparr> else input);
          input = (if cp_IntervalCount input = 0 then input\<lparr>cp_IntervalCount := 1\<rparr> else input)
      in input\<lparr>cp_Slug := to_lower (trim_space (cp_Slug input))\<rparr>)"

definition plan_svc_CreateOrGet ::
  "go_context \<Rightarrow> create_plan_input \<Rightarrow> sys \<Rightarrow> (gerror + plan \<times> bool) \<times> sys" where
  "plan_svc_CreateOrGet ctx input s =
     (let tenantID = TenantIDFromContext ctx
      in if tenantID = uuid_nil then (Inl (Sentinel ErrMissingTenantID), s)
         else case validateCreateInput input of
                Some err \<Rightarrow> (Inl err, s)
              | None \<Rightarrow>
                  (case plan_repo_Upsert tenantID (plan_defaults input) s of
                     (Inl err, s') \<Rightarrow> (Inl (Wrap ''creating plan'' err), s')
                   | (Inr res, s') \<Rightarrow> (Inr res, s')))"

definition plan_svc_GetByID :: "uuid \<Rightarrow> sys \<Rightarrow> gerror + plan" where
  "plan_svc_GetByID pid s = plan_repo_GetByID pid s"

definition plan_svc_GetBySlug :: "go_context \<Rightarrow> string \<Rightarrow> sys \<Rightarrow> gerror + plan" where
  "plan_svc_GetBySlug ctx slug s =
     (let tenantID = TenantIDFromContext ctx
      in if tenantID = uuid_nil then Inl (Sentinel ErrMissingTenantID)
         else plan_repo_GetBySlug tenantID (to_lower (trim_space slug)) s)"

definition plan_svc_Update :: "uuid \<Rightarrow> update_plan_input \<Rightarrow> sys \<Rightarrow> (gerror + plan) \<times> sys" where
  "plan_svc_Update pid input s =
     (case validateUpdateInput input of
        Some err \<Rightarrow> (Inl err, s)
      | None \<Rightarrow> plan_repo_Update pid input s)"

definition plan_svc_List ::
  "(string \<Rightarrow> uuid option) \<Rightarrow> (uuid \<Rightarrow> string) \<Rightarrow> go_context \<Rightarrow> list_plans_input \<Rightarrow> sys
    \<Rightarrow> gerror + list_plans_result" where
  "plan_svc_List uuid_parse uuid_string ctx input s =
     (let tenantID = TenantIDFromContext ctx
      in if tenantID = uuid_nil then Inl (Sentinel ErrMissingTenantID)
         else plan_repo_List uuid_parse uuid_string tenantID
                (input\<lparr>lp_Limit := service_limit (lp_Limit input)\<rparr>) s)"

definition plan_svc_Delete :: "uuid \<Rightarrow> sys \<Rightarrow> (gerror + unit) \<times> sys" where
  "plan_svc_Delete pid s =
     (case plan_repo_Delete pid s of
        (Inl err, s') \<Rightarrow> (Inl (Wrap ''deleting plan'' err), s')
      | (Inr u, s') \<Rightarrow> (Inr u, s'))"

section \<open>Handlers\<close>

text \<open>The request body is what \<open>json.Decode\<close> made of it; \<open>uuid_parse\<close> is applied to the URL parameter,
  and its failure is a plain error of the package.\<close>

definition parse_id :: "(string \<Rightarrow> uuid option) \<Rightarrow> string \<Rightarrow> gerror + uuid" where
  "parse_id uuid_parse x =
     (case uuid_parse x of None \<Rightarrow> Inl (Plain ''invalid UUID'') | Some i \<Rightarrow> Inr i)"

definition plan_handler_CreateOrGet ::
  "go_context \<Rightarrow> gerror + create_plan_input \<Rightarrow> sys \<Rightarrow> plan response \<times> sys" where
  "plan_handler_CreateOrGet ctx body s =
     (case body of
        Inl err \<Rightarrow> (RespondError ctx err, s)
      | Inr input \<Rightarrow>
         (case plan_svc_CreateOrGet ctx input s of
            (Inl err, s') \<Rightarrow> (RespondError ctx err, s')
          | (Inr (p, created), s') \<Rightarrow> (if created then RespondCreated p else RespondOK p, s')))"

definition plan_handler_List ::
  "(string \<Rightarrow> uuid option) \<Rightarrow> (uuid \<Rightarrow> string) \<Rightarrow> go_context \<Rightarrow> string \<Rightarrow> string \<Rightarrow> string \<Rightarrow> sys
    \<Rightarrow> list_plans_result response" where
  "plan_handler_List uuid_parse uuid_string ctx limit_q cursor_q is_active_q s =
     (let isActive = (if is_active_q = ''true'' then Some True
                      else if is_active_q = ''false'' then Some False else None)
      in respond ctx RespondOK
           (plan_svc_List uuid_parse uuid_string ctx
              \<lparr>lp_IsActive = isActive, lp_Limit = query_limit limit_q, lp_Cursor = cursor_q\<rparr> s))"

definition plan_handler_GetByID ::
  "(string \<Rightarrow> uuid option) \<Rightarrow> go_context \<Rightarrow> string \<Rightarrow> sys \<Rightarrow> plan response" where
  "plan_handler_GetByID uuid_parse ctx planID s =
     respond ctx (\<lambda>pid. respond ctx RespondOK (plan_svc_GetByID pid s)) (parse_id uuid_parse planID)"

text \<open>\<open>RespondError(w, r, nil)\<close> calls \<open>Error\<close> on a nil interface.\<close>

definition plan_handler_GetBySlug :: "go_context \<Rightarrow> string \<Rightarrow> sys \<Rightarrow> plan response" where
  "plan_handler_GetBySlug ctx slug s =
     (if slug = [] then Panicked else respond ctx RespondOK (plan_svc_GetBySlug ctx slug s))"

definition plan_handler_Update ::
  "(string \<Rightarrow> uuid option) \<Rightarrow> go_context \<Rightarrow> string \<Rightarrow> gerror + update_plan_input \<Rightarrow> sys
    \<Rightarrow> plan response \<times> sys" where
  "plan_handler_Update uuid_parse ctx planID body s =
     (case parse_id uuid_parse planID of
        Inl err \<Rightarrow> (RespondError ctx err, s)
      | Inr pid \<Rightarrow>
         (case body of
            Inl err \<Rightarrow> (RespondError ctx err, s)
          | Inr input \<Rightarrow>
             (case plan_svc_Update pid input s of
                (Inl err, s') \<Rightarrow> (RespondError ctx err, s')
              | (Inr p, s') \<Rightarrow> (RespondOK p, s'))))"

definition plan_handler_Delete ::
  "(string \<Rightarrow> uuid option) \<Rightarrow> go_context \<Rightarrow> string \<Rightarrow> sys \<Rightarrow> unit response \<times> sys" where
  "plan_handler_Delete uuid_parse ctx planID s =
     (case parse_id uuid_parse planID of
        Inl err \<Rightarrow> (RespondError ctx err, s)
      | Inr pid \<Rightarrow>
         (case plan_svc_Delete pid s of
            (Inl err, s') \<Rightarrow> (RespondError ctx err, s')
          | (Inr u, s') \<Rightarrow> (No_Content, s')))"

section \<open>Validation\<close>

lemma plan_defaults_simps [simp]:
  "cp_Slug (plan_defaults input) = to_lower (trim_space (cp_Slug input))"
  "cp_Name (plan_defaults input) = cp_Name input"
  "cp_Amount (plan_defaults input) = cp_Amount input"
  "cp_Currency (plan_defaults input) = (if cp_Currency input = [] then ''ARS'' else cp_Currency input)"
  "cp_Interval (plan_defaults input) = cp_Interval input"
  "cp_TrialDays (plan_defaults input) = cp_TrialDays input"
  "cp_IntervalCount (plan_defaults input) = (if cp_IntervalCount input = 0 then 1 else cp_IntervalCount input)"
  by (simp_all add: plan_defaults_def Let_def)

lemma no_interval: "[] \<notin> set all_intervals"
  by code_simp

lemma validateCreateInput_None:
  "validateCreateInput input = None \<longleftrightarrow>
     trim_space (cp_Name input) \<noteq> [] \<and> length (cp_Name input) \<le> 255
     \<and> trim_space (cp_Slug input) \<noteq> [] \<and> isValidSlugFormat (to_lower (trim_space (cp_Slug input)))
     \<and> 0 < sint (cp_Amount input)
     \<and> (cp_Currency input = [] \<or> to_upper (cp_Currency input) \<in> set supported_currencies)
     \<and> (cp_Interval input = [] \<or> cp_Interval input \<in> set all_intervals)
     \<and> 0 \<le> sint (cp_TrialDays input)"
  unfolding validateCreateInput_def Let_def validation_err_None collect_eq_Nil
  by (simp add: validator_None to_lower_def not_less)

section \<open>The table\<close>

text \<open>The constraints of the schema, as an invariant: primary key, one plan per tenant and slug, the
  interval check, and the foreign key to \<open>tenants\<close>.\<close>

definition plans_ok :: "sys \<Rightarrow> bool" where
  "plans_ok s \<longleftrightarrow> distinct (map plan_ID (plans s)) \<and> distinct (map plan_slug_key (plans s))
     \<and> (\<forall>p \<in> set (plans s). plan_Interval p \<in> set all_intervals \<and> plan_TenantID p \<in> tn_ID ` set (tenants s))"

lemma plan_patch_simps [simp]:
  "plan_ID (plan_patch now input p) = plan_ID p"
  "plan_TenantID (plan_patch now input p) = plan_TenantID p"
  "plan_Slug (plan_patch now input p) = plan_Slug p"
  "plan_slug_key (plan_patch now input p) = plan_slug_key p"
  "plan_Interval (plan_patch now input p) = plan_Interval p"
  "plan_Amount (plan_patch now input p) = plan_Amount p"
  "plan_Currency (plan_patch now input p) = plan_Currency p"
  "plan_IntervalCount (plan_patch now input p) = plan_IntervalCount p"
  "plan_TrialDays (plan_patch now input p) = plan_TrialDays p"
  "plan_CreatedAt (plan_patch now input p) = plan_CreatedAt p"
  by (simp_all add: plan_patch_def plan_slug_key_def Let_def split: option.split)

lemma plan_constraints_None: "plan_constraints p = None \<longleftrightarrow> plan_Interval p \<in> set all_intervals"
  by (simp add: plan_constraints_def check_None)

lemma plan_row_simps [simp]:
  "plan_ID (plan_row i t input now) = i" "plan_TenantID (plan_row i t input now) = t"
  "plan_Interval (plan_row i t input now) = cp_Interval input"
  "plan_slug_key (plan_row i t input now) = (t, cp_Slug input)"
  by (simp_all add: plan_row_def plan_slug_key_def)

text \<open>An update of rows that keeps the columns of the invariant keeps the invariant.\<close>

lemma plans_ok_update:
  assumes "plans_ok s"
    and "\<And>p. plan_ID (f p) = plan_ID p \<and> plan_slug_key (f p) = plan_slug_key p \<and> plan_Interval (f p) = plan_Interval p"
  shows "plans_ok (s\<lparr>plans := update_where P f (plans s)\<rparr>)"
proof -
  have t: "plan_TenantID (f p) = plan_TenantID p" for p
    using assms(2) [of p] by (simp add: plan_slug_key_def)
  have "map plan_ID (update_where P f (plans s)) = map plan_ID (plans s)"
    "map plan_slug_key (update_where P f (plans s)) = map plan_slug_key (plans s)"
    using assms(2) by (auto intro: map_update_where)
  then show ?thesis
    using assms t by (auto simp: plans_ok_def set_update_where)
qed

section \<open>The upsert\<close>

text \<open>The three outcomes of the statement: a new row, the old row with a new \<open>updated_at\<close>, or an
  error that leaves the table alone.\<close>

lemma plan_insert_cases:
  assumes "plan_insert t input s = (r, s')"
  obtains (created) p where "r = Inr (p, True)" "s' = draw s\<lparr>plans := plans s @ [p]\<rparr>"
      "p = plan_row (next_uuid s) t input (db_now s)" "plan_by_slug s (t, cp_Slug input) = None"
      "plan_ID p \<notin> plan_ID ` set (plans s)" "cp_Interval input \<in> set all_intervals"
      "t \<in> tn_ID ` set (tenants s)" "visible s t"
  | (existing) old where "r = Inr (old\<lparr>plan_UpdatedAt := db_now s\<rparr>, False)"
      "plan_by_slug s (t, cp_Slug input) = Some old" "visible s t"
      "s' = draw s\<lparr>plans := update_where (\<lambda>q. plan_slug_key q = (t, cp_Slug input))
                               (\<lambda>q. q\<lparr>plan_UpdatedAt := db_now s\<rparr>) (plans s)\<rparr>"
  | (failed) e where "r = Inl e" "s' = s \<or> s' = draw s"
proof -
  let ?p = "plan_row (next_uuid s) t input (db_now s)"
  let ?int4 = "first_error [check (int4_ok (cp_IntervalCount input)) int4_overflow,
                            check (int4_ok (cp_TrialDays input)) int4_overflow]"
  let ?row = "first_error [rls_check s ''plans'' t, plan_constraints ?p]"
  let ?new = "first_error [check (plan_ID ?p \<notin> plan_ID ` set (plans s)) (unique_violation ''plans_pkey''),
                check (t \<in> tn_ID ` set (tenants s)) (fk_violation ''plans'' ''plans_tenant_id_fkey'')]"
  show thesis
  proof (cases ?int4)
    case (Some e)
    with assms show ?thesis by (intro failed [of e]) (simp_all add: plan_insert_def)
  next
    case int4: None
    show ?thesis
    proof (cases ?row)
      case (Some e)
      with assms int4 show ?thesis by (intro failed [of e]) (simp_all add: plan_insert_def Let_def)
    next
      case row: None
      then have v: "visible s t" "cp_Interval input \<in> set all_intervals"
        by (simp_all add: first_error_None rls_check_None plan_constraints_None)
      show ?thesis
      proof (cases "plan_by_slug s (t, cp_Slug input)")
        case (Some old)
        with assms int4 row v show ?thesis
          by (intro existing [of old]) (simp_all add: plan_insert_def Let_def)
      next
        case slug: None
        show ?thesis
        proof (cases ?new)
          case (Some e)
          with assms int4 row slug show ?thesis
            by (intro failed [of e]) (simp_all add: plan_insert_def Let_def)
        next
          case None
          then have "plan_ID ?p \<notin> plan_ID ` set (plans s)" "t \<in> tn_ID ` set (tenants s)"
            by (simp_all add: first_error_None check_None)
          with assms int4 row slug None v show ?thesis
            by (intro created [of ?p]) (simp_all add: plan_insert_def Let_def)
        qed
      qed
    qed
  qed
qed

lemma plan_repo_Upsert_Inr:
  "plan_repo_Upsert t input s = (Inr x, s') \<longleftrightarrow> plan_insert t input s = (Inr x, s')"
  by (auto simp: plan_repo_Upsert_def split: prod.splits sum.splits)

lemma plan_repo_Upsert_Inl:
  "plan_repo_Upsert t input s = (Inl e, s') \<Longrightarrow> \<exists>e'. plan_insert t input s = (Inl e', s')"
  by (auto simp: plan_repo_Upsert_def split: prod.splits sum.splits)

lemma snd_plan_repo_Upsert: "snd (plan_repo_Upsert t input s) = snd (plan_insert t input s)"
  by (auto simp: plan_repo_Upsert_def split: prod.splits sum.splits)

lemma plan_by_slug_draw [simp]: "plan_by_slug (draw s) = plan_by_slug s"
  by (simp add: plan_by_slug_def fun_eq_iff)

lemma plan_by_slug_touch:
  "find (\<lambda>p. plan_slug_key p = k)
     (update_where P (\<lambda>q. q\<lparr>plan_UpdatedAt := now\<rparr>) ps)
   = map_option (\<lambda>q. if P q then q\<lparr>plan_UpdatedAt := now\<rparr> else q) (find (\<lambda>p. plan_slug_key p = k) ps)"
  by (rule find_update_where) (simp add: plan_slug_key_def)

lemma plan_by_slug_key: "plan_by_slug s k = Some p \<Longrightarrow> plan_slug_key p = k"
  by (auto simp: plan_by_slug_def dest: find_SomeD)

definition upsert_call :: "uuid \<times> create_plan_input \<Rightarrow> sys \<Rightarrow> (gerror + plan \<times> bool) \<times> sys" where
  "upsert_call c s = plan_repo_Upsert (fst c) (snd c) s"

definition upsert_key :: "uuid \<times> create_plan_input \<Rightarrow> uuid \<times> string" where
  "upsert_key c = (fst c, cp_Slug (snd c))"

lemma upsert_new:
  assumes "upsert_call c s = (Inr (v, True), s')"
  shows "plan_by_slug s (upsert_key c) = None \<and> plan_by_slug s' (upsert_key c) = Some v"
proof -
  have "plan_insert (fst c) (snd c) s = (Inr (v, True), s')"
    using assms by (simp add: upsert_call_def plan_repo_Upsert_Inr)
  then show ?thesis
    by (cases rule: plan_insert_cases)
      (auto simp: upsert_key_def plan_by_slug_def find_append)
qed

lemma upsert_dup:
  assumes "upsert_call c s = (Inr (v, False), s')"
  shows "\<exists>w. plan_by_slug s (upsert_key c) = Some w \<and> plan_ID w = plan_ID v
           \<and> plan_by_slug s' (upsert_key c) = Some v"
proof -
  have "plan_insert (fst c) (snd c) s = (Inr (v, False), s')"
    using assms by (simp add: upsert_call_def plan_repo_Upsert_Inr)
  then show ?thesis
  proof (cases rule: plan_insert_cases)
    case (existing old)
    then have "plan_slug_key old = upsert_key c" by (auto simp: upsert_key_def dest: plan_by_slug_key)
    with existing show ?thesis
      by (auto simp: upsert_key_def plan_by_slug_def plan_by_slug_touch)
  qed auto
qed

lemma upsert_err:
  assumes "upsert_call c s = (Inl e, s')"
  shows "plan_by_slug s' k = plan_by_slug s k"
proof -
  obtain e' where "plan_insert (fst c) (snd c) s = (Inl e', s')"
    using assms plan_repo_Upsert_Inl unfolding upsert_call_def by blast
  then show ?thesis by (cases rule: plan_insert_cases) auto
qed

lemma upsert_frame:
  assumes "k \<noteq> upsert_key c"
  shows "plan_by_slug (snd (upsert_call c s)) k = plan_by_slug s k"
proof -
  obtain r s' where c: "plan_insert (fst c) (snd c) s = (r, s')" by fastforce
  then have s': "snd (upsert_call c s) = s'" by (simp add: upsert_call_def snd_plan_repo_Upsert)
  show ?thesis
    using c
  proof (cases rule: plan_insert_cases)
    case (created p)
    then have "plan_slug_key p \<noteq> k" using assms by (simp add: upsert_key_def)
    then show ?thesis unfolding s' created(2)
      by (simp add: plan_by_slug_def find_append split: option.split)
  next
    case (existing old)
    have "map_option (\<lambda>q. if plan_slug_key q = upsert_key c then q\<lparr>plan_UpdatedAt := db_now s\<rparr> else q)
            (find (\<lambda>p. plan_slug_key p = k) (plans s)) = find (\<lambda>p. plan_slug_key p = k) (plans s)"
      using assms by (cases "find (\<lambda>p. plan_slug_key p = k) (plans s)") (auto dest: find_SomeD)
    then show ?thesis unfolding s' existing(4)
      by (simp add: plan_by_slug_def plan_by_slug_touch upsert_key_def)
  next
    case (failed e)
    then show ?thesis unfolding s' by auto
  qed
qed

interpretation plan_store: idempotent_store upsert_call upsert_key plan_by_slug plan_ID
  by unfold_locales (auto simp: upsert_new upsert_dup upsert_err upsert_frame)

section \<open>The plan store over time\<close>

text \<open>The columns that no operation writes after the insertion: the identity and the billing terms.\<close>

definition plan_terms ::
  "plan \<Rightarrow> (uuid \<times> uuid \<times> string) \<times> (int64 \<times> string \<times> string \<times> int64 \<times> int64) \<times> gtime" where
  "plan_terms p =
     ((plan_ID p, plan_TenantID p, plan_Slug p),
      (plan_Amount p, plan_Currency p, plan_Interval p, plan_IntervalCount p, plan_TrialDays p),
      plan_CreatedAt p)"

text \<open>One request on plans, or a step of the rest of the system, which leaves the plans alone and
  never removes a tenant.\<close>

inductive plan_step :: "sys \<Rightarrow> sys \<Rightarrow> bool" where
  step_create: "plan_step s (snd (plan_svc_CreateOrGet ctx input s))"
| step_update: "plan_step s (snd (plan_svc_Update pid patch s))"
| step_delete: "plan_step s (snd (plan_svc_Delete pid s))"
| step_other: "plans s' = plans s \<Longrightarrow> tn_ID ` set (tenants s) \<subseteq> tn_ID ` set (tenants s') \<Longrightarrow> plan_step s s'"

lemma plan_terms_simps [simp]:
  "plan_terms (plan_patch now input p) = plan_terms p"
  "plan_terms (p\<lparr>plan_UpdatedAt := now\<rparr>) = plan_terms p"
  "plan_terms (p\<lparr>plan_IsActive := a\<rparr>) = plan_terms p"
  "plan_slug_key (p\<lparr>plan_UpdatedAt := now\<rparr>) = plan_slug_key p"
  by (simp_all add: plan_terms_def plan_patch_def plan_slug_key_def Let_def split: option.split)

lemma plan_terms_eqD:
  "plan_terms p = plan_terms q \<Longrightarrow>
     plan_ID p = plan_ID q \<and> plan_slug_key p = plan_slug_key q \<and> plan_TenantID p = plan_TenantID q
     \<and> plan_Interval p = plan_Interval q"
  by (simp add: plan_terms_def plan_slug_key_def)

lemma plan_svc_CreateOrGet_Inr:
  "plan_svc_CreateOrGet ctx input s = (Inr x, s') \<longleftrightarrow>
     TenantIDFromContext ctx \<noteq> 0 \<and> validateCreateInput input = None
     \<and> plan_insert (TenantIDFromContext ctx) (plan_defaults input) s = (Inr x, s')"
  by (auto simp: plan_svc_CreateOrGet_def plan_repo_Upsert_def Let_def split: option.splits sum.splits prod.splits)

lemma snd_plan_svc_CreateOrGet:
  "snd (plan_svc_CreateOrGet ctx input s) = s
   \<or> snd (plan_svc_CreateOrGet ctx input s) = snd (plan_insert (TenantIDFromContext ctx) (plan_defaults input) s)"
  by (auto simp: plan_svc_CreateOrGet_def plan_repo_Upsert_def Let_def split: option.splits sum.splits prod.splits)

lemma snd_plan_svc_Update:
  "snd (plan_svc_Update pid patch s) = s
   \<or> (\<exists>P. snd (plan_svc_Update pid patch s) = s\<lparr>plans := update_where P (plan_patch (db_now s) patch) (plans s)\<rparr>)"
  by (auto simp: plan_svc_Update_def plan_repo_Update_def split: option.splits sum.splits list.splits prod.splits
      dest!: update_rows_Inr(1))

lemma snd_plan_svc_Delete:
  "snd (plan_svc_Delete pid s) = s
   \<or> (\<exists>P. snd (plan_svc_Delete pid s) =
        s\<lparr>plans := update_where P (\<lambda>p. p\<lparr>plan_IsActive := False, plan_UpdatedAt := db_now s\<rparr>) (plans s)\<rparr>)"
  by (auto simp: plan_svc_Delete_def plan_repo_Delete_def split: option.splits sum.splits prod.splits
      dest!: update_rows_Inr(1))

lemma plan_insert_terms:
  "prefix (map plan_terms (plans s)) (map plan_terms (plans (snd (plan_insert t input s))))"
proof -
  obtain r s' where c: "plan_insert t input s = (r, s')" by fastforce
  then show ?thesis
    by (cases rule: plan_insert_cases) (auto simp: map_update_where c)
qed

lemma plan_insert_ok:
  assumes "plans_ok s"
  shows "plans_ok (snd (plan_insert t input s))"
proof -
  have ok: "plans_ok (draw s)" using assms by (simp add: plans_ok_def)
  obtain r s' where c: "plan_insert t input s = (r, s')" by fastforce
  then show ?thesis
  proof (cases rule: plan_insert_cases)
    case (created p)
    have "plan_slug_key p \<notin> plan_slug_key ` set (plans s)"
      using created(3,4) by (auto simp: plan_by_slug_def find_None_iff_all)
    with created assms show ?thesis by (auto simp: plans_ok_def c)
  next
    case (existing old)
    have "plans_ok (draw s\<lparr>plans := update_where (\<lambda>q. plan_slug_key q = (t, cp_Slug input))
                    (\<lambda>q. q\<lparr>plan_UpdatedAt := db_now s\<rparr>) (plans (draw s))\<rparr>)"
      by (rule plans_ok_update [OF ok]) (simp add: plan_slug_key_def)
    with existing(4) show ?thesis by (simp add: c)
  next
    case (failed e)
    then show ?thesis using assms ok by (auto simp: c)
  qed
qed

lemma plan_step_terms: "plan_step s s' \<Longrightarrow> prefix (map plan_terms (plans s)) (map plan_terms (plans s'))"
proof (induction rule: plan_step.induct)
  case (step_create s ctx input)
  show ?case
    using snd_plan_svc_CreateOrGet [of ctx input s] plan_insert_terms [of s _ "plan_defaults input"] by auto
next
  case (step_update s pid patch)
  show ?case using snd_plan_svc_Update [of pid patch s] by (auto simp: map_update_where)
next
  case (step_delete s pid)
  show ?case using snd_plan_svc_Delete [of pid s] by (auto simp: map_update_where)
qed simp

lemma plan_steps_terms:
  "plan_step\<^sup>*\<^sup>* s s' \<Longrightarrow> prefix (map plan_terms (plans s)) (map plan_terms (plans s'))"
  by (induction rule: rtranclp_induct) (auto dest: plan_step_terms intro: prefix_order.trans)

lemma plan_step_ok: "plan_step s s' \<Longrightarrow> plans_ok s \<Longrightarrow> plans_ok s'"
proof (induction rule: plan_step.induct)
  case (step_create s ctx input)
  then show ?case
    using snd_plan_svc_CreateOrGet [of ctx input s] plan_insert_ok [of s _ "plan_defaults input"] by auto
next
  case (step_update s pid patch)
  then show ?case
    using snd_plan_svc_Update [of pid patch s] plans_ok_update [of s "plan_patch (db_now s) patch"] by auto
next
  case (step_delete s pid)
  then show ?case
    using snd_plan_svc_Delete [of pid s]
      plans_ok_update [of s "\<lambda>p. p\<lparr>plan_IsActive := False, plan_UpdatedAt := db_now s\<rparr>"]
    by (auto simp: plan_slug_key_def)
next
  case (step_other s' s)
  then show ?case by (auto simp: plans_ok_def)
qed

lemma plan_by_slug_steps:
  assumes "plan_step\<^sup>*\<^sup>* s s'" "plan_by_slug s k = Some p"
  shows "\<exists>q. plan_by_slug s' k = Some q \<and> plan_terms q = plan_terms p"
  using plan_steps_terms [OF assms(1)] assms(2) unfolding plan_by_slug_def
  by (rule find_prefix) (auto dest: plan_terms_eqD)

lemma plan_by_slug_visible:
  assumes "visible s t"
  shows "query_row s plan_TenantID (\<lambda>p. plan_TenantID p = t \<and> plan_Slug p = slug) (plans s) =
    (case plan_by_slug s (t, slug) of None \<Rightarrow> Inl No_Rows | Some p \<Rightarrow> Inr p)"
proof -
  have "find (\<lambda>p. visible s (plan_TenantID p) \<and> plan_TenantID p = t \<and> plan_Slug p = slug) (plans s)
      = plan_by_slug s (t, slug)"
    unfolding plan_by_slug_def plan_slug_key_def by (rule find_cong_set) (use assms in auto)
  then show ?thesis
    using visible_not_unset [OF assms] by (simp add: query_row_def session_check_def)
qed

section \<open>Concrete data for the witnesses\<close>

definition sample_tenant :: tenant where
  "sample_tenant = \<lparr>tn_ID = 7, tn_Name = ''Acme'', tn_Slug = ''acme'', tn_Email = None, tn_IsActive = True,
     tn_DefaultProviderName = ''mercadopago'', tn_CreatedAt = 0, tn_UpdatedAt = 0\<rparr>"

definition sample_sys :: sys where
  "sample_sys = \<lparr>clock = 0, session = Current_Tenant 7, uuids = (\<lambda>n. of_nat n + 100), drawn = 0,
     jsonb = Some, tenants = [sample_tenant], plans = [], subscriptions = [], payments = [], charges = [],
     api_keys = [], credentials = [], users = [], random = (\<lambda>n. CHR ''a''), random_pos = 0,
     idle = [], choices = (\<lambda>n. 0), acquired = 0\<rparr>"

definition sample_ctx :: go_context where
  "sample_ctx = WithTenantID background 7"

definition sample_plan_input :: create_plan_input where
  "sample_plan_input = \<lparr>cp_Slug = ''Pro '', cp_Name = ''Pro'', cp_Description = [], cp_Amount = 1000,
     cp_Currency = [], cp_Interval = ''month'', cp_IntervalCount = 0, cp_TrialDays = 14\<rparr>"

definition sample_plan :: plan where
  "sample_plan = \<lparr>plan_ID = 100, plan_TenantID = 7, plan_Slug = ''pro'', plan_Name = ''Pro'',
     plan_Description = [], plan_Amount = 1000, plan_Currency = ''ARS'', plan_Interval = ''month'',
     plan_IntervalCount = 1, plan_TrialDays = 14, plan_IsActive = True, plan_CreatedAt = 0, plan_UpdatedAt = 0\<rparr>"

definition sample_sys1 :: sys where
  "sample_sys1 = snd (plan_svc_CreateOrGet sample_ctx sample_plan_input sample_sys)"

lemma sample_created_fst: "fst (plan_svc_CreateOrGet sample_ctx sample_plan_input sample_sys) = Inr (sample_plan, True)"
  by code_simp

lemma sample_created: "plan_svc_CreateOrGet sample_ctx sample_plan_input sample_sys = (Inr (sample_plan, True), sample_sys1)"
  by (rule prod_eqI) (simp_all add: sample_created_fst sample_sys1_def)

lemma sample_again_fst: "fst (plan_svc_CreateOrGet sample_ctx sample_plan_input sample_sys1) = Inr (sample_plan, False)"
  by code_simp

lemma sample_again:
  "plan_svc_CreateOrGet sample_ctx sample_plan_input sample_sys1
     = (Inr (sample_plan, False), snd (plan_svc_CreateOrGet sample_ctx sample_plan_input sample_sys1))"
  by (rule prod_eqI) (simp_all add: sample_again_fst)

lemma sample_plans_ok: "plans_ok sample_sys" "plans_ok sample_sys1"
  by code_simp+

section \<open>Properties\<close>

text \<open>C17. A slug names one plan for ever: after a plan was created (or found) under a slug, any later
  create with a spelling of the same slug, whatever requests on plans ran in between (updates and
  deletions included), creates nothing and returns the plan with the same id and the same terms.\<close>

theorem plan_create_idempotent:
  assumes "plan_svc_CreateOrGet ctx input s = (Inr (p, c), s1)"
    and "plan_step\<^sup>*\<^sup>* s1 s2"
    and "plan_svc_CreateOrGet ctx input' s2 = (Inr (q, d), s3)"
    and "to_lower (trim_space (cp_Slug input')) = to_lower (trim_space (cp_Slug input))"
  shows "\<not> d \<and> plan_terms q = plan_terms p"
proof -
  let ?t = "TenantIDFromContext ctx"
  have 1: "upsert_call (?t, plan_defaults input) s = (Inr (p, c), s1)"
    using assms(1) by (simp add: upsert_call_def plan_svc_CreateOrGet_Inr plan_repo_Upsert_Inr)
  have 2: "plan_insert ?t (plan_defaults input') s2 = (Inr (q, d), s3)"
    using assms(3) by (simp add: plan_svc_CreateOrGet_Inr)
  have "plan_by_slug s1 (?t, cp_Slug (plan_defaults input')) = Some p"
    using plan_store.create_lookup [OF 1] assms(4) by (simp add: upsert_key_def)
  then obtain u where u: "plan_by_slug s2 (?t, cp_Slug (plan_defaults input')) = Some u"
      "plan_terms u = plan_terms p"
    using plan_by_slug_steps [OF assms(2)] by blast
  from 2 show ?thesis by (cases rule: plan_insert_cases) (use u in auto)
qed

theorem plan_create_idempotent_witness:
  "\<not> False \<and> plan_terms sample_plan = plan_terms sample_plan"
  by (rule plan_create_idempotent [OF sample_created rtranclp.rtrancl_refl sample_again refl])

text \<open>C18. No sequence of requests on plans changes the identity or the billing terms of a stored
  plan (tenant, slug, amount, currency, interval, interval count, trial days, creation time),
  removes one, or breaks the constraints of the table.\<close>

theorem plan_terms_immutable:
  assumes "plan_step\<^sup>*\<^sup>* s s'" "plans_ok s"
  shows "prefix (map plan_terms (plans s)) (map plan_terms (plans s')) \<and> plans_ok s'"
proof
  show "prefix (map plan_terms (plans s)) (map plan_terms (plans s'))"
    by (rule plan_steps_terms [OF assms(1)])
  show "plans_ok s'"
    using assms by (induction rule: rtranclp_induct) (auto intro: plan_step_ok)
qed

theorem plan_terms_immutable_witness:
  "prefix (map plan_terms (plans sample_sys)) (map plan_terms (plans sample_sys1)) \<and> plans_ok sample_sys1"
  by (rule plan_terms_immutable)
    (auto simp: sample_sys1_def sample_plans_ok intro: plan_step.intros)

text \<open>What a successful create returns: a plan of the caller's tenant under the normalised slug
  (lower case, trimmed, in the allowed format); a new plan has the requested positive amount and
  the defaults for currency and interval count, an existing one comes back unchanged except
  for its update time, whatever else the request said.\<close>

theorem plan_create_result:
  assumes "plan_svc_CreateOrGet ctx input s = (Inr (p, created), s')"
  shows "plan_TenantID p = TenantIDFromContext ctx \<and> plan_TenantID p \<noteq> 0
    \<and> plan_Slug p = to_lower (trim_space (cp_Slug input)) \<and> isValidSlugFormat (plan_Slug p)
    \<and> (if created
        then plan_by_slug s (plan_slug_key p) = None
             \<and> plan_Amount p = cp_Amount input \<and> 0 < sint (plan_Amount p)
             \<and> plan_Currency p = (if cp_Currency input = [] then ''ARS'' else cp_Currency input)
             \<and> plan_Interval p = cp_Interval input \<and> plan_Interval p \<in> set all_intervals
             \<and> plan_IntervalCount p = (if cp_IntervalCount input = 0 then 1 else cp_IntervalCount input)
             \<and> plan_TrialDays p = cp_TrialDays input \<and> 0 \<le> sint (plan_TrialDays p) \<and> plan_IsActive p
        else \<exists>old. plan_by_slug s (plan_slug_key p) = Some old \<and> p = old\<lparr>plan_UpdatedAt := db_now s\<rparr>)"
proof -
  let ?t = "TenantIDFromContext ctx" and ?d = "plan_defaults input"
  have t: "?t \<noteq> 0" and v: "validateCreateInput input = None" and ins: "plan_insert ?t ?d s = (Inr (p, created), s')"
    using assms by (simp_all add: plan_svc_CreateOrGet_Inr)
  have "to_lower (trim_space (cp_Slug input)) \<noteq> []"
    and slug: "isValidSlugFormat (to_lower (trim_space (cp_Slug input)))"
    and amount: "0 < sint (cp_Amount input)" and trial: "0 \<le> sint (cp_TrialDays input)"
    using v by (simp_all add: validateCreateInput_None to_lower_def)
  from ins show ?thesis
  proof (cases rule: plan_insert_cases)
    case (created q)
    then show ?thesis using t slug amount trial by (simp add: plan_row_def plan_slug_key_def)
  next
    case (existing old)
    then have "plan_slug_key old = (?t, cp_Slug ?d)" by (auto dest: plan_by_slug_key)
    with existing show ?thesis using t slug by (simp add: plan_slug_key_def)
  qed simp
qed

theorem plan_create_result_witness:
  "plan_TenantID sample_plan = TenantIDFromContext sample_ctx \<and> plan_TenantID sample_plan \<noteq> 0
    \<and> plan_Slug sample_plan = ''pro''"
  using plan_create_result [OF sample_created] by (simp add: sample_plan_def)

text \<open>A plan just created is found by any spelling of its slug (letter case, surrounding white
  space), and by its id.\<close>

theorem plan_create_then_get:
  assumes "plan_svc_CreateOrGet ctx input s = (Inr (p, created), s')" "plans_ok s"
    and "to_lower (trim_space slug) = to_lower (trim_space (cp_Slug input))"
  shows "plan_svc_GetBySlug ctx slug s' = Inr p \<and> plan_svc_GetByID (plan_ID p) s' = Inr p"
proof -
  let ?t = "TenantIDFromContext ctx" and ?d = "plan_defaults input"
  have t: "?t \<noteq> 0" and ins: "plan_insert ?t ?d s = (Inr (p, created), s')"
    using assms(1) by (simp_all add: plan_svc_CreateOrGet_Inr)
  have v: "visible s' ?t"
    using ins by (cases rule: plan_insert_cases) (auto simp: visible_def draw_def)
  have "upsert_call (?t, ?d) s = (Inr (p, created), s')"
    using ins by (simp add: upsert_call_def plan_repo_Upsert_Inr)
  then have by_slug: "plan_by_slug s' (?t, cp_Slug ?d) = Some p"
    using plan_store.create_lookup by (force simp: upsert_key_def)
  have "plan_svc_GetBySlug ctx slug s' = Inr p"
    using t by_slug unfolding plan_svc_GetBySlug_def plan_repo_GetBySlug_def Let_def plan_by_slug_visible [OF v]
    by (simp add: assms(3))
  moreover have "plans_ok s'"
    using plan_insert_ok [OF assms(2), of ?t ?d] ins by simp
  then have "plan_svc_GetByID (plan_ID p) s' = Inr p"
    using query_row_unique [of plan_ID "plans s'" p s' plan_TenantID] by_slug v plan_by_slug_key [OF by_slug]
    by (auto simp: plan_svc_GetByID_def plan_repo_GetByID_def plans_ok_def plan_by_slug_def plan_slug_key_def
        dest!: find_SomeD)
  ultimately show ?thesis ..
qed

theorem plan_create_then_get_witness:
  "plan_svc_GetBySlug sample_ctx '' PRO'' sample_sys1 = Inr sample_plan
   \<and> plan_svc_GetByID (plan_ID sample_plan) sample_sys1 = Inr sample_plan"
  by (rule plan_create_then_get [OF sample_created sample_plans_ok(1)]) code_simp

definition plans_of_others :: "uuid \<Rightarrow> sys \<Rightarrow> plan list" where
  "plans_of_others t s = filter (\<lambda>p. plan_TenantID p \<noteq> t) (plans s)"

text \<open>On a connection set to a tenant, no plan request reads or writes a plan of another tenant:
  what is returned belongs to the tenant, and the plans of the others stay as they are.\<close>

theorem plan_tenant_isolation:
  assumes "session s = Current_Tenant t"
  shows "(\<forall>pid p. plan_svc_GetByID pid s = Inr p \<longrightarrow> plan_TenantID p = t)
    \<and> (\<forall>pid p. fst (plan_svc_Update pid patch s) = Inr p \<longrightarrow> plan_TenantID p = t)
    \<and> plans_of_others t (snd (plan_svc_CreateOrGet ctx input s)) = plans_of_others t s
    \<and> plans_of_others t (snd (plan_svc_Update pid patch s)) = plans_of_others t s
    \<and> plans_of_others t (snd (plan_svc_Delete pid s)) = plans_of_others t s"
proof (intro conjI allI impI)
  have vis: "visible s u \<longleftrightarrow> u = t" for u using assms by (auto simp: visible_def)
  fix pid' p
  show "plan_svc_GetByID pid' s = Inr p \<Longrightarrow> plan_TenantID p = t"
    by (auto simp: plan_svc_GetByID_def plan_repo_GetByID_def vis dest!: query_row_Inr)
  show "fst (plan_svc_Update pid' patch s) = Inr p \<Longrightarrow> plan_TenantID p = t"
    by (auto simp: plan_svc_Update_def plan_repo_Update_def vis filter_eq_Cons_iff Cons_eq_map_conv
        split: option.splits sum.splits list.splits prod.splits dest!: update_rows_Inr(2))
  show "plans_of_others t (snd (plan_svc_Update pid patch s)) = plans_of_others t s"
    by (auto simp: plan_svc_Update_def plan_repo_Update_def plans_of_others_def vis
        split: option.splits sum.splits list.splits prod.splits dest!: update_rows_Inr(1)
        intro!: filter_update_where)
  show "plans_of_others t (snd (plan_svc_Delete pid s)) = plans_of_others t s"
    by (auto simp: plan_svc_Delete_def plan_repo_Delete_def plans_of_others_def vis
        split: option.splits sum.splits prod.splits dest!: update_rows_Inr(1) intro!: filter_update_where)
  have "plans_of_others t (snd (plan_insert u d s)) = plans_of_others t s" for u d
  proof -
    obtain r s' where c: "plan_insert u d s = (r, s')" by fastforce
    then have "plans_of_others t s' = plans_of_others t s"
      by (cases rule: plan_insert_cases)
        (auto simp: plans_of_others_def vis plan_slug_key_def intro!: filter_update_where)
    then show ?thesis by (simp add: c)
  qed
  then show "plans_of_others t (snd (plan_svc_CreateOrGet ctx input s)) = plans_of_others t s"
    using snd_plan_svc_CreateOrGet [of ctx input s] by auto
qed

theorem plan_tenant_isolation_witness:
  "plans_of_others 7 (snd (plan_svc_CreateOrGet sample_ctx sample_plan_input sample_sys)) = plans_of_others 7 sample_sys"
  using plan_tenant_isolation [of sample_sys 7] by (simp add: sample_sys_def)

definition plan_list_matches :: "go_context \<Rightarrow> list_plans_input \<Rightarrow> sys \<Rightarrow> plan \<Rightarrow> bool" where
  "plan_list_matches ctx input s p \<longleftrightarrow>
     visible s (plan_TenantID p) \<and> plan_list_filter (TenantIDFromContext ctx) input None p"

lemma plan_list_matches_alt:
  "plan_list_matches ctx input s p \<longleftrightarrow> visible s (plan_TenantID p)
     \<and> plan_TenantID p = TenantIDFromContext ctx \<and> lp_IsActive input \<in> {None, Some (plan_IsActive p)}"
  by (cases "lp_IsActive input") (auto simp: plan_list_matches_def plan_list_filter_def)

lemma plan_svc_List_first:
  assumes "plan_svc_List uuid_parse uuid_string ctx input s = Inr r" "lp_Cursor input = []"
  defines "n \<equiv> nat (sint (service_limit (lp_Limit input)))"
  shows "(lpr_Plans r, lpr_NextCursor r)
      = cut_page uuid_string plan_CreatedAt plan_ID n
          (page (n + 1) plan_order (plan_list_matches ctx input s) (plans s))"
proof -
  let ?rows = "page (n + 1) plan_order (plan_list_matches ctx input s) (plans s)"
  have filt: "(\<lambda>p. visible s (plan_TenantID p)
      \<and> plan_list_filter (TenantIDFromContext ctx) (input\<lparr>lp_Limit := l\<rparr>) None p) = plan_list_matches ctx input s" for l
    by (simp add: plan_list_filter_def plan_list_matches_def fun_eq_iff)
  obtain ps nc where cut: "cut_page uuid_string plan_CreatedAt plan_ID n ?rows = (ps, nc)" by fastforce
  have "session_check s = None"
    using assms(1,2)
    by (auto simp: plan_svc_List_def plan_repo_List_def Let_def list_cursor_def first_error_None
        split: option.splits if_splits)
  then show ?thesis
    using assms(1,2) cut unfolding n_def plan_svc_List_def plan_repo_List_def Let_def
    by (auto simp: list_cursor_def filt split: if_splits)
qed

text \<open>The first page of a plan list: at most \<open>limit\<close> plans (20 by default, never more than 100),
  all of the caller's tenant and of the requested activity, oldest first, nothing older left out;
  and without a next cursor it is the whole list.\<close>

theorem plan_list_first_page:
  assumes "plan_svc_List uuid_parse uuid_string ctx input s = Inr r" "lp_Cursor input = []"
  shows "length (lpr_Plans r) \<le> nat (sint (service_limit (lp_Limit input))) \<and> length (lpr_Plans r) \<le> 100
    \<and> set (lpr_Plans r) \<subseteq> {p \<in> set (plans s). plan_list_matches ctx input s p}
    \<and> sorted (map plan_order (lpr_Plans r))
    \<and> (\<forall>p q. p \<in> set (lpr_Plans r) \<and> q \<in> set (plans s) \<and> plan_list_matches ctx input s q
         \<and> q \<notin> set (lpr_Plans r) \<longrightarrow> plan_order p \<le> plan_order q)
    \<and> (lpr_NextCursor r = [] \<longrightarrow> set (lpr_Plans r) = {p \<in> set (plans s). plan_list_matches ctx input s p})"
  using first_page [OF plan_svc_List_first [OF assms]] nat_service_limit(2) [of "lp_Limit input"] by auto

lemma sample_list:
  "plan_svc_List (\<lambda>_. None) (\<lambda>_. []) sample_ctx \<lparr>lp_IsActive = None, lp_Limit = 0, lp_Cursor = []\<rparr> sample_sys1
     = Inr \<lparr>lpr_Plans = [sample_plan], lpr_NextCursor = []\<rparr>"
  by code_simp

theorem plan_list_first_page_witness:
  "length (lpr_Plans \<lparr>lpr_Plans = [sample_plan], lpr_NextCursor = []\<rparr>) \<le> 100"
  using plan_list_first_page [of "\<lambda>_. None" "\<lambda>_. []" sample_ctx "\<lparr>lp_IsActive = None, lp_Limit = 0, lp_Cursor = []\<rparr>"
      sample_sys1 "\<lparr>lpr_Plans = [sample_plan], lpr_NextCursor = []\<rparr>"] sample_list
  by simp

lemma plan_insert_error:
  assumes "plan_insert t input s = (Inl e, s')"
  shows "server_error e"
proof -
  let ?p = "plan_row (next_uuid s) t input (db_now s)"
  have "pred_option server_error (plan_constraints ?p)" by (simp add: plan_constraints_def)
  then show ?thesis
    using assms unfolding plan_insert_def Let_def
    by (auto split: option.splits dest!: pred_option_SomeD [where p = server_error])
qed

text \<open>A create request without an interval passes the validation (the model's comment calls the
  field required) and fails at the CHECK constraint of the table: the answer is 500, and no plan
  is stored.\<close>

theorem plan_without_interval_fails:
  assumes "cp_Interval input = []" "plan_by_slug s (TenantIDFromContext ctx, to_lower (trim_space (cp_Slug input))) = None"
    and "validateCreateInput input = None"
  shows "response_status (fst (plan_handler_CreateOrGet ctx (Inr input) s)) = 500
    \<and> plans (snd (plan_handler_CreateOrGet ctx (Inr input) s)) = plans s"
proof (cases "TenantIDFromContext ctx = 0")
  case True
  then show ?thesis
    by (simp add: plan_handler_CreateOrGet_def plan_svc_CreateOrGet_def sentinel_status_def)
next
  case False
  obtain r s' where c: "plan_insert (TenantIDFromContext ctx) (plan_defaults input) s = (r, s')" by fastforce
  from c have "(\<exists>e. r = Inl e) \<and> plans s' = plans s"
    by (cases rule: plan_insert_cases) (use assms no_interval in auto)
  then obtain e where e: "r = Inl e" "plans s' = plans s" by blast
  then have "sentinel_status e = 500"
    using c plan_insert_error server_error_D by blast
  then show ?thesis
    using False assms(3) c e
    by (simp add: plan_handler_CreateOrGet_def plan_svc_CreateOrGet_def plan_repo_Upsert_def)
qed

theorem plan_without_interval_fails_witness:
  "response_status (fst (plan_handler_CreateOrGet sample_ctx
     (Inr (sample_plan_input\<lparr>cp_Interval := []\<rparr>)) sample_sys)) = 500"
proof -
  let ?i = "sample_plan_input\<lparr>cp_Interval := []\<rparr>"
  have "cp_Interval ?i = []" by simp
  moreover have "plan_by_slug sample_sys (TenantIDFromContext sample_ctx, to_lower (trim_space (cp_Slug ?i))) = None"
    by code_simp
  moreover have "validateCreateInput ?i = None" by code_simp
  ultimately show ?thesis using plan_without_interval_fails by blast
qed

end
