(* ===== verification/Provider.thy ===== *)
theory Provider
  imports Database
begin

text \<open>
  Package \<open>internal/provider\<close>: the connector interface, the registry of connectors by name, and
  the adapter through which the domain reaches them. A connector is a record of functions; what an
  external provider answers may depend on everything before, so its charge function also takes the
  number of the call. The adapter logs in \<open>charges\<close> every charge request that reached a connector.
\<close>

record capabilities =
  caps_Plans :: bool
  caps_PayPerUse :: bool

definition ChargeStatusPending :: string where "ChargeStatusPending = ''pending''"
definition ChargeStatusSucceeded :: string where "ChargeStatusSucceeded = ''succeeded''"
definition ChargeStatusFailed :: string where "ChargeStatusFailed = ''failed''"

record charge_result =
  ch_ProviderChargeID :: string
  ch_Status :: string
  ch_FailureReason :: string
  ch_PaymentMethod :: "payment_method_info option"
  ch_RawResponse :: "string option"

record refund_result =
  rf_ProviderRefundID :: string
  rf_Status :: string
  rf_RawResponse :: "string option"

record webhook_event =
  we_ProviderName :: string
  we_EventType :: string
  we_ProviderChargeID :: string
  we_Status :: string
  we_RawPayload :: string

record provider =
  pv_Name :: string
  pv_Capabilities :: capabilities
  pv_CreateCharge :: "nat \<Rightarrow> charge_request \<Rightarrow> gerror + charge_result"
  pv_RefundCharge :: "nat \<Rightarrow> string \<Rightarrow> int64 \<Rightarrow> gerror + refund_result"
  pv_HandleWebhook :: "string \<Rightarrow> string \<Rightarrow> gerror + webhook_event"
  pv_ValidateConfig :: "config \<Rightarrow> gerror option"

section \<open>Classified errors\<close>

definition ErrorCategoryAuthFailure :: string where "ErrorCategoryAuthFailure = ''auth_failure''"
definition ErrorCategoryRejected :: string where "ErrorCategoryRejected = ''rejected''"
definition ErrorCategoryRateLimited :: string where "ErrorCategoryRateLimited = ''rate_limited''"
definition ErrorCategoryValidation :: string where "ErrorCategoryValidation = ''validation_error''"
definition ErrorCategoryUnknown :: string where "ErrorCategoryUnknown = ''unknown''"

section \<open>Registry\<close>

type_synonym registry = "(string \<times> provider) list"

text \<open>\<open>Register\<close> panics (\<open>None\<close>) when the name is taken.\<close>

definition Register :: "registry \<Rightarrow> provider \<Rightarrow> registry option" where
  "Register r p = (if pv_Name p \<in> fst ` set r then None else Some (r @ [(pv_Name p, p)]))"

definition Lookup :: "registry \<Rightarrow> string \<Rightarrow> gerror + provider" where
  "Lookup r name =
     (case map_of r name of
        None \<Rightarrow> Inl (Wrap (''provider '' @ quoted name) (Sentinel ErrProviderNotFound))
      | Some p \<Rightarrow> Inr p)"

definition Names :: "registry \<Rightarrow> string list" where
  "Names r = map fst r"

section \<open>Adapter\<close>

record adapter =
  ad_registry :: registry
  ad_yamlCaps :: "(string \<times> capabilities) list"

definition defaultCapabilities :: capabilities where
  "defaultCapabilities = \<lparr>caps_Plans = True, caps_PayPerUse = False\<rparr>"

definition adapter_CreateCharge ::
  "adapter \<Rightarrow> string \<Rightarrow> charge_request \<Rightarrow> sys \<Rightarrow> (gerror + charge_result) \<times> sys" where
  "adapter_CreateCharge a providerName req s =
     (case Lookup (ad_registry a) providerName of
        Inl err \<Rightarrow> (Inl err, s)
      | Inr p \<Rightarrow>
         (let s' = s\<lparr>charges := charges s @ [(providerName, req)]\<rparr>
          in case pv_CreateCharge p (length (charges s)) req of
               Inl err \<Rightarrow> (Inl (Wrap (''adapter.CreateCharge via '' @ providerName) err), s')
             | Inr res \<Rightarrow> (Inr res, s')))"

text \<open>The \<open>config\<close> argument of \<open>RefundCharge\<close> is dropped: a connector refunds without credentials.\<close>

definition adapter_RefundCharge ::
  "adapter \<Rightarrow> nat \<Rightarrow> string \<Rightarrow> string \<Rightarrow> int64 \<Rightarrow> config \<Rightarrow> gerror + refund_result" where
  "adapter_RefundCharge a n providerName chargeID amount config =
     (case Lookup (ad_registry a) providerName of
        Inl err \<Rightarrow> Inl err
      | Inr p \<Rightarrow>
         (case pv_RefundCharge p n chargeID amount of
            Inl err \<Rightarrow> Inl (Wrap (''adapter.RefundCharge via '' @ providerName) err)
          | Inr res \<Rightarrow> Inr res))"

definition adapter_HandleWebhook ::
  "adapter \<Rightarrow> string \<Rightarrow> string \<Rightarrow> string \<Rightarrow> gerror + webhook_event" where
  "adapter_HandleWebhook a providerName payload signature =
     (case Lookup (ad_registry a) providerName of
        Inl err \<Rightarrow> Inl err
      | Inr p \<Rightarrow>
         (case pv_HandleWebhook p payload signature of
            Inl err \<Rightarrow> Inl (Wrap (''adapter.HandleWebhook via '' @ providerName) err)
          | Inr event \<Rightarrow> Inr event))"

definition adapter_ValidateConfig :: "adapter \<Rightarrow> string \<Rightarrow> config \<Rightarrow> gerror option" where
  "adapter_ValidateConfig a providerName config =
     (case Lookup (ad_registry a) providerName of
        Inl err \<Rightarrow> Some err
      | Inr p \<Rightarrow>
         (case pv_ValidateConfig p config of
            Some err \<Rightarrow> Some (Wrap (''adapter.ValidateConfig via '' @ providerName) err)
          | None \<Rightarrow> None))"

definition GetCapabilities :: "adapter \<Rightarrow> string \<Rightarrow> capabilities" where
  "GetCapabilities a providerName =
     (case Lookup (ad_registry a) providerName of
        Inl err \<Rightarrow> defaultCapabilities
      | Inr p \<Rightarrow>
         (case map_of (ad_yamlCaps a) providerName of
            Some entry \<Rightarrow> entry
          | None \<Rightarrow> pv_Capabilities p))"

definition LookupProvider :: "adapter \<Rightarrow> string \<Rightarrow> gerror + provider" where
  "LookupProvider a providerName = Lookup (ad_registry a) providerName"

section \<open>Lemmas\<close>

lemma Register_Lookup:
  assumes "Register r p = Some r'"
  shows "Lookup r' (pv_Name p) = Inr p" "name \<noteq> pv_Name p \<Longrightarrow> Lookup r' name = Lookup r name"
proof -
  have n: "map_of r (pv_Name p) = None" and r': "r' = r @ [(pv_Name p, p)]"
    using assms by (auto simp: Register_def map_of_eq_None_iff split: if_splits)
  show "Lookup r' (pv_Name p) = Inr p" using n by (simp add: Lookup_def r' map_add_def)
  show "Lookup r' name = Lookup r name" if "name \<noteq> pv_Name p"
    using that by (simp add: Lookup_def r' map_add_def split: option.split)
qed

lemma Lookup_Inl: "Lookup r name = Inl e \<Longrightarrow> errors_is e ErrProviderNotFound \<and> name \<notin> fst ` set r"
  by (auto simp: Lookup_def map_of_eq_None_iff split: option.splits)

lemma adapter_CreateCharge_frame [simp]:
  "payments (snd (adapter_CreateCharge a n req s)) = payments s"
  "subscriptions (snd (adapter_CreateCharge a n req s)) = subscriptions s"
  "plans (snd (adapter_CreateCharge a n req s)) = plans s"
  "tenants (snd (adapter_CreateCharge a n req s)) = tenants s"
  "session (snd (adapter_CreateCharge a n req s)) = session s"
  "clock (snd (adapter_CreateCharge a n req s)) = clock s"
  "uuids (snd (adapter_CreateCharge a n req s)) = uuids s"
  "drawn (snd (adapter_CreateCharge a n req s)) = drawn s"
  "jsonb (snd (adapter_CreateCharge a n req s)) = jsonb s"
  "api_keys (snd (adapter_CreateCharge a n req s)) = api_keys s"
  "credentials (snd (adapter_CreateCharge a n req s)) = credentials s"
  "users (snd (adapter_CreateCharge a n req s)) = users s"
  by (auto simp: adapter_CreateCharge_def Let_def split: sum.split)

lemma adapter_CreateCharge_charges:
  "charges (snd (adapter_CreateCharge a n req s))
     = (if n \<in> fst ` set (ad_registry a) then charges s @ [(n, req)] else charges s)"
  by (auto simp: adapter_CreateCharge_def Let_def Lookup_def map_of_eq_None_iff image_iff
      split: sum.split option.split dest!: map_of_SomeD) (force dest: map_of_SomeD)+

end
