(* ===== verification/Payment.thy ===== *)
theory Payment
  imports Cursor Provider Idempotent_Store
begin

text \<open>
  Package \<open>internal/payment\<close>: the repository over table \<open>payments\<close>, the service that charges through
  the provider adapter and stores the result, and the HTTP handlers. The fetching of stored
  provider credentials belongs to \<open>internal/providercredentials\<close> and is the argument \<open>get_config\<close>.

  The JSON column \<open>payment_method\<close> holds JSON \<open>null\<close> for a payment without one; reading it back
  fills an empty struct, so what a client reads always has a payment method.
\<close>

definition StatusPending :: string where "StatusPending = ''pending''"
definition StatusSucceeded :: string where "StatusSucceeded = ''succeeded''"
definition StatusFailed :: string where "StatusFailed = ''failed''"
definition StatusRefunded :: string where "StatusRefunded = ''refunded''"

definition payment_statuses :: "string list" where
  "payment_statuses = [StatusPending, StatusSucceeded, StatusFailed, StatusRefunded]"

record create_payment_input =
  ci_SubscriptionID :: uuid
  ci_IdempotencyKey :: string
  ci_ProviderName :: string
  ci_Amount :: int64
  ci_Currency :: string
  ci_Description :: string
  ci_ExternalCustomerID :: string
  ci_ProviderConfig :: config
  ci_Metadata :: config

record list_payments_input =
  li_ProviderName :: "string option"
  li_Status :: "string list"
  li_Limit :: int64
  li_Cursor :: string

record list_payments_result =
  lir_Payments :: "payment list"
  lir_NextCursor :: string

section \<open>Repository\<close>

definition payment_key :: "payment \<Rightarrow> uuid \<times> string" where
  "payment_key p = (pay_TenantID p, pay_IdempotencyKey p)"

definition payment_by_key :: "sys \<Rightarrow> uuid \<times> string \<Rightarrow> payment option" where
  "payment_by_key s k = find (\<lambda>p. payment_key p = k) (payments s)"

text \<open>\<open>json.Unmarshal\<close> of the column into a \<open>PaymentMethodInfo\<close>; JSON \<open>null\<close> leaves it empty.\<close>

definition empty_payment_method :: payment_method_info where
  "empty_payment_method = \<lparr>pm_Type = [], pm_Brand = [], pm_LastFour = [], pm_Bank = []\<rparr>"

definition scan_payment :: "payment \<Rightarrow> payment" where
  "scan_payment p =
     p\<lparr>pay_PaymentMethod := Some (case pay_PaymentMethod p of None \<Rightarrow> empty_payment_method | Some m \<Rightarrow> m)\<rparr>"

text \<open>The row that the INSERT writes: id and times are the server's, the provider response is
  stored in the normal form of its JSON.\<close>

definition payment_row :: "uuid \<Rightarrow> gtime \<Rightarrow> string option \<Rightarrow> payment \<Rightarrow> payment" where
  "payment_row pid now response p =
     p\<lparr>pay_ID := pid, pay_ProviderResponse := response, pay_CreatedAt := now, pay_UpdatedAt := now\<rparr>"

definition to_jsonb :: "sys \<Rightarrow> string option \<Rightarrow> gerror + string option" where
  "to_jsonb s x =
     (case x of
        None \<Rightarrow> Inr None
      | Some t \<Rightarrow> (case jsonb s t of None \<Rightarrow> Inl invalid_json | Some n \<Rightarrow> Inr (Some n)))"

definition payment_insert :: "payment \<Rightarrow> sys \<Rightarrow> (gerror + payment) \<times> sys" where
  "payment_insert p s =
     (case to_jsonb s (pay_ProviderResponse p) of
        Inl err \<Rightarrow> (Inl err, s)
      | Inr response \<Rightarrow>
         (let row = payment_row (next_uuid s) (db_now s) response p; s1 = draw s
          in case first_error
                    [rls_check s ''payments'' (pay_TenantID p),
                     check (pay_Status p \<in> set payment_statuses)
                       (check_violation ''payments'' ''payments_status_check'')] of
               Some err \<Rightarrow> (Inl err, s1)
             | None \<Rightarrow>
                (case payment_by_key s (payment_key p) of
                   Some old \<Rightarrow> (Inl No_Rows, s1)
                 | None \<Rightarrow>
                    (case first_error
                            [check (pay_ID row \<notin> pay_ID ` set (payments s)) (unique_violation ''payments_pkey''),
                             check (pay_TenantID p \<in> tn_ID ` set (tenants s))
                               (fk_violation ''payments'' ''payments_tenant_id_fkey''),
                             check (pay_SubscriptionID p \<in> (sub_ID \<circ> sr_sub) ` set (subscriptions s))
                               (fk_violation ''payments'' ''payments_subscription_id_fkey'')] of
                       Some err \<Rightarrow> (Inl err, s1)
                     | None \<Rightarrow> (Inr row, s1\<lparr>payments := payments s @ [row]\<rparr>)))))"

definition pay_repo_GetByKey :: "uuid \<Rightarrow> string \<Rightarrow> sys \<Rightarrow> gerror + payment" where
  "pay_repo_GetByKey tenantID idempotencyKey s =
     map_sum id scan_payment (not_found_or_wrap ''get payment by key''
       (query_row s pay_TenantID
          (\<lambda>p. pay_TenantID p = tenantID \<and> pay_IdempotencyKey p = idempotencyKey) (payments s)))"

definition pay_repo_Create :: "payment \<Rightarrow> sys \<Rightarrow> (gerror + payment \<times> bool) \<times> sys" where
  "pay_repo_Create p s =
     (case payment_insert p s of
        (Inl err, s') \<Rightarrow>
          (if err = No_Rows
           then (case pay_repo_GetByKey (pay_TenantID p) (pay_IdempotencyKey p) s' of
                   Inl err2 \<Rightarrow> (Inl (Wrap ''fetch existing payment on conflict'' err2), s')
                 | Inr existing \<Rightarrow> (Inr (existing, False), s'))
           else (Inl (Wrap ''create payment'' err), s'))
      | (Inr row, s') \<Rightarrow> (Inr (scan_payment row, True), s'))"

definition pay_repo_GetByID :: "uuid \<Rightarrow> sys \<Rightarrow> gerror + payment" where
  "pay_repo_GetByID pid s =
     map_sum id scan_payment (not_found_or_wrap ''get payment by id''
       (query_row s pay_TenantID (\<lambda>p. pay_ID p = pid) (payments s)))"

definition payment_list_filter ::
  "uuid \<Rightarrow> list_payments_input \<Rightarrow> (gtime \<times> uuid) option \<Rightarrow> payment \<Rightarrow> bool" where
  "payment_list_filter tenantID input cursor p \<longleftrightarrow>
     pay_TenantID p = tenantID
     \<and> (case li_ProviderName input of None \<Rightarrow> True | Some n \<Rightarrow> pay_ProviderName p = n)
     \<and> (li_Status input \<noteq> [] \<longrightarrow> pay_Status p \<in> set (li_Status input))
     \<and> after_cursor cursor (pay_CreatedAt p) (pay_ID p)"

text \<open>\<open>ORDER BY created_at DESC, id DESC\<close>\<close>

definition payment_order :: "payment \<Rightarrow> int \<times> int" where
  "payment_order p = (- pay_CreatedAt p, - uint (pay_ID p))"

definition pay_repo_List ::
  "(string \<Rightarrow> uuid option) \<Rightarrow> (uuid \<Rightarrow> string) \<Rightarrow> uuid \<Rightarrow> list_payments_input \<Rightarrow> sys
    \<Rightarrow> gerror + list_payments_result" where
  "pay_repo_List uuid_parse uuid_string tenantID input s =
     (let limit = repo_limit (li_Limit input)
      in case list_cursor uuid_parse (li_Cursor input) of
           Inl err \<Rightarrow> Inl err
         | Inr cursor \<Rightarrow>
            (case first_error [session_check s, limit_check limit] of
               Some err \<Rightarrow> Inl (Wrap ''list payments'' err)
             | None \<Rightarrow>
                (let n = nat (sint limit);
                     rows = map scan_payment (page (n + 1) payment_order
                              (\<lambda>p. visible s (pay_TenantID p) \<and> payment_list_filter tenantID input cursor p)
                              (payments s));
                     (ps, next_cursor) = cut_page uuid_string pay_CreatedAt pay_ID n rows
                 in Inr \<lparr>lir_Payments = ps, lir_NextCursor = next_cursor\<rparr>)))"

definition pay_repo_ListBySubscription :: "uuid \<Rightarrow> int64 \<Rightarrow> sys \<Rightarrow> gerror + payment list" where
  "pay_repo_ListBySubscription subscriptionID limit s =
     (let limit = (if limit = 0 then 10 else limit);
          limit = (if i64_less 100 limit then 100 else limit)
      in case first_error [session_check s,
                check (0 \<le> sint limit) (Pg_Error ''2201W'' ''LIMIT must not be negative'')] of
           Some err \<Rightarrow> Inl (Wrap ''list by subscription'' err)
         | None \<Rightarrow>
             Inr (map scan_payment (page (nat (sint limit)) (\<lambda>p. - pay_CreatedAt p)
                    (\<lambda>p. visible s (pay_TenantID p) \<and> pay_SubscriptionID p = subscriptionID) (payments s))))"

section \<open>Service\<close>

definition convertChargeStatus :: "string \<Rightarrow> string" where
  "convertChargeStatus st =
     (if st = ChargeStatusPending then StatusPending
      else if st = ChargeStatusSucceeded then StatusSucceeded
      else if st = ChargeStatusFailed then StatusFailed
      else StatusPending)"

definition validate_payment :: "create_payment_input \<Rightarrow> gerror option" where
  "validate_payment input =
     validation_err (collect
       [NonEmpty ''idempotency_key'' (ci_IdempotencyKey input),
        NonEmpty ''provider_name'' (ci_ProviderName input),
        PositiveInt ''amount'' (ci_Amount input),
        (if ci_Currency input \<noteq> [] then ISOCurrency ''currency'' (ci_Currency input) else None),
        (if list_ex (\<lambda>(k, v). trim_space k = [] \<or> trim_space v = []) (ci_ProviderConfig input)
         then Some (field_err ''provider_config'' ''config keys and values must be non-empty strings'')
         else None)])"

definition payment_charge_request :: "create_payment_input \<Rightarrow> charge_request" where
  "payment_charge_request input =
     \<lparr>cr_Amount = ci_Amount input, cr_Currency = ci_Currency input, cr_Description = ci_Description input,
      cr_ExternalCustomerID = ci_ExternalCustomerID input, cr_IdempotencyKey = ci_IdempotencyKey input,
      cr_Config = ci_ProviderConfig input, cr_Metadata = ci_Metadata input\<rparr>"

definition payment_from_charge ::
  "uuid \<Rightarrow> uuid \<Rightarrow> create_payment_input \<Rightarrow> charge_result \<Rightarrow> payment" where
  "payment_from_charge pid tenantID input res =
     \<lparr>pay_ID = pid, pay_TenantID = tenantID, pay_SubscriptionID = ci_SubscriptionID input,
      pay_IdempotencyKey = ci_IdempotencyKey input, pay_ProviderName = ci_ProviderName input,
      pay_ProviderChargeID = ch_ProviderChargeID res, pay_Amount = ci_Amount input,
      pay_Currency = ci_Currency input, pay_Status = convertChargeStatus (ch_Status res),
      pay_FailureReason = ch_FailureReason res, pay_PaymentMethod = ch_PaymentMethod res,
      pay_ProviderResponse = ch_RawResponse res, pay_CreatedAt = 0, pay_UpdatedAt = 0\<rparr>"

text \<open>The charge goes to the provider before the idempotency key is looked at in the table.\<close>

definition pay_svc_CreatePayment ::
  "adapter \<Rightarrow> go_context \<Rightarrow> create_payment_input \<Rightarrow> sys \<Rightarrow> (gerror + payment \<times> bool) \<times> sys" where
  "pay_svc_CreatePayment adp ctx input s =
     (let tenantID = TenantIDFromContext ctx
      in if tenantID = uuid_nil then (Inl (Sentinel ErrMissingTenantID), s)
         else case validate_payment input of
                Some err \<Rightarrow> (Inl err, s)
              | None \<Rightarrow>
                 (case adapter_CreateCharge adp (ci_ProviderName input) (payment_charge_request input) s of
                    (Inl err, s1) \<Rightarrow> (Inl (Wrap ''provider charge'' err), s1)
                  | (Inr res, s1) \<Rightarrow>
                     (case pay_repo_Create (payment_from_charge (next_uuid s1) tenantID input res) (draw s1) of
                        (Inl err, s2) \<Rightarrow> (Inl (Wrap ''creating payment'' err), s2)
                      | (Inr x, s2) \<Rightarrow> (Inr x, s2))))"

definition pay_svc_GetByID :: "uuid \<Rightarrow> sys \<Rightarrow> gerror + payment" where
  "pay_svc_GetByID pid s = pay_repo_GetByID pid s"

definition pay_svc_List ::
  "(string \<Rightarrow> uuid option) \<Rightarrow> (uuid \<Rightarrow> string) \<Rightarrow> go_context \<Rightarrow> list_payments_input \<Rightarrow> sys
    \<Rightarrow> gerror + list_payments_result" where
  "pay_svc_List uuid_parse uuid_string ctx input s =
     (let tenantID = TenantIDFromContext ctx
      in if tenantID = uuid_nil then Inl (Sentinel ErrMissingTenantID)
         else pay_repo_List uuid_parse uuid_string tenantID
                (input\<lparr>li_Limit := service_limit (li_Limit input)\<rparr>) s)"

definition pay_svc_ListBySubscription :: "uuid \<Rightarrow> int64 \<Rightarrow> sys \<Rightarrow> gerror + payment list" where
  "pay_svc_ListBySubscription subscriptionID limit s =
     map_sum (Wrap ''listing payments by subscription'') id
       (pay_repo_ListBySubscription subscriptionID limit s)"

section \<open>Handlers\<close>

text \<open>Stored credentials fill the keys that the request's own config does not give.\<close>

definition merge_config :: "config \<Rightarrow> config \<Rightarrow> config" where
  "merge_config request stored = request @ filter (\<lambda>(k, v). k \<notin> fst ` set request) stored"

text \<open>The \<open>subscriptionKey\<close> of the URL is not read: the body names the subscription.\<close>

definition pay_handler_CreatePayment ::
  "(uuid \<Rightarrow> string \<Rightarrow> sys \<Rightarrow> gerror + config) \<Rightarrow> adapter \<Rightarrow> go_context \<Rightarrow> string
    \<Rightarrow> string \<Rightarrow> gerror + create_payment_input \<Rightarrow> sys \<Rightarrow> payment response \<times> sys" where
  "pay_handler_CreatePayment get_config adp ctx url_key idempotencyKey body s =
     (if idempotencyKey = [] then (RespondError ctx (Sentinel ErrMissingIdempotencyKey), s)
      else case body of
        Inl err \<Rightarrow> (RespondError ctx err, s)
      | Inr input \<Rightarrow>
         (let input = input\<lparr>ci_IdempotencyKey := idempotencyKey\<rparr>;
              tenantID = TenantIDFromContext ctx
          in if tenantID = uuid_nil then (RespondError ctx (Sentinel ErrMissingTenantID), s)
             else case (if ci_ProviderName input = [] then Inr []
                        else get_config tenantID (ci_ProviderName input) s) of
                    Inl err \<Rightarrow> (RespondError ctx err, s)
                  | Inr stored \<Rightarrow>
                     (case pay_svc_CreatePayment adp ctx
                             (input\<lparr>ci_ProviderConfig := merge_config (ci_ProviderConfig input) stored\<rparr>) s of
                        (Inl err, s') \<Rightarrow> (RespondError ctx err, s')
                      | (Inr (p, created), s') \<Rightarrow>
                          (if created then RespondCreated p else RespondOK p, s'))))"

definition pay_handler_List ::
  "(string \<Rightarrow> uuid option) \<Rightarrow> (uuid \<Rightarrow> string) \<Rightarrow> go_context \<Rightarrow> string \<Rightarrow> string \<Rightarrow> sys
    \<Rightarrow> list_payments_result response" where
  "pay_handler_List uuid_parse uuid_string ctx provider_q cursor_q s =
     respond ctx RespondOK
       (pay_svc_List uuid_parse uuid_string ctx
          \<lparr>li_ProviderName = (if provider_q = [] then None else Some provider_q), li_Status = [],
           li_Limit = 20, li_Cursor = cursor_q\<rparr> s)"

text \<open>The key of the URL is used as if it were the id of the subscription.\<close>

definition pay_handler_ListBySubscription ::
  "(string \<Rightarrow> uuid option) \<Rightarrow> go_context \<Rightarrow> string \<Rightarrow> string \<Rightarrow> sys \<Rightarrow> payment list response" where
  "pay_handler_ListBySubscription uuid_parse ctx subscriptionKey limit_q s =
     (if subscriptionKey = [] then RespondError ctx (Sentinel ErrInvalidInput)
      else case uuid_parse subscriptionKey of
             None \<Rightarrow> RespondError ctx (Plain ''invalid UUID'')
           | Some subscriptionID \<Rightarrow>
               respond ctx RespondOK (pay_svc_ListBySubscription subscriptionID (query_limit limit_q) s))"

section \<open>The insertion\<close>

lemma scan_payment_simps [simp]:
  "pay_ID (scan_payment p) = pay_ID p" "payment_key (scan_payment p) = payment_key p"
  "pay_TenantID (scan_payment p) = pay_TenantID p" "pay_CreatedAt (scan_payment p) = pay_CreatedAt p"
  "scan_payment (scan_payment p) = scan_payment p"
  by (simp_all add: scan_payment_def payment_key_def)

lemma payment_row_simps [simp]:
  "payment_key (payment_row i now r p) = payment_key p"
  "pay_ID (payment_row i now r p) = i"
  "pay_TenantID (payment_row i now r p) = pay_TenantID p"
  by (simp_all add: payment_row_def payment_key_def)

lemma payment_by_key_cong: "payments s' = payments s \<Longrightarrow> payment_by_key s' = payment_by_key s"
  by (simp add: payment_by_key_def fun_eq_iff)

lemma payment_by_key_draw [simp]: "payment_by_key (draw s) = payment_by_key s"
  by (rule payment_by_key_cong) simp

lemma payment_by_key_D: "payment_by_key s k = Some p \<Longrightarrow> payment_key p = k \<and> p \<in> set (payments s)"
  by (auto simp: payment_by_key_def dest: find_SomeD)

lemma to_jsonb_error: "to_jsonb s x = Inl e \<Longrightarrow> server_error e"
  by (auto simp: to_jsonb_def split: option.splits)

text \<open>The three outcomes: a new row at the end of the table, a conflict on the idempotency key, or a
  server error.\<close>

lemma payment_insert_cases:
  assumes "payment_insert p s = (r, s')"
  obtains (created) row response where "r = Inr row" "s' = draw s\<lparr>payments := payments s @ [row]\<rparr>"
      "row = payment_row (next_uuid s) (db_now s) response p" "payment_by_key s (payment_key p) = None"
      "visible s (pay_TenantID p)" "pay_Status p \<in> set payment_statuses"
      "pay_ID row \<notin> pay_ID ` set (payments s)"
      "pay_SubscriptionID p \<in> (sub_ID \<circ> sr_sub) ` set (subscriptions s)"
  | (conflict) old where "r = Inl No_Rows" "payment_by_key s (payment_key p) = Some old" "s' = draw s"
      "visible s (pay_TenantID p)"
  | (failed) e where "r = Inl e" "server_error e" "s' = s \<or> s' = draw s"
proof -
  let ?row = "\<lambda>response. payment_row (next_uuid s) (db_now s) response p"
  let ?pre = "first_error [rls_check s ''payments'' (pay_TenantID p),
       check (pay_Status p \<in> set payment_statuses) (check_violation ''payments'' ''payments_status_check'')]"
  let ?post = "first_error [check (next_uuid s \<notin> pay_ID ` set (payments s)) (unique_violation ''payments_pkey''),
       check (pay_TenantID p \<in> tn_ID ` set (tenants s)) (fk_violation ''payments'' ''payments_tenant_id_fkey''),
       check (pay_SubscriptionID p \<in> (sub_ID \<circ> sr_sub) ` set (subscriptions s))
         (fk_violation ''payments'' ''payments_subscription_id_fkey'')]"
  show thesis
  proof (cases "to_jsonb s (pay_ProviderResponse p)")
    case (Inl e)
    with assms to_jsonb_error [OF Inl] show ?thesis by (intro failed [of e]) (simp_all add: payment_insert_def)
  next
    case json: (Inr response)
    show ?thesis
    proof (cases ?pre)
      case (Some e)
      then have "server_error e" by (rule pred_option_SomeD) simp
      with Some assms json show ?thesis
        by (intro failed [of e]) (simp_all add: payment_insert_def Let_def)
    next
      case pre: None
      then have v: "visible s (pay_TenantID p)" "pay_Status p \<in> set payment_statuses"
        by (simp_all add: first_error_None rls_check_None check_None)
      show ?thesis
      proof (cases "payment_by_key s (payment_key p)")
        case (Some old)
        with assms json pre v show ?thesis
          by (intro conflict [of old]) (simp_all add: payment_insert_def Let_def)
      next
        case key: None
        show ?thesis
        proof (cases ?post)
          case (Some e)
          then have "server_error e" by (rule pred_option_SomeD) simp
          with Some assms json pre key show ?thesis
            by (intro failed [of e]) (simp_all add: payment_insert_def Let_def)
        next
          case None
          then have "next_uuid s \<notin> pay_ID ` set (payments s)"
            "pay_SubscriptionID p \<in> (sub_ID \<circ> sr_sub) ` set (subscriptions s)"
            by (simp_all add: first_error_None check_None)
          with assms json pre key None v show ?thesis
            by (intro created [of "?row response" response]) (simp_all add: payment_insert_def Let_def)
        qed
      qed
    qed
  qed
qed

text \<open>The look-up by key on a session that sees the tenant is the look-up in the table.\<close>

lemma pay_repo_GetByKey_visible:
  assumes "visible s t"
  shows "pay_repo_GetByKey t k s =
    (case payment_by_key s (t, k) of None \<Rightarrow> Inl (Sentinel ErrNotFound) | Some p \<Rightarrow> Inr (scan_payment p))"
proof -
  have "find (\<lambda>p. visible s (pay_TenantID p) \<and> pay_TenantID p = t \<and> pay_IdempotencyKey p = k) (payments s)
      = payment_by_key s (t, k)"
    unfolding payment_by_key_def payment_key_def by (rule find_cong_set) (use assms in auto)
  then show ?thesis
    using visible_not_unset [OF assms]
    by (simp add: pay_repo_GetByKey_def query_row_def session_check_def split: option.split)
qed

lemma pay_repo_Create_cases:
  assumes "pay_repo_Create p s = (r, s')"
  obtains (created) row response where "r = Inr (scan_payment row, True)"
      "s' = draw s\<lparr>payments := payments s @ [row]\<rparr>"
      "row = payment_row (next_uuid s) (db_now s) response p" "payment_by_key s (payment_key p) = None"
      "visible s (pay_TenantID p)" "pay_Status p \<in> set payment_statuses"
      "pay_ID row \<notin> pay_ID ` set (payments s)"
      "pay_SubscriptionID p \<in> (sub_ID \<circ> sr_sub) ` set (subscriptions s)"
  | (existing) old where "r = Inr (scan_payment old, False)" "payment_by_key s (payment_key p) = Some old"
      "s' = draw s" "visible s (pay_TenantID p)"
  | (failed) e where "r = Inl (Wrap ''create payment'' e)" "server_error e" "s' = s \<or> s' = draw s"
proof -
  obtain q s1 where c: "payment_insert p s = (q, s1)" by fastforce
  then show thesis
  proof (cases rule: payment_insert_cases)
    case (created row response)
    with c assms show ?thesis by (intro that(1) [of row response]) (simp_all add: pay_repo_Create_def)
  next
    case (conflict old)
    then have "visible s1 (pay_TenantID p)" by simp
    from pay_repo_GetByKey_visible [OF this, of "pay_IdempotencyKey p"] conflict
    have "pay_repo_GetByKey (pay_TenantID p) (pay_IdempotencyKey p) s1 = Inr (scan_payment old)"
      by (simp add: payment_key_def)
    with conflict c assms show ?thesis by (intro that(2) [of old]) (simp_all add: pay_repo_Create_def)
  next
    case (failed e)
    then have "e \<noteq> No_Rows" using server_error_D(2) by blast
    with failed c assms show ?thesis by (intro that(3) [of e]) (simp_all add: pay_repo_Create_def)
  qed
qed

lemma payment_store_laws:
  "pay_repo_Create p s = (Inr (v, True), s') \<Longrightarrow>
     map_option scan_payment (payment_by_key s (payment_key p)) = None
     \<and> map_option scan_payment (payment_by_key s' (payment_key p)) = Some v"
  "pay_repo_Create p s = (Inr (v, False), s') \<Longrightarrow>
     map_option scan_payment (payment_by_key s (payment_key p)) = Some v \<and> payment_by_key s' = payment_by_key s"
  "pay_repo_Create p s = (Inl e, s') \<Longrightarrow> payment_by_key s' = payment_by_key s"
  "k \<noteq> payment_key p \<Longrightarrow> payment_by_key (snd (pay_repo_Create p s)) k = payment_by_key s k"
proof -
  obtain r s' where c: "pay_repo_Create p s = (r, s')" by fastforce
  then show "k \<noteq> payment_key p \<Longrightarrow> payment_by_key (snd (pay_repo_Create p s)) k = payment_by_key s k"
  proof (cases rule: pay_repo_Create_cases)
    case (created row response)
    then have "payment_key row = payment_key p" by simp
    with created(2) c show "k \<noteq> payment_key p \<Longrightarrow> ?thesis"
      by (auto simp: payment_by_key_def find_append split: option.split)
  qed (auto simp: c)
qed (erule pay_repo_Create_cases; auto simp: payment_by_key_def find_append)+

interpretation payment_store:
  idempotent_store pay_repo_Create payment_key "\<lambda>s k. map_option scan_payment (payment_by_key s k)" pay_ID
  by unfold_locales (auto simp: payment_store_laws)

section \<open>The service\<close>

lemma validate_payment_None:
  "validate_payment input = None \<longleftrightarrow>
     trim_space (ci_IdempotencyKey input) \<noteq> [] \<and> trim_space (ci_ProviderName input) \<noteq> []
     \<and> 0 < sint (ci_Amount input)
     \<and> (ci_Currency input = [] \<or> to_upper (ci_Currency input) \<in> set supported_currencies)
     \<and> (\<forall>(k, v) \<in> set (ci_ProviderConfig input). trim_space k \<noteq> [] \<and> trim_space v \<noteq> [])"
  unfolding validate_payment_def validation_err_None collect_eq_Nil
  by (auto simp: validator_None list_ex_iff)

lemma convertChargeStatus_valid: "convertChargeStatus st \<in> set payment_statuses"
  by (simp add: convertChargeStatus_def payment_statuses_def)

lemma payment_from_charge_simps [simp]:
  "payment_key (payment_from_charge i t input res) = (t, ci_IdempotencyKey input)"
  "pay_TenantID (payment_from_charge i t input res) = t"
  "pay_Status (payment_from_charge i t input res) = convertChargeStatus (ch_Status res)"
  "pay_SubscriptionID (payment_from_charge i t input res) = ci_SubscriptionID input"
  by (simp_all add: payment_from_charge_def payment_key_def)

text \<open>What a call does, from the outside in: it stops before the provider, or at the provider, or it
  goes on to the repository with what the provider answered.\<close>

lemma pay_svc_CreatePayment_cases:
  assumes "pay_svc_CreatePayment adp ctx input s = (r, s')"
  obtains (refused) e where "r = Inl e" "s' = s"
      "TenantIDFromContext ctx = 0 \<or> validate_payment input \<noteq> None"
  | (provider) e where "r = Inl (Wrap ''provider charge'' e)" "TenantIDFromContext ctx \<noteq> 0"
      "validate_payment input = None"
      "adapter_CreateCharge adp (ci_ProviderName input) (payment_charge_request input) s = (Inl e, s')"
  | (charged) res s1 q where "TenantIDFromContext ctx \<noteq> 0" "validate_payment input = None"
      "adapter_CreateCharge adp (ci_ProviderName input) (payment_charge_request input) s = (Inr res, s1)"
      "pay_repo_Create (payment_from_charge (next_uuid s1) (TenantIDFromContext ctx) input res) (draw s1) = (q, s')"
      "r = map_sum (Wrap ''creating payment'') id q"
proof -
  show thesis
  proof (cases "TenantIDFromContext ctx = 0 \<or> validate_payment input \<noteq> None")
    case True
    with assms show ?thesis
      by (intro that(1) [of "projl r"]) (auto simp: pay_svc_CreatePayment_def Let_def split: if_splits option.splits)
  next
    case ok: False
    obtain q s1 where c: "adapter_CreateCharge adp (ci_ProviderName input) (payment_charge_request input) s = (q, s1)"
      by fastforce
    show ?thesis
    proof (cases q)
      case (Inl e)
      with ok c assms show ?thesis by (intro that(2) [of e]) (simp_all add: pay_svc_CreatePayment_def)
    next
      case (Inr res)
      obtain w s2 where w: "pay_repo_Create (payment_from_charge (next_uuid s1) (TenantIDFromContext ctx) input res)
            (draw s1) = (w, s2)" by fastforce
      with Inr ok c assms show ?thesis
        by (intro that(3) [of res s1 w]) (auto simp: pay_svc_CreatePayment_def split: sum.splits)
    qed
  qed
qed

lemma adapter_CreateCharge_Inr:
  assumes "adapter_CreateCharge adp n req s = (Inr res, s1)"
  obtains p where "map_of (ad_registry adp) n = Some p" "pv_CreateCharge p (length (charges s)) req = Inr res"
    "s1 = s\<lparr>charges := charges s @ [(n, req)]\<rparr>"
  using assms by (auto simp: adapter_CreateCharge_def Lookup_def Let_def split: sum.splits option.splits)

text \<open>One payment request by anybody, or a step of the rest of the system, which does not touch the
  table. No operation of the program updates or deletes a payment.\<close>

inductive pay_step :: "sys \<Rightarrow> sys \<Rightarrow> bool" where
  pay_create: "pay_step s (snd (pay_svc_CreatePayment adp ctx input s))"
| pay_other: "payments s' = payments s \<Longrightarrow> pay_step s s'"

lemma pay_svc_CreatePayment_payments:
  "\<exists>new. payments (snd (pay_svc_CreatePayment adp ctx input s)) = payments s @ new"
proof -
  obtain r s' where c: "pay_svc_CreatePayment adp ctx input s = (r, s')" by fastforce
  then have "\<exists>new. payments s' = payments s @ new"
  proof (cases rule: pay_svc_CreatePayment_cases)
    case (provider e)
    then show ?thesis using adapter_CreateCharge_frame(1) [of adp "ci_ProviderName input"] by (metis append_Nil2 snd_conv)
  next
    case (charged res s1 q)
    have p: "payments s1 = payments s"
      using charged(3) adapter_CreateCharge_frame(1) by (metis snd_conv)
    from charged(4) show ?thesis by (cases rule: pay_repo_Create_cases) (auto simp: p)
  qed auto
  then show ?thesis by (simp add: c)
qed

lemma pay_steps_prefix: "pay_step\<^sup>*\<^sup>* s s' \<Longrightarrow> prefix (payments s) (payments s')"
proof (induction rule: rtranclp_induct)
  case (step s1 s2)
  from step(2) have "prefix (payments s1) (payments s2)"
  proof cases
    case (pay_create adp ctx input)
    then show ?thesis using pay_svc_CreatePayment_payments [of adp ctx input s1] by auto
  qed simp
  with step.IH show ?case by (rule prefix_order.trans)
qed simp

lemma payment_by_key_steps:
  assumes "pay_step\<^sup>*\<^sup>* s s'" "payment_by_key s k = Some p"
  shows "payment_by_key s' k = Some p"
proof -
  obtain new where "payments s' = payments s @ new"
    using pay_steps_prefix [OF assms(1)] by (auto simp: prefix_def)
  with assms(2) show ?thesis by (simp add: payment_by_key_def find_append)
qed

section \<open>Concrete data for the witnesses\<close>

definition pay_sample_tenant :: tenant where
  "pay_sample_tenant = \<lparr>tn_ID = 7, tn_Name = ''Acme'', tn_Slug = ''acme'', tn_Email = None, tn_IsActive = True,
     tn_DefaultProviderName = ''mercadopago'', tn_CreatedAt = 0, tn_UpdatedAt = 0\<rparr>"

definition pay_sample_sub :: sub_row where
  "pay_sample_sub = \<lparr>sr_sub = \<lparr>sub_ID = 5, sub_TenantID = 7, sub_PlanID = None, sub_Amount = 1000,
     sub_Currency = ''ARS'', sub_Interval = ''month'', sub_IntervalCount = 1, sub_SubscriptionKey = 50,
     sub_ExternalCustomerID = ''c'', sub_Status = ''active'', sub_ProviderName = ''mercadopago'',
     sub_ProviderSubscriptionID = [], sub_CurrentPeriodStart = 0, sub_CurrentPeriodEnd = 2678400000000000,
     sub_TrialEndsAt = None, sub_CanceledAt = None, sub_CancelAtPeriodEnd = False, sub_Tags = Some [],
     sub_Metadata = None, sub_Payments = [], sub_CreatedAt = 0, sub_UpdatedAt = 0\<rparr>, sr_idempotency_key = ''k''\<rparr>"

definition pay_sample_sys :: sys where
  "pay_sample_sys = \<lparr>clock = 0, session = Current_Tenant 7, uuids = (\<lambda>n. of_nat n + 100), drawn = 0,
     jsonb = Some, tenants = [pay_sample_tenant], plans = [], subscriptions = [pay_sample_sub],
     payments = [], charges = [],
     api_keys = [], credentials = [], users = [], random = (\<lambda>n. CHR ''a''), random_pos = 0,
     idle = [], choices = (\<lambda>n. 0), acquired = 0\<rparr>"

definition pay_sample_ctx :: go_context where
  "pay_sample_ctx = WithTenantID background 7"

definition sample_charge :: charge_result where
  "sample_charge = \<lparr>ch_ProviderChargeID = ''mp-1'', ch_Status = ''succeeded'', ch_FailureReason = [],
     ch_PaymentMethod = None, ch_RawResponse = None\<rparr>"

definition sample_provider :: provider where
  "sample_provider = \<lparr>pv_Name = ''mercadopago'', pv_Capabilities = \<lparr>caps_Plans = True, caps_PayPerUse = True\<rparr>,
     pv_CreateCharge = (\<lambda>n req. Inr sample_charge),
     pv_RefundCharge = (\<lambda>n c a. Inl (Sentinel ErrNotSupported)),
     pv_HandleWebhook = (\<lambda>p sg. Inl (Sentinel ErrWebhookSignatureInvalid)),
     pv_ValidateConfig = (\<lambda>c. None)\<rparr>"

definition sample_adapter :: adapter where
  "sample_adapter = \<lparr>ad_registry = [(''mercadopago'', sample_provider)], ad_yamlCaps = []\<rparr>"

definition sample_payment_input :: create_payment_input where
  "sample_payment_input = \<lparr>ci_SubscriptionID = 5, ci_IdempotencyKey = ''key-1'', ci_ProviderName = ''mercadopago'',
     ci_Amount = 1000, ci_Currency = ''ARS'', ci_Description = [], ci_ExternalCustomerID = ''c'',
     ci_ProviderConfig = [(''access_token'', ''t'')], ci_Metadata = []\<rparr>"

definition sample_payment :: payment where
  "sample_payment = \<lparr>pay_ID = 101, pay_TenantID = 7, pay_SubscriptionID = 5, pay_IdempotencyKey = ''key-1'',
     pay_ProviderName = ''mercadopago'', pay_ProviderChargeID = ''mp-1'', pay_Amount = 1000, pay_Currency = ''ARS'',
     pay_Status = ''succeeded'', pay_FailureReason = [], pay_PaymentMethod = Some empty_payment_method,
     pay_ProviderResponse = None, pay_CreatedAt = 0, pay_UpdatedAt = 0\<rparr>"

definition pay_sample_sys1 :: sys where
  "pay_sample_sys1 = snd (pay_svc_CreatePayment sample_adapter pay_sample_ctx sample_payment_input pay_sample_sys)"

lemma sample_payment_fst:
  "fst (pay_svc_CreatePayment sample_adapter pay_sample_ctx sample_payment_input pay_sample_sys) = Inr (sample_payment, True)"
  "fst (pay_svc_CreatePayment sample_adapter pay_sample_ctx sample_payment_input pay_sample_sys1) = Inr (sample_payment, False)"
  by code_simp+

lemma sample_payment_created:
  "pay_svc_CreatePayment sample_adapter pay_sample_ctx sample_payment_input pay_sample_sys = (Inr (sample_payment, True), pay_sample_sys1)"
  "pay_svc_CreatePayment sample_adapter pay_sample_ctx sample_payment_input pay_sample_sys1
     = (Inr (sample_payment, False), snd (pay_svc_CreatePayment sample_adapter pay_sample_ctx sample_payment_input pay_sample_sys1))"
  by (rule prod_eqI; simp add: sample_payment_fst pay_sample_sys1_def [symmetric])+

section \<open>Properties\<close>

text \<open>The retry itself, when its key is already stored.\<close>

lemma known_key_retry:
  assumes "payment_by_key s (TenantIDFromContext ctx, ci_IdempotencyKey input) = Some old" "TenantIDFromContext ctx \<noteq> 0"
    and "pay_svc_CreatePayment adp ctx input s = (r, s')"
  shows "payments s' = payments s
    \<and> (case validate_payment input of
         Some err \<Rightarrow> r = Inl err \<and> s' = s
       | None \<Rightarrow>
          (case adapter_CreateCharge adp (ci_ProviderName input) (payment_charge_request input) s of
             (Inl err, s1) \<Rightarrow> r = Inl (Wrap ''provider charge'' err) \<and> s' = s1
           | (Inr res, s1) \<Rightarrow> charges s' = charges s @ [(ci_ProviderName input, payment_charge_request input)]
               \<and> (if visible s (TenantIDFromContext ctx) \<and> is_ok (to_jsonb s (ch_RawResponse res))
                  then r = Inr (scan_payment old, False)
                  else \<exists>e. r = Inl (Wrap ''creating payment'' (Wrap ''create payment'' e)) \<and> server_error e)))"
  using assms(3)
proof (cases rule: pay_svc_CreatePayment_cases)
  case (refused e)
  then show ?thesis using assms(2,3) by (auto simp: pay_svc_CreatePayment_def)
next
  case (provider e)
  then show ?thesis
    using adapter_CreateCharge_frame(1) [of adp "ci_ProviderName input" "payment_charge_request input" s] by simp
next
  case (charged res s1 q)
  let ?t = "TenantIDFromContext ctx"
  let ?p = "payment_from_charge (next_uuid s1) ?t input res"
  have s1: "s1 = s\<lparr>charges := charges s @ [(ci_ProviderName input, payment_charge_request input)]\<rparr>"
    using charged(3) by (elim adapter_CreateCharge_Inr)
  have k: "payment_by_key (draw s1) (payment_key ?p) = Some old"
    using assms(1) by (simp add: s1 payment_by_key_def)
  have v: "visible (draw s1) (pay_TenantID ?p) = visible s ?t" by (simp add: s1 visible_def)
  have json: "to_jsonb (draw s1) (pay_ProviderResponse ?p) = to_jsonb s (ch_RawResponse res)"
    by (simp add: payment_from_charge_def to_jsonb_def s1 cong: option.case_cong)
  have "payments s' = payments s \<and> charges s' = charges s1
      \<and> (if visible s ?t \<and> is_ok (to_jsonb s (ch_RawResponse res)) then q = Inr (scan_payment old, False)
         else \<exists>e. q = Inl (Wrap ''create payment'' e) \<and> server_error e)"
  proof (cases "visible s ?t \<and> is_ok (to_jsonb s (ch_RawResponse res))")
    case True
    then obtain stored where "to_jsonb (draw s1) (pay_ProviderResponse ?p) = Inr stored" using json by (auto simp: is_ok_iff)
    moreover have "rls_check (draw s1) ''payments'' (pay_TenantID ?p) = None" using v True by (simp only: rls_check_None)
    ultimately have "payment_insert ?p (draw s1) = (Inl No_Rows, draw (draw s1))"
      using k convertChargeStatus_valid by (simp add: payment_insert_def Let_def)
    then have "pay_repo_Create ?p (draw s1) = (Inr (scan_payment old, False), draw (draw s1))"
      using pay_repo_GetByKey_visible [of "draw (draw s1)" ?t "ci_IdempotencyKey input"] k [simplified] v [simplified] True
      by (simp add: pay_repo_Create_def payment_from_charge_def)
    then show ?thesis using charged(4) True by (auto simp: s1)
  next
    case False
    from charged(4) show ?thesis
    proof (cases rule: pay_repo_Create_cases)
      case (existing old')
      have "payment_insert ?p (draw s1) = (Inl No_Rows, snd (payment_insert ?p (draw s1)))"
        using charged(4) existing(1) by (auto simp: pay_repo_Create_def split: prod.splits sum.splits if_splits)
      then have "is_ok (to_jsonb s (ch_RawResponse res))"
        unfolding json [symmetric]
        by (cases "to_jsonb (draw s1) (pay_ProviderResponse ?p)") (auto simp: payment_insert_def is_ok_iff dest: to_jsonb_error)
      then show ?thesis using False existing(4) v by simp
    qed (use False k in \<open>auto simp: s1\<close>)
  qed
  then show ?thesis using charged(2,3,5) s1 by (auto split: if_splits)
qed

text \<open>C2. An idempotency key of a tenant names one payment for ever: a retry with the key, whatever
  requests ran in between and whatever else the retry says, never creates a payment. It is refused when it
  does not pass the validation. Otherwise the provider is charged again, with the amount and the details of the
  retry, before the key is looked up: when the provider refuses, the retry fails with the provider's error;
  when it takes the charge, the retry returns the payment of the first call, unless the connection does not
  see the tenant or the provider's answer is no JSON the database accepts, which are server errors.\<close>

theorem payment_retry:
  assumes "pay_svc_CreatePayment adp ctx input s = (Inr (p, c), s1)"
    and "pay_step\<^sup>*\<^sup>* s1 s2"
    and "pay_svc_CreatePayment adp' ctx input' s2 = (r, s3)"
    and "ci_IdempotencyKey input' = ci_IdempotencyKey input"
  shows "payments s3 = payments s2
    \<and> (case validate_payment input' of
         Some err \<Rightarrow> r = Inl err \<and> s3 = s2
       | None \<Rightarrow>
          (case adapter_CreateCharge adp' (ci_ProviderName input') (payment_charge_request input') s2 of
             (Inl err, s') \<Rightarrow> r = Inl (Wrap ''provider charge'' err) \<and> s3 = s'
           | (Inr res, s') \<Rightarrow> charges s3 = charges s2 @ [(ci_ProviderName input', payment_charge_request input')]
               \<and> (if visible s2 (TenantIDFromContext ctx) \<and> is_ok (to_jsonb s2 (ch_RawResponse res))
                  then r = Inr (p, False)
                  else \<exists>e. r = Inl (Wrap ''creating payment'' (Wrap ''create payment'' e)) \<and> server_error e)))"
proof -
  let ?t = "TenantIDFromContext ctx" and ?k = "ci_IdempotencyKey input"
  obtain u where u: "payment_by_key s1 (?t, ?k) = Some u" "p = scan_payment u" "?t \<noteq> 0"
    using assms(1)
  proof (cases rule: pay_svc_CreatePayment_cases)
    case (charged res s1' q')
    then have "pay_repo_Create (payment_from_charge (next_uuid s1') ?t input res) (draw s1') = (Inr (p, c), s1)"
      by (cases q') auto
    from payment_store.create_lookup [OF this] show ?thesis using that charged(1) by auto
  qed auto
  have u2: "payment_by_key s2 (?t, ci_IdempotencyKey input') = Some u"
    using payment_by_key_steps [OF assms(2) u(1)] assms(4) by simp
  show ?thesis unfolding u(2) by (rule known_key_retry [OF u2 u(3) assms(3)])
qed

theorem payment_retry_witness:
  "\<exists>s3. pay_svc_CreatePayment sample_adapter pay_sample_ctx sample_payment_input pay_sample_sys1 = (Inr (sample_payment, False), s3)
     \<and> payments s3 = payments pay_sample_sys1 \<and> length (charges s3) = Suc (length (charges pay_sample_sys1))"
proof -
  obtain r s3 where c: "pay_svc_CreatePayment sample_adapter pay_sample_ctx sample_payment_input pay_sample_sys1 = (r, s3)"
    by fastforce
  have h: "validate_payment sample_payment_input = None" "visible pay_sample_sys1 (TenantIDFromContext pay_sample_ctx)" by code_simp+
  have "fst (adapter_CreateCharge sample_adapter (ci_ProviderName sample_payment_input) (payment_charge_request sample_payment_input) pay_sample_sys1)
      = Inr sample_charge"
    by (simp add: adapter_CreateCharge_def Lookup_def Let_def sample_adapter_def sample_payment_input_def sample_provider_def)
  moreover have "is_ok (to_jsonb pay_sample_sys1 (ch_RawResponse sample_charge))" by code_simp
  ultimately show ?thesis
    using payment_retry [OF sample_payment_created(1) rtranclp.rtrancl_refl c refl] c h
    by (auto split: prod.splits)
qed

text \<open>Over any sequence of repository calls at most one payment is created for an idempotency key.\<close>

theorem payment_created_once:
  "creations payment_key k ps (fst (run_ops pay_repo_Create ps s)) \<le> 1"
  by (rule payment_store.at_most_once)

text \<open>The table is append-only: no sequence of requests changes or removes a stored payment.\<close>

theorem payments_append_only:
  assumes "pay_step\<^sup>*\<^sup>* s s'"
  shows "prefix (payments s) (payments s')"
  using assms by (rule pay_steps_prefix)

theorem payments_append_only_witness: "prefix (payments pay_sample_sys) (payments pay_sample_sys1)"
  by (rule payments_append_only) (auto simp: pay_sample_sys1_def intro: pay_step.intros)

text \<open>A request that passes the validation for a registered provider sends a charge before the
  idempotency key is looked at. So a retry with a known key asks the provider to charge again (with
  the amount and the details of the retry), and only then gets the first payment back: what prevents a
  double charge is the provider's own treatment of the key.\<close>

theorem retry_charges_provider_again:
  assumes "payment_by_key s (TenantIDFromContext ctx, ci_IdempotencyKey input) = Some old"
    and "TenantIDFromContext ctx \<noteq> 0" "validate_payment input = None" "visible s (TenantIDFromContext ctx)"
    and "map_of (ad_registry adp) (ci_ProviderName input) = Some pv"
    and "pv_CreateCharge pv (length (charges s)) (payment_charge_request input) = Inr res" "to_jsonb s (ch_RawResponse res) = Inr stored"
  shows "fst (pay_svc_CreatePayment adp ctx input s) = Inr (scan_payment old, False)
    \<and> charges (snd (pay_svc_CreatePayment adp ctx input s))
        = charges s @ [(ci_ProviderName input, payment_charge_request input)]"
proof -
  obtain r s' where c: "pay_svc_CreatePayment adp ctx input s = (r, s')" by fastforce
  then show ?thesis
  proof (cases rule: pay_svc_CreatePayment_cases)
    case (charged res' s1 q)
    have s1: "s1 = s\<lparr>charges := charges s @ [(ci_ProviderName input, payment_charge_request input)]\<rparr>" and "res' = res"
      using charged(3) assms(5,6) by (auto elim!: adapter_CreateCharge_Inr)
    have k: "payment_by_key (draw s1) (TenantIDFromContext ctx, ci_IdempotencyKey input) = Some old"
      using assms(1) by (simp add: s1 payment_by_key_def)
    have v: "visible (draw s1) (TenantIDFromContext ctx)"
      using assms(4) by (simp add: s1 visible_def)
    let ?p = "payment_from_charge (next_uuid s1) (TenantIDFromContext ctx) input res"
    have json: "to_jsonb (draw s1) (pay_ProviderResponse ?p) = Inr stored"
      using assms(7) by (simp add: payment_from_charge_def to_jsonb_def s1 cong: option.case_cong)
    have rls: "rls_check s1 ''payments'' (TenantIDFromContext ctx) = None" using v by (simp add: rls_check_None)
    have "payment_insert ?p (draw s1) = (Inl No_Rows, draw (draw s1))"
      using k json convertChargeStatus_valid by (simp add: payment_insert_def Let_def rls)
    then have "pay_repo_Create ?p (draw s1) = (Inr (scan_payment old, False), draw (draw s1))"
      using pay_repo_GetByKey_visible [of "draw (draw s1)" "TenantIDFromContext ctx" "ci_IdempotencyKey input"] k v
      by (simp add: pay_repo_Create_def payment_from_charge_def)
    with charged(4,5) \<open>res' = res\<close> show ?thesis by (simp add: c s1)
  next
    case (provider e)
    then show ?thesis using assms(5,6) by (simp add: adapter_CreateCharge_def Lookup_def Let_def)
  qed (use assms in auto)
qed

theorem retry_charges_provider_again_witness:
  "length (charges pay_sample_sys1) = 1
   \<and> length (charges (snd (pay_svc_CreatePayment sample_adapter pay_sample_ctx sample_payment_input pay_sample_sys1))) = 2"
proof -
  have old: "payment_by_key pay_sample_sys1 (TenantIDFromContext pay_sample_ctx, ci_IdempotencyKey sample_payment_input)
      = Some (sample_payment\<lparr>pay_PaymentMethod := None\<rparr>)" by code_simp
  have h: "TenantIDFromContext pay_sample_ctx \<noteq> 0" "validate_payment sample_payment_input = None"
    "visible pay_sample_sys1 (TenantIDFromContext pay_sample_ctx)" "length (charges pay_sample_sys1) = 1" by code_simp+
  have p: "map_of (ad_registry sample_adapter) (ci_ProviderName sample_payment_input) = Some sample_provider"
    by (simp add: sample_adapter_def sample_payment_input_def)
  show ?thesis
    using retry_charges_provider_again [OF old h(1,2,3) p, of sample_charge None] h(4)
    by (simp add: sample_provider_def sample_charge_def to_jsonb_def)
qed

text \<open>What a created payment records: the caller's tenant, the request's subscription, key,
  provider, amount (positive) and currency, the provider's charge id, and a status that the table
  allows; and exactly one charge with this amount and key went to this provider.\<close>

theorem payment_create_result:
  assumes "pay_svc_CreatePayment adp ctx input s = (Inr (p, True), s')"
  shows "pay_TenantID p = TenantIDFromContext ctx \<and> pay_SubscriptionID p = ci_SubscriptionID input
    \<and> pay_IdempotencyKey p = ci_IdempotencyKey input \<and> pay_ProviderName p = ci_ProviderName input
    \<and> pay_Amount p = ci_Amount input \<and> 0 < sint (pay_Amount p) \<and> pay_Currency p = ci_Currency input
    \<and> pay_Status p \<in> set payment_statuses
    \<and> charges s' = charges s @ [(ci_ProviderName input, payment_charge_request input)]
    \<and> (\<exists>row. payments s' = payments s @ [row] \<and> p = scan_payment row)"
  using assms
proof (cases rule: pay_svc_CreatePayment_cases)
  case (charged res s1 q)
  have s1: "s1 = s\<lparr>charges := charges s @ [(ci_ProviderName input, payment_charge_request input)]\<rparr>"
    using charged(3) by (auto elim!: adapter_CreateCharge_Inr)
  have q: "q = Inr (p, True)" using charged(5) by (cases q) auto
  have amount: "0 < sint (ci_Amount input)" using charged(2) by (simp add: validate_payment_None)
  from charged(4) show ?thesis
  proof (cases rule: pay_repo_Create_cases)
    case (created row response)
    then show ?thesis using q amount
      by (auto simp: s1 scan_payment_def payment_row_def payment_from_charge_def convertChargeStatus_valid)
  qed (use q in auto)
qed auto

theorem payment_create_result_witness:
  "pay_TenantID sample_payment = 7 \<and> pay_Amount sample_payment = 1000 \<and> length (charges pay_sample_sys1) = 1"
  using payment_create_result [OF sample_payment_created(1)]
  by (simp add: sample_payment_def pay_sample_sys_def)

text \<open>The subscription named by the request is not looked up: for one that does not exist the
  provider is charged first, then the foreign key of the table rejects the row; the caller gets 500
  and no payment is recorded.\<close>

theorem unknown_subscription_charged_not_recorded:
  assumes "ci_SubscriptionID input \<notin> (sub_ID \<circ> sr_sub) ` set (subscriptions s)"
    and "payment_by_key s (TenantIDFromContext ctx, ci_IdempotencyKey input) = None"
    and "TenantIDFromContext ctx \<noteq> 0" "validate_payment input = None"
    and "map_of (ad_registry adp) (ci_ProviderName input) = Some pv"
    and "pv_CreateCharge pv (length (charges s)) (payment_charge_request input) = Inr res"
  shows "(\<exists>e. fst (pay_svc_CreatePayment adp ctx input s) = Inl e \<and> HTTPStatusFor e = 500)
    \<and> charges (snd (pay_svc_CreatePayment adp ctx input s))
        = charges s @ [(ci_ProviderName input, payment_charge_request input)]
    \<and> payments (snd (pay_svc_CreatePayment adp ctx input s)) = payments s"
proof -
  obtain r s' where c: "pay_svc_CreatePayment adp ctx input s = (r, s')" by fastforce
  then show ?thesis
  proof (cases rule: pay_svc_CreatePayment_cases)
    case (charged res' s1 q)
    have s1: "s1 = s\<lparr>charges := charges s @ [(ci_ProviderName input, payment_charge_request input)]\<rparr>" and "res' = res"
      using charged(3) assms(5,6) by (auto elim!: adapter_CreateCharge_Inr)
    have "payment_by_key (draw s1) (TenantIDFromContext ctx, ci_IdempotencyKey input) = None"
      using assms(2) by (simp add: s1 payment_by_key_def)
    with charged(4) have "(\<exists>e. q = Inl (Wrap ''create payment'' e) \<and> server_error e)
        \<and> charges s' = charges s1 \<and> payments s' = payments s1"
      by (cases rule: pay_repo_Create_cases) (use assms(1) in \<open>auto simp: s1\<close>)
    then show ?thesis using charged(5) by (auto simp: c s1 server_error_D(3))
  next
    case (provider e)
    then show ?thesis using assms(5,6) by (simp add: adapter_CreateCharge_def Lookup_def Let_def)
  qed (use assms in auto)
qed

theorem unknown_subscription_charged_not_recorded_witness:
  "length (charges (snd (pay_svc_CreatePayment sample_adapter pay_sample_ctx
      (sample_payment_input\<lparr>ci_SubscriptionID := 6\<rparr>) pay_sample_sys))) = 1"
proof -
  let ?i = "sample_payment_input\<lparr>ci_SubscriptionID := 6\<rparr>"
  have h: "ci_SubscriptionID ?i \<notin> (sub_ID \<circ> sr_sub) ` set (subscriptions pay_sample_sys)"
    "payment_by_key pay_sample_sys (TenantIDFromContext pay_sample_ctx, ci_IdempotencyKey ?i) = None"
    "TenantIDFromContext pay_sample_ctx \<noteq> 0" "validate_payment ?i = None" by code_simp+
  have p: "map_of (ad_registry sample_adapter) (ci_ProviderName ?i) = Some sample_provider"
    by (simp add: sample_adapter_def sample_payment_input_def)
  show ?thesis
    using unknown_subscription_charged_not_recorded [OF h p, of sample_charge]
    by (simp add: sample_provider_def pay_sample_sys_def)
qed

text \<open>On a connection set to a tenant, reading payments by id, by key, by subscription or as a
  list gives payments of that tenant only; and every payment read carries a payment method,
  also when none was stored.\<close>

theorem payment_reads_isolated:
  assumes "session s = Current_Tenant t"
  shows "(\<forall>i p. pay_svc_GetByID i s = Inr p \<longrightarrow> pay_TenantID p = t \<and> pay_PaymentMethod p \<noteq> None)
    \<and> (\<forall>u k p. pay_repo_GetByKey u k s = Inr p \<longrightarrow> pay_TenantID p = t \<and> pay_PaymentMethod p \<noteq> None)
    \<and> (\<forall>i l ps p. pay_svc_ListBySubscription i l s = Inr ps \<and> p \<in> set ps
          \<longrightarrow> pay_TenantID p = t \<and> pay_SubscriptionID p = i \<and> pay_PaymentMethod p \<noteq> None)"
proof (intro conjI allI impI)
  have vis: "visible s u \<longleftrightarrow> u = t" for u using assms by (auto simp: visible_def)
  have scan: "\<exists>m. pay_PaymentMethod (scan_payment p) = Some m"
    "pay_SubscriptionID (scan_payment p) = pay_SubscriptionID p" for p
    by (simp_all add: scan_payment_def)
  have sum: "map_sum f g x = Inr y \<longleftrightarrow> (\<exists>z. x = Inr z \<and> y = g z)" for f :: "gerror \<Rightarrow> gerror" and g :: "'x \<Rightarrow> 'x" and x y
    by (cases x) auto
  note defs = pay_svc_GetByID_def pay_repo_GetByID_def pay_repo_GetByKey_def sum vis scan
  fix i u k l ps p
  show "pay_TenantID p = t" "pay_PaymentMethod p \<noteq> None" if "pay_svc_GetByID i s = Inr p"
    using that by (auto simp: defs dest!: query_row_Inr)
  show "pay_TenantID p = t" "pay_PaymentMethod p \<noteq> None" if "pay_repo_GetByKey u k s = Inr p"
    using that by (auto simp: defs dest!: query_row_Inr)
  assume "pay_svc_ListBySubscription i l s = Inr ps \<and> p \<in> set ps"
  then obtain q n where "p = scan_payment q"
    "q \<in> set (page n (\<lambda>p. - pay_CreatedAt p) (\<lambda>p. visible s (pay_TenantID p) \<and> pay_SubscriptionID p = i) (payments s))"
    by (auto simp: pay_svc_ListBySubscription_def pay_repo_ListBySubscription_def Let_def sum split: option.splits)
  then show "pay_TenantID p = t" "pay_SubscriptionID p = i" "pay_PaymentMethod p \<noteq> None"
    using set_page by (fastforce simp: vis scan)+
qed

theorem payment_reads_isolated_witness:
  "session pay_sample_sys1 = Current_Tenant 7 \<and> pay_svc_GetByID 101 pay_sample_sys1 = Inr sample_payment
   \<and> pay_TenantID sample_payment = 7"
proof -
  have "session pay_sample_sys1 = Current_Tenant 7" "pay_svc_GetByID 101 pay_sample_sys1 = Inr sample_payment"
    by code_simp+
  then show ?thesis using payment_reads_isolated [of pay_sample_sys1 7] by auto
qed

end
