(* ===== verification/Subscription.thy ===== *)
theory Subscription
  imports Plan Payment
begin

text \<open>
  Package \<open>internal/subscription\<close> without its lifecycle jobs: the repository over table
  \<open>subscriptions\<close>, the service and the HTTP handlers. A \<open>Status\<close> is a Go string; the schema allows
  five values. \<open>Tags\<close> is a slice, where nil and empty differ: the driver writes nil as NULL, which the
  column refuses.
\<close>

definition StatusTrialing :: string where "StatusTrialing = ''trialing''"
definition StatusActive :: string where "StatusActive = ''active''"
definition StatusPastDue :: string where "StatusPastDue = ''past_due''"
definition StatusCanceled :: string where "StatusCanceled = ''canceled''"
definition StatusExpired :: string where "StatusExpired = ''expired''"

definition subscription_statuses :: "string list" where
  "subscription_statuses = [StatusTrialing, StatusActive, StatusPastDue, StatusCanceled, StatusExpired]"

record create_subscription_input =
  cs_PlanSlug :: string
  cs_Amount :: int64
  cs_Currency :: string
  cs_Interval :: string
  cs_IntervalCount :: int64
  cs_ExternalCustomerID :: string
  cs_ProviderName :: string
  cs_ProviderSubscriptionID :: string
  cs_Tags :: "string list"
  cs_Metadata :: "string option"
  cs_IdempotencyKey :: string

record update_subscription_input =
  us_Status :: "string option"
  us_CancelAtPeriodEnd :: "bool option"
  us_Amount :: "int64 option"
  us_Tags :: "string list option"
  us_TagsProvided :: bool
  us_Metadata :: "string option"

record list_subscriptions_input =
  ls_Status :: "string list"
  ls_Tags :: "string list"
  ls_Limit :: int64
  ls_Cursor :: string

record list_subscriptions_result =
  lsr_Subscriptions :: "subscription list"
  lsr_NextCursor :: string

section \<open>Repository: reading\<close>

definition row_tenant :: "sub_row \<Rightarrow> uuid" where
  "row_tenant r = sub_TenantID (sr_sub r)"

definition sub_idem_key :: "sub_row \<Rightarrow> uuid \<times> string" where
  "sub_idem_key r = (sub_TenantID (sr_sub r), sr_idempotency_key r)"

definition row_by_idem_key :: "sys \<Rightarrow> uuid \<times> string \<Rightarrow> sub_row option" where
  "row_by_idem_key s k = find (\<lambda>r. sub_idem_key r = k) (subscriptions s)"

text \<open>The metadata of a scanned row is set when its bytes are not empty; \<open>Create\<close> also drops JSON
  \<open>null\<close>.\<close>

definition scan_subscription :: "sub_row \<Rightarrow> subscription" where
  "scan_subscription r =
     (let sub = sr_sub r
      in case sub_Metadata sub of
           Some m \<Rightarrow> (if 0 < length m then sub else sub\<lparr>sub_Metadata := None\<rparr>)
         | None \<Rightarrow> sub)"

definition scan_created :: "sub_row \<Rightarrow> subscription" where
  "scan_created r =
     (let sub = sr_sub r
      in case sub_Metadata sub of
           Some m \<Rightarrow> (if 0 < length m \<and> m \<noteq> ''null'' then sub else sub\<lparr>sub_Metadata := None\<rparr>)
         | None \<Rightarrow> sub)"

definition sub_repo_GetByKey :: "uuid \<Rightarrow> sys \<Rightarrow> gerror + subscription" where
  "sub_repo_GetByKey key s =
     map_sum id scan_subscription (not_found_or_wrap ''get subscription by key''
       (query_row s row_tenant (\<lambda>r. sub_SubscriptionKey (sr_sub r) = key) (subscriptions s)))"

definition sub_repo_GetByID :: "uuid \<Rightarrow> sys \<Rightarrow> gerror + subscription" where
  "sub_repo_GetByID sid s =
     map_sum id scan_subscription (not_found_or_wrap ''get subscription by id''
       (query_row s row_tenant (\<lambda>r. sub_ID (sr_sub r) = sid) (subscriptions s)))"

definition sub_list_filter ::
  "uuid \<Rightarrow> list_subscriptions_input \<Rightarrow> (gtime \<times> uuid) option \<Rightarrow> subscription \<Rightarrow> bool" where
  "sub_list_filter tenantID input cursor sub \<longleftrightarrow>
     sub_TenantID sub = tenantID
     \<and> (ls_Status input \<noteq> [] \<longrightarrow> sub_Status sub \<in> set (ls_Status input))
     \<and> (ls_Tags input \<noteq> [] \<longrightarrow>
          (case sub_Tags sub of None \<Rightarrow> False | Some tags \<Rightarrow> list_all (\<lambda>t. t \<in> set tags) (ls_Tags input)))
     \<and> after_cursor cursor (sub_CreatedAt sub) (sub_ID sub)"

definition sub_order :: "sub_row \<Rightarrow> gtime \<times> uuid" where
  "sub_order r = (sub_CreatedAt (sr_sub r), sub_ID (sr_sub r))"

definition sub_repo_List ::
  "(string \<Rightarrow> uuid option) \<Rightarrow> (uuid \<Rightarrow> string) \<Rightarrow> uuid \<Rightarrow> list_subscriptions_input \<Rightarrow> sys
    \<Rightarrow> gerror + list_subscriptions_result" where
  "sub_repo_List uuid_parse uuid_string tenantID input s =
     (let limit = repo_limit (ls_Limit input)
      in case list_cursor uuid_parse (ls_Cursor input) of
           Inl err \<Rightarrow> Inl err
         | Inr cursor \<Rightarrow>
            (case first_error [session_check s, limit_check limit] of
               Some err \<Rightarrow> Inl (Wrap ''list subscriptions'' err)
             | None \<Rightarrow>
                (let n = nat (sint limit);
                     rows = page (n + 1) sub_order
                              (\<lambda>r. visible s (row_tenant r) \<and> sub_list_filter tenantID input cursor (sr_sub r))
                              (subscriptions s);
                     (subs, next_cursor) = cut_page uuid_string sub_CreatedAt sub_ID n (map scan_subscription rows)
                 in Inr \<lparr>lsr_Subscriptions = subs, lsr_NextCursor = next_cursor\<rparr>)))"

text \<open>\<open>SELECT status, COUNT(*) .. GROUP BY status\<close>, over the rows the session sees.\<close>

definition sub_repo_CountByStatus :: "sys \<Rightarrow> gerror + (string \<times> nat) list" where
  "sub_repo_CountByStatus s =
     (case session_check s of
        Some err \<Rightarrow> Inl (Wrap ''count subscriptions by status'' err)
      | None \<Rightarrow>
         (let sts = map (sub_Status \<circ> sr_sub) (filter (\<lambda>r. visible s (row_tenant r)) (subscriptions s))
          in Inr (map (\<lambda>st. (st, count_list sts st)) (remdups sts))))"

section \<open>Repository: writing\<close>

definition sub_constraints :: "sub_row \<Rightarrow> gerror option" where
  "sub_constraints r =
     first_error
       [check (sub_Tags (sr_sub r) \<noteq> None) (not_null_violation ''subscriptions'' ''tags''),
        check (sub_Interval (sr_sub r) \<in> set all_intervals)
          (check_violation ''subscriptions'' ''subscriptions_interval_check''),
        check (sub_Status (sr_sub r) \<in> set subscription_statuses)
          (check_violation ''subscriptions'' ''subscriptions_status_check'')]"

definition metadata_to_insert :: "string option \<Rightarrow> string option" where
  "metadata_to_insert m =
     (case m of Some t \<Rightarrow> (if 0 < length t \<and> t \<noteq> ''null'' then Some t else None) | None \<Rightarrow> None)"

definition sub_table_row :: "uuid \<Rightarrow> gtime \<Rightarrow> string option \<Rightarrow> subscription \<Rightarrow> string \<Rightarrow> sub_row" where
  "sub_table_row sid now meta sub key =
     \<lparr>sr_sub = sub\<lparr>sub_ID := sid,
                    sub_CurrentPeriodStart := trunc_us (sub_CurrentPeriodStart sub),
                    sub_CurrentPeriodEnd := trunc_us (sub_CurrentPeriodEnd sub),
                    sub_TrialEndsAt := map_option trunc_us (sub_TrialEndsAt sub),
                    sub_CanceledAt := map_option trunc_us (sub_CanceledAt sub),
                    sub_Metadata := meta, sub_Payments := [],
                    sub_CreatedAt := now, sub_UpdatedAt := now\<rparr>,
      sr_idempotency_key = key\<rparr>"

definition sub_insert :: "subscription \<Rightarrow> string \<Rightarrow> sys \<Rightarrow> (gerror + sub_row) \<times> sys" where
  "sub_insert sub key s =
     (if \<not> int4_ok (sub_IntervalCount sub) then (Inl int4_overflow, s)
      else case to_jsonb s (metadata_to_insert (sub_Metadata sub)) of
        Inl err \<Rightarrow> (Inl err, s)
      | Inr meta \<Rightarrow>
         (let r = sub_table_row (next_uuid s) (db_now s) meta sub key; s1 = draw s
          in case first_error
                 [rls_check s ''subscriptions'' (sub_TenantID sub),
                  sub_constraints r,
                  check (next_uuid s \<notin> (sub_ID \<circ> sr_sub) ` set (subscriptions s))
                    (unique_violation ''subscriptions_pkey''),
                  check (sub_SubscriptionKey sub \<notin> (sub_SubscriptionKey \<circ> sr_sub) ` set (subscriptions s))
                    (unique_violation ''subscriptions_subscription_key_key''),
                  check (row_by_idem_key s (sub_TenantID sub, key) = None)
                    (unique_violation ''subscriptions_tenant_idempotency_key_key''),
                  check (sub_TenantID sub \<in> tn_ID ` set (tenants s))
                    (fk_violation ''subscriptions'' ''subscriptions_tenant_id_fkey''),
                  check (case sub_PlanID sub of None \<Rightarrow> True | Some p \<Rightarrow> p \<in> plan_ID ` set (plans s))
                    (fk_violation ''subscriptions'' ''subscriptions_plan_id_fkey'')] of
               Some err \<Rightarrow> (Inl err, s1)
             | None \<Rightarrow> (Inr r, s1\<lparr>subscriptions := subscriptions s @ [r]\<rparr>)))"

text \<open>A conflict on the idempotency key is recognised by the constraint's name in the error text.\<close>

definition idempotency_constraint :: string where
  "idempotency_constraint = ''subscriptions_tenant_idempotency_key_key''"

definition sub_repo_Create :: "subscription \<Rightarrow> string \<Rightarrow> sys \<Rightarrow> (gerror + subscription \<times> bool) \<times> sys" where
  "sub_repo_Create sub key s =
     (case sub_insert sub key s of
        (Inl err, s') \<Rightarrow>
          (if contains (error_text err) idempotency_constraint
           then (case query_row s' row_tenant (\<lambda>r. sub_idem_key r = (sub_TenantID sub, key)) (subscriptions s') of
                   Inl err2 \<Rightarrow> (Inl (Wrap ''fetching duplicate subscription'' err2), s')
                 | Inr r \<Rightarrow> (Inr (scan_created r, False), s'))
           else (Inl (Wrap ''create subscription'' err), s'))
      | (Inr r, s') \<Rightarrow> (Inr (scan_created r, True), s'))"

text \<open>An UPDATE on the row with an id, read back with RETURNING.\<close>

definition update_sub ::
  "string \<Rightarrow> (subscription \<Rightarrow> subscription) \<Rightarrow> uuid \<Rightarrow> sys \<Rightarrow> (gerror + subscription) \<times> sys" where
  "update_sub msg f sid s =
     (case update_rows s row_tenant (\<lambda>r. sub_ID (sr_sub r) = sid) (\<lambda>r. r\<lparr>sr_sub := f (sr_sub r)\<rparr>)
             sub_constraints (subscriptions s) of
        Inl err \<Rightarrow> (Inl (Wrap msg err), s)
      | Inr ([], rs) \<Rightarrow> (Inl (Sentinel ErrNotFound), s)
      | Inr (r # _, rs) \<Rightarrow> (Inr (scan_subscription r), s\<lparr>subscriptions := rs\<rparr>))"

definition sub_patch :: "gtime \<Rightarrow> string option option \<Rightarrow> update_subscription_input \<Rightarrow> subscription \<Rightarrow> subscription" where
  "sub_patch now meta input sub =
     (let sub = sub\<lparr>sub_UpdatedAt := now\<rparr>;
          sub = (case us_Status input of None \<Rightarrow> sub | Some st \<Rightarrow> sub\<lparr>sub_Status := st\<rparr>);
          sub = (case us_CancelAtPeriodEnd input of None \<Rightarrow> sub | Some b \<Rightarrow> sub\<lparr>sub_CancelAtPeriodEnd := b\<rparr>);
          sub = (if us_TagsProvided input then sub\<lparr>sub_Tags := us_Tags input\<rparr> else sub);
          sub = (case us_Amount input of None \<Rightarrow> sub | Some a \<Rightarrow> sub\<lparr>sub_Amount := a\<rparr>)
      in (case meta of None \<Rightarrow> sub | Some m \<Rightarrow> sub\<lparr>sub_Metadata := m\<rparr>))"

definition sub_repo_Update :: "uuid \<Rightarrow> update_subscription_input \<Rightarrow> sys \<Rightarrow> (gerror + subscription) \<times> sys" where
  "sub_repo_Update sid input s =
     (case (case us_Metadata input of
              None \<Rightarrow> Inr None
            | Some m \<Rightarrow> map_sum id Some (to_jsonb s (if length m = 0 \<or> m = ''null'' then None else Some m))) of
        Inl err \<Rightarrow> (Inl (Wrap ''update subscription'' err), s)
      | Inr meta \<Rightarrow> update_sub ''update subscription'' (sub_patch (db_now s) meta input) sid s)"

definition sub_cancel_row :: "gtime \<Rightarrow> gtime \<Rightarrow> bool \<Rightarrow> subscription \<Rightarrow> subscription" where
  "sub_cancel_row now db_time atPeriodEnd sub =
     (if atPeriodEnd then sub\<lparr>sub_CancelAtPeriodEnd := True, sub_UpdatedAt := db_time\<rparr>
      else sub\<lparr>sub_Status := StatusCanceled, sub_CanceledAt := Some (trunc_us now),
               sub_CancelAtPeriodEnd := False, sub_UpdatedAt := db_time\<rparr>)"

definition sub_repo_Cancel :: "uuid \<Rightarrow> bool \<Rightarrow> sys \<Rightarrow> (gerror + subscription) \<times> sys" where
  "sub_repo_Cancel sid atPeriodEnd s =
     update_sub ''cancel subscription'' (sub_cancel_row (clock s) (db_now s) atPeriodEnd) sid s"

text \<open>The two writes of the lifecycle jobs: an \<open>Exec\<close>, with \<open>ErrNotFound\<close> when no row was affected.\<close>

definition exec_sub :: "string \<Rightarrow> (subscription \<Rightarrow> subscription) \<Rightarrow> uuid \<Rightarrow> sys \<Rightarrow> (gerror + unit) \<times> sys" where
  "exec_sub msg f sid s =
     (case update_rows s row_tenant (\<lambda>r. sub_ID (sr_sub r) = sid) (\<lambda>r. r\<lparr>sr_sub := f (sr_sub r)\<rparr>)
             sub_constraints (subscriptions s) of
        Inl err \<Rightarrow> (Inl (Wrap msg err), s)
      | Inr (written, rs) \<Rightarrow>
          (if length written = 0 then (Inl (Sentinel ErrNotFound), s)
           else (Inr (), s\<lparr>subscriptions := rs\<rparr>)))"

definition sub_repo_UpdateStatus :: "uuid \<Rightarrow> string \<Rightarrow> sys \<Rightarrow> (gerror + unit) \<times> sys" where
  "sub_repo_UpdateStatus sid newStatus s =
     exec_sub ''update subscription status'' (\<lambda>sub. sub\<lparr>sub_Status := newStatus, sub_UpdatedAt := db_now s\<rparr>) sid s"

definition sub_repo_AdvancePeriod :: "uuid \<Rightarrow> gtime \<Rightarrow> gtime \<Rightarrow> sys \<Rightarrow> (gerror + unit) \<times> sys" where
  "sub_repo_AdvancePeriod sid newStart newEnd s =
     exec_sub ''advance subscription period''
       (\<lambda>sub. sub\<lparr>sub_CurrentPeriodStart := trunc_us newStart, sub_CurrentPeriodEnd := trunc_us newEnd,
                  sub_UpdatedAt := db_now s\<rparr>) sid s"

section \<open>The insertion\<close>

lemma scan_simps [simp]:
  "sub_ID (scan_subscription r) = sub_ID (sr_sub r)" "sub_ID (scan_created r) = sub_ID (sr_sub r)"
  "sub_TenantID (scan_subscription r) = sub_TenantID (sr_sub r)"
  "sub_TenantID (scan_created r) = sub_TenantID (sr_sub r)"
  "sub_Status (scan_subscription r) = sub_Status (sr_sub r)"
  "sub_Status (scan_created r) = sub_Status (sr_sub r)"
  by (auto simp: scan_subscription_def scan_created_def Let_def split: option.split)

text \<open>Scanning touches the metadata only.\<close>

lemma scan_fields [simp]:
  "sub_PlanID (scan_created r) = sub_PlanID (sr_sub r)" "sub_Amount (scan_created r) = sub_Amount (sr_sub r)"
  "sub_Currency (scan_created r) = sub_Currency (sr_sub r)" "sub_Interval (scan_created r) = sub_Interval (sr_sub r)"
  "sub_IntervalCount (scan_created r) = sub_IntervalCount (sr_sub r)" "sub_Tags (scan_created r) = sub_Tags (sr_sub r)"
  "sub_CurrentPeriodStart (scan_created r) = sub_CurrentPeriodStart (sr_sub r)"
  "sub_CurrentPeriodEnd (scan_created r) = sub_CurrentPeriodEnd (sr_sub r)"
  "sub_TrialEndsAt (scan_created r) = sub_TrialEndsAt (sr_sub r)" "sub_CanceledAt (scan_created r) = sub_CanceledAt (sr_sub r)"
  "sub_CancelAtPeriodEnd (scan_created r) = sub_CancelAtPeriodEnd (sr_sub r)"
  "sub_Amount (scan_subscription r) = sub_Amount (sr_sub r)" "sub_Tags (scan_subscription r) = sub_Tags (sr_sub r)"
  "sub_ProviderName (scan_subscription r) = sub_ProviderName (sr_sub r)"
  "sub_CanceledAt (scan_subscription r) = sub_CanceledAt (sr_sub r)"
  "sub_CancelAtPeriodEnd (scan_subscription r) = sub_CancelAtPeriodEnd (sr_sub r)"
  "sub_CurrentPeriodEnd (scan_subscription r) = sub_CurrentPeriodEnd (sr_sub r)"
  by (auto simp: scan_created_def scan_subscription_def Let_def split: option.split)

lemma sub_table_row_simps [simp]:
  "sub_ID (sr_sub (sub_table_row i now m sub k)) = i"
  "sub_TenantID (sr_sub (sub_table_row i now m sub k)) = sub_TenantID sub"
  "sub_idem_key (sub_table_row i now m sub k) = (sub_TenantID sub, k)"
  "sub_Status (sr_sub (sub_table_row i now m sub k)) = sub_Status sub"
  "sub_Interval (sr_sub (sub_table_row i now m sub k)) = sub_Interval sub"
  "sub_Tags (sr_sub (sub_table_row i now m sub k)) = sub_Tags sub"
  "sub_PlanID (sr_sub (sub_table_row i now m sub k)) = sub_PlanID sub"
  "sub_SubscriptionKey (sr_sub (sub_table_row i now m sub k)) = sub_SubscriptionKey sub"
  by (simp_all add: sub_table_row_def sub_idem_key_def)

lemma row_by_idem_key_draw [simp]: "row_by_idem_key (draw s) = row_by_idem_key s"
  by (simp add: row_by_idem_key_def fun_eq_iff)

lemma sub_constraints_None:
  "sub_constraints r = None \<longleftrightarrow> sub_Tags (sr_sub r) \<noteq> None \<and> sub_Interval (sr_sub r) \<in> set all_intervals
     \<and> sub_Status (sr_sub r) \<in> set subscription_statuses"
  by (simp add: sub_constraints_def first_error_None check_None)

lemma sub_constraints_error [simp]: "pred_option server_error (sub_constraints r)"
  by (simp add: sub_constraints_def)

text \<open>Of the errors that the INSERT can end with, only the violation of the idempotency constraint
  has its name in the text.\<close>

lemma idempotency_text:
  "contains (error_text (unique_violation idempotency_constraint)) idempotency_constraint"
  "\<not> contains (error_text (unique_violation ''subscriptions_pkey'')) idempotency_constraint"
  "\<not> contains (error_text (unique_violation ''subscriptions_subscription_key_key'')) idempotency_constraint"
  "\<not> contains (error_text (fk_violation ''subscriptions'' ''subscriptions_tenant_id_fkey'')) idempotency_constraint"
  "\<not> contains (error_text (fk_violation ''subscriptions'' ''subscriptions_plan_id_fkey'')) idempotency_constraint"
  "\<not> contains (error_text (check_violation ''subscriptions'' ''subscriptions_interval_check'')) idempotency_constraint"
  "\<not> contains (error_text (check_violation ''subscriptions'' ''subscriptions_status_check'')) idempotency_constraint"
  "\<not> contains (error_text (not_null_violation ''subscriptions'' ''tags'')) idempotency_constraint"
  "\<not> contains (error_text unset_parameter) idempotency_constraint"
  "\<not> contains (error_text (rls_violation ''subscriptions'')) idempotency_constraint"
  "\<not> contains (error_text invalid_json) idempotency_constraint"
  "\<not> contains (error_text int4_overflow) idempotency_constraint"
  by code_simp+

definition other_error :: "gerror \<Rightarrow> bool" where
  "other_error e \<longleftrightarrow> server_error e \<and> \<not> contains (error_text e) idempotency_constraint"

lemma other_errors [simp]:
  "other_error (unique_violation ''subscriptions_pkey'')"
  "other_error (unique_violation ''subscriptions_subscription_key_key'')"
  "other_error (fk_violation ''subscriptions'' ''subscriptions_tenant_id_fkey'')"
  "other_error (fk_violation ''subscriptions'' ''subscriptions_plan_id_fkey'')"
  "other_error invalid_json" "other_error int4_overflow"
  "pred_option other_error (rls_check s ''subscriptions'' t)"
  "pred_option other_error (sub_constraints r)"
  by (simp_all add: other_error_def idempotency_text rls_check_def session_check_def sub_constraints_def)

lemma sub_insert_cases:
  assumes "sub_insert sub key s = (q, s')"
  obtains (created) r meta where "q = Inr r" "r = sub_table_row (next_uuid s) (db_now s) meta sub key"
      "s' = draw s\<lparr>subscriptions := subscriptions s @ [r]\<rparr>" "visible s (sub_TenantID sub)"
      "sub_constraints r = None" "next_uuid s \<notin> (sub_ID \<circ> sr_sub) ` set (subscriptions s)"
      "sub_SubscriptionKey sub \<notin> (sub_SubscriptionKey \<circ> sr_sub) ` set (subscriptions s)"
      "row_by_idem_key s (sub_TenantID sub, key) = None" "sub_TenantID sub \<in> tn_ID ` set (tenants s)"
      "case sub_PlanID sub of None \<Rightarrow> True | Some p \<Rightarrow> p \<in> plan_ID ` set (plans s)"
      "to_jsonb s (metadata_to_insert (sub_Metadata sub)) = Inr meta"
  | (conflict) old where "q = Inl (unique_violation idempotency_constraint)" "s' = draw s"
      "row_by_idem_key s (sub_TenantID sub, key) = Some old" "visible s (sub_TenantID sub)" "sub_Tags sub \<noteq> None"
  | (failed) e where "q = Inl e" "other_error e" "s' = s \<or> s' = draw s"
proof -
  let ?meta = "to_jsonb s (metadata_to_insert (sub_Metadata sub))"
  let ?r = "\<lambda>meta. sub_table_row (next_uuid s) (db_now s) meta sub key"
  let ?pre = "\<lambda>meta. [rls_check s ''subscriptions'' (sub_TenantID sub), sub_constraints (?r meta),
     check (next_uuid s \<notin> (sub_ID \<circ> sr_sub) ` set (subscriptions s)) (unique_violation ''subscriptions_pkey''),
     check (sub_SubscriptionKey sub \<notin> (sub_SubscriptionKey \<circ> sr_sub) ` set (subscriptions s))
       (unique_violation ''subscriptions_subscription_key_key'')]"
  let ?mid = "check (row_by_idem_key s (sub_TenantID sub, key) = None) (unique_violation idempotency_constraint)"
  let ?post = "[check (sub_TenantID sub \<in> tn_ID ` set (tenants s))
       (fk_violation ''subscriptions'' ''subscriptions_tenant_id_fkey''),
     check (case sub_PlanID sub of None \<Rightarrow> True | Some p \<Rightarrow> p \<in> plan_ID ` set (plans s))
       (fk_violation ''subscriptions'' ''subscriptions_plan_id_fkey'')]"
  have app: "first_error (xs @ ys) = (case first_error xs of None \<Rightarrow> first_error ys | Some e \<Rightarrow> Some e)" for xs ys
    by (induction xs rule: first_error.induct) auto
  have ins: "sub_insert sub key s = (case first_error (?pre meta @ [?mid] @ ?post) of
       Some err \<Rightarrow> (Inl err, draw s) | None \<Rightarrow> (Inr (?r meta), draw s\<lparr>subscriptions := subscriptions s @ [?r meta]\<rparr>))"
    if "int4_ok (sub_IntervalCount sub)" "?meta = Inr meta" for meta
    using that by (simp add: sub_insert_def Let_def idempotency_constraint_def)
  show thesis
  proof (cases "int4_ok (sub_IntervalCount sub)")
    case False
    with assms show ?thesis by (intro failed [of int4_overflow]) (simp_all add: sub_insert_def)
  next
    case int4: True
    show ?thesis
    proof (cases ?meta)
      case (Inl e)
      then have "e = invalid_json" by (auto simp: to_jsonb_def split: option.splits)
      with assms int4 Inl show ?thesis by (intro failed [of invalid_json]) (simp_all add: sub_insert_def)
    next
      case (Inr meta)
      note ins' = assms [unfolded ins [OF int4 Inr] app]
      show ?thesis
      proof (cases "first_error (?pre meta)")
        case (Some e)
        then have "other_error e" by (rule pred_option_SomeD) simp
        with Some ins' show ?thesis by (intro failed [of e]) (simp_all add: app)
      next
        case pre: None
        then have v: "visible s (sub_TenantID sub)" "sub_Tags sub \<noteq> None"
          by (simp_all add: first_error_None rls_check_None sub_constraints_None)
        show ?thesis
        proof (cases "row_by_idem_key s (sub_TenantID sub, key)")
          case (Some old)
          with v ins' pre show ?thesis by (intro conflict [of old]) (simp_all add: app)
        next
          case key: None
          show ?thesis
          proof (cases "first_error ?post")
            case (Some e)
            then have "other_error e" by (rule pred_option_SomeD) simp
            with Some ins' pre key show ?thesis by (intro failed [of e]) (simp_all add: app)
          next
            case None
            with ins' pre key v Inr show ?thesis
              by (intro created [of "?r meta" meta]) (simp_all add: app first_error_None check_None)
          qed
        qed
      qed
    qed
  qed
qed

lemma sub_repo_Create_cases:
  assumes "sub_repo_Create sub key s = (q, s')"
  obtains (created) r meta where "q = Inr (scan_created r, True)"
      "r = sub_table_row (next_uuid s) (db_now s) meta sub key"
      "s' = draw s\<lparr>subscriptions := subscriptions s @ [r]\<rparr>" "visible s (sub_TenantID sub)"
      "sub_constraints r = None" "next_uuid s \<notin> (sub_ID \<circ> sr_sub) ` set (subscriptions s)"
      "sub_SubscriptionKey sub \<notin> (sub_SubscriptionKey \<circ> sr_sub) ` set (subscriptions s)"
      "row_by_idem_key s (sub_TenantID sub, key) = None" "sub_TenantID sub \<in> tn_ID ` set (tenants s)"
      "case sub_PlanID sub of None \<Rightarrow> True | Some p \<Rightarrow> p \<in> plan_ID ` set (plans s)"
      "to_jsonb s (metadata_to_insert (sub_Metadata sub)) = Inr meta"
  | (existing) old where "q = Inr (scan_created old, False)" "s' = draw s"
      "row_by_idem_key s (sub_TenantID sub, key) = Some old" "visible s (sub_TenantID sub)" "sub_Tags sub \<noteq> None"
  | (failed) e where "q = Inl (Wrap ''create subscription'' e)" "server_error e" "s' = s \<or> s' = draw s"
proof -
  obtain x s1 where c: "sub_insert sub key s = (x, s1)" by fastforce
  then show thesis
  proof (cases rule: sub_insert_cases)
    case (created r meta)
    with c assms show ?thesis by (intro that(1) [of r meta]) (simp_all add: sub_repo_Create_def)
  next
    case (conflict old)
    have "find (\<lambda>r. visible s (row_tenant r) \<and> sub_idem_key r = (sub_TenantID sub, key)) (subscriptions s)
        = row_by_idem_key s (sub_TenantID sub, key)"
      unfolding row_by_idem_key_def
      by (rule find_cong_set) (use conflict(4) in \<open>auto simp: sub_idem_key_def row_tenant_def\<close>)
    then have "query_row s1 row_tenant (\<lambda>r. sub_idem_key r = (sub_TenantID sub, key)) (subscriptions s1) = Inr old"
      using conflict visible_not_unset [OF conflict(4)] by (simp add: query_row_def session_check_def)
    with conflict c assms show ?thesis
      by (intro that(2) [of old]) (simp_all add: sub_repo_Create_def idempotency_text)
  next
    case (failed e)
    then have "server_error e" "\<not> contains (error_text e) idempotency_constraint"
      by (simp_all add: other_error_def)
    with failed c assms show ?thesis by (intro that(3) [of e]) (simp_all add: sub_repo_Create_def)
  qed
qed

definition create_call :: "subscription \<times> string \<Rightarrow> sys \<Rightarrow> (gerror + subscription \<times> bool) \<times> sys" where
  "create_call c s = sub_repo_Create (fst c) (snd c) s"

definition create_key :: "subscription \<times> string \<Rightarrow> uuid \<times> string" where
  "create_key c = (sub_TenantID (fst c), snd c)"

definition sub_by_idem_key :: "sys \<Rightarrow> uuid \<times> string \<Rightarrow> subscription option" where
  "sub_by_idem_key s k = map_option scan_created (row_by_idem_key s k)"

lemma sub_store_laws:
  "create_call c s = (Inr (v, True), s') \<Longrightarrow>
     sub_by_idem_key s (create_key c) = None \<and> sub_by_idem_key s' (create_key c) = Some v"
  "create_call c s = (Inr (v, False), s') \<Longrightarrow>
     sub_by_idem_key s (create_key c) = Some v \<and> sub_by_idem_key s' = sub_by_idem_key s"
  "create_call c s = (Inl e, s') \<Longrightarrow> sub_by_idem_key s' = sub_by_idem_key s"
  "k \<noteq> create_key c \<Longrightarrow> sub_by_idem_key (snd (create_call c s)) k = sub_by_idem_key s k"
proof -
  obtain r s' where c: "sub_repo_Create (fst c) (snd c) s = (r, s')" by fastforce
  then show "k \<noteq> create_key c \<Longrightarrow> sub_by_idem_key (snd (create_call c s)) k = sub_by_idem_key s k"
  proof (cases rule: sub_repo_Create_cases)
    case (created row meta)
    then have "sub_idem_key row = create_key c" by (simp add: create_key_def)
    with created(3) c show "k \<noteq> create_key c \<Longrightarrow> ?thesis"
      by (auto simp: create_call_def sub_by_idem_key_def row_by_idem_key_def find_append split: option.split)
  qed (auto simp: c create_call_def sub_by_idem_key_def)
next
  assume "create_call c s = (Inr (v, True), s')"
  then have "sub_repo_Create (fst c) (snd c) s = (Inr (v, True), s')" by (simp add: create_call_def)
  then show "sub_by_idem_key s (create_key c) = None \<and> sub_by_idem_key s' (create_key c) = Some v"
    by (cases rule: sub_repo_Create_cases)
      (auto simp: create_key_def sub_by_idem_key_def row_by_idem_key_def find_append)
next
  assume "create_call c s = (Inr (v, False), s')"
  then have "sub_repo_Create (fst c) (snd c) s = (Inr (v, False), s')" by (simp add: create_call_def)
  then show "sub_by_idem_key s (create_key c) = Some v \<and> sub_by_idem_key s' = sub_by_idem_key s"
    by (cases rule: sub_repo_Create_cases) (auto simp: create_key_def sub_by_idem_key_def fun_eq_iff)
next
  assume "create_call c s = (Inl e, s')"
  then have "sub_repo_Create (fst c) (snd c) s = (Inl e, s')" by (simp add: create_call_def)
  then show "sub_by_idem_key s' = sub_by_idem_key s"
    by (cases rule: sub_repo_Create_cases) (auto simp: sub_by_idem_key_def fun_eq_iff)
qed

interpretation subscription_store: idempotent_store create_call create_key sub_by_idem_key sub_ID
  by unfold_locales (auto simp: sub_store_laws)

section \<open>The table\<close>

text \<open>The constraints of the schema as an invariant.\<close>

definition subs_ok :: "sys \<Rightarrow> bool" where
  "subs_ok s \<longleftrightarrow> distinct (map (sub_ID \<circ> sr_sub) (subscriptions s))
     \<and> distinct (map (sub_SubscriptionKey \<circ> sr_sub) (subscriptions s))
     \<and> distinct (map sub_idem_key (subscriptions s))
     \<and> (\<forall>r \<in> set (subscriptions s). sub_constraints r = None
          \<and> sub_TenantID (sr_sub r) \<in> tn_ID ` set (tenants s)
          \<and> (case sub_PlanID (sr_sub r) of None \<Rightarrow> True | Some p \<Rightarrow> p \<in> plan_ID ` set (plans s)))"

text \<open>The columns that no operation writes after the insertion.\<close>

definition sub_fixed ::
  "sub_row \<Rightarrow> (uuid \<times> uuid \<times> uuid option \<times> uuid \<times> string) \<times> (string \<times> string \<times> int64 \<times> gtime option)
     \<times> (string \<times> string \<times> string \<times> gtime)" where
  "sub_fixed r =
     ((sub_ID (sr_sub r), sub_TenantID (sr_sub r), sub_PlanID (sr_sub r), sub_SubscriptionKey (sr_sub r),
       sr_idempotency_key r),
      (sub_Currency (sr_sub r), sub_Interval (sr_sub r), sub_IntervalCount (sr_sub r), sub_TrialEndsAt (sr_sub r)),
      (sub_ExternalCustomerID (sr_sub r), sub_ProviderName (sr_sub r), sub_ProviderSubscriptionID (sr_sub r),
       sub_CreatedAt (sr_sub r)))"

definition keeps_fixed :: "(subscription \<Rightarrow> subscription) \<Rightarrow> bool" where
  "keeps_fixed f \<longleftrightarrow> (\<forall>r. sub_fixed (r\<lparr>sr_sub := f (sr_sub r)\<rparr>) = sub_fixed r)"

lemma keeps_fixed [simp]:
  "keeps_fixed (sub_patch now meta input)" "keeps_fixed (sub_cancel_row now t b)"
  "keeps_fixed (\<lambda>sub. sub\<lparr>sub_Status := st, sub_UpdatedAt := now\<rparr>)"
  "keeps_fixed (\<lambda>sub. sub\<lparr>sub_CurrentPeriodStart := a, sub_CurrentPeriodEnd := b', sub_UpdatedAt := now\<rparr>)"
  by (auto simp: keeps_fixed_def sub_fixed_def sub_patch_def sub_cancel_row_def Let_def split: option.split)

definition update_table :: "sys \<Rightarrow> (subscription \<Rightarrow> subscription) \<Rightarrow> uuid \<Rightarrow> sub_row list" where
  "update_table s f sid =
     update_where (\<lambda>r. visible s (row_tenant r) \<and> sub_ID (sr_sub r) = sid)
       (\<lambda>r. r\<lparr>sr_sub := f (sr_sub r)\<rparr>) (subscriptions s)"

text \<open>The outcomes of an UPDATE by id.\<close>

lemma update_sub_cases:
  assumes "update_sub msg f sid s = (q, s')"
  obtains (written) r where "q = Inr (scan_subscription (r\<lparr>sr_sub := f (sr_sub r)\<rparr>))" "r \<in> set (subscriptions s)"
      "visible s (row_tenant r)" "sub_ID (sr_sub r) = sid" "s' = s\<lparr>subscriptions := update_table s f sid\<rparr>"
      "\<forall>r \<in> set (subscriptions s). visible s (row_tenant r) \<and> sub_ID (sr_sub r) = sid
         \<longrightarrow> sub_constraints (r\<lparr>sr_sub := f (sr_sub r)\<rparr>) = None"
  | (failed) e where "q = Inl e" "s' = s"
proof -
  let ?u = "update_rows s row_tenant (\<lambda>r. sub_ID (sr_sub r) = sid) (\<lambda>r. r\<lparr>sr_sub := f (sr_sub r)\<rparr>)
              sub_constraints (subscriptions s)"
  show thesis
  proof (cases ?u)
    case (Inl e)
    with assms show ?thesis by (intro failed [of "Wrap msg e"]) (simp_all add: update_sub_def)
  next
    case (Inr p)
    then obtain w rs where u: "?u = Inr (w, rs)" by (cases p) auto
    note upd = update_rows_Inr [OF u]
    show ?thesis
    proof (cases w)
      case Nil
      with u assms show ?thesis by (intro failed [of "Sentinel ErrNotFound"]) (simp_all add: update_sub_def)
    next
      case (Cons x xs)
      then obtain r ys where "filter (\<lambda>r. visible s (row_tenant r) \<and> sub_ID (sr_sub r) = sid) (subscriptions s) = r # ys"
        and x: "x = r\<lparr>sr_sub := f (sr_sub r)\<rparr>"
        using upd(2) by (cases "filter (\<lambda>r. visible s (row_tenant r) \<and> sub_ID (sr_sub r) = sid) (subscriptions s)") auto
      then have "r \<in> set (filter (\<lambda>r. visible s (row_tenant r) \<and> sub_ID (sr_sub r) = sid) (subscriptions s))" by simp
      then have r: "r \<in> set (subscriptions s)" "visible s (row_tenant r)" "sub_ID (sr_sub r) = sid" by auto
      have "\<forall>r \<in> set (subscriptions s). visible s (row_tenant r) \<and> sub_ID (sr_sub r) = sid
         \<longrightarrow> sub_constraints (r\<lparr>sr_sub := f (sr_sub r)\<rparr>) = None"
        using upd(2,3) by auto
      with Cons u x upd(1) r assms show ?thesis
        by (intro written [of r]) (simp_all add: update_sub_def update_table_def)
    qed
  qed
qed

lemma exec_sub_cases:
  assumes "exec_sub msg f sid s = (q, s')"
  obtains (written) r where "q = Inr ()" "r \<in> set (subscriptions s)"
      "visible s (row_tenant r)" "sub_ID (sr_sub r) = sid" "s' = s\<lparr>subscriptions := update_table s f sid\<rparr>"
      "\<forall>r \<in> set (subscriptions s). visible s (row_tenant r) \<and> sub_ID (sr_sub r) = sid
         \<longrightarrow> sub_constraints (r\<lparr>sr_sub := f (sr_sub r)\<rparr>) = None"
  | (failed) e where "q = Inl e" "s' = s"
proof -
  obtain x s1 where c: "update_sub msg f sid s = (x, s1)" by fastforce
  have *: "s' = s1" "\<And>e. x = Inl e \<Longrightarrow> q = Inl e" "\<And>v. x = Inr v \<Longrightarrow> q = Inr ()"
    using assms c by (auto simp: exec_sub_def update_sub_def split: sum.splits list.splits prod.splits)
  from c show thesis
  proof (cases rule: update_sub_cases)
    case (written r)
    with * show ?thesis by (intro that(1) [of r]) simp_all
  next
    case (failed e)
    with * show ?thesis by (intro that(2) [of e]) simp_all
  qed
qed

text \<open>Every write of the repository is an UPDATE by id that keeps the fixed columns, or the INSERT.\<close>

lemma sub_repo_Update_cases:
  assumes "sub_repo_Update sid input s = (q, s')"
  obtains (patched) meta where "update_sub ''update subscription'' (sub_patch (db_now s) meta input) sid s = (q, s')"
  | (failed) e where "q = Inl e" "s' = s"
  using assms unfolding sub_repo_Update_def by (auto split: sum.splits)

text \<open>What one step can do to the table: nothing (while plans and tenants may only grow), an UPDATE by
  id that keeps the fixed columns and satisfies the constraints, or the INSERT of a row whose keys are new.\<close>

inductive sub_change :: "sys \<Rightarrow> sys \<Rightarrow> bool" where
  change_none: "subscriptions s' = subscriptions s \<Longrightarrow> tn_ID ` set (tenants s) \<subseteq> tn_ID ` set (tenants s')
     \<Longrightarrow> plan_ID ` set (plans s) \<subseteq> plan_ID ` set (plans s') \<Longrightarrow> sub_change s s'"
| change_update: "keeps_fixed f
     \<Longrightarrow> \<forall>r \<in> set (subscriptions s). visible s (row_tenant r) \<and> sub_ID (sr_sub r) = sid
           \<longrightarrow> sub_constraints (r\<lparr>sr_sub := f (sr_sub r)\<rparr>) = None
     \<Longrightarrow> sub_change s (s\<lparr>subscriptions := update_table s f sid\<rparr>)"
| change_insert: "sub_constraints r = None \<Longrightarrow> sub_ID (sr_sub r) \<notin> (sub_ID \<circ> sr_sub) ` set (subscriptions s)
     \<Longrightarrow> sub_SubscriptionKey (sr_sub r) \<notin> (sub_SubscriptionKey \<circ> sr_sub) ` set (subscriptions s)
     \<Longrightarrow> row_by_idem_key s (sub_idem_key r) = None \<Longrightarrow> sub_TenantID (sr_sub r) \<in> tn_ID ` set (tenants s)
     \<Longrightarrow> (case sub_PlanID (sr_sub r) of None \<Rightarrow> True | Some p \<Rightarrow> p \<in> plan_ID ` set (plans s))
     \<Longrightarrow> sub_change s (draw s\<lparr>subscriptions := subscriptions s @ [r]\<rparr>)"

lemma sub_change_refl [simp]: "sub_change s s"
  by (rule change_none) auto

lemma change_draw: "sub_change s (draw s)"
  by (rule change_none) auto

lemma change_update_sub: "keeps_fixed f \<Longrightarrow> sub_change s (snd (update_sub msg f sid s))"
proof -
  assume f: "keeps_fixed f"
  obtain q s' where c: "update_sub msg f sid s = (q, s')" by fastforce
  then show "sub_change s (snd (update_sub msg f sid s))"
  proof (cases rule: update_sub_cases)
    case (written r)
    then show ?thesis using change_update [OF f written(6)] by (simp add: c)
  qed (simp add: c)
qed

lemma change_exec_sub: "keeps_fixed f \<Longrightarrow> sub_change s (snd (exec_sub msg f sid s))"
proof -
  assume f: "keeps_fixed f"
  obtain q s' where c: "exec_sub msg f sid s = (q, s')" by fastforce
  then show "sub_change s (snd (exec_sub msg f sid s))"
  proof (cases rule: exec_sub_cases)
    case (written r)
    then show ?thesis using change_update [OF f written(6)] by (simp add: c)
  qed (simp add: c)
qed

lemma change_create: "sub_change s (snd (sub_repo_Create sub key s))"
proof -
  obtain q s' where c: "sub_repo_Create sub key s = (q, s')" by fastforce
  then show ?thesis
  proof (cases rule: sub_repo_Create_cases)
    case (created r meta)
    then show ?thesis using change_insert [of r s] by (simp add: c)
  qed (auto simp: c change_draw)
qed

lemma change_repo_update: "sub_change s (snd (sub_repo_Update sid input s))"
proof -
  obtain q s' where c: "sub_repo_Update sid input s = (q, s')" by fastforce
  then show ?thesis
  proof (cases rule: sub_repo_Update_cases)
    case (patched meta)
    then show ?thesis
      using change_update_sub [of "sub_patch (db_now s) meta input" s "''update subscription''" sid] by (simp add: c)
  qed (simp add: c)
qed

lemma change_cancel: "sub_change s (snd (sub_repo_Cancel sid b s))"
  unfolding sub_repo_Cancel_def by (rule change_update_sub) simp

lemma change_status: "sub_change s (snd (sub_repo_UpdateStatus sid st s))"
  unfolding sub_repo_UpdateStatus_def by (rule change_exec_sub) simp

lemma change_advance: "sub_change s (snd (sub_repo_AdvancePeriod sid a b s))"
  unfolding sub_repo_AdvancePeriod_def by (rule change_exec_sub) simp

lemma fixed_update: "keeps_fixed f \<Longrightarrow> map sub_fixed (update_table s f sid) = map sub_fixed (subscriptions s)"
  unfolding update_table_def by (rule map_update_where) (simp add: keeps_fixed_def)

lemma sub_fixed_eqD:
  "sub_fixed r = sub_fixed r' \<Longrightarrow> sub_ID (sr_sub r) = sub_ID (sr_sub r') \<and> sub_idem_key r = sub_idem_key r'
     \<and> row_tenant r = row_tenant r' \<and> sub_SubscriptionKey (sr_sub r) = sub_SubscriptionKey (sr_sub r')
     \<and> sub_PlanID (sr_sub r) = sub_PlanID (sr_sub r') \<and> sub_Interval (sr_sub r) = sub_Interval (sr_sub r')"
  by (simp add: sub_fixed_def sub_idem_key_def row_tenant_def)

lemma sub_change_fixed: "sub_change s s' \<Longrightarrow> prefix (map sub_fixed (subscriptions s)) (map sub_fixed (subscriptions s'))"
  by (induction rule: sub_change.induct) (auto simp: fixed_update)

lemma sub_changes_fixed:
  "sub_change\<^sup>*\<^sup>* s s' \<Longrightarrow> prefix (map sub_fixed (subscriptions s)) (map sub_fixed (subscriptions s'))"
  by (induction rule: rtranclp_induct) (auto dest: sub_change_fixed intro: prefix_order.trans)

lemma plan_ref_mono:
  "(case p of None \<Rightarrow> True | Some i \<Rightarrow> i \<in> A) \<Longrightarrow> A \<subseteq> B \<Longrightarrow> (case p of None \<Rightarrow> True | Some i \<Rightarrow> i \<in> B)"
  by (cases p) auto

lemma sub_change_ok:
  assumes "sub_change s s'" "subs_ok s"
  shows "subs_ok s'"
  using assms
proof (induction rule: sub_change.induct)
  case (change_none s' s)
  then show ?case
    unfolding subs_ok_def change_none(1)
    using change_none(4) [unfolded subs_ok_def] subsetD [OF change_none(2)] plan_ref_mono [OF _ change_none(3)]
    by blast
next
  case (change_update f s sid)
  let ?g = "\<lambda>r. if visible s (row_tenant r) \<and> sub_ID (sr_sub r) = sid then r\<lparr>sr_sub := f (sr_sub r)\<rparr> else r"
  have g: "sub_fixed (?g r) = sub_fixed r" for r
    using change_update(1) by (simp add: keeps_fixed_def)
  have tab: "update_table s f sid = map ?g (subscriptions s)"
    by (simp add: update_table_def update_where_def)
  have "sub_constraints (?g r) = None" if "r \<in> set (subscriptions s)" for r
    using change_update(2,3) that by (auto simp: subs_ok_def)
  with g tab obtain h where h: "update_table s f sid = map h (subscriptions s)" "\<And>r. sub_fixed (h r) = sub_fixed r"
    "\<And>r. r \<in> set (subscriptions s) \<Longrightarrow> sub_constraints (h r) = None" by blast
  have eqs: "sub_ID (sr_sub (h r)) = sub_ID (sr_sub r)" "sub_idem_key (h r) = sub_idem_key r"
    "sub_TenantID (sr_sub (h r)) = sub_TenantID (sr_sub r)" "sub_PlanID (sr_sub (h r)) = sub_PlanID (sr_sub r)"
    "sub_SubscriptionKey (sr_sub (h r)) = sub_SubscriptionKey (sr_sub r)" for r
    using sub_fixed_eqD [OF h(2)] by (simp_all add: row_tenant_def)
  show ?case
    using change_update(3) h(3) by (simp add: subs_ok_def h(1) comp_def eqs cong: option.case_cong)
next
  case (change_insert r s)
  have "sub_idem_key r \<notin> sub_idem_key ` set (subscriptions s)"
    using change_insert(4) by (auto simp: row_by_idem_key_def find_None_iff_all)
  with change_insert show ?case by (auto simp: subs_ok_def cong: option.case_cong)
qed

lemma row_by_idem_key_changes:
  assumes "sub_change\<^sup>*\<^sup>* s s'" "row_by_idem_key s k = Some r"
  shows "\<exists>r'. row_by_idem_key s' k = Some r' \<and> sub_fixed r' = sub_fixed r"
  using sub_changes_fixed [OF assms(1)] assms(2) unfolding row_by_idem_key_def
  by (rule find_prefix) (auto dest: sub_fixed_eqD)

end
