(* ===== verification/Subscription_Service.thy ===== *)
theory Subscription_Service
  imports Subscription
begin

text \<open>
  The service of \<open>internal/subscription/service.go\<close> and the handlers of \<open>handler.go\<close>: resolving the
  billing terms of a new subscription (from a plan, or from the request), tags, status transitions,
  and the period arithmetic. The tenant repository that supplies a default provider is the argument
  \<open>get_tenant\<close> (\<open>None\<close> for a handler built without it).
\<close>

section \<open>Service\<close>

definition MaxTagCount :: nat where "MaxTagCount = 20"
definition MaxTagLength :: nat where "MaxTagLength = 50"

text \<open>\<open>normalizeTags\<close>: \<open>var normalized\<close> stays nil when every tag is blank.\<close>

definition normalize_step :: "string list \<Rightarrow> string \<Rightarrow> string list" where
  "normalize_step normalized tag =
     (let lower = to_lower (trim_space tag)
      in if lower \<noteq> [] \<and> lower \<notin> set normalized then normalized @ [lower] else normalized)"

definition normalizeTags :: "string list \<Rightarrow> string list option" where
  "normalizeTags tags =
     (if tags = [] then Some []
      else let normalized = foldl normalize_step [] tags
           in if normalized = [] then None else Some normalized)"

definition validateTags :: "string list \<Rightarrow> gerror option" where
  "validateTags tags =
     validation_err (collect
       ((if MaxTagCount < length tags
         then Some (field_err ''tags'' (''must not exceed '' @ nat_to_string MaxTagCount @ '' tags''))
         else None)
        # map (\<lambda>(i, tag). if MaxTagLength < length (trim_space tag)
                    then Some (field_err (''tags['' @ nat_to_string i @ '']'')
                           (''must be at most '' @ nat_to_string MaxTagLength @ '' characters''))
                    else None) (enumerate 0 tags)))"

text \<open>\<open>validateStatusTransition\<close>: the table of forbidden transitions; what is not in it is allowed.\<close>

definition forbiddenTransitions :: "string \<Rightarrow> string list option" where
  "forbiddenTransitions current =
     (if current = StatusCanceled then Some [StatusActive, StatusTrialing, StatusPastDue]
      else if current = StatusExpired then Some [StatusActive, StatusTrialing]
      else None)"

definition validateStatusTransition :: "string \<Rightarrow> string \<Rightarrow> gerror option" where
  "validateStatusTransition current next_st =
     (case forbiddenTransitions current of
        None \<Rightarrow> None
      | Some forbidden \<Rightarrow>
          (if next_st \<in> set forbidden
           then Some (Domain ''invalid_status_transition''
                        (''cannot transition from '' @ current @ '' to '' @ next_st) 422 ErrInvalidInput)
           else None))"

definition calculatePeriodEnd :: "gtime \<Rightarrow> string \<Rightarrow> int64 \<Rightarrow> gtime" where
  "calculatePeriodEnd start interval count =
     (if interval = IntervalDay then add_date start 0 0 (sint count)
      else if interval = IntervalWeek then add_date start 0 0 (sint (count * 7))
      else if interval = IntervalMonth then add_date start 0 (sint count) 0
      else if interval = IntervalYear then add_date start (sint count) 0 0
      else add_date start 0 1 0)"

record billing_terms =
  bt_PlanID :: "uuid option"
  bt_Amount :: int64
  bt_Currency :: string
  bt_Interval :: string
  bt_IntervalCount :: int64
  bt_Status :: string
  bt_TrialEndsAt :: "gtime option"

definition validate_planless :: "create_subscription_input \<Rightarrow> gerror option" where
  "validate_planless input =
     validation_err (collect
       [PositiveInt ''amount'' (cs_Amount input),
        NonEmpty ''currency'' (cs_Currency input),
        (if cs_Currency input \<noteq> [] then ISOCurrency ''currency'' (cs_Currency input) else None),
        ValidEnum ''interval'' (cs_Interval input) all_intervals,
        MinInt ''interval_count'' (cs_IntervalCount input) 1])"

text \<open>The slug of the request is looked up as it is: it is not normalised here.\<close>

definition resolve_terms ::
  "adapter \<Rightarrow> uuid \<Rightarrow> gtime \<Rightarrow> create_subscription_input \<Rightarrow> sys \<Rightarrow> gerror + billing_terms" where
  "resolve_terms adp tenantID periodStart input s =
     (if cs_PlanSlug input \<noteq> [] then
        (case plan_repo_GetBySlug tenantID (cs_PlanSlug input) s of
           Inl err \<Rightarrow> Inl (Wrap ''resolving plan'' err)
         | Inr p \<Rightarrow>
            (if \<not> plan_IsActive p then Inl (Sentinel ErrPlanNotActive)
             else if cs_ProviderName input \<noteq> [] \<and> \<not> caps_Plans (GetCapabilities adp (cs_ProviderName input))
             then Inl (Sentinel ErrPlansNotSupported)
             else
               let trial = i64_less 0 (plan_TrialDays p)
               in Inr \<lparr>bt_PlanID = Some (plan_ID p), bt_Amount = plan_Amount p, bt_Currency = plan_Currency p,
                       bt_Interval = plan_Interval p, bt_IntervalCount = plan_IntervalCount p,
                       bt_Status = (if trial then StatusTrialing else StatusActive),
                       bt_TrialEndsAt = (if trial then Some (add_date periodStart 0 0 (sint (plan_TrialDays p)))
                                         else None)\<rparr>))
      else
        (case validate_planless input of
           Some err \<Rightarrow> Inl err
         | None \<Rightarrow>
             Inr \<lparr>bt_PlanID = None, bt_Amount = cs_Amount input, bt_Currency = cs_Currency input,
                  bt_Interval = cs_Interval input, bt_IntervalCount = cs_IntervalCount input,
                  bt_Status = StatusActive, bt_TrialEndsAt = None\<rparr>))"

definition validate_customer :: "create_subscription_input \<Rightarrow> gerror option" where
  "validate_customer input =
     (if cs_ExternalCustomerID input \<noteq> []
      then validation_err (collect [MaxLength ''external_customer_id'' (cs_ExternalCustomerID input) 255])
      else None)"

definition new_subscription ::
  "uuid \<Rightarrow> uuid \<Rightarrow> gtime \<Rightarrow> billing_terms \<Rightarrow> create_subscription_input \<Rightarrow> subscription" where
  "new_subscription tenantID subscriptionKey periodStart terms input =
     \<lparr>sub_ID = uuid_nil, sub_TenantID = tenantID, sub_PlanID = bt_PlanID terms,
      sub_Amount = bt_Amount terms, sub_Currency = bt_Currency terms, sub_Interval = bt_Interval terms,
      sub_IntervalCount = bt_IntervalCount terms, sub_SubscriptionKey = subscriptionKey,
      sub_ExternalCustomerID = cs_ExternalCustomerID input, sub_Status = bt_Status terms,
      sub_ProviderName = cs_ProviderName input,
      sub_ProviderSubscriptionID = cs_ProviderSubscriptionID input,
      sub_CurrentPeriodStart = periodStart,
      sub_CurrentPeriodEnd = calculatePeriodEnd periodStart (bt_Interval terms) (bt_IntervalCount terms),
      sub_TrialEndsAt = bt_TrialEndsAt terms, sub_CanceledAt = None, sub_CancelAtPeriodEnd = False,
      sub_Tags = normalizeTags (cs_Tags input), sub_Metadata = cs_Metadata input, sub_Payments = [],
      sub_CreatedAt = 0, sub_UpdatedAt = 0\<rparr>"

definition sub_svc_Create ::
  "adapter \<Rightarrow> go_context \<Rightarrow> create_subscription_input \<Rightarrow> sys \<Rightarrow> (gerror + subscription \<times> bool) \<times> sys" where
  "sub_svc_Create adp ctx input s =
     (let tenantID = TenantIDFromContext ctx
      in if tenantID = uuid_nil then (Inl (Sentinel ErrMissingTenantID), s)
         else
           let periodStart = clock s; subscriptionKey = next_uuid s; s1 = draw s
           in case resolve_terms adp tenantID periodStart input s1 of
                Inl err \<Rightarrow> (Inl err, s1)
              | Inr terms \<Rightarrow>
                 (case first_error [validate_customer input, validateTags (cs_Tags input)] of
                    Some err \<Rightarrow> (Inl err, s1)
                  | None \<Rightarrow>
                     (case sub_repo_Create (new_subscription tenantID subscriptionKey periodStart terms input)
                             (cs_IdempotencyKey input) s1 of
                        (Inl err, s2) \<Rightarrow> (Inl (Wrap ''creating subscription'' err), s2)
                      | (Inr res, s2) \<Rightarrow> (Inr res, s2))))"

definition sub_svc_GetByKey :: "uuid \<Rightarrow> sys \<Rightarrow> gerror + subscription" where
  "sub_svc_GetByKey key s =
     (case sub_repo_GetByKey key s of
        Inl err \<Rightarrow> Inl err
      | Inr sub \<Rightarrow>
          Inr (sub\<lparr>sub_Payments := (case pay_repo_ListBySubscription (sub_ID sub) 10 s of
                                       Inl err \<Rightarrow> [] | Inr ps \<Rightarrow> ps)\<rparr>))"

definition sub_svc_GetByID :: "uuid \<Rightarrow> sys \<Rightarrow> gerror + subscription" where
  "sub_svc_GetByID sid s = sub_repo_GetByID sid s"

text \<open>The checks of \<open>Update\<close> before the repository is called, in the order of the code.\<close>

definition validate_update :: "adapter \<Rightarrow> subscription \<Rightarrow> update_subscription_input \<Rightarrow> gerror option" where
  "validate_update adp currentSub input =
     first_error
       [(if us_Amount input = None then None
         else if sub_ProviderName currentSub = [] then Some (Sentinel ErrProviderRequired)
         else check (caps_PayPerUse (GetCapabilities adp (sub_ProviderName currentSub)))
                (Sentinel ErrPayPerUseNotSupported)),
        (case us_Status input of None \<Rightarrow> None | Some st \<Rightarrow> validateStatusTransition (sub_Status currentSub) st),
        (if us_TagsProvided input
         then validateTags (case us_Tags input of None \<Rightarrow> [] | Some ts \<Rightarrow> ts) else None)]"

definition sub_svc_Update ::
  "adapter \<Rightarrow> uuid \<Rightarrow> update_subscription_input \<Rightarrow> sys \<Rightarrow> (gerror + subscription) \<times> sys" where
  "sub_svc_Update adp sid input s =
     (case sub_repo_GetByID sid s of
        Inl err \<Rightarrow> (Inl err, s)
      | Inr currentSub \<Rightarrow>
         (case validate_update adp currentSub input of
            Some err \<Rightarrow> (Inl err, s)
          | None \<Rightarrow>
             (let input = (if us_TagsProvided input
                           then input\<lparr>us_Tags := normalizeTags (case us_Tags input of None \<Rightarrow> [] | Some ts \<Rightarrow> ts)\<rparr>
                           else input)
              in sub_repo_Update sid input s)))"

definition validate_status_filter :: "string list \<Rightarrow> gerror option" where
  "validate_status_filter sts =
     validation_err (collect (map (\<lambda>(i, st).
        if st \<noteq> [] then ValidEnum (''status['' @ nat_to_string i @ '']'') st subscription_statuses else None)
      (enumerate 0 sts)))"

definition sub_svc_List ::
  "(string \<Rightarrow> uuid option) \<Rightarrow> (uuid \<Rightarrow> string) \<Rightarrow> go_context \<Rightarrow> list_subscriptions_input \<Rightarrow> sys
    \<Rightarrow> gerror + list_subscriptions_result" where
  "sub_svc_List uuid_parse uuid_string ctx input s =
     (let tenantID = TenantIDFromContext ctx
      in if tenantID = uuid_nil then Inl (Sentinel ErrMissingTenantID)
         else case validate_status_filter (ls_Status input) of
                Some err \<Rightarrow> Inl err
              | None \<Rightarrow> sub_repo_List uuid_parse uuid_string tenantID
                          (input\<lparr>ls_Limit := service_limit (ls_Limit input)\<rparr>) s)"

definition sub_svc_Cancel :: "uuid \<Rightarrow> bool \<Rightarrow> sys \<Rightarrow> (gerror + subscription) \<times> sys" where
  "sub_svc_Cancel key atPeriodEnd s =
     (case sub_repo_GetByKey key s of
        Inl err \<Rightarrow> (Inl err, s)
      | Inr sub \<Rightarrow>
         (case sub_repo_Cancel (sub_ID sub) atPeriodEnd s of
            (Inl err, s') \<Rightarrow> (Inl (Wrap ''canceling subscription'' err), s')
          | (Inr c, s') \<Rightarrow> (Inr c, s')))"

section \<open>Handlers\<close>

definition sub_handler_Create ::
  "adapter \<Rightarrow> (uuid \<Rightarrow> sys \<Rightarrow> gerror + tenant) option \<Rightarrow> go_context \<Rightarrow> string
    \<Rightarrow> gerror + create_subscription_input \<Rightarrow> sys \<Rightarrow> subscription response \<times> sys" where
  "sub_handler_Create adp get_tenant ctx idempotencyKey body s =
     (if idempotencyKey = [] then (RespondError ctx (Sentinel ErrMissingIdempotencyKey), s)
      else case body of
        Inl err \<Rightarrow> (RespondError ctx err, s)
      | Inr input \<Rightarrow>
         (let input = input\<lparr>cs_IdempotencyKey := idempotencyKey\<rparr>;
              tenantID = TenantIDFromContext ctx;
              input = (case get_tenant of
                         None \<Rightarrow> input
                       | Some get \<Rightarrow>
                          (if cs_ProviderName input = [] \<and> tenantID \<noteq> uuid_nil
                           then (case get tenantID s of
                                   Inl err \<Rightarrow> input
                                 | Inr t \<Rightarrow> (if tn_DefaultProviderName t \<noteq> []
                                             then input\<lparr>cs_ProviderName := tn_DefaultProviderName t\<rparr> else input))
                           else input))
          in case sub_svc_Create adp ctx input s of
               (Inl err, s') \<Rightarrow> (RespondError ctx err, s')
             | (Inr (sub, created), s') \<Rightarrow> (if created then RespondCreated sub else RespondOK sub, s')))"

definition sub_handler_List ::
  "(string \<Rightarrow> uuid option) \<Rightarrow> (uuid \<Rightarrow> string) \<Rightarrow> go_context \<Rightarrow> string list \<Rightarrow> string list \<Rightarrow> string \<Rightarrow> sys
    \<Rightarrow> list_subscriptions_result response" where
  "sub_handler_List uuid_parse uuid_string ctx statusParams tagParams cursor_q s =
     respond ctx RespondOK
       (sub_svc_List uuid_parse uuid_string ctx
          \<lparr>ls_Status = statusParams, ls_Tags = tagParams, ls_Limit = 20, ls_Cursor = cursor_q\<rparr> s)"

definition with_sub_key ::
  "(string \<Rightarrow> uuid option) \<Rightarrow> string \<Rightarrow> gerror + uuid" where
  "with_sub_key uuid_parse subscriptionKey =
     (if subscriptionKey = [] then Inl (Sentinel ErrInvalidInput) else parse_id uuid_parse subscriptionKey)"

definition sub_handler_GetByKey ::
  "(string \<Rightarrow> uuid option) \<Rightarrow> go_context \<Rightarrow> string \<Rightarrow> sys \<Rightarrow> subscription response" where
  "sub_handler_GetByKey uuid_parse ctx subscriptionKey s =
     respond ctx (\<lambda>key. respond ctx RespondOK (sub_svc_GetByKey key s)) (with_sub_key uuid_parse subscriptionKey)"

text \<open>The JSON values of a PATCH body. \<open>json.Unmarshal\<close> of \<open>null\<close> leaves the zero value and is no
  error; of another kind of value than the target's it is an error, and the handler then ignores the
  field. A number carries its text, as integers are decided by it.\<close>

datatype json =
    J_Null | J_Bool bool | J_Number string | J_String string | J_Array "json list" | J_Object

fun unmarshal_string :: "json \<Rightarrow> string option" where
  "unmarshal_string J_Null = Some []"
| "unmarshal_string (J_String x) = Some x"
| "unmarshal_string _ = None"

fun unmarshal_bool :: "json \<Rightarrow> bool option" where
  "unmarshal_bool J_Null = Some False"
| "unmarshal_bool (J_Bool b) = Some b"
| "unmarshal_bool _ = None"

fun unmarshal_int64 :: "json \<Rightarrow> int64 option" where
  "unmarshal_int64 J_Null = Some 0"
| "unmarshal_int64 (J_Number n) = json_int n"
| "unmarshal_int64 _ = None"

fun unmarshal_strings :: "json \<Rightarrow> string list option option" where
  "unmarshal_strings J_Null = Some None"
| "unmarshal_strings (J_Array xs) =
     (if list_all (\<lambda>x. unmarshal_string x \<noteq> None) xs
      then Some (Some (map (\<lambda>x. case unmarshal_string x of Some t \<Rightarrow> t | None \<Rightarrow> []) xs)) else None)"
| "unmarshal_strings _ = None"

text \<open>The decoded body: each key with its value and its raw text.\<close>

type_synonym raw_object = "(string \<times> json \<times> string) list"

definition patch_input :: "raw_object \<Rightarrow> update_subscription_input" where
  "patch_input raw =
     (let status = Option.bind (map_of raw ''status'') (unmarshal_string \<circ> fst);
          cape = Option.bind (map_of raw ''cancel_at_period_end'') (unmarshal_bool \<circ> fst);
          amount = Option.bind (map_of raw ''amount'') (unmarshal_int64 \<circ> fst);
          tags = Option.bind (map_of raw ''tags'') (unmarshal_strings \<circ> fst);
          metadata = map_option snd (map_of raw ''metadata'')
      in \<lparr>us_Status = status, us_CancelAtPeriodEnd = cape, us_Amount = amount,
          us_Tags = (case tags of None \<Rightarrow> None | Some ts \<Rightarrow> ts), us_TagsProvided = (tags \<noteq> None),
          us_Metadata = metadata\<rparr>)"

definition sub_handler_Update ::
  "(string \<Rightarrow> uuid option) \<Rightarrow> adapter \<Rightarrow> go_context \<Rightarrow> string \<Rightarrow> gerror + raw_object \<Rightarrow> sys
    \<Rightarrow> subscription response \<times> sys" where
  "sub_handler_Update uuid_parse adp ctx subscriptionKey body s =
     (case with_sub_key uuid_parse subscriptionKey of
        Inl err \<Rightarrow> (RespondError ctx err, s)
      | Inr key \<Rightarrow>
         (case sub_svc_GetByKey key s of
            Inl err \<Rightarrow> (RespondError ctx err, s)
          | Inr sub \<Rightarrow>
             (case body of
                Inl err \<Rightarrow> (RespondError ctx err, s)
              | Inr raw \<Rightarrow>
                 (case sub_svc_Update adp (sub_ID sub) (patch_input raw) s of
                    (Inl err, s') \<Rightarrow> (RespondError ctx err, s')
                  | (Inr updated, s') \<Rightarrow> (RespondOK updated, s')))))"

text \<open>A cancel body that does not decode means immediate cancellation.\<close>

definition sub_handler_Cancel ::
  "(string \<Rightarrow> uuid option) \<Rightarrow> go_context \<Rightarrow> string \<Rightarrow> gerror + bool \<Rightarrow> sys \<Rightarrow> subscription response \<times> sys" where
  "sub_handler_Cancel uuid_parse ctx subscriptionKey body s =
     (case with_sub_key uuid_parse subscriptionKey of
        Inl err \<Rightarrow> (RespondError ctx err, s)
      | Inr key \<Rightarrow>
         (let atPeriodEnd = (case body of Inl err \<Rightarrow> False | Inr b \<Rightarrow> b)
          in case sub_svc_Cancel key atPeriodEnd s of
               (Inl err, s') \<Rightarrow> (RespondError ctx err, s')
             | (Inr sub, s') \<Rightarrow> (RespondOK sub, s')))"

section \<open>Tags\<close>

definition norm_tag :: "string \<Rightarrow> string" where
  "norm_tag t = to_lower (trim_space t)"

lemma norm_tag_idem [simp]: "norm_tag (norm_tag t) = norm_tag t"
  by (simp add: norm_tag_def trim_space_lower)

lemma normalize_fold:
  "distinct acc \<Longrightarrow> distinct (foldl normalize_step acc tags)
     \<and> set (foldl normalize_step acc tags) = set acc \<union> (norm_tag ` set tags - {[]})"
proof (induction tags arbitrary: acc)
  case (Cons t tags)
  have "distinct (normalize_step acc t)" "set (normalize_step acc t) = set acc \<union> ({norm_tag t} - {[]})"
    using Cons.prems by (auto simp: normalize_step_def Let_def norm_tag_def)
  with Cons.IH [of "normalize_step acc t"] show ?case by auto
qed simp

lemma normalize_fold_id:
  "distinct (acc @ ns) \<Longrightarrow> \<forall>n \<in> set ns. n \<noteq> [] \<and> norm_tag n = n \<Longrightarrow> foldl normalize_step acc ns = acc @ ns"
proof (induction ns arbitrary: acc)
  case (Cons n ns)
  then have "normalize_step acc n = acc @ [n]" by (simp add: normalize_step_def norm_tag_def)
  with Cons.IH [of "acc @ [n]"] Cons.prems show ?case by simp
qed simp

lemma normalizeTags_cases:
  obtains ns where "normalizeTags tags = Some ns" "distinct ns" "set ns = norm_tag ` set tags - {[]}"
  | "normalizeTags tags = None" "tags \<noteq> []" "\<forall>t \<in> set tags. norm_tag t = []"
proof -
  note f = normalize_fold [of "[]" tags, simplified]
  show thesis
  proof (cases "tags \<noteq> [] \<and> foldl normalize_step [] tags = []")
    case True
    with f have "norm_tag ` set tags - {[]} = {}" by simp
    with True show ?thesis by (intro that(2)) (auto simp: normalizeTags_def)
  next
    case False
    with f show ?thesis
      by (intro that(1) [of "foldl normalize_step [] tags"]) (auto simp: normalizeTags_def)
  qed
qed

section \<open>Billing periods\<close>

lemma sint_times7:
  assumes "int4_ok c"
  shows "sint (c * 7) = 7 * sint c"
proof -
  have "sint (c * 7) = signed_take_bit 63 (sint c * 7)" by (simp add: sint_word_ariths)
  also have "\<dots> = sint c * 7" using assms by (intro signed_take_bit_int_eq_self) (auto simp: int4_ok_def)
  finally show ?thesis by simp
qed

lemma calculatePeriodEnd_simps:
  "calculatePeriodEnd t ''day'' c = t + sint c * ns_per_day"
  "calculatePeriodEnd t ''week'' c = t + sint (c * 7) * ns_per_day"
  "calculatePeriodEnd t ''month'' c = add_date t 0 (sint c) 0"
  "calculatePeriodEnd t ''year'' c = add_date t (sint c) 0 0"
  by (simp_all add: calculatePeriodEnd_def IntervalDay_def IntervalWeek_def IntervalMonth_def IntervalYear_def add_days)

section \<open>Requests on subscriptions over time\<close>

lemma sub_svc_Create_Inr:
  "sub_svc_Create adp ctx input s = (Inr x, s') \<longleftrightarrow>
     TenantIDFromContext ctx \<noteq> 0
     \<and> (\<exists>terms. resolve_terms adp (TenantIDFromContext ctx) (clock s) input (draw s) = Inr terms
          \<and> validate_customer input = None \<and> validateTags (cs_Tags input) = None
          \<and> sub_repo_Create (new_subscription (TenantIDFromContext ctx) (next_uuid s) (clock s) terms input)
              (cs_IdempotencyKey input) (draw s) = (Inr x, s'))"
  by (auto simp: sub_svc_Create_def Let_def first_error_None split: sum.splits option.splits prod.splits)

lemma snd_sub_svc_Create:
  "snd (sub_svc_Create adp ctx input s) \<in> {s, draw s}
   \<or> (\<exists>sub key. snd (sub_svc_Create adp ctx input s) = snd (sub_repo_Create sub key (draw s)))"
  by (auto simp: sub_svc_Create_def Let_def split: sum.splits option.splits prod.splits) (metis snd_conv)+

lemma snd_sub_svc_Update:
  "snd (sub_svc_Update adp sid input s) = s
   \<or> (\<exists>input'. snd (sub_svc_Update adp sid input s) = snd (sub_repo_Update sid input' s))"
  by (auto simp: sub_svc_Update_def Let_def split: sum.splits option.splits)

lemma snd_sub_svc_Cancel:
  "snd (sub_svc_Cancel key b s) = s \<or> (\<exists>sid. snd (sub_svc_Cancel key b s) = snd (sub_repo_Cancel sid b s))"
  by (auto simp: sub_svc_Cancel_def split: sum.splits prod.splits) (metis snd_conv)+

text \<open>One request on subscriptions, one write of a lifecycle job, or a step of the rest of the
  system, which leaves the table alone and removes neither plans nor tenants.\<close>

inductive sub_step :: "sys \<Rightarrow> sys \<Rightarrow> bool" where
  sub_step_create: "sub_step s (snd (sub_svc_Create adp ctx input s))"
| sub_step_update: "sub_step s (snd (sub_svc_Update adp sid patch s))"
| sub_step_cancel: "sub_step s (snd (sub_svc_Cancel key b s))"
| sub_step_status: "sub_step s (snd (sub_repo_UpdateStatus sid st s))"
| sub_step_advance: "sub_step s (snd (sub_repo_AdvancePeriod sid t1 t2 s))"
| sub_step_other: "subscriptions s' = subscriptions s \<Longrightarrow> tn_ID ` set (tenants s) \<subseteq> tn_ID ` set (tenants s')
     \<Longrightarrow> plan_ID ` set (plans s) \<subseteq> plan_ID ` set (plans s') \<Longrightarrow> sub_step s s'"

lemma sub_step_changes: "sub_step s s' \<Longrightarrow> sub_change\<^sup>*\<^sup>* s s'"
proof (induction rule: sub_step.induct)
  case (sub_step_create s adp ctx input)
  have "sub_change\<^sup>*\<^sup>* s (snd (sub_repo_Create sub key (draw s)))" for sub key
    using change_draw change_create by (rule converse_rtranclp_into_rtranclp [OF _ r_into_rtranclp])
  then show ?case using snd_sub_svc_Create [of adp ctx input s] change_draw by auto
next
  case (sub_step_update s adp sid patch)
  show ?case using snd_sub_svc_Update [of adp sid patch s] change_repo_update by auto
next
  case (sub_step_cancel s key b)
  show ?case using snd_sub_svc_Cancel [of key b s] change_cancel by auto
next
  case (sub_step_other s' s)
  then show ?case by (blast intro: change_none)
qed (auto intro: change_status change_advance)

lemma sub_steps_changes: "sub_step\<^sup>*\<^sup>* s s' \<Longrightarrow> sub_change\<^sup>*\<^sup>* s s'"
  by (induction rule: rtranclp_induct) (auto dest: sub_step_changes intro: rtranclp_trans)

lemma sub_steps_ok:
  assumes "sub_step\<^sup>*\<^sup>* s s'" "subs_ok s"
  shows "subs_ok s'"
  using sub_steps_changes [OF assms(1)] assms(2)
  by (induction rule: rtranclp_induct) (auto intro: sub_change_ok)

text \<open>The part of a subscription that its creation fixes.\<close>

definition sub_identity ::
  "subscription \<Rightarrow> (uuid \<times> uuid \<times> uuid option \<times> uuid) \<times> (string \<times> string \<times> int64) \<times> (string \<times> string \<times> gtime)" where
  "sub_identity p =
     ((sub_ID p, sub_TenantID p, sub_PlanID p, sub_SubscriptionKey p),
      (sub_Currency p, sub_Interval p, sub_IntervalCount p),
      (sub_ProviderName p, sub_ExternalCustomerID p, sub_CreatedAt p))"

lemma sub_identity_scan [simp]:
  "sub_identity (scan_created r) = sub_identity (sr_sub r)"
  "sub_identity (scan_subscription r) = sub_identity (sr_sub r)"
  by (auto simp: sub_identity_def scan_created_def scan_subscription_def Let_def split: option.split)

lemma sub_fixed_identity: "sub_fixed r = sub_fixed r' \<Longrightarrow> sub_identity (sr_sub r) = sub_identity (sr_sub r')"
  by (simp add: sub_fixed_def sub_identity_def)

section \<open>Concrete data for the witnesses\<close>

definition sample_sub_input :: create_subscription_input where
  "sample_sub_input = \<lparr>cs_PlanSlug = ''pro'', cs_Amount = 0, cs_Currency = [], cs_Interval = [],
     cs_IntervalCount = 0, cs_ExternalCustomerID = ''cust'', cs_ProviderName = ''mercadopago'',
     cs_ProviderSubscriptionID = [], cs_Tags = ['' VIP'', ''vip'', []], cs_Metadata = None,
     cs_IdempotencyKey = ''k1''\<rparr>"

text \<open>The system in which \<open>sample_plan\<close> (monthly, 14 trial days) was created.\<close>

definition sub_sys1 :: sys where
  "sub_sys1 = snd (sub_svc_Create sample_adapter sample_ctx sample_sub_input sample_sys1)"

definition sample_sub :: subscription where
  "sample_sub = \<lparr>sub_ID = 102, sub_TenantID = 7, sub_PlanID = Some 100, sub_Amount = 1000,
     sub_Currency = ''ARS'', sub_Interval = ''month'', sub_IntervalCount = 1, sub_SubscriptionKey = 101,
     sub_ExternalCustomerID = ''cust'', sub_Status = ''trialing'', sub_ProviderName = ''mercadopago'',
     sub_ProviderSubscriptionID = [], sub_CurrentPeriodStart = 0, sub_CurrentPeriodEnd = 2678400000000000,
     sub_TrialEndsAt = Some 1209600000000000, sub_CanceledAt = None, sub_CancelAtPeriodEnd = False,
     sub_Tags = Some [''vip''], sub_Metadata = None, sub_Payments = [], sub_CreatedAt = 0, sub_UpdatedAt = 0\<rparr>"

lemma sample_sub_fst:
  "fst (sub_svc_Create sample_adapter sample_ctx sample_sub_input sample_sys1) = Inr (sample_sub, True)"
  "fst (sub_svc_Create sample_adapter sample_ctx sample_sub_input sub_sys1) = Inr (sample_sub, False)"
  by code_simp+

lemma sample_sub_created:
  "sub_svc_Create sample_adapter sample_ctx sample_sub_input sample_sys1 = (Inr (sample_sub, True), sub_sys1)"
  "sub_svc_Create sample_adapter sample_ctx sample_sub_input sub_sys1
     = (Inr (sample_sub, False), snd (sub_svc_Create sample_adapter sample_ctx sample_sub_input sub_sys1))"
  by (rule prod_eqI; simp add: sample_sub_fst sub_sys1_def [symmetric])+

lemma sample_subs_ok: "subs_ok sample_sys1" "subs_ok sub_sys1"
  by code_simp+

section \<open>What is stored for a new subscription\<close>

lemma created_fields:
  assumes "sub_repo_Create (new_subscription t k now terms input) key s = (Inr (p, True), s')"
  shows "sub_TenantID p = t" "sub_PlanID p = bt_PlanID terms" "sub_Amount p = bt_Amount terms"
    "sub_Currency p = bt_Currency terms" "sub_Interval p = bt_Interval terms"
    "sub_IntervalCount p = bt_IntervalCount terms" "sub_Status p = bt_Status terms"
    "sub_TrialEndsAt p = map_option trunc_us (bt_TrialEndsAt terms)" "sub_CanceledAt p = None"
    "sub_CancelAtPeriodEnd p = False" "sub_Tags p = normalizeTags (cs_Tags input)"
    "sub_CurrentPeriodStart p = trunc_us now"
    "sub_CurrentPeriodEnd p = trunc_us (calculatePeriodEnd now (bt_Interval terms) (bt_IntervalCount terms))"
    "bt_Interval terms \<in> set all_intervals" "normalizeTags (cs_Tags input) \<noteq> None"
proof -
  obtain r meta where p: "p = scan_created r"
    and r: "r = sub_table_row (next_uuid s) (db_now s) meta (new_subscription t k now terms input) key"
    and con: "sub_constraints r = None"
    using assms by (cases rule: sub_repo_Create_cases) auto
  show "sub_TenantID p = t" "sub_PlanID p = bt_PlanID terms" "sub_Amount p = bt_Amount terms"
    "sub_Currency p = bt_Currency terms" "sub_Interval p = bt_Interval terms"
    "sub_IntervalCount p = bt_IntervalCount terms" "sub_Status p = bt_Status terms"
    "sub_TrialEndsAt p = map_option trunc_us (bt_TrialEndsAt terms)" "sub_CanceledAt p = None"
    "sub_CancelAtPeriodEnd p = False" "sub_Tags p = normalizeTags (cs_Tags input)"
    "sub_CurrentPeriodStart p = trunc_us now"
    "sub_CurrentPeriodEnd p = trunc_us (calculatePeriodEnd now (bt_Interval terms) (bt_IntervalCount terms))"
    unfolding p by (simp_all add: r sub_table_row_def new_subscription_def)
  show "bt_Interval terms \<in> set all_intervals" "normalizeTags (cs_Tags input) \<noteq> None"
    using con by (auto simp: r sub_constraints_None new_subscription_def)
qed

lemma planless_terms:
  assumes "resolve_terms adp t now input s = Inr terms" "cs_PlanSlug input = []"
  shows "bt_PlanID terms = None" "bt_Amount terms = cs_Amount input" "0 < sint (cs_Amount input)"
    "to_upper (bt_Currency terms) \<in> set supported_currencies" "1 \<le> sint (bt_IntervalCount terms)"
    "bt_Status terms = StatusActive" "bt_TrialEndsAt terms = None"
proof -
  have v: "validate_planless input = None" and terms: "bt_PlanID terms = None" "bt_Amount terms = cs_Amount input"
    "bt_Currency terms = cs_Currency input" "bt_IntervalCount terms = cs_IntervalCount input"
    "bt_Status terms = StatusActive" "bt_TrialEndsAt terms = None"
    using assms by (auto simp: resolve_terms_def split: option.splits)
  have "cs_Currency input \<noteq> [] \<and> to_upper (cs_Currency input) \<in> set supported_currencies
      \<and> 0 < sint (cs_Amount input) \<and> 1 \<le> sint (cs_IntervalCount input)"
    using v unfolding validate_planless_def validation_err_None collect_eq_Nil
    by (auto simp: validator_None trim_space_def trim_left_def split: if_splits)
  with terms show "bt_PlanID terms = None" "bt_Amount terms = cs_Amount input" "0 < sint (cs_Amount input)"
    "to_upper (bt_Currency terms) \<in> set supported_currencies" "1 \<le> sint (bt_IntervalCount terms)"
    "bt_Status terms = StatusActive" "bt_TrialEndsAt terms = None" by simp_all
qed

lemma plan_terms_resolved:
  assumes "resolve_terms adp t now input (draw s) = Inr terms" "cs_PlanSlug input \<noteq> []"
  obtains pl where "pl \<in> set (plans s)" "plan_Slug pl = cs_PlanSlug input" "plan_TenantID pl = t" "plan_IsActive pl"
    "terms = \<lparr>bt_PlanID = Some (plan_ID pl), bt_Amount = plan_Amount pl,
       bt_Currency = plan_Currency pl, bt_Interval = plan_Interval pl, bt_IntervalCount = plan_IntervalCount pl,
       bt_Status = (if 0 < sint (plan_TrialDays pl) then StatusTrialing else StatusActive),
       bt_TrialEndsAt = (if 0 < sint (plan_TrialDays pl)
         then Some (add_date now 0 0 (sint (plan_TrialDays pl))) else None)\<rparr>"
proof -
  obtain pl where pl: "plan_repo_GetBySlug t (cs_PlanSlug input) (draw s) = Inr pl"
    using assms by (auto simp: resolve_terms_def split: sum.splits)
  have "pl \<in> set (plans s)" "plan_Slug pl = cs_PlanSlug input" "plan_TenantID pl = t"
    using pl by (auto simp: plan_repo_GetBySlug_def dest!: query_row_Inr)
  with assms pl show thesis
    by (intro that [of pl]) (auto simp: resolve_terms_def Let_def split: if_splits)
qed

section \<open>Properties\<close>

text \<open>An INSERT with a known key: nothing is stored, and the row of the key is returned when the other checks pass.\<close>

lemma known_key_insert:
  assumes "row_by_idem_key s (sub_TenantID sub, key) = Some old" "sub_repo_Create sub key s = (q, s')"
  shows "subscriptions s' = subscriptions s \<and> (q = Inr (scan_created old, False)
      \<or> (\<exists>e. q = Inl (Wrap ''create subscription'' e) \<and> server_error e))"
  using assms(2) by (cases rule: sub_repo_Create_cases) (use assms(1) in auto)

lemma known_key_accepted:
  assumes "row_by_idem_key s (sub_TenantID sub, key) = Some old"
    and "visible s (sub_TenantID sub)" "int4_ok (sub_IntervalCount sub)"
    and "is_ok (to_jsonb s (metadata_to_insert (sub_Metadata sub)))"
    and "sub_Tags sub \<noteq> None" "sub_Interval sub \<in> set all_intervals" "sub_Status sub \<in> set subscription_statuses"
    and "next_uuid s \<notin> (sub_ID \<circ> sr_sub) ` set (subscriptions s)"
    and "sub_SubscriptionKey sub \<notin> (sub_SubscriptionKey \<circ> sr_sub) ` set (subscriptions s)"
  shows "fst (sub_repo_Create sub key s) = Inr (scan_created old, False)"
proof -
  obtain meta where meta: "to_jsonb s (metadata_to_insert (sub_Metadata sub)) = Inr meta"
    using assms(4) by (auto simp: is_ok_iff)
  let ?r = "sub_table_row (next_uuid s) (db_now s) meta sub key"
  have con: "sub_constraints ?r = None" using assms(5-7) by (simp add: sub_constraints_None sub_table_row_def)
  have "rls_check s ''subscriptions'' (sub_TenantID sub) = None" using assms(2) by (simp add: rls_check_None)
  then have ins: "sub_insert sub key s = (Inl (unique_violation idempotency_constraint), draw s)"
    using assms(1,3,8,9) con by (simp add: sub_insert_def meta Let_def idempotency_constraint_def)
  obtain q s' where c: "sub_repo_Create sub key s = (q, s')" by fastforce
  then show ?thesis
  proof (cases rule: sub_repo_Create_cases)
    case (failed e)
    have "sub_repo_Create sub key s = (case query_row (draw s) row_tenant (\<lambda>r. sub_idem_key r = (sub_TenantID sub, key)) (subscriptions s)
        of Inl err \<Rightarrow> (Inl (Wrap ''fetching duplicate subscription'' err), draw s)
         | Inr r \<Rightarrow> (Inr (scan_created r, False), draw s))"
      using ins by (simp add: sub_repo_Create_def idempotency_text)
    then show ?thesis using failed c by (auto split: sum.splits)
  qed (use assms(1) c in auto)
qed

text \<open>C1. An idempotency key of a tenant names one subscription for ever: a retry with the key, after
  any requests and lifecycle writes in between and whatever else it says, creates nothing and changes no
  stored subscription. The plan of the retry is looked up and the rest of it validated before the key is, so
  it may be refused for these (the plan has been deactivated, for one), and the database may refuse it; if it
  is not refused it returns the subscription of the first call (same ids, terms and provider), and it is not
  refused when its plan or terms resolve and validate, the connection sees the tenant, its count, interval,
  tags and metadata are ones the table accepts, and the fresh ids are new.\<close>

theorem subscription_retry:
  assumes "sub_svc_Create adp ctx input s = (Inr (p, c), s1)"
    and "sub_step\<^sup>*\<^sup>* s1 s2"
    and "sub_svc_Create adp' ctx input' s2 = (res, s3)"
    and "cs_IdempotencyKey input' = cs_IdempotencyKey input"
  shows "subscriptions s3 = subscriptions s2
    \<and> (case resolve_terms adp' (TenantIDFromContext ctx) (clock s2) input' (draw s2) of
         Inl err \<Rightarrow> res = Inl err
       | Inr terms \<Rightarrow>
          (case first_error [validate_customer input', validateTags (cs_Tags input')] of
             Some err \<Rightarrow> res = Inl err
           | None \<Rightarrow>
              ((\<exists>q. res = Inr (q, False) \<and> sub_identity q = sub_identity p)
                \<or> (\<exists>e. res = Inl (Wrap ''creating subscription'' (Wrap ''create subscription'' e)) \<and> server_error e))
              \<and> (visible s2 (TenantIDFromContext ctx) \<and> int4_ok (bt_IntervalCount terms)
                  \<and> bt_Interval terms \<in> set all_intervals \<and> normalizeTags (cs_Tags input') \<noteq> None
                  \<and> is_ok (to_jsonb s2 (metadata_to_insert (cs_Metadata input')))
                  \<and> next_uuid (draw s2) \<notin> (sub_ID \<circ> sr_sub) ` set (subscriptions s2)
                  \<and> next_uuid s2 \<notin> (sub_SubscriptionKey \<circ> sr_sub) ` set (subscriptions s2)
                \<longrightarrow> is_ok res)))"
proof -
  let ?t = "TenantIDFromContext ctx"
  let ?k = "(?t, cs_IdempotencyKey input)"
  have tenant: "sub_TenantID (new_subscription t k ps terms i) = t" for t k ps terms i
    by (simp add: new_subscription_def)
  obtain terms where first: "?t \<noteq> 0" "sub_repo_Create (new_subscription ?t (next_uuid s) (clock s) terms input)
      (cs_IdempotencyKey input) (draw s) = (Inr (p, c), s1)"
    using assms(1) by (auto simp: sub_svc_Create_Inr)
  then have "create_call (new_subscription ?t (next_uuid s) (clock s) terms input,
      cs_IdempotencyKey input) (draw s) = (Inr (p, c), s1)" by (simp add: create_call_def)
  from subscription_store.create_lookup [OF this] obtain r where
    r: "row_by_idem_key s1 ?k = Some r" "p = scan_created r"
    by (auto simp: create_key_def sub_by_idem_key_def tenant)
  obtain r' where r': "row_by_idem_key s2 ?k = Some r'" "sub_fixed r' = sub_fixed r"
    using row_by_idem_key_changes [OF sub_steps_changes [OF assms(2)] r(1)] by blast
  show ?thesis
  proof (cases "resolve_terms adp' ?t (clock s2) input' (draw s2)")
    case (Inl err)
    then show ?thesis using assms(3) first(1) by (auto simp: sub_svc_Create_def Let_def)
  next
    case (Inr terms')
    let ?sub = "new_subscription ?t (next_uuid s2) (clock s2) terms' input'"
    show ?thesis
    proof (cases "first_error [validate_customer input', validateTags (cs_Tags input')]")
      case (Some err)
      then show ?thesis using assms(3) first(1) Inr by (auto simp: sub_svc_Create_def Let_def)
    next
      case None
      obtain q s' where q: "sub_repo_Create ?sub (cs_IdempotencyKey input') (draw s2) = (q, s')" by fastforce
      then have res: "res = map_sum (Wrap ''creating subscription'') id q" "s3 = s'"
        using assms(3) first(1) Inr None by (auto simp: sub_svc_Create_def Let_def split: sum.splits)
      have k: "row_by_idem_key (draw s2) (sub_TenantID ?sub, cs_IdempotencyKey input') = Some r'"
        using r'(1) assms(4) by (simp add: tenant row_by_idem_key_def)
      have status: "bt_Status terms' \<in> set subscription_statuses"
        using Inr by (auto simp: resolve_terms_def Let_def subscription_statuses_def split: sum.splits option.splits if_splits)
      have acc: "is_ok q" if "visible s2 ?t" "int4_ok (bt_IntervalCount terms')" "bt_Interval terms' \<in> set all_intervals"
          "normalizeTags (cs_Tags input') \<noteq> None" "is_ok (to_jsonb s2 (metadata_to_insert (cs_Metadata input')))"
          "next_uuid (draw s2) \<notin> (sub_ID \<circ> sr_sub) ` set (subscriptions s2)"
          "next_uuid s2 \<notin> (sub_SubscriptionKey \<circ> sr_sub) ` set (subscriptions s2)"
      proof -
        have "to_jsonb (draw s2) m = to_jsonb s2 m" for m by (simp add: to_jsonb_def cong: option.case_cong)
        moreover have "sub_TenantID ?sub = ?t" "sub_IntervalCount ?sub = bt_IntervalCount terms'" "sub_Interval ?sub = bt_Interval terms'"
          "sub_Status ?sub = bt_Status terms'" "sub_Tags ?sub = normalizeTags (cs_Tags input')" "sub_Metadata ?sub = cs_Metadata input'"
          "sub_SubscriptionKey ?sub = next_uuid s2"
          by (simp_all add: new_subscription_def)
        ultimately have "fst (sub_repo_Create ?sub (cs_IdempotencyKey input') (draw s2)) = Inr (scan_created r', False)"
          by (intro known_key_accepted [OF k]) (use that status in simp_all)
        then show ?thesis unfolding q is_ok_iff by auto
      qed
      have "sub_identity (scan_created r') = sub_identity p" using sub_fixed_identity [OF r'(2)] r(2) by simp
      then show ?thesis
        using known_key_insert [OF k q] acc by (auto simp: res Inr None is_ok_iff)
    qed
  qed
qed

text \<open>The same request again: nothing is created and the first subscription returned. After its plan was
  deactivated: 422.\<close>

theorem subscription_retry_witness:
  "(\<exists>q s3. sub_svc_Create sample_adapter sample_ctx sample_sub_input sub_sys1 = (Inr (q, False), s3)
      \<and> sub_identity q = sub_identity sample_sub \<and> subscriptions s3 = subscriptions sub_sys1)
   \<and> fst (sub_svc_Create sample_adapter sample_ctx sample_sub_input
       (sub_sys1\<lparr>plans := map (\<lambda>p. p\<lparr>plan_IsActive := False\<rparr>) (plans sub_sys1)\<rparr>)) = Inl (Sentinel ErrPlanNotActive)"
proof -
  let ?off = "sub_sys1\<lparr>plans := map (\<lambda>p. p\<lparr>plan_IsActive := False\<rparr>) (plans sub_sys1)\<rparr>"
  obtain res s3 where c: "sub_svc_Create sample_adapter sample_ctx sample_sub_input ?off = (res, s3)" by fastforce
  have "sub_step sub_sys1 ?off" by (rule sub_step_other) (simp_all add: image_image)
  note off = subscription_retry [OF sample_sub_created(1) r_into_rtranclp [of sub_step, OF this] c refl]
  have "resolve_terms sample_adapter (TenantIDFromContext sample_ctx) (clock ?off) sample_sub_input (draw ?off)
      = Inl (Sentinel ErrPlanNotActive)" by code_simp
  with off c have 2: "fst (sub_svc_Create sample_adapter sample_ctx sample_sub_input ?off) = Inl (Sentinel ErrPlanNotActive)" by simp
  obtain q s4 where d: "sub_svc_Create sample_adapter sample_ctx sample_sub_input sub_sys1 = (q, s4)" by fastforce
  have t: "is_ok (resolve_terms sample_adapter (TenantIDFromContext sample_ctx) (clock sub_sys1) sample_sub_input (draw sub_sys1))"
    and v: "first_error [validate_customer sample_sub_input, validateTags (cs_Tags sample_sub_input)] = None"
    and q: "is_ok (fst (sub_svc_Create sample_adapter sample_ctx sample_sub_input sub_sys1))" by code_simp+
  from subscription_retry [OF sample_sub_created(1) rtranclp.rtrancl_refl d refl] t v q d
  have "\<exists>q s3. sub_svc_Create sample_adapter sample_ctx sample_sub_input sub_sys1 = (Inr (q, False), s3)
      \<and> sub_identity q = sub_identity sample_sub \<and> subscriptions s3 = subscriptions sub_sys1"
    by (auto simp: is_ok_iff)
  with 2 show ?thesis by blast
qed

text \<open>C10. The constraints of the table (unique ids, keys and idempotency keys, valid status and
  interval, tags present, existing tenant and plan) hold after any requests and lifecycle writes,
  and no stored subscription is removed or has its identity, terms of period, or provider changed.\<close>

theorem subscriptions_invariant:
  assumes "sub_step\<^sup>*\<^sup>* s s'" "subs_ok s"
  shows "subs_ok s' \<and> prefix (map sub_fixed (subscriptions s)) (map sub_fixed (subscriptions s'))"
  using sub_steps_ok [OF assms] sub_changes_fixed [OF sub_steps_changes [OF assms(1)]] ..

theorem subscriptions_invariant_witness:
  "subs_ok sub_sys1 \<and> prefix (map sub_fixed (subscriptions sample_sys1)) (map sub_fixed (subscriptions sub_sys1))"
  by (rule subscriptions_invariant) (auto simp: sub_sys1_def sample_subs_ok intro: sub_step.intros)

text \<open>C13. A new plan-based subscription copies the amount, currency, interval and count of the active
  plan found under the slug; it is trialing exactly when the plan has trial days, until that many days
  after its start, and its first period runs from now to the computed end. A planless one has the
  requested positive amount, a supported currency, a valid interval and a count of at least one,
  and starts active.\<close>

theorem subscription_create_result:
  assumes "sub_svc_Create adp ctx input s = (Inr (p, True), s')"
  shows "sub_TenantID p = TenantIDFromContext ctx \<and> sub_CurrentPeriodStart p = trunc_us (clock s)
    \<and> sub_CurrentPeriodEnd p = trunc_us (calculatePeriodEnd (clock s) (sub_Interval p) (sub_IntervalCount p))
    \<and> sub_Interval p \<in> set all_intervals \<and> sub_Tags p = normalizeTags (cs_Tags input) \<and> sub_Tags p \<noteq> None
    \<and> sub_CanceledAt p = None \<and> \<not> sub_CancelAtPeriodEnd p
    \<and> (if cs_PlanSlug input \<noteq> []
        then \<exists>pl \<in> set (plans s). plan_Slug pl = cs_PlanSlug input \<and> plan_TenantID pl = sub_TenantID p \<and> plan_IsActive pl
          \<and> sub_PlanID p = Some (plan_ID pl) \<and> sub_Amount p = plan_Amount pl \<and> sub_Currency p = plan_Currency pl
          \<and> sub_Interval p = plan_Interval pl \<and> sub_IntervalCount p = plan_IntervalCount pl
          \<and> (if 0 < sint (plan_TrialDays pl)
              then sub_Status p = StatusTrialing
                \<and> sub_TrialEndsAt p = Some (trunc_us (clock s + sint (plan_TrialDays pl) * ns_per_day))
              else sub_Status p = StatusActive \<and> sub_TrialEndsAt p = None)
        else sub_PlanID p = None \<and> sub_Amount p = cs_Amount input \<and> 0 < sint (sub_Amount p)
          \<and> to_upper (sub_Currency p) \<in> set supported_currencies \<and> 1 \<le> sint (sub_IntervalCount p)
          \<and> sub_Status p = StatusActive \<and> sub_TrialEndsAt p = None)"
proof -
  obtain terms where t: "resolve_terms adp (TenantIDFromContext ctx) (clock s) input (draw s) = Inr terms"
    and c: "sub_repo_Create (new_subscription (TenantIDFromContext ctx) (next_uuid s) (clock s) terms input)
      (cs_IdempotencyKey input) (draw s) = (Inr (p, True), s')"
    using assms by (auto simp: sub_svc_Create_Inr)
  note f = created_fields [OF c]
  show ?thesis
  proof (cases "cs_PlanSlug input = []")
    case True
    with planless_terms [OF t True] f show ?thesis by simp
  next
    case False
    show ?thesis
      by (rule plan_terms_resolved [OF t False]) (use False f in \<open>auto simp: add_days\<close>)
  qed
qed

theorem subscription_create_result_witness:
  "sub_Status sample_sub = StatusTrialing \<and> sub_Amount sample_sub = 1000"
proof -
  have "sub_Tags sample_sub \<noteq> None \<and> sub_CanceledAt sample_sub = None"
    using subscription_create_result [OF sample_sub_created(1)] by blast
  moreover have "sub_Status sample_sub = StatusTrialing \<and> sub_Amount sample_sub = 1000" by code_simp
  ultimately show ?thesis by blast
qed

text \<open>C14. The end of a billing period lies exactly \<open>count\<close> days or weeks after its start, between 28
  and 31 days per month after it, and between 365 and 366 days per year after it; so with a positive
  count it is after the start.\<close>

theorem period_end_bounds:
  fixes start :: gtime and interval :: string and count :: int64
  assumes "interval \<in> set all_intervals" "int4_ok count" "1 \<le> sint count"
  defines "n \<equiv> sint count" and "d \<equiv> calculatePeriodEnd start interval count - start"
  shows "0 < d \<and> (interval = IntervalDay \<longrightarrow> d = n * ns_per_day) \<and> (interval = IntervalWeek \<longrightarrow> d = 7 * n * ns_per_day)
    \<and> (interval = IntervalMonth \<longrightarrow> 28 * n * ns_per_day \<le> d \<and> d \<le> 31 * n * ns_per_day)
    \<and> (interval = IntervalYear \<longrightarrow> 365 * n * ns_per_day \<le> d \<and> d \<le> 366 * n * ns_per_day)"
proof -
  have n: "1 \<le> n" "0 < ns_per_day" using assms(3) by (simp_all add: n_def ns_per_day_def)
  then have pos: "0 < n * ns_per_day" "0 < 7 * n * ns_per_day" "0 < 28 * n * ns_per_day" "0 < 365 * n * ns_per_day"
    by simp_all
  note names = IntervalDay_def IntervalWeek_def IntervalMonth_def IntervalYear_def
  have "interval = IntervalDay \<or> interval = IntervalWeek \<or> interval = IntervalMonth \<or> interval = IntervalYear"
    using assms(1) by (auto simp: all_intervals_def)
  then show ?thesis
  proof (elim disjE)
    assume i: "interval = IntervalMonth"
    have "28 * n * ns_per_day \<le> d \<and> d \<le> 31 * n * ns_per_day"
      using add_months [of n start] n unfolding d_def i by (simp add: calculatePeriodEnd_simps names n_def)
    moreover with pos have "0 < d" by linarith
    ultimately show ?thesis by (simp add: i names)
  next
    assume i: "interval = IntervalYear"
    have "365 * n * ns_per_day \<le> d \<and> d \<le> 366 * n * ns_per_day"
      using add_years [of n start] n unfolding d_def i by (simp add: calculatePeriodEnd_simps names n_def)
    moreover with pos have "0 < d" by linarith
    ultimately show ?thesis by (simp add: i names)
  qed (use pos assms(2) in \<open>simp_all add: d_def names calculatePeriodEnd_simps n_def sint_times7\<close>)
qed

theorem period_end_bounds_witness: "0 < calculatePeriodEnd 0 IntervalMonth 3 - (0 :: gtime)"
proof -
  have "IntervalMonth \<in> set all_intervals" "int4_ok 3" "1 \<le> sint (3 :: int64)" by code_simp+
  then show ?thesis using period_end_bounds [of IntervalMonth 3 0] by blast
qed

text \<open>A month after the 31st of a month with a shorter successor runs over into the month after
  it, and is not made up for: from January 31 the first monthly period ends on March 3 and the next
  one on April 3 (2023), while two months in one step end on March 31.\<close>

theorem month_end_drift:
  "let jan31 = date_to_days 2023 1 31 * ns_per_day; first = calculatePeriodEnd jan31 IntervalMonth 1
   in format_date jan31 = ''2023-01-31'' \<and> format_date first = ''2023-03-03''
      \<and> format_date (calculatePeriodEnd first IntervalMonth 1) = ''2023-04-03''
      \<and> format_date (calculatePeriodEnd jan31 IntervalMonth 2) = ''2023-03-31''"
  by code_simp

section \<open>Updates by id\<close>

lemma update_sub_ok:
  assumes "subs_ok s" "r \<in> set (subscriptions s)" "visible s (row_tenant r)"
    and "sub_constraints (r\<lparr>sr_sub := f (sr_sub r)\<rparr>) = None"
  shows "update_sub msg f (sub_ID (sr_sub r)) s
    = (Inr (scan_subscription (r\<lparr>sr_sub := f (sr_sub r)\<rparr>)), s\<lparr>subscriptions := update_table s f (sub_ID (sr_sub r))\<rparr>)"
proof -
  have d: "distinct (map (sub_ID \<circ> sr_sub) (subscriptions s))" using assms(1) by (simp add: subs_ok_def)
  have "filter (\<lambda>q. visible s (row_tenant q) \<and> sub_ID (sr_sub q) = sub_ID (sr_sub r)) (subscriptions s) = [r]"
    if "distinct (map (sub_ID \<circ> sr_sub) rs)" "r \<in> set rs" "subscriptions s = rs" for rs
    using that(1,2) unfolding that(3)
  proof (induction rs)
    case (Cons a rs)
    show ?case
    proof (cases "r = a")
      case True
      with Cons.prems have "\<forall>q \<in> set rs. sub_ID (sr_sub q) \<noteq> sub_ID (sr_sub a)" by (auto simp: image_iff)
      then have "filter (\<lambda>q. visible s (row_tenant q) \<and> sub_ID (sr_sub q) = sub_ID (sr_sub a)) rs = []"
        by (simp add: filter_empty_conv)
      with True assms(3) show ?thesis by simp
    next
      case False
      with Cons.prems have "sub_ID (sr_sub a) \<noteq> sub_ID (sr_sub r)" "r \<in> set rs" by (auto simp: image_iff)
      with Cons show ?thesis by simp
    qed
  qed simp
  from this [OF d assms(2) refl] show ?thesis
    using assms(4) visible_not_unset [OF assms(3)]
    by (simp add: update_sub_def update_rows_def update_table_def session_check_def Let_def)
qed

text \<open>By an id that a visible row has, exactly this row is written.\<close>

lemma update_table_unique:
  assumes "subs_ok s" "r \<in> set (subscriptions s)" "visible s (row_tenant r)"
  shows "update_table s f (sub_ID (sr_sub r))
    = update_where (\<lambda>q. sub_ID (sr_sub q) = sub_ID (sr_sub r)) (\<lambda>q. q\<lparr>sr_sub := f (sr_sub q)\<rparr>) (subscriptions s)"
  unfolding update_table_def
  by (rule update_where_cong)
    (use distinct_key_eq [of "sub_ID \<circ> sr_sub" "subscriptions s"] assms in \<open>force simp: subs_ok_def\<close>)

lemma GetByID_ok:
  assumes "subs_ok s" "r \<in> set (subscriptions s)" "visible s (row_tenant r)"
  shows "sub_repo_GetByID (sub_ID (sr_sub r)) s = Inr (scan_subscription r)"
  using query_row_unique [of "sub_ID \<circ> sr_sub" "subscriptions s" r s row_tenant] assms
  by (simp add: sub_repo_GetByID_def subs_ok_def)

lemma update_table_row:
  assumes "r \<in> set (subscriptions s)" "visible s (row_tenant r)"
  shows "r\<lparr>sr_sub := f (sr_sub r)\<rparr> \<in> set (update_table s f (sub_ID (sr_sub r)))"
  using assms by (force simp: update_table_def set_update_where)

definition status_patch :: "string \<Rightarrow> update_subscription_input" where
  "status_patch st = \<lparr>us_Status = Some st, us_CancelAtPeriodEnd = None, us_Amount = None, us_Tags = None,
     us_TagsProvided = False, us_Metadata = None\<rparr>"

lemma status_patch_allowed:
  assumes "subs_ok s" "r \<in> set (subscriptions s)" "visible s (row_tenant r)"
    and "validateStatusTransition (sub_Status (sr_sub r)) st = None" "st \<in> set subscription_statuses"
  obtains p s' r' where "sub_svc_Update adp (sub_ID (sr_sub r)) (status_patch st) s = (Inr p, s')" "sub_Status p = st"
    "subs_ok s'" "r' \<in> set (subscriptions s')" "visible s' (row_tenant r')" "sub_ID (sr_sub r') = sub_ID (sr_sub r)"
    "sub_Status (sr_sub r') = st"
proof -
  let ?f = "sub_patch (db_now s) None (status_patch st)" and ?i = "sub_ID (sr_sub r)"
  let ?r = "r\<lparr>sr_sub := ?f (sr_sub r)\<rparr>" and ?s = "s\<lparr>subscriptions := update_table s (sub_patch (db_now s) None (status_patch st)) (sub_ID (sr_sub r))\<rparr>"
  have f: "?f sub = sub\<lparr>sub_UpdatedAt := db_now s, sub_Status := st\<rparr>" for sub
    by (simp add: sub_patch_def status_patch_def)
  have con: "sub_constraints ?r = None"
    using assms(1,2,5) by (auto simp: subs_ok_def sub_constraints_None f)
  have upd: "sub_svc_Update adp ?i (status_patch st) s = (Inr (scan_subscription ?r), ?s)"
    using GetByID_ok [OF assms(1-3)] update_sub_ok [where f = ?f, OF assms(1-3) con] assms(4)
    by (simp add: sub_svc_Update_def validate_update_def sub_repo_Update_def status_patch_def Let_def)
  moreover have "subs_ok ?s"
    using sub_change_ok [OF change_repo_update assms(1), of ?i "status_patch st"] update_sub_ok [where f = ?f, OF assms(1-3) con]
    by (simp add: sub_repo_Update_def status_patch_def)
  moreover have "?r \<in> set (subscriptions ?s)" using update_table_row [OF assms(2,3)] by simp
  moreover have "visible ?s (row_tenant ?r)" using assms(3) by (simp add: visible_def row_tenant_def f)
  moreover have "sub_Status (scan_subscription ?r) = st" "sub_ID (sr_sub ?r) = ?i" "sub_Status (sr_sub ?r) = st"
    by (simp_all add: f)
  ultimately show thesis by (intro that [of "scan_subscription ?r" ?s ?r])
qed

lemma status_patch_stored:
  assumes "subs_ok s" "r \<in> set (subscriptions s)" "visible s (row_tenant r)"
    and "validateStatusTransition (sub_Status (sr_sub r)) st = None" "st \<in> set subscription_statuses"
  shows "sub_svc_Update adp (sub_ID (sr_sub r)) (status_patch st) s
    = (Inr (scan_subscription (r\<lparr>sr_sub := (sr_sub r)\<lparr>sub_Status := st, sub_UpdatedAt := db_now s\<rparr>\<rparr>)),
       s\<lparr>subscriptions := update_where (\<lambda>q. sub_ID (sr_sub q) = sub_ID (sr_sub r))
           (\<lambda>q. q\<lparr>sr_sub := (sr_sub q)\<lparr>sub_Status := st, sub_UpdatedAt := db_now s\<rparr>\<rparr>) (subscriptions s)\<rparr>)"
proof -
  let ?f = "sub_patch (db_now s) None (status_patch st)"
  have f: "?f = (\<lambda>sub. sub\<lparr>sub_Status := st, sub_UpdatedAt := db_now s\<rparr>)"
    by (rule ext) (simp add: sub_patch_def status_patch_def)
  have con: "sub_constraints (r\<lparr>sr_sub := ?f (sr_sub r)\<rparr>) = None"
    using assms(1,2,5) by (auto simp: subs_ok_def sub_constraints_None f)
  have "sub_repo_Update (sub_ID (sr_sub r)) (status_patch st) s
      = (Inr (scan_subscription (r\<lparr>sr_sub := ?f (sr_sub r)\<rparr>)), s\<lparr>subscriptions := update_table s ?f (sub_ID (sr_sub r))\<rparr>)"
    using update_sub_ok [where f = ?f, OF assms(1-3) con] by (simp add: sub_repo_Update_def status_patch_def)
  then show ?thesis
    using GetByID_ok [OF assms(1-3)] assms(4) unfolding update_table_unique [OF assms(1-3)] f
    by (simp add: sub_svc_Update_def validate_update_def status_patch_def Let_def)
qed

text \<open>C15. A status change by PATCH to one of the five statuses, of a subscription that the connection sees, is
  refused with 422, leaving everything as it was, exactly when the transition is in the table of forbidden
  ones; otherwise it is stored: that row gets the status and the time of the update, no other row and nothing
  else in the database changes, and the changed row is returned.\<close>

theorem status_update_decides:
  assumes "subs_ok s" "r \<in> set (subscriptions s)" "visible s (row_tenant r)" "st \<in> set subscription_statuses"
  shows "if (sub_Status (sr_sub r) = StatusCanceled \<and> st \<in> {StatusActive, StatusTrialing, StatusPastDue})
            \<or> (sub_Status (sr_sub r) = StatusExpired \<and> st \<in> {StatusActive, StatusTrialing})
    then \<exists>e. sub_svc_Update adp (sub_ID (sr_sub r)) (status_patch st) s = (Inl e, s) \<and> HTTPStatusFor e = 422
    else sub_svc_Update adp (sub_ID (sr_sub r)) (status_patch st) s
      = (Inr (scan_subscription (r\<lparr>sr_sub := (sr_sub r)\<lparr>sub_Status := st, sub_UpdatedAt := db_now s\<rparr>\<rparr>)),
         s\<lparr>subscriptions := update_where (\<lambda>q. sub_ID (sr_sub q) = sub_ID (sr_sub r))
             (\<lambda>q. q\<lparr>sr_sub := (sr_sub q)\<lparr>sub_Status := st, sub_UpdatedAt := db_now s\<rparr>\<rparr>) (subscriptions s)\<rparr>)"
proof -
  have ne: "StatusCanceled \<noteq> StatusExpired" by (simp add: StatusCanceled_def StatusExpired_def)
  have v: "validateStatusTransition (sub_Status (sr_sub r)) st =
     (if (sub_Status (sr_sub r) = StatusCanceled \<and> st \<in> {StatusActive, StatusTrialing, StatusPastDue})
          \<or> (sub_Status (sr_sub r) = StatusExpired \<and> st \<in> {StatusActive, StatusTrialing})
      then Some (Domain ''invalid_status_transition''
         (''cannot transition from '' @ sub_Status (sr_sub r) @ '' to '' @ st) 422 ErrInvalidInput) else None)"
    using ne by (auto simp: validateStatusTransition_def forbiddenTransitions_def)
  show ?thesis
  proof (cases "validateStatusTransition (sub_Status (sr_sub r)) st")
    case None
    then show ?thesis using v status_patch_stored [OF assms(1-3) None assms(4)] by (metis option.distinct(1))
  next
    case (Some e)
    then have "sub_svc_Update adp (sub_ID (sr_sub r)) (status_patch st) s = (Inl e, s)"
      using GetByID_ok [OF assms(1-3)]
      by (simp add: sub_svc_Update_def validate_update_def status_patch_def Let_def)
    then show ?thesis using v Some by (auto split: if_splits)
  qed
qed

theorem status_update_decides_witness:
  "\<exists>p s'. sub_svc_Update sample_adapter 102 (status_patch StatusActive) sub_sys1 = (Inr p, s')
     \<and> map (sub_Status \<circ> sr_sub) (subscriptions s') = [StatusActive]"
proof -
  let ?r = "\<lparr>sr_sub = sample_sub, sr_idempotency_key = ''k1''\<rparr>"
  have h: "?r \<in> set (subscriptions sub_sys1)" "visible sub_sys1 (row_tenant ?r)" "StatusActive \<in> set subscription_statuses"
    "sub_Status (sr_sub ?r) \<noteq> StatusCanceled" "sub_Status (sr_sub ?r) \<noteq> StatusExpired" "sub_ID (sr_sub ?r) = 102"
    "subscriptions sub_sys1 = [?r]" by code_simp+
  show ?thesis
    using status_update_decides [OF sample_subs_ok(2) h(1-3), of sample_adapter] h(4-7) by simp
qed

end
