(* ===== verification/Subscription_Rules.thy ===== *)
theory Subscription_Rules
  imports Subscription_Service
begin

text \<open>
  What the service and the handlers of \<open>internal/subscription\<close> promise beyond creation: the normal
  form of tags, cancellation at once and at the end of the period, what a PATCH can do to the
  status and the amount, and the isolation of tenants.
\<close>

section \<open>Tags\<close>

text \<open>Tags are stored trimmed, in lower case, without duplicates or blanks, and a stored list is its
  own normal form; the result is the nil slice exactly when tags were given and all of them are blank.\<close>

theorem tags_normal_form:
  "case normalizeTags tags of
     Some ns \<Rightarrow> distinct ns \<and> set ns = norm_tag ` set tags - {[]} \<and> normalizeTags ns = Some ns
   | None \<Rightarrow> tags \<noteq> [] \<and> norm_tag ` set tags = {[]}"
proof (cases rule: normalizeTags_cases [of tags])
  case (1 ns)
  then have "\<forall>n \<in> set ns. n \<noteq> [] \<and> norm_tag n = n" by auto
  then have "foldl normalize_step [] ns = ns" using normalize_fold_id [of "[]" ns] 1(2) by simp
  then have "normalizeTags ns = Some ns" by (simp add: normalizeTags_def)
  with 1 show ?thesis by simp
next
  case 2
  then have "norm_tag ` set tags = {[]}" by (cases tags) auto
  with 2 show ?thesis by simp
qed

lemma blank_tags_nil:
  assumes "tags \<noteq> []" "\<forall>t \<in> set tags. norm_tag t = []"
  shows "normalizeTags tags = None"
proof -
  have "set (foldl normalize_step [] tags) = {}" using normalize_fold [of "[]" tags] assms(2) by auto
  then show ?thesis using assms(1) by (simp add: normalizeTags_def)
qed

text \<open>A request whose tags are all blank passes every validation, is written with a NULL in the
  column, and is refused by the database: the caller gets 500 and nothing is stored.\<close>

theorem blank_tags_server_error:
  assumes "TenantIDFromContext ctx \<noteq> 0"
    and "resolve_terms adp (TenantIDFromContext ctx) (clock s) input (draw s) = Inr terms"
    and "validate_customer input = None" "validateTags (cs_Tags input) = None"
    and "cs_Tags input \<noteq> []" "\<forall>t \<in> set (cs_Tags input). norm_tag t = []"
  shows "(\<exists>e. fst (sub_svc_Create adp ctx input s) = Inl e \<and> HTTPStatusFor e = 500)
    \<and> subscriptions (snd (sub_svc_Create adp ctx input s)) = subscriptions s"
proof -
  let ?sub = "new_subscription (TenantIDFromContext ctx) (next_uuid s) (clock s) terms input"
  have tags: "sub_Tags ?sub = None"
    using blank_tags_nil assms(5,6) by (simp add: new_subscription_def)
  obtain q s' where c: "sub_repo_Create ?sub (cs_IdempotencyKey input) (draw s) = (q, s')" by fastforce
  then have "\<exists>e. q = Inl (Wrap ''create subscription'' e) \<and> server_error e \<and> subscriptions s' = subscriptions s"
    by (cases rule: sub_repo_Create_cases) (use tags in \<open>auto simp: sub_constraints_None\<close>)
  with c assms(1-4) show ?thesis
    by (auto simp: sub_svc_Create_def Let_def server_error_D(3) HTTPStatusFor_def)
qed

definition blank_tag_input :: create_subscription_input where
  "blank_tag_input = sample_sub_input\<lparr>cs_Tags := ['' '', []]\<rparr>"

theorem blank_tags_server_error_witness:
  "subscriptions (snd (sub_svc_Create sample_adapter sample_ctx blank_tag_input sample_sys1)) = []"
proof -
  have t: "is_ok (resolve_terms sample_adapter (TenantIDFromContext sample_ctx) (clock sample_sys1)
      blank_tag_input (draw sample_sys1))" by code_simp
  have h: "TenantIDFromContext sample_ctx \<noteq> 0" "validate_customer blank_tag_input = None"
    "validateTags (cs_Tags blank_tag_input) = None" "cs_Tags blank_tag_input \<noteq> []"
    "\<forall>t \<in> set (cs_Tags blank_tag_input). norm_tag t = []" "subscriptions sample_sys1 = []"
    by code_simp+
  from t obtain terms where "resolve_terms sample_adapter (TenantIDFromContext sample_ctx) (clock sample_sys1)
      blank_tag_input (draw sample_sys1) = Inr terms" by (auto simp: is_ok_iff)
  from blank_tags_server_error [OF h(1) this h(2-5)] h(6) show ?thesis by simp
qed

section \<open>Cancellation\<close>

text \<open>C16. Cancelling a subscription that the connection sees, by its key: at the end of the period only the flag is
  raised, status and period stay as they are; at once sets the status and the time of cancellation and clears
  the flag. Either way this is what is stored in the row of the subscription, with the time of the update, and
  what is returned; no other row and nothing else in the database changes.\<close>

theorem cancel_effect:
  fixes atEnd :: bool
  assumes "subs_ok s" "r \<in> set (subscriptions s)" "visible s (row_tenant r)"
  defines "canceled \<equiv> (\<lambda>q :: sub_row. q\<lparr>sr_sub :=
     (if atEnd then (sr_sub q)\<lparr>sub_CancelAtPeriodEnd := True, sub_UpdatedAt := db_now s\<rparr>
      else (sr_sub q)\<lparr>sub_Status := StatusCanceled, sub_CanceledAt := Some (db_now s), sub_CancelAtPeriodEnd := False,
                       sub_UpdatedAt := db_now s\<rparr>)\<rparr>)"
  shows "sub_svc_Cancel (sub_SubscriptionKey (sr_sub r)) atEnd s
    = (Inr (scan_subscription (canceled r)),
       s\<lparr>subscriptions := update_where (\<lambda>q. sub_ID (sr_sub q) = sub_ID (sr_sub r)) canceled (subscriptions s)\<rparr>)"
proof -
  let ?f = "sub_cancel_row (clock s) (db_now s) atEnd" and ?i = "sub_ID (sr_sub r)"
  have canceled: "canceled = (\<lambda>q. q\<lparr>sr_sub := ?f (sr_sub q)\<rparr>)"
    unfolding canceled_def by (rule ext) (simp add: sub_cancel_row_def db_now_def)
  have key: "sub_repo_GetByKey (sub_SubscriptionKey (sr_sub r)) s = Inr (scan_subscription r)"
    using query_row_unique [of "sub_SubscriptionKey \<circ> sr_sub" "subscriptions s" r s row_tenant] assms(1-3)
    by (simp add: sub_repo_GetByKey_def subs_ok_def)
  have con: "sub_constraints (r\<lparr>sr_sub := ?f (sr_sub r)\<rparr>) = None"
    using assms(1,2) by (auto simp: subs_ok_def sub_constraints_None sub_cancel_row_def subscription_statuses_def)
  show ?thesis
    using key update_sub_ok [where f = ?f, OF assms(1-3) con]
    unfolding canceled update_table_unique [OF assms(1-3)] by (simp add: sub_svc_Cancel_def sub_repo_Cancel_def)
qed

theorem cancel_effect_witness:
  "map (\<lambda>r. (sub_Status (sr_sub r), sub_CanceledAt (sr_sub r))) (subscriptions (snd (sub_svc_Cancel 101 False sub_sys1)))
     = [(StatusCanceled, Some 0)]"
proof -
  let ?r = "\<lparr>sr_sub = sample_sub, sr_idempotency_key = ''k1''\<rparr>"
  have h: "?r \<in> set (subscriptions sub_sys1)" "visible sub_sys1 (row_tenant ?r)" "sub_SubscriptionKey (sr_sub ?r) = 101"
    "subscriptions sub_sys1 = [?r]" "db_now sub_sys1 = 0" by code_simp+
  from cancel_effect [OF sample_subs_ok(2) h(1,2), of False] h(3-5) show ?thesis by simp
qed

section \<open>Status by PATCH\<close>

text \<open>The table of forbidden transitions does not keep a canceled subscription from coming back: the
  direct change to active is refused, but canceled, expired, past due and active are allowed one
  after the other.\<close>

theorem canceled_reactivated_stepwise:
  assumes "subs_ok s" "r \<in> set (subscriptions s)" "visible s (row_tenant r)"
    and "sub_Status (sr_sub r) = StatusCanceled"
  shows "(\<exists>e. sub_svc_Update adp (sub_ID (sr_sub r)) (status_patch StatusActive) s = (Inl e, s))
    \<and> (\<exists>p1 p2 p3 s1 s2 s3. sub_svc_Update adp (sub_ID (sr_sub r)) (status_patch StatusExpired) s = (Inr p1, s1)
        \<and> sub_svc_Update adp (sub_ID (sr_sub r)) (status_patch StatusPastDue) s1 = (Inr p2, s2)
        \<and> sub_svc_Update adp (sub_ID (sr_sub r)) (status_patch StatusActive) s2 = (Inr p3, s3)
        \<and> sub_Status p3 = StatusActive)"
proof
  have st: "{StatusExpired, StatusPastDue, StatusActive} \<subseteq> set subscription_statuses"
    by (simp add: subscription_statuses_def)
  have v: "validateStatusTransition StatusCanceled StatusExpired = None"
    "validateStatusTransition StatusExpired StatusPastDue = None"
    "validateStatusTransition StatusPastDue StatusActive = None"
    "validateStatusTransition StatusCanceled StatusActive \<noteq> None" by code_simp+
  show "\<exists>e. sub_svc_Update adp (sub_ID (sr_sub r)) (status_patch StatusActive) s = (Inl e, s)"
    using v(4) GetByID_ok [OF assms(1-3)] assms(4)
    by (auto simp: sub_svc_Update_def validate_update_def status_patch_def Let_def)
  obtain p1 s1 r1 where s1: "sub_svc_Update adp (sub_ID (sr_sub r)) (status_patch StatusExpired) s = (Inr p1, s1)"
    "subs_ok s1" "r1 \<in> set (subscriptions s1)" "visible s1 (row_tenant r1)" "sub_ID (sr_sub r1) = sub_ID (sr_sub r)"
    "sub_Status (sr_sub r1) = StatusExpired"
    by (rule status_patch_allowed [OF assms(1-3), of StatusExpired adp]) (use v st assms(4) in auto)
  obtain p2 s2 r2 where s2: "sub_svc_Update adp (sub_ID (sr_sub r)) (status_patch StatusPastDue) s1 = (Inr p2, s2)"
    "subs_ok s2" "r2 \<in> set (subscriptions s2)" "visible s2 (row_tenant r2)" "sub_ID (sr_sub r2) = sub_ID (sr_sub r)"
    "sub_Status (sr_sub r2) = StatusPastDue"
    by (rule status_patch_allowed [OF s1(2-4), of StatusPastDue adp]) (use v st s1(5,6) in auto)
  obtain p3 s3 where "sub_svc_Update adp (sub_ID (sr_sub r)) (status_patch StatusActive) s2 = (Inr p3, s3)"
    "sub_Status p3 = StatusActive"
    by (rule status_patch_allowed [OF s2(2-4), of StatusActive adp]) (use v st s2(5,6) in auto)
  with s1(1) s2(1) show "\<exists>p1 p2 p3 s1 s2 s3.
      sub_svc_Update adp (sub_ID (sr_sub r)) (status_patch StatusExpired) s = (Inr p1, s1)
        \<and> sub_svc_Update adp (sub_ID (sr_sub r)) (status_patch StatusPastDue) s1 = (Inr p2, s2)
        \<and> sub_svc_Update adp (sub_ID (sr_sub r)) (status_patch StatusActive) s2 = (Inr p3, s3)
        \<and> sub_Status p3 = StatusActive" by blast
qed

text \<open>The sample subscription after an immediate cancellation.\<close>

definition canceled_row :: sub_row where
  "canceled_row = \<lparr>sr_sub = sample_sub\<lparr>sub_Status := StatusCanceled, sub_CanceledAt := Some 0\<rparr>,
     sr_idempotency_key = ''k1''\<rparr>"

definition canceled_sys :: sys where
  "canceled_sys = sub_sys1\<lparr>subscriptions := [canceled_row]\<rparr>"

theorem canceled_reactivated_stepwise_witness:
  "\<exists>e. sub_svc_Update sample_adapter 102 (status_patch StatusActive) canceled_sys = (Inl e, canceled_sys)"
proof -
  have "subs_ok canceled_sys" "canceled_row \<in> set (subscriptions canceled_sys)"
    "visible canceled_sys (row_tenant canceled_row)" "sub_Status (sr_sub canceled_row) = StatusCanceled" by code_simp+
  from canceled_reactivated_stepwise [OF this] have
    "\<exists>e. sub_svc_Update sample_adapter (sub_ID (sr_sub canceled_row)) (status_patch StatusActive) canceled_sys = (Inl e, canceled_sys)"
    by blast
  then show ?thesis by (simp add: canceled_row_def sample_sub_def)
qed

section \<open>Amount by PATCH\<close>

text \<open>A PATCH of the amount of a subscription whose provider supports pay-per-use is written without
  any check of the value: every integer of the body, zero and negative ones too, and 0 for JSON null.\<close>

theorem patch_amount_unchecked:
  assumes "subs_ok s" "r \<in> set (subscriptions s)" "visible s (row_tenant r)"
    and "sub_ProviderName (sr_sub r) \<noteq> []" "caps_PayPerUse (GetCapabilities adp (sub_ProviderName (sr_sub r)))"
    and "unmarshal_int64 j = Some a"
  shows "\<exists>p s'. sub_svc_Update adp (sub_ID (sr_sub r)) (patch_input [(''amount'', j, raw)]) s = (Inr p, s')
    \<and> sub_Amount p = a \<and> sub_Status p = sub_Status (sr_sub r)"
proof -
  let ?input = "patch_input [(''amount'', j, raw)]"
  let ?f = "sub_patch (db_now s) None ?input"
  let ?r = "r\<lparr>sr_sub := ?f (sr_sub r)\<rparr>"
  have i: "us_Amount ?input = Some a" "us_Status ?input = None" "us_TagsProvided ?input = False" "us_Metadata ?input = None"
    "us_CancelAtPeriodEnd ?input = None"
    using assms(6) by (simp_all add: patch_input_def Let_def)
  have f: "?f sub = sub\<lparr>sub_UpdatedAt := db_now s, sub_Amount := a\<rparr>" for sub
    by (simp add: sub_patch_def i)
  have con: "sub_constraints ?r = None"
    using assms(1,2) by (auto simp: subs_ok_def sub_constraints_None f)
  have "sub_svc_Update adp (sub_ID (sr_sub r)) ?input s
      = (Inr (scan_subscription ?r), s\<lparr>subscriptions := update_table s ?f (sub_ID (sr_sub r))\<rparr>)"
    using GetByID_ok [OF assms(1-3)] update_sub_ok [where f = ?f, OF assms(1-3) con] assms(4,5)
    by (simp add: sub_svc_Update_def validate_update_def sub_repo_Update_def Let_def i)
  then show ?thesis by (auto simp: f)
qed

definition pay_per_use_adapter :: adapter where
  "pay_per_use_adapter = sample_adapter\<lparr>ad_yamlCaps := [(''mercadopago'', \<lparr>caps_Plans = True, caps_PayPerUse = True\<rparr>)]\<rparr>"

theorem patch_amount_unchecked_witness:
  "\<exists>p s'. sub_svc_Update pay_per_use_adapter 102 (patch_input [(''amount'', J_Null, ''null'')]) sub_sys1 = (Inr p, s')
     \<and> sub_Amount p = 0"
proof -
  let ?r = "\<lparr>sr_sub = sample_sub, sr_idempotency_key = ''k1''\<rparr>"
  have "?r \<in> set (subscriptions sub_sys1)" "visible sub_sys1 (row_tenant ?r)" "sub_ProviderName (sr_sub ?r) \<noteq> []"
    "unmarshal_int64 J_Null = Some 0" by code_simp+
  moreover have "caps_PayPerUse (GetCapabilities pay_per_use_adapter (sub_ProviderName (sr_sub ?r)))"
    by (simp add: pay_per_use_adapter_def sample_adapter_def sample_sub_def GetCapabilities_def Lookup_def)
  ultimately show ?thesis
    using patch_amount_unchecked [OF sample_subs_ok(2), of ?r pay_per_use_adapter J_Null 0 "''null''"]
    by (auto simp: sample_sub_def)
qed

section \<open>Tenants\<close>

abbreviation others :: "uuid \<Rightarrow> sub_row list \<Rightarrow> sub_row list" where
  "others t rs \<equiv> filter (\<lambda>r. row_tenant r \<noteq> t) rs"

lemma table_others:
  assumes "keeps_fixed f" "session s = Current_Tenant t"
  shows "others t (update_table s f sid) = others t (subscriptions s)"
proof -
  have "row_tenant (r\<lparr>sr_sub := f (sr_sub r)\<rparr>) = row_tenant r" for r
    using assms(1) sub_fixed_eqD [of "r\<lparr>sr_sub := f (sr_sub r)\<rparr>" r] by (simp add: keeps_fixed_def)
  then show ?thesis unfolding update_table_def
    by (intro filter_update_where) (simp add: assms(2) visible_def)
qed

lemma write_others:
  assumes "keeps_fixed f" "session s = Current_Tenant t"
  shows "others t (subscriptions (snd (update_sub msg f sid s))) = others t (subscriptions s)"
    and "others t (subscriptions (snd (exec_sub msg f sid s))) = others t (subscriptions s)"
proof -
  obtain q s' where c: "update_sub msg f sid s = (q, s')" by fastforce
  then show "others t (subscriptions (snd (update_sub msg f sid s))) = others t (subscriptions s)"
    by (cases rule: update_sub_cases) (simp_all add: c table_others [OF assms])
next
  obtain q s' where c: "exec_sub msg f sid s = (q, s')" by fastforce
  then show "others t (subscriptions (snd (exec_sub msg f sid s))) = others t (subscriptions s)"
    by (cases rule: exec_sub_cases) (simp_all add: c table_others [OF assms])
qed

lemma repo_write_others:
  assumes "session s = Current_Tenant t"
  shows "others t (subscriptions (snd (sub_repo_Update sid input s))) = others t (subscriptions s)"
    "others t (subscriptions (snd (sub_repo_Cancel sid b s))) = others t (subscriptions s)"
    "others t (subscriptions (snd (sub_repo_UpdateStatus sid st s))) = others t (subscriptions s)"
    "others t (subscriptions (snd (sub_repo_AdvancePeriod sid t1 t2 s))) = others t (subscriptions s)"
  by (simp_all add: sub_repo_Update_def sub_repo_Cancel_def sub_repo_UpdateStatus_def sub_repo_AdvancePeriod_def
      write_others assms split: sum.split)

text \<open>On a connection set to a tenant a request reads and writes rows of that tenant only: what
  \<open>GetByKey\<close>, \<open>GetByID\<close>, \<open>Update\<close> and \<open>Cancel\<close> return belongs to it, and an update, a cancellation
  or a lifecycle write leaves the rows of all other tenants as they are.\<close>

theorem subscription_tenant_isolation:
  assumes "session s = Current_Tenant t"
  shows "(\<forall>k p. sub_svc_GetByKey k s = Inr p \<longrightarrow> sub_TenantID p = t)
    \<and> (\<forall>i p. sub_svc_GetByID i s = Inr p \<longrightarrow> sub_TenantID p = t)
    \<and> (\<forall>s'. s' \<in> {snd (sub_svc_Update adp i patch s), snd (sub_svc_Cancel k b s), snd (sub_repo_UpdateStatus i st s),
                snd (sub_repo_AdvancePeriod i t1 t2 s)}
         \<longrightarrow> others t (subscriptions s') = others t (subscriptions s))"
proof (intro conjI allI impI)
  have vis: "visible s u \<longleftrightarrow> u = t" for u using assms by (auto simp: visible_def)
  have map_sum_Inr: "map_sum f g x = Inr y \<longleftrightarrow> (\<exists>z. x = Inr z \<and> y = g z)"
    for f :: "gerror \<Rightarrow> gerror" and g :: "sub_row \<Rightarrow> subscription" and x y
    by (cases x) auto
  note defs = sub_svc_GetByKey_def sub_svc_GetByID_def sub_repo_GetByKey_def sub_repo_GetByID_def
  fix j p s'
  show "sub_TenantID p = t" if "sub_svc_GetByID j s = Inr p"
    using that by (auto simp: defs map_sum_Inr vis row_tenant_def dest!: query_row_Inr)
  show "sub_TenantID p = t" if "sub_svc_GetByKey j s = Inr p"
    using that by (auto simp: defs map_sum_Inr vis row_tenant_def dest!: query_row_Inr split: sum.splits)
  assume "s' \<in> {snd (sub_svc_Update adp i patch s), snd (sub_svc_Cancel k b s), snd (sub_repo_UpdateStatus i st s),
                snd (sub_repo_AdvancePeriod i t1 t2 s)}"
  then show "others t (subscriptions s') = others t (subscriptions s)"
    using snd_sub_svc_Update [of adp i patch s] snd_sub_svc_Cancel [of k b s] repo_write_others [OF assms] by auto
qed

theorem subscription_tenant_isolation_witness:
  "session sub_sys1 = Current_Tenant 7 \<and> sub_svc_GetByID 102 sub_sys1 = Inr sample_sub \<and> sub_TenantID sample_sub = 7"
proof -
  have "session sub_sys1 = Current_Tenant 7" "sub_svc_GetByID 102 sub_sys1 = Inr sample_sub" by code_simp+
  then show ?thesis using subscription_tenant_isolation [of sub_sys1 7] by blast
qed

end
