(* ===== verification/Lifecycle.thy ===== *)
theory Lifecycle
  imports Subscription_Rules
begin

text \<open>
  The lifecycle runner of \<open>internal/subscription/lifecycle.go\<close>: renewals, expiry of trials and of
  past-due subscriptions, over the three listing functions that \<open>migrations/009\<close> installs.

  The columns that these SQL functions return are an argument (\<open>lifecycle_schema\<close>), so that the jobs can
  be studied on the schema of the repository, \<open>migration_009\<close>, and on one that has the columns
  the queries name. The functions are SECURITY DEFINER: they read the rows of all tenants whatever
  the session is, while the writes of the jobs go through row-level security.

  The payment service and the credentials service are the interfaces \<open>PaymentServicer\<close> and
  \<open>CredentialsFetcher\<close> of the file, fields of the runner. Logging is left out. Dates are formatted in UTC.
\<close>

section \<open>The listing functions\<close>

record lifecycle_schema =
  renewal_columns :: "string list"
  trial_columns :: "string list"
  expiry_columns :: "string list"

definition migration_009 :: lifecycle_schema where
  "migration_009 =
     \<lparr>renewal_columns = [''id'', ''tenant_id'', ''subscription_key'', ''external_customer_id'', ''status'',
        ''provider_name'', ''provider_subscription_id'', ''current_period_end'',
        ''trial_ends_at'', ''amount'', ''currency'', ''interval_type'', ''interval_count''],
      trial_columns = [''id'', ''tenant_id'', ''subscription_key'', ''external_customer_id'', ''status'',
        ''provider_name'', ''provider_subscription_id'', ''current_period_start'', ''current_period_end'',
        ''trial_ends_at'', ''amount'', ''currency'', ''interval_type'', ''interval_count''],
      expiry_columns = [''id'', ''tenant_id'', ''subscription_key'', ''external_customer_id'', ''status'',
        ''provider_name'', ''provider_subscription_id'', ''current_period_end'',
        ''amount'', ''currency'', ''interval_type'', ''interval_count'']\<rparr>"

text \<open>The columns that the repository selects from them.\<close>

definition selected_columns :: lifecycle_schema where
  "selected_columns =
     \<lparr>renewal_columns = [''id'', ''tenant_id'', ''subscription_key'', ''external_customer_id'', ''status'',
        ''provider_name'', ''provider_subscription_id'', ''current_period_end'', ''trial_ends_at'',
        ''amount'', ''currency'', ''interval'', ''interval_count''],
      trial_columns = [''id'', ''tenant_id'', ''subscription_key'', ''external_customer_id'', ''status'',
        ''provider_name'', ''provider_subscription_id'', ''current_period_start'', ''current_period_end'', ''trial_ends_at'',
        ''amount'', ''currency'', ''interval'', ''interval_count''],
      expiry_columns = [''id'', ''tenant_id'', ''subscription_key'', ''external_customer_id'', ''status'',
        ''provider_name'', ''provider_subscription_id'', ''current_period_end'',
        ''amount'', ''currency'', ''interval'', ''interval_count'']\<rparr>"

definition undefined_column :: "string \<Rightarrow> gerror" where
  "undefined_column c = Pg_Error ''42703'' (''column '' @ quoted c @ '' does not exist'')"

definition select_columns :: "string list \<Rightarrow> string list \<Rightarrow> gerror option" where
  "select_columns available selected =
     first_error (map (\<lambda>c. check (c \<in> set available) (undefined_column c)) selected)"

definition list_limit :: nat where "list_limit = 100"

text \<open>\<open>provider_name IS NOT NULL\<close> holds for every row: the program inserts an empty string when there is
  no provider.\<close>

definition due_for_renewal :: "gtime \<Rightarrow> sub_row \<Rightarrow> bool" where
  "due_for_renewal now r \<longleftrightarrow> sub_Status (sr_sub r) = StatusActive
     \<and> sub_CurrentPeriodEnd (sr_sub r) \<le> trunc_us now \<and> \<not> sub_CancelAtPeriodEnd (sr_sub r)"

definition expired_trial :: "gtime \<Rightarrow> sub_row \<Rightarrow> bool" where
  "expired_trial now r \<longleftrightarrow> sub_Status (sr_sub r) = StatusTrialing
     \<and> (case sub_TrialEndsAt (sr_sub r) of None \<Rightarrow> False | Some t \<Rightarrow> t \<le> trunc_us now)"

definition past_due_pending_expiry :: "gtime \<Rightarrow> sub_row \<Rightarrow> bool" where
  "past_due_pending_expiry graceEnd r \<longleftrightarrow> sub_Status (sr_sub r) = StatusPastDue
     \<and> sub_CurrentPeriodEnd (sr_sub r) \<le> trunc_us graceEnd"

text \<open>A scanned struct has the selected columns; the other fields keep their zero values.\<close>

definition zero_subscription :: subscription where
  "zero_subscription = \<lparr>sub_ID = uuid_nil, sub_TenantID = uuid_nil, sub_PlanID = None, sub_Amount = 0,
     sub_Currency = [], sub_Interval = [], sub_IntervalCount = 0, sub_SubscriptionKey = uuid_nil,
     sub_ExternalCustomerID = [], sub_Status = [], sub_ProviderName = [], sub_ProviderSubscriptionID = [],
     sub_CurrentPeriodStart = 0, sub_CurrentPeriodEnd = 0, sub_TrialEndsAt = None, sub_CanceledAt = None,
     sub_CancelAtPeriodEnd = False, sub_Tags = None, sub_Metadata = None, sub_Payments = [],
     sub_CreatedAt = 0, sub_UpdatedAt = 0\<rparr>"

definition scan_past_due :: "sub_row \<Rightarrow> subscription" where
  "scan_past_due r = zero_subscription
     \<lparr>sub_ID := sub_ID (sr_sub r), sub_TenantID := sub_TenantID (sr_sub r),
      sub_SubscriptionKey := sub_SubscriptionKey (sr_sub r),
      sub_ExternalCustomerID := sub_ExternalCustomerID (sr_sub r), sub_Status := sub_Status (sr_sub r),
      sub_ProviderName := sub_ProviderName (sr_sub r),
      sub_ProviderSubscriptionID := sub_ProviderSubscriptionID (sr_sub r),
      sub_CurrentPeriodEnd := sub_CurrentPeriodEnd (sr_sub r),
      sub_Amount := sub_Amount (sr_sub r), sub_Currency := sub_Currency (sr_sub r),
      sub_Interval := sub_Interval (sr_sub r), sub_IntervalCount := sub_IntervalCount (sr_sub r)\<rparr>"

definition scan_due :: "sub_row \<Rightarrow> subscription" where
  "scan_due r = (scan_past_due r)\<lparr>sub_TrialEndsAt := sub_TrialEndsAt (sr_sub r)\<rparr>"

definition scan_trial :: "sub_row \<Rightarrow> subscription" where
  "scan_trial r = (scan_due r)\<lparr>sub_CurrentPeriodStart := sub_CurrentPeriodStart (sr_sub r)\<rparr>"

definition sub_repo_ListDueForRenewal :: "lifecycle_schema \<Rightarrow> gtime \<Rightarrow> sys \<Rightarrow> gerror + subscription list" where
  "sub_repo_ListDueForRenewal sch now s =
     (case select_columns (renewal_columns sch) (renewal_columns selected_columns) of
        Some err \<Rightarrow> Inl (Wrap ''list subscriptions due for renewal'' err)
      | None \<Rightarrow> Inr (map scan_due (page list_limit (\<lambda>r. sub_CurrentPeriodEnd (sr_sub r))
                                    (due_for_renewal now) (subscriptions s))))"

definition sub_repo_ListExpiredTrials :: "lifecycle_schema \<Rightarrow> gtime \<Rightarrow> sys \<Rightarrow> gerror + subscription list" where
  "sub_repo_ListExpiredTrials sch now s =
     (case select_columns (trial_columns sch) (trial_columns selected_columns) of
        Some err \<Rightarrow> Inl (Wrap ''list subscriptions expired trials'' err)
      | None \<Rightarrow> Inr (map scan_trial (page list_limit
                     (\<lambda>r. case sub_TrialEndsAt (sr_sub r) of None \<Rightarrow> 0 | Some t \<Rightarrow> t)
                     (expired_trial now) (subscriptions s))))"

definition sub_repo_ListPastDuePendingExpiry ::
  "lifecycle_schema \<Rightarrow> gtime \<Rightarrow> sys \<Rightarrow> gerror + subscription list" where
  "sub_repo_ListPastDuePendingExpiry sch gracePeriodEnd s =
     (case select_columns (expiry_columns sch) (expiry_columns selected_columns) of
        Some err \<Rightarrow> Inl (Wrap ''list subscriptions past due pending expiry'' err)
      | None \<Rightarrow> Inr (map scan_past_due (page list_limit (\<lambda>r. sub_CurrentPeriodEnd (sr_sub r))
                     (past_due_pending_expiry gracePeriodEnd) (subscriptions s))))"

section \<open>The runner\<close>

record lifecycle_runner =
  lr_schema :: lifecycle_schema
  lr_paySvc :: "go_context \<Rightarrow> create_payment_input \<Rightarrow> sys \<Rightarrow> (gerror + payment \<times> bool) \<times> sys"
  lr_credSvc :: "uuid \<Rightarrow> string \<Rightarrow> sys \<Rightarrow> gerror + config"
  lr_uuid_string :: "uuid \<Rightarrow> string"
  lr_graceDays :: int64

definition nextPeriodEnd :: "gtime \<Rightarrow> string \<Rightarrow> int64 \<Rightarrow> gtime" where
  "nextPeriodEnd from interval count =
     (if interval = ''day'' then add_date from 0 0 (sint count)
      else if interval = ''week'' then add_date from 0 0 (sint (count * 7))
      else if interval = ''month'' then add_date from 0 (sint count) 0
      else if interval = ''year'' then add_date from (sint count) 0 0
      else add_date from 0 (sint count) 0)"

definition renewal_key :: "(uuid \<Rightarrow> string) \<Rightarrow> subscription \<Rightarrow> string" where
  "renewal_key uuid_string sub =
     ''renewal:'' @ uuid_string (sub_SubscriptionKey sub) @ '':'' @ format_date (sub_CurrentPeriodEnd sub)"

definition renewal_payment :: "(uuid \<Rightarrow> string) \<Rightarrow> subscription \<Rightarrow> config \<Rightarrow> create_payment_input" where
  "renewal_payment uuid_string sub config =
     \<lparr>ci_SubscriptionID = sub_ID sub, ci_IdempotencyKey = renewal_key uuid_string sub,
      ci_ProviderName = sub_ProviderName sub, ci_Amount = sub_Amount sub, ci_Currency = sub_Currency sub,
      ci_Description = [], ci_ExternalCustomerID = sub_ExternalCustomerID sub, ci_ProviderConfig = config,
      ci_Metadata = []\<rparr>"

text \<open>After a failed charge \<open>err\<close> is overwritten by the result of \<open>UpdateStatus\<close>, so the error that is
  returned wraps nil.\<close>

definition renewSubscription ::
  "lifecycle_runner \<Rightarrow> go_context \<Rightarrow> subscription \<Rightarrow> sys \<Rightarrow> gerror option \<times> sys" where
  "renewSubscription r ctx sub s =
     (case lr_credSvc r (sub_TenantID sub) (sub_ProviderName sub) s of
        Inl err \<Rightarrow>
          (case sub_repo_UpdateStatus (sub_ID sub) StatusPastDue s of
             (Inl err, s1) \<Rightarrow> (Some (Wrap ''updating status to past_due'' err), s1)
           | (Inr u, s1) \<Rightarrow> (Some (Plain ''credentials not configured''), s1))
      | Inr config \<Rightarrow>
         (case lr_paySvc r (WithTenantID ctx (sub_TenantID sub)) (renewal_payment (lr_uuid_string r) sub config) s of
            (Inl err, s1) \<Rightarrow>
              (case sub_repo_UpdateStatus (sub_ID sub) StatusPastDue s1 of
                 (Inl err, s2) \<Rightarrow> (Some (Wrap ''updating status to past_due after charge failure'' err), s2)
               | (Inr u, s2) \<Rightarrow> (Some (Plain ''charge failed: %!w(<nil>)''), s2))
          | (Inr res, s1) \<Rightarrow>
              (case sub_repo_AdvancePeriod (sub_ID sub) (sub_CurrentPeriodEnd sub)
                      (nextPeriodEnd (sub_CurrentPeriodEnd sub) (sub_Interval sub) (sub_IntervalCount sub)) s1 of
                 (Inl err, s2) \<Rightarrow> (Some (Wrap ''advancing period'' err), s2)
               | (Inr u, s2) \<Rightarrow> (None, s2))))"

text \<open>An error of one subscription is logged and the loop goes on.\<close>

fun renew_all :: "lifecycle_runner \<Rightarrow> go_context \<Rightarrow> subscription list \<Rightarrow> sys \<Rightarrow> sys" where
  "renew_all r ctx [] s = s"
| "renew_all r ctx (sub # subs) s = renew_all r ctx subs (snd (renewSubscription r ctx sub s))"

definition RunRenewals :: "lifecycle_runner \<Rightarrow> go_context \<Rightarrow> sys \<Rightarrow> gerror option \<times> sys" where
  "RunRenewals r ctx s =
     (case sub_repo_ListDueForRenewal (lr_schema r) (clock s) s of
        Inl err \<Rightarrow> (Some (Wrap ''running renewals: listing due subscriptions'' err), s)
      | Inr subs \<Rightarrow> (None, renew_all r ctx subs s))"

fun set_statuses :: "string \<Rightarrow> subscription list \<Rightarrow> sys \<Rightarrow> sys" where
  "set_statuses st [] s = s"
| "set_statuses st (sub # subs) s = set_statuses st subs (snd (sub_repo_UpdateStatus (sub_ID sub) st s))"

definition RunTrialExpiry :: "lifecycle_runner \<Rightarrow> sys \<Rightarrow> gerror option \<times> sys" where
  "RunTrialExpiry r s =
     (case sub_repo_ListExpiredTrials (lr_schema r) (clock s) s of
        Inl err \<Rightarrow> (Some (Wrap ''running trial expiry: listing expired trials'' err), s)
      | Inr subs \<Rightarrow> (None, set_statuses StatusActive subs s))"

definition RunPastDueExpiry :: "lifecycle_runner \<Rightarrow> gtime \<Rightarrow> sys \<Rightarrow> gerror option \<times> sys" where
  "RunPastDueExpiry r gracePeriodEnd s =
     (case sub_repo_ListPastDuePendingExpiry (lr_schema r) gracePeriodEnd s of
        Inl err \<Rightarrow> (Some (Wrap ''running past due expiry: listing pending expiry'' err), s)
      | Inr subs \<Rightarrow> (None, set_statuses StatusExpired subs s))"

text \<open>The errors of the three jobs are logged.\<close>

definition runAllJobs :: "lifecycle_runner \<Rightarrow> go_context \<Rightarrow> sys \<Rightarrow> sys" where
  "runAllJobs r ctx s =
     (let now = clock s;
          s1 = snd (RunRenewals r ctx s);
          s2 = snd (RunTrialExpiry r s1);
          gracePeriodEnd = add_date now 0 0 (sint (- lr_graceDays r))
      in snd (RunPastDueExpiry r gracePeriodEnd s2))"

text \<open>The loop of \<open>Run\<close>: what the \<open>select\<close> receives, one after the other. A tick comes with what the rest
  of the system did since the last one.\<close>

datatype lifecycle_event = Ticked "sys \<Rightarrow> sys" | Ctx_Done

fun lifecycle_Run :: "lifecycle_runner \<Rightarrow> go_context \<Rightarrow> lifecycle_event list \<Rightarrow> sys \<Rightarrow> sys" where
  "lifecycle_Run r ctx [] s = s"
| "lifecycle_Run r ctx (Ctx_Done # es) s = s"
| "lifecycle_Run r ctx (Ticked env # es) s = lifecycle_Run r ctx es (runAllJobs r ctx (env s))"

section \<open>The listings\<close>

lemma select_columns_None: "select_columns a c = None \<longleftrightarrow> set c \<subseteq> set a"
  by (auto simp: select_columns_def first_error_None check_None)

text \<open>A schema on which the queries of the repository are well-formed.\<close>

definition schema_ok :: "lifecycle_schema \<Rightarrow> bool" where
  "schema_ok sch \<longleftrightarrow> set (renewal_columns selected_columns) \<subseteq> set (renewal_columns sch)
     \<and> set (trial_columns selected_columns) \<subseteq> set (trial_columns sch)
     \<and> set (expiry_columns selected_columns) \<subseteq> set (expiry_columns sch)"

lemma listings_ok:
  assumes "schema_ok sch"
  shows "sub_repo_ListDueForRenewal sch now s = Inr (map scan_due (page list_limit (\<lambda>r. sub_CurrentPeriodEnd (sr_sub r))
           (due_for_renewal now) (subscriptions s)))"
    "sub_repo_ListExpiredTrials sch now s = Inr (map scan_trial (page list_limit
           (\<lambda>r. case sub_TrialEndsAt (sr_sub r) of None \<Rightarrow> 0 | Some t \<Rightarrow> t) (expired_trial now) (subscriptions s)))"
    "sub_repo_ListPastDuePendingExpiry sch now s = Inr (map scan_past_due (page list_limit
           (\<lambda>r. sub_CurrentPeriodEnd (sr_sub r)) (past_due_pending_expiry now) (subscriptions s)))"
  using assms by (simp_all add: schema_ok_def sub_repo_ListDueForRenewal_def sub_repo_ListExpiredTrials_def
      sub_repo_ListPastDuePendingExpiry_def select_columns_None [THEN iffD2])

lemma listings_subset:
  "sub_repo_ListDueForRenewal sch now s = Inr subs \<Longrightarrow> sub \<in> set subs
     \<Longrightarrow> \<exists>r \<in> set (subscriptions s). due_for_renewal now r \<and> sub = scan_due r"
  "sub_repo_ListExpiredTrials sch now s = Inr subs \<Longrightarrow> sub \<in> set subs
     \<Longrightarrow> \<exists>r \<in> set (subscriptions s). expired_trial now r \<and> sub = scan_trial r"
  "sub_repo_ListPastDuePendingExpiry sch now s = Inr subs \<Longrightarrow> sub \<in> set subs
     \<Longrightarrow> \<exists>r \<in> set (subscriptions s). past_due_pending_expiry now r \<and> sub = scan_past_due r"
  unfolding sub_repo_ListDueForRenewal_def sub_repo_ListExpiredTrials_def sub_repo_ListPastDuePendingExpiry_def
  using set_page by (fastforce split: option.splits)+

lemma scanned_simps [simp]:
  "sub_ID (scan_due r) = sub_ID (sr_sub r)" "sub_ID (scan_trial r) = sub_ID (sr_sub r)"
  "sub_ID (scan_past_due r) = sub_ID (sr_sub r)" "sub_TenantID (scan_due r) = sub_TenantID (sr_sub r)"
  "sub_ProviderName (scan_due r) = sub_ProviderName (sr_sub r)" "sub_Amount (scan_due r) = sub_Amount (sr_sub r)"
  "sub_CurrentPeriodEnd (scan_due r) = sub_CurrentPeriodEnd (sr_sub r)"
  "sub_Interval (scan_due r) = sub_Interval (sr_sub r)" "sub_IntervalCount (scan_due r) = sub_IntervalCount (sr_sub r)"
  "sub_Currency (scan_due r) = sub_Currency (sr_sub r)"
  by (simp_all add: scan_due_def scan_trial_def scan_past_due_def)

lemma nextPeriodEnd_eq: "interval \<in> set all_intervals \<Longrightarrow> nextPeriodEnd t interval c = calculatePeriodEnd t interval c"
  by (auto simp: all_intervals_def nextPeriodEnd_def calculatePeriodEnd_def IntervalDay_def IntervalWeek_def
      IntervalMonth_def IntervalYear_def)

section \<open>Writes of the jobs\<close>

text \<open>An UPDATE by id that keeps the constraints writes the rows of the id that the connection sees, and is an error
  when there are none.\<close>

lemma exec_sub_seen:
  assumes "subs_ok s"
    and "\<And>r. sub_constraints r = None \<Longrightarrow> sub_constraints (r\<lparr>sr_sub := f (sr_sub r)\<rparr>) = None"
  shows "snd (exec_sub msg f sid s) = s\<lparr>subscriptions := update_where
      (\<lambda>r. visible s (row_tenant r) \<and> sub_ID (sr_sub r) = sid) (\<lambda>r. r\<lparr>sr_sub := f (sr_sub r)\<rparr>) (subscriptions s)\<rparr>"
    "is_ok (fst (exec_sub msg f sid s)) \<longleftrightarrow> (\<exists>r \<in> set (subscriptions s). visible s (row_tenant r) \<and> sub_ID (sr_sub r) = sid)"
proof -
  let ?hit = "\<lambda>r. visible s (row_tenant r) \<and> sub_ID (sr_sub r) = sid" and ?f = "\<lambda>r. r\<lparr>sr_sub := f (sr_sub r)\<rparr>"
  have none: "update_where ?hit ?f (subscriptions s) = subscriptions s" if "filter ?hit (subscriptions s) = []"
    using that by (intro update_where_none) (simp add: filter_empty_conv)
  have some: "(\<exists>r \<in> set (subscriptions s). ?hit r) \<longleftrightarrow> filter ?hit (subscriptions s) \<noteq> []" by (auto simp: filter_empty_conv)
  have "snd (exec_sub msg f sid s) = s\<lparr>subscriptions := update_where ?hit ?f (subscriptions s)\<rparr>
      \<and> is_ok (fst (exec_sub msg f sid s)) = (filter ?hit (subscriptions s) \<noteq> [])"
  proof (cases "session_check s")
    case (Some e)
    then have "filter ?hit (subscriptions s) = []"
      by (auto simp: filter_empty_conv session_check_def check_def dest!: visible_not_unset split: if_splits)
    then show ?thesis using Some none by (simp add: exec_sub_def update_rows_def is_ok_iff)
  next
    case None
    have "first_error (map sub_constraints (map ?f (filter ?hit (subscriptions s)))) = None"
      using assms by (auto simp: first_error_None subs_ok_def)
    then have "update_rows s row_tenant (\<lambda>r. sub_ID (sr_sub r) = sid) ?f sub_constraints (subscriptions s)
        = Inr (map ?f (filter ?hit (subscriptions s)), update_where ?hit ?f (subscriptions s))"
      by (simp add: update_rows_def None Let_def comp_def)
    then show ?thesis using none by (auto simp: exec_sub_def is_ok_iff)
  qed
  then show "snd (exec_sub msg f sid s) = s\<lparr>subscriptions := update_where ?hit ?f (subscriptions s)\<rparr>"
    "is_ok (fst (exec_sub msg f sid s)) \<longleftrightarrow> (\<exists>r \<in> set (subscriptions s). ?hit r)"
    unfolding some by simp_all
qed

text \<open>The same for the id of a row: one row is written, or the error leaves everything as it is.\<close>

lemma exec_sub_row:
  assumes "subs_ok s" "row \<in> set (subscriptions s)"
    and "\<And>r. sub_constraints r = None \<Longrightarrow> sub_constraints (r\<lparr>sr_sub := f (sr_sub r)\<rparr>) = None"
  shows "visible s (row_tenant row) \<Longrightarrow> exec_sub msg f (sub_ID (sr_sub row)) s = (Inr (), s\<lparr>subscriptions :=
      update_where (\<lambda>q. sub_ID (sr_sub q) = sub_ID (sr_sub row)) (\<lambda>r. r\<lparr>sr_sub := f (sr_sub r)\<rparr>) (subscriptions s)\<rparr>)"
    "\<not> visible s (row_tenant row) \<Longrightarrow> \<exists>e. exec_sub msg f (sub_ID (sr_sub row)) s = (Inl e, s)"
proof -
  let ?id = "sub_ID (sr_sub row)"
  have same: "q = row" if "q \<in> set (subscriptions s)" "sub_ID (sr_sub q) = ?id" for q
    using distinct_key_eq [of "sub_ID \<circ> sr_sub" "subscriptions s" q row] assms(1,2) that by (simp add: subs_ok_def)
  obtain q s' where c: "exec_sub msg f ?id s = (q, s')" by fastforce
  note ex = exec_sub_seen [where f = f and sid = ?id and msg = msg, OF assms(1,3), unfolded c, simplified]
  show "exec_sub msg f ?id s = (Inr (), s\<lparr>subscriptions :=
      update_where (\<lambda>q. sub_ID (sr_sub q) = ?id) (\<lambda>r. r\<lparr>sr_sub := f (sr_sub r)\<rparr>) (subscriptions s)\<rparr>)"
    if v: "visible s (row_tenant row)"
  proof -
    have "update_where (\<lambda>r. visible s (row_tenant r) \<and> sub_ID (sr_sub r) = ?id) g (subscriptions s)
        = update_where (\<lambda>q. sub_ID (sr_sub q) = ?id) g (subscriptions s)" for g
      by (rule update_where_cong) (use same v in blast)
    moreover have "is_ok q" using ex(2) v assms(2) by blast
    ultimately show ?thesis using ex(1) c by (auto simp: is_ok_iff)
  qed
  show "\<exists>e. exec_sub msg f ?id s = (Inl e, s)" if v: "\<not> visible s (row_tenant row)"
  proof -
    have "\<not> is_ok q" using ex(2) same v by blast
    then obtain e where "q = Inl e" by (cases q) (simp_all add: is_ok_iff)
    moreover have "update_where (\<lambda>r. visible s (row_tenant r) \<and> sub_ID (sr_sub r) = ?id) g (subscriptions s) = subscriptions s" for g
      by (rule update_where_none) (use same v in blast)
    ultimately show ?thesis using ex(1) c by simp
  qed
qed

definition with_status :: "string \<Rightarrow> gtime \<Rightarrow> sub_row \<Rightarrow> sub_row" where
  "with_status st now r = r\<lparr>sr_sub := (sr_sub r)\<lparr>sub_Status := st, sub_UpdatedAt := now\<rparr>\<rparr>"

definition with_period :: "gtime \<Rightarrow> gtime \<Rightarrow> gtime \<Rightarrow> sub_row \<Rightarrow> sub_row" where
  "with_period t1 t2 now r =
     r\<lparr>sr_sub := (sr_sub r)\<lparr>sub_CurrentPeriodStart := t1, sub_CurrentPeriodEnd := t2, sub_UpdatedAt := now\<rparr>\<rparr>"

lemma with_status_simps [simp]:
  "sub_ID (sr_sub (with_status st now r)) = sub_ID (sr_sub r)" "sub_Status (sr_sub (with_status st now r)) = st"
  "with_status st now (with_status st now r) = with_status st now r"
  by (simp_all add: with_status_def)

lemma row_tenant_with_status [simp]: "row_tenant (with_status st now r) = row_tenant r"
  by (simp add: with_status_def row_tenant_def)

lemma visible_subscriptions [simp]: "visible (s\<lparr>subscriptions := rs\<rparr>) = visible s"
  by (simp add: visible_def fun_eq_iff)

lemma UpdateStatus_seen:
  assumes "subs_ok s" "st \<in> set subscription_statuses"
  shows "snd (sub_repo_UpdateStatus sid st s) = s\<lparr>subscriptions := update_where
      (\<lambda>r. visible s (row_tenant r) \<and> sub_ID (sr_sub r) = sid) (with_status st (db_now s)) (subscriptions s)\<rparr>"
    and "row \<in> set (subscriptions s) \<Longrightarrow> visible s (row_tenant row) \<Longrightarrow>
      sub_repo_UpdateStatus (sub_ID (sr_sub row)) st s = (Inr (), s\<lparr>subscriptions := update_where
        (\<lambda>q. sub_ID (sr_sub q) = sub_ID (sr_sub row)) (with_status st (db_now s)) (subscriptions s)\<rparr>)"
    and "row \<in> set (subscriptions s) \<Longrightarrow> \<not> visible s (row_tenant row) \<Longrightarrow>
      \<exists>e. sub_repo_UpdateStatus (sub_ID (sr_sub row)) st s = (Inl e, s)"
proof -
  let ?f = "\<lambda>sub. sub\<lparr>sub_Status := st, sub_UpdatedAt := db_now s\<rparr>"
  have con: "sub_constraints (r\<lparr>sr_sub := ?f (sr_sub r)\<rparr>) = None" if "sub_constraints r = None" for r
    using that assms(2) by (simp add: sub_constraints_None)
  show "snd (sub_repo_UpdateStatus sid st s) = s\<lparr>subscriptions := update_where
      (\<lambda>r. visible s (row_tenant r) \<and> sub_ID (sr_sub r) = sid) (with_status st (db_now s)) (subscriptions s)\<rparr>"
    by (simp add: sub_repo_UpdateStatus_def exec_sub_seen(1) [where f = ?f, OF assms(1) con] with_status_def [abs_def])
  show "sub_repo_UpdateStatus (sub_ID (sr_sub row)) st s = (Inr (), s\<lparr>subscriptions := update_where
        (\<lambda>q. sub_ID (sr_sub q) = sub_ID (sr_sub row)) (with_status st (db_now s)) (subscriptions s)\<rparr>)"
    if "row \<in> set (subscriptions s)" "visible s (row_tenant row)"
    by (simp add: sub_repo_UpdateStatus_def exec_sub_row(1) [where f = ?f, OF assms(1) that(1) con that(2)] with_status_def [abs_def])
  show "\<exists>e. sub_repo_UpdateStatus (sub_ID (sr_sub row)) st s = (Inl e, s)"
    if "row \<in> set (subscriptions s)" "\<not> visible s (row_tenant row)"
    unfolding sub_repo_UpdateStatus_def by (rule exec_sub_row(2) [where f = ?f, OF assms(1) that(1) con that(2)])
qed

lemma AdvancePeriod_seen:
  assumes "subs_ok s" "row \<in> set (subscriptions s)"
  shows "visible s (row_tenant row) \<Longrightarrow> sub_repo_AdvancePeriod (sub_ID (sr_sub row)) t1 t2 s
      = (Inr (), s\<lparr>subscriptions := update_where (\<lambda>q. sub_ID (sr_sub q) = sub_ID (sr_sub row))
          (with_period (trunc_us t1) (trunc_us t2) (db_now s)) (subscriptions s)\<rparr>)"
    and "\<not> visible s (row_tenant row) \<Longrightarrow> \<exists>e. sub_repo_AdvancePeriod (sub_ID (sr_sub row)) t1 t2 s = (Inl e, s)"
proof -
  let ?f = "\<lambda>sub. sub\<lparr>sub_CurrentPeriodStart := trunc_us t1, sub_CurrentPeriodEnd := trunc_us t2,
    sub_UpdatedAt := db_now s\<rparr>"
  have con: "sub_constraints (r\<lparr>sr_sub := ?f (sr_sub r)\<rparr>) = None" if "sub_constraints r = None" for r
    using that by (simp add: sub_constraints_None)
  show "sub_repo_AdvancePeriod (sub_ID (sr_sub row)) t1 t2 s
      = (Inr (), s\<lparr>subscriptions := update_where (\<lambda>q. sub_ID (sr_sub q) = sub_ID (sr_sub row))
          (with_period (trunc_us t1) (trunc_us t2) (db_now s)) (subscriptions s)\<rparr>)" if "visible s (row_tenant row)"
    by (simp add: sub_repo_AdvancePeriod_def exec_sub_row(1) [where f = ?f, OF assms con that] with_period_def [abs_def])
  show "\<exists>e. sub_repo_AdvancePeriod (sub_ID (sr_sub row)) t1 t2 s = (Inl e, s)" if "\<not> visible s (row_tenant row)"
    unfolding sub_repo_AdvancePeriod_def by (rule exec_sub_row(2) [where f = ?f, OF assms con that])
qed

lemma set_statuses_seen:
  assumes "subs_ok s" "st \<in> set subscription_statuses"
  shows "set_statuses st subs s = s\<lparr>subscriptions :=
    update_where (\<lambda>r. visible s (row_tenant r) \<and> sub_ID (sr_sub r) \<in> sub_ID ` set subs) (with_status st (db_now s)) (subscriptions s)\<rparr>"
  using assms
proof (induction subs arbitrary: s)
  case Nil
  have "update_where (\<lambda>r. False) f rs = rs" for f :: "sub_row \<Rightarrow> sub_row" and rs by (rule update_where_none) simp
  then show ?case by simp
next
  case (Cons sub subs)
  let ?s = "snd (sub_repo_UpdateStatus (sub_ID sub) st s)"
  have "subs_ok ?s" by (rule sub_change_ok [OF change_status Cons.prems(1)])
  moreover note UpdateStatus_seen(1) [OF Cons.prems, of "sub_ID sub"]
  moreover have "update_where (\<lambda>r. visible s (row_tenant r) \<and> sub_ID (sr_sub r) = sub_ID sub
        \<or> visible s (row_tenant r) \<and> sub_ID (sr_sub r) \<in> sub_ID ` set subs) f rs
      = update_where (\<lambda>r. visible s (row_tenant r) \<and> (sub_ID (sr_sub r) = sub_ID sub \<or> sub_ID (sr_sub r) \<in> sub_ID ` set subs)) f rs" for f rs
    by (rule update_where_cong) blast
  ultimately show ?case
    using Cons.IH [of ?s] Cons.prems by (simp add: db_now_def update_where_twice)
qed

lemma status_job:
  assumes "subs_ok s" "st \<in> set subscription_statuses"
    and "length (filter P (subscriptions s)) \<le> list_limit" "\<And>r. sub_ID (scan r) = sub_ID (sr_sub r)"
  shows "set_statuses st (map scan (page list_limit k P (subscriptions s))) s
    = s\<lparr>subscriptions := update_where (\<lambda>r. visible s (row_tenant r) \<and> P r) (with_status st (db_now s)) (subscriptions s)\<rparr>"
proof -
  have d: "distinct (map (sub_ID \<circ> sr_sub) (subscriptions s))" using assms(1) by (simp add: subs_ok_def)
  have "update_where (\<lambda>r. visible s (row_tenant r)
        \<and> sub_ID (sr_sub r) \<in> sub_ID ` set (map scan (page list_limit k P (subscriptions s)))) f (subscriptions s)
      = update_where (\<lambda>r. visible s (row_tenant r) \<and> P r) f (subscriptions s)" for f
    using page_ids [OF d assms(3), of _ k] by (intro update_where_cong) (simp add: image_image assms(4))
  then show ?thesis using set_statuses_seen [OF assms(1,2)] by simp
qed

section \<open>The payment service as the runner sees it\<close>

text \<open>What the runner relies on: a payment leaves the subscriptions, the session, the clock, and the
  tenants and plans alone.\<close>

locale payment_servicer =
  fixes create_payment :: "go_context \<Rightarrow> create_payment_input \<Rightarrow> sys \<Rightarrow> (gerror + payment \<times> bool) \<times> sys"
  assumes payment_subscriptions [simp]: "subscriptions (snd (create_payment ctx input s)) = subscriptions s"
    and payment_session [simp]: "session (snd (create_payment ctx input s)) = session s"
    and payment_clock [simp]: "clock (snd (create_payment ctx input s)) = clock s"
    and payment_tenants [simp]: "tenants (snd (create_payment ctx input s)) = tenants s"
    and payment_plans [simp]: "plans (snd (create_payment ctx input s)) = plans s"
begin

lemma payment_step: "sub_step s (snd (create_payment ctx input s))"
  by (rule sub_step_other) simp_all

lemma payment_db_now [simp]: "db_now (snd (create_payment ctx input s)) = db_now s"
  by (simp add: db_now_def)

lemma payment_subs_ok [simp]: "subs_ok (snd (create_payment ctx input s)) = subs_ok s"
  by (simp add: subs_ok_def cong: option.case_cong)

text \<open>A renewal is at most a payment and one write of the row it is about.\<close>

lemma renew_cases:
  assumes "lr_paySvc r = create_payment"
  obtains ctx' input where "snd (renewSubscription r ctx sub s) = snd (sub_repo_UpdateStatus (sub_ID sub) StatusPastDue s)"
  | ctx' input where "snd (renewSubscription r ctx sub s)
      = snd (sub_repo_UpdateStatus (sub_ID sub) StatusPastDue (snd (create_payment ctx' input s)))"
  | ctx' input t1 t2 where "snd (renewSubscription r ctx sub s)
      = snd (sub_repo_AdvancePeriod (sub_ID sub) t1 t2 (snd (create_payment ctx' input s)))"
proof (cases "lr_credSvc r (sub_TenantID sub) (sub_ProviderName sub) s")
  case (Inl e)
  then show thesis by (intro that(1)) (simp add: renewSubscription_def split: prod.split sum.split)
next
  case (Inr config)
  let ?ctx = "WithTenantID ctx (sub_TenantID sub)" and ?input = "renewal_payment (lr_uuid_string r) sub config"
  obtain q s1 where p: "create_payment ?ctx ?input s = (q, s1)" by fastforce
  show thesis
  proof (cases q)
    case Inl
    with p Inr assms show thesis
      by (intro that(2) [of ?ctx ?input]) (simp add: renewSubscription_def split: prod.split sum.split)
  next
    case (Inr x)
    with p \<open>lr_credSvc r _ _ s = Inr config\<close> assms show thesis
      by (intro that(3) [where ctx' = ?ctx and input = ?input and ?t1.0 = "sub_CurrentPeriodEnd sub"
            and ?t2.0 = "nextPeriodEnd (sub_CurrentPeriodEnd sub) (sub_Interval sub) (sub_IntervalCount sub)"])
        (simp add: renewSubscription_def split: prod.split sum.split)
  qed
qed

lemma renew_steps:
  assumes "lr_paySvc r = create_payment"
  shows "sub_step\<^sup>*\<^sup>* s (snd (renewSubscription r ctx sub s))"
  by (rule renew_cases [OF assms, of ctx sub s])
    (auto intro: sub_step_status sub_step_advance payment_step converse_rtranclp_into_rtranclp)

lemma renew_all_steps:
  "lr_paySvc r = create_payment \<Longrightarrow> sub_step\<^sup>*\<^sup>* s (renew_all r ctx subs s)"
proof (induction subs arbitrary: s)
  case (Cons sub subs)
  have "sub_step\<^sup>*\<^sup>* s (snd (renewSubscription r ctx sub s))" by (rule renew_steps [OF Cons.prems])
  also have "sub_step\<^sup>*\<^sup>* \<dots> (renew_all r ctx subs (snd (renewSubscription r ctx sub s)))"
    by (rule Cons.IH [OF Cons.prems])
  finally show ?case by simp
qed simp

lemma set_statuses_steps: "sub_step\<^sup>*\<^sup>* s (set_statuses st subs s)"
proof (induction subs arbitrary: s)
  case (Cons sub subs)
  then show ?case by (auto intro: converse_rtranclp_into_rtranclp sub_step_status)
qed simp

lemma job_steps:
  "lr_paySvc r = create_payment \<Longrightarrow> sub_step\<^sup>*\<^sup>* s (snd (RunRenewals r ctx s))"
  "sub_step\<^sup>*\<^sup>* s (snd (RunTrialExpiry r s))" "sub_step\<^sup>*\<^sup>* s (snd (RunPastDueExpiry r t s))"
  by (auto simp: RunRenewals_def RunTrialExpiry_def RunPastDueExpiry_def renew_all_steps set_statuses_steps split: sum.split)

lemma all_jobs_steps: "lr_paySvc r = create_payment \<Longrightarrow> sub_step\<^sup>*\<^sup>* s (runAllJobs r ctx s)"
  unfolding runAllJobs_def Let_def
  by (rule rtranclp_trans [OF job_steps(1) rtranclp_trans [OF job_steps(2) job_steps(3)]])

lemma run_steps:
  "lr_paySvc r = create_payment \<Longrightarrow> \<forall>env s. Ticked env \<in> set es \<longrightarrow> sub_step\<^sup>*\<^sup>* s (env s)
     \<Longrightarrow> sub_step\<^sup>*\<^sup>* s (lifecycle_Run r ctx es s)"
proof (induction r ctx es s rule: lifecycle_Run.induct)
  case (3 r ctx env es s)
  then have "sub_step\<^sup>*\<^sup>* s (env s)" by simp
  moreover have "sub_step\<^sup>*\<^sup>* (env s) (runAllJobs r ctx (env s))" using 3 by (intro all_jobs_steps) simp
  moreover have "sub_step\<^sup>*\<^sup>* (runAllJobs r ctx (env s)) (lifecycle_Run r ctx es (runAllJobs r ctx (env s)))"
    using 3 by auto
  ultimately show ?case by (auto intro: rtranclp_trans)
qed simp_all

text \<open>A write by another id leaves a row where it is.\<close>

lemma exec_other_row:
  assumes "row \<in> set (subscriptions s)" "sid \<noteq> sub_ID (sr_sub row)"
  shows "row \<in> set (subscriptions (snd (exec_sub msg f sid s)))"
proof -
  obtain q s' where c: "exec_sub msg f sid s = (q, s')" by fastforce
  then show ?thesis
  proof (cases rule: exec_sub_cases)
    case (written r)
    have "row \<in> set (update_table s f sid)"
      unfolding update_table_def set_update_where by (rule image_eqI [of _ _ row]) (use assms in auto)
    with written(5) show ?thesis by (simp add: c)
  qed (simp add: c assms)
qed

lemma status_other_row:
  "row \<in> set (subscriptions s) \<Longrightarrow> \<forall>sub \<in> set subs. sub_ID sub \<noteq> sub_ID (sr_sub row)
     \<Longrightarrow> row \<in> set (subscriptions (set_statuses st subs s))"
  by (induction subs arbitrary: s) (simp_all add: sub_repo_UpdateStatus_def exec_other_row)

lemma renew_other_row:
  assumes "lr_paySvc r = create_payment" "row \<in> set (subscriptions s)" "sub_ID sub \<noteq> sub_ID (sr_sub row)"
  shows "row \<in> set (subscriptions (snd (renewSubscription r ctx sub s)))"
  by (rule renew_cases [OF assms(1), of ctx sub s])
    (simp_all add: sub_repo_UpdateStatus_def sub_repo_AdvancePeriod_def exec_other_row assms(2,3))

lemma renew_all_other_row:
  "lr_paySvc r = create_payment \<Longrightarrow> row \<in> set (subscriptions s) \<Longrightarrow> \<forall>sub \<in> set subs. sub_ID sub \<noteq> sub_ID (sr_sub row)
     \<Longrightarrow> row \<in> set (subscriptions (renew_all r ctx subs s))"
  by (induction subs arbitrary: s) (simp_all add: renew_other_row)

text \<open>A row that no listing selects goes through all jobs unchanged.\<close>

lemma jobs_skip_row:
  assumes "lr_paySvc r = create_payment" "subs_ok s" "row \<in> set (subscriptions s)"
    and "\<And>now. \<not> due_for_renewal now row" "\<And>now. \<not> expired_trial now row" "\<And>now. \<not> past_due_pending_expiry now row"
  shows "row \<in> set (subscriptions (runAllJobs r ctx s))"
proof -
  have other: "sub_ID (sr_sub q) \<noteq> sub_ID (sr_sub row)"
    if "subs_ok s" "row \<in> set (subscriptions s)" "q \<in> set (subscriptions s)" "q \<noteq> row" for q s
    using distinct_key_eq [of "sub_ID \<circ> sr_sub" "subscriptions s" q row] that by (auto simp: subs_ok_def)
  let ?s1 = "snd (RunRenewals r ctx s)"
  let ?s2 = "snd (RunTrialExpiry r ?s1)"
  have ok1: "subs_ok ?s1" by (rule sub_steps_ok [OF job_steps(1) [OF assms(1)] assms(2)])
  have ok2: "subs_ok ?s2" by (rule sub_steps_ok [OF job_steps(2) ok1])
  have r1: "row \<in> set (subscriptions ?s1)"
  proof (cases "sub_repo_ListDueForRenewal (lr_schema r) (clock s) s")
    case (Inr subs)
    then have "\<forall>sub \<in> set subs. sub_ID sub \<noteq> sub_ID (sr_sub row)"
      using listings_subset(1) other [OF assms(2,3)] assms(4) by fastforce
    with Inr show ?thesis using renew_all_other_row [OF assms(1,3)] by (simp add: RunRenewals_def)
  qed (simp add: RunRenewals_def assms(3))
  have r2: "row \<in> set (subscriptions ?s2)"
  proof (cases "sub_repo_ListExpiredTrials (lr_schema r) (clock ?s1) ?s1")
    case (Inr subs)
    then have "\<forall>sub \<in> set subs. sub_ID sub \<noteq> sub_ID (sr_sub row)"
      using listings_subset(2) other [OF ok1 r1] assms(5) by fastforce
    with Inr show ?thesis using status_other_row [OF r1] by (simp add: RunTrialExpiry_def)
  qed (simp add: RunTrialExpiry_def r1)
  have "row \<in> set (subscriptions (snd (RunPastDueExpiry r t ?s2)))" for t
  proof (cases "sub_repo_ListPastDuePendingExpiry (lr_schema r) t ?s2")
    case (Inr subs)
    then have "\<forall>sub \<in> set subs. sub_ID sub \<noteq> sub_ID (sr_sub row)"
      using listings_subset(3) other [OF ok2 r2] assms(6) by fastforce
    with Inr show ?thesis using status_other_row [OF r2] by (simp add: RunPastDueExpiry_def)
  qed (simp add: RunPastDueExpiry_def r2)
  then show ?thesis by (simp add: runAllJobs_def Let_def)
qed

text \<open>A renewal, by whether the connection sees the subscription.\<close>

lemma renew_row:
  assumes "lr_paySvc r = create_payment" "subs_ok s" "row \<in> set (subscriptions s)" "sub_ID sub = sub_ID (sr_sub row)"
    and "lr_credSvc r (sub_TenantID sub) (sub_ProviderName sub) s = Inr config"
    and "create_payment (WithTenantID ctx (sub_TenantID sub)) (renewal_payment (lr_uuid_string r) sub config) s = (res, s1)"
  shows "visible s (row_tenant row) \<Longrightarrow> (case res of
      Inr x \<Rightarrow> renewSubscription r ctx sub s = (None, s1\<lparr>subscriptions := update_where (\<lambda>q. sub_ID (sr_sub q) = sub_ID sub)
        (with_period (trunc_us (sub_CurrentPeriodEnd sub))
           (trunc_us (nextPeriodEnd (sub_CurrentPeriodEnd sub) (sub_Interval sub) (sub_IntervalCount sub))) (db_now s))
        (subscriptions s)\<rparr>)
    | Inl e \<Rightarrow> renewSubscription r ctx sub s = (Some (Plain ''charge failed: %!w(<nil>)''),
        s1\<lparr>subscriptions := update_where (\<lambda>q. sub_ID (sr_sub q) = sub_ID sub)
          (with_status StatusPastDue (db_now s)) (subscriptions s)\<rparr>))"
    and "\<not> visible s (row_tenant row) \<Longrightarrow> \<exists>e. renewSubscription r ctx sub s = (Some e, s1)"
proof -
  let ?c = "create_payment (WithTenantID ctx (sub_TenantID sub)) (renewal_payment (lr_uuid_string r) sub config) s"
  have s1: "s1 = snd ?c" by (simp add: assms(6))
  have f: "subs_ok s1" "subscriptions s1 = subscriptions s" "db_now s1 = db_now s" "visible s1 = visible s"
    unfolding s1 by (simp_all add: assms(2) visible_def fun_eq_iff)
  have row: "row \<in> set (subscriptions s1)" using assms(3) by (simp add: f)
  have "StatusPastDue \<in> set subscription_statuses" by (simp add: subscription_statuses_def)
  note st = UpdateStatus_seen(2,3) [OF f(1) this row, unfolded f, folded assms(4)]
  note adv = AdvancePeriod_seen [OF f(1) row, unfolded f, folded assms(4)]
  show "case res of
      Inr x \<Rightarrow> renewSubscription r ctx sub s = (None, s1\<lparr>subscriptions := update_where (\<lambda>q. sub_ID (sr_sub q) = sub_ID sub)
        (with_period (trunc_us (sub_CurrentPeriodEnd sub))
           (trunc_us (nextPeriodEnd (sub_CurrentPeriodEnd sub) (sub_Interval sub) (sub_IntervalCount sub))) (db_now s))
        (subscriptions s)\<rparr>)
    | Inl e \<Rightarrow> renewSubscription r ctx sub s = (Some (Plain ''charge failed: %!w(<nil>)''),
        s1\<lparr>subscriptions := update_where (\<lambda>q. sub_ID (sr_sub q) = sub_ID sub)
          (with_status StatusPastDue (db_now s)) (subscriptions s)\<rparr>)" if "visible s (row_tenant row)"
    using assms(1,5,6) by (cases res) (simp_all add: renewSubscription_def adv(1) [OF that] st(1) [OF that])
  show "\<exists>e. renewSubscription r ctx sub s = (Some e, s1)" if v: "\<not> visible s (row_tenant row)"
  proof (cases res)
    case (Inl e)
    obtain e' where "sub_repo_UpdateStatus (sub_ID sub) StatusPastDue s1 = (Inl e', s1)" using st(2) [OF v] by blast
    then show ?thesis using assms(1,5,6) Inl by (simp add: renewSubscription_def)
  next
    case (Inr x)
    obtain e' where "sub_repo_AdvancePeriod (sub_ID sub) (sub_CurrentPeriodEnd sub)
        (nextPeriodEnd (sub_CurrentPeriodEnd sub) (sub_Interval sub) (sub_IntervalCount sub)) s1 = (Inl e', s1)"
      using adv(2) [OF v] by blast
    then show ?thesis using assms(1,5,6) Inr by (simp add: renewSubscription_def)
  qed
qed

end

text \<open>The payment service of the program keeps this contract, for every adapter.\<close>

lemma pay_svc_frame:
  "subscriptions (snd (pay_svc_CreatePayment adp ctx input s)) = subscriptions s
   \<and> session (snd (pay_svc_CreatePayment adp ctx input s)) = session s
   \<and> clock (snd (pay_svc_CreatePayment adp ctx input s)) = clock s
   \<and> tenants (snd (pay_svc_CreatePayment adp ctx input s)) = tenants s
   \<and> plans (snd (pay_svc_CreatePayment adp ctx input s)) = plans s"
proof -
  obtain r s' where c: "pay_svc_CreatePayment adp ctx input s = (r, s')" by fastforce
  then show ?thesis
  proof (cases rule: pay_svc_CreatePayment_cases)
    case (provider e)
    then show ?thesis
      using adapter_CreateCharge_frame [of adp "ci_ProviderName input" "payment_charge_request input" s] by (simp add: c)
  next
    case (charged res s1 q)
    then have f: "subscriptions s1 = subscriptions s" "session s1 = session s" "clock s1 = clock s"
      "tenants s1 = tenants s" "plans s1 = plans s"
      using adapter_CreateCharge_frame [of adp "ci_ProviderName input" "payment_charge_request input" s] by simp_all
    from charged(4) show ?thesis by (cases rule: pay_repo_Create_cases) (auto simp: c f)
  qed (simp add: c)
qed

interpretation billing: payment_servicer "pay_svc_CreatePayment adp" for adp
  by unfold_locales (simp_all add: pay_svc_frame)

section \<open>Concrete data for the witnesses\<close>

definition sample_runner :: lifecycle_runner where
  "sample_runner = \<lparr>lr_schema = selected_columns, lr_paySvc = pay_svc_CreatePayment sample_adapter,
     lr_credSvc = (\<lambda>t n s. Inr [(''access_token'', ''x'')]), lr_uuid_string = (\<lambda>u. ''u''), lr_graceDays = 7\<rparr>"

definition declining_adapter :: adapter where
  "declining_adapter = \<lparr>ad_registry = [(''mercadopago'', sample_provider\<lparr>pv_CreateCharge :=
     (\<lambda>n req. Inr (sample_charge\<lparr>ch_Status := ''failed''\<rparr>))\<rparr>)], ad_yamlCaps = []\<rparr>"

text \<open>A monthly subscription whose first period, January 1970, has just ended.\<close>

definition due_sys :: sys where
  "due_sys = pay_sample_sys\<lparr>clock := 2678400000000000, session := Bypass\<rparr>"

definition with_row :: "(subscription \<Rightarrow> subscription) \<Rightarrow> sys" where
  "with_row f = due_sys\<lparr>subscriptions := [pay_sample_sub\<lparr>sr_sub := f (sr_sub pay_sample_sub)\<rparr>]\<rparr>"

lemma due_sys_facts: "subs_ok due_sys" "session due_sys = Bypass" "pay_sample_sub \<in> set (subscriptions due_sys)"
  by code_simp+

section \<open>Properties\<close>

text \<open>C19. On the schema that the migration installs no job ever does anything: each query selects the
  column \<open>interval\<close>, while the functions return it as \<open>interval_type\<close>. So nothing is renewed, no
  trial ends, nothing expires.\<close>

theorem jobs_fail_on_migration_009:
  "(\<exists>m. RunRenewals (r\<lparr>lr_schema := migration_009\<rparr>) ctx s = (Some (Wrap m (Wrap
       ''list subscriptions due for renewal'' (undefined_column ''interval''))), s))
   \<and> (\<exists>m. RunTrialExpiry (r\<lparr>lr_schema := migration_009\<rparr>) s = (Some (Wrap m (Wrap
       ''list subscriptions expired trials'' (undefined_column ''interval''))), s))
   \<and> (\<exists>m. RunPastDueExpiry (r\<lparr>lr_schema := migration_009\<rparr>) t s = (Some (Wrap m (Wrap
       ''list subscriptions past due pending expiry'' (undefined_column ''interval''))), s))
   \<and> runAllJobs (r\<lparr>lr_schema := migration_009\<rparr>) ctx s = s"
proof -
  have cols: "select_columns (renewal_columns migration_009) (renewal_columns selected_columns) = Some (undefined_column ''interval'')"
    "select_columns (trial_columns migration_009) (trial_columns selected_columns) = Some (undefined_column ''interval'')"
    "select_columns (expiry_columns migration_009) (expiry_columns selected_columns) = Some (undefined_column ''interval'')"
    by code_simp+
  show ?thesis
    by (simp add: RunRenewals_def RunTrialExpiry_def RunPastDueExpiry_def runAllJobs_def Let_def cols
        sub_repo_ListDueForRenewal_def sub_repo_ListExpiredTrials_def sub_repo_ListPastDuePendingExpiry_def)
qed

text \<open>With the columns in place, one run of the trial job makes active exactly the trialing
  subscriptions whose trial has ended, all that the connection sees when at most 100 are due, and changes
  nothing else (the end of the trial and the period stay, and nothing is charged).\<close>

theorem trial_expiry_result:
  assumes "schema_ok (lr_schema r)" "subs_ok s"
    and "length (filter (expired_trial (clock s)) (subscriptions s)) \<le> 100"
  shows "RunTrialExpiry r s = (None, s\<lparr>subscriptions := update_where
      (\<lambda>q. visible s (row_tenant q) \<and> expired_trial (clock s) q) (with_status StatusActive (db_now s)) (subscriptions s)\<rparr>)"
proof -
  have "StatusActive \<in> set subscription_statuses" by (simp add: subscription_statuses_def)
  from status_job [OF assms(2) this, of "expired_trial (clock s)" scan_trial] assms(3) show ?thesis
    by (simp add: RunTrialExpiry_def listings_ok [OF assms(1)] list_limit_def)
qed

theorem trial_expiry_result_witness:
  "map (sub_Status \<circ> sr_sub) (subscriptions (snd (RunTrialExpiry sample_runner
     (with_row (\<lambda>p. p\<lparr>sub_Status := ''trialing'', sub_TrialEndsAt := Some 0\<rparr>))))) = [''active'']"
proof -
  let ?s = "with_row (\<lambda>p. p\<lparr>sub_Status := ''trialing'', sub_TrialEndsAt := Some 0\<rparr>)"
  have h: "schema_ok (lr_schema sample_runner)" "subs_ok ?s"
    "length (filter (expired_trial (clock ?s)) (subscriptions ?s)) \<le> 100"
    "map (sub_Status \<circ> sr_sub) (update_where (\<lambda>q. visible ?s (row_tenant q) \<and> expired_trial (clock ?s) q)
       (with_status StatusActive (db_now ?s)) (subscriptions ?s)) = [''active'']" by code_simp+
  then show ?thesis using trial_expiry_result [OF h(1-3)] by simp
qed

text \<open>C9. On a schema that has the columns the query names, when at most 100 subscriptions (the limit of the
  listing) are past due with a period that ended before the grace limit, one run of the expiry job makes
  expired exactly those of them that its connection sees, and nothing else changes. The listing reads the
  rows of all tenants while the writes go through row-level security: a role that bypasses it expires all of
  them, a connection set to a tenant only that tenant's, one where no tenant was ever set none; the job
  reports success in each case. The time of cancellation, which the job says it sets, stays as it was.\<close>

theorem past_due_expiry_result:
  assumes "schema_ok (lr_schema r)" "subs_ok s"
    and "length (filter (past_due_pending_expiry graceEnd) (subscriptions s)) \<le> 100"
  shows "RunPastDueExpiry r graceEnd s = (None, s\<lparr>subscriptions := update_where
      (\<lambda>q. visible s (row_tenant q) \<and> past_due_pending_expiry graceEnd q) (with_status StatusExpired (db_now s)) (subscriptions s)\<rparr>)
    \<and> map (sub_CanceledAt \<circ> sr_sub) (subscriptions (snd (RunPastDueExpiry r graceEnd s)))
        = map (sub_CanceledAt \<circ> sr_sub) (subscriptions s)"
proof -
  have "StatusExpired \<in> set subscription_statuses" by (simp add: subscription_statuses_def)
  from status_job [OF assms(2) this, of "past_due_pending_expiry graceEnd" scan_past_due] assms(3)
  have run: "RunPastDueExpiry r graceEnd s = (None, s\<lparr>subscriptions := update_where
      (\<lambda>q. visible s (row_tenant q) \<and> past_due_pending_expiry graceEnd q) (with_status StatusExpired (db_now s)) (subscriptions s)\<rparr>)"
    by (simp add: RunPastDueExpiry_def listings_ok [OF assms(1)] list_limit_def)
  have "map (sub_CanceledAt \<circ> sr_sub) (update_where P (with_status st now) rs) = map (sub_CanceledAt \<circ> sr_sub) rs" for P st now rs
    by (rule map_update_where) (simp add: with_status_def)
  with run show ?thesis by simp
qed

theorem past_due_expiry_result_witness:
  "map (sub_Status \<circ> sr_sub) (subscriptions (snd (RunPastDueExpiry sample_runner 2678400000000000
     (with_row (\<lambda>p. p\<lparr>sub_Status := ''past_due''\<rparr>))))) = [''expired'']
   \<and> map (sub_Status \<circ> sr_sub) (subscriptions (snd (RunPastDueExpiry sample_runner 2678400000000000
     ((with_row (\<lambda>p. p\<lparr>sub_Status := ''past_due''\<rparr>))\<lparr>session := Current_Tenant 8\<rparr>)))) = [''past_due'']"
proof -
  let ?s = "with_row (\<lambda>p. p\<lparr>sub_Status := ''past_due''\<rparr>)" and ?g = 2678400000000000
  let ?s8 = "?s\<lparr>session := Current_Tenant 8\<rparr>"
  have h: "schema_ok (lr_schema sample_runner)" "subs_ok ?s"
    "length (filter (past_due_pending_expiry ?g) (subscriptions ?s)) \<le> 100"
    "map (sub_Status \<circ> sr_sub) (update_where (\<lambda>q. visible ?s (row_tenant q) \<and> past_due_pending_expiry ?g q)
       (with_status StatusExpired (db_now ?s)) (subscriptions ?s)) = [''expired'']" by code_simp+
  have h8: "subs_ok ?s8" "length (filter (past_due_pending_expiry ?g) (subscriptions ?s8)) \<le> 100"
    "map (sub_Status \<circ> sr_sub) (update_where (\<lambda>q. visible ?s8 (row_tenant q) \<and> past_due_pending_expiry ?g q)
       (with_status StatusExpired (db_now ?s8)) (subscriptions ?s8)) = [''past_due'']" by code_simp+
  show ?thesis
    using past_due_expiry_result [OF h(1-3)] h(4) past_due_expiry_result [OF h(1) h8(1,2)] h8(3) by simp
qed

text \<open>C8. Renewing a subscription, once its provider's credentials are there and on a connection that sees it (the
  role bypasses row-level security, or the session is set to its tenant): a payment that is taken
  moves the period on, from the old end to the end computed from the old end, and leaves the status; a
  payment that fails makes it past due and leaves the period. No other row changes. The error of a
  failed payment is lost: what is reported wraps nil. On a connection that does not see the subscription the
  renewal fails after the payment was tried, and no subscription changes.\<close>

theorem renewal_result:
  assumes "subs_ok s" "row \<in> set (subscriptions s)"
    and "lr_credSvc r (row_tenant row) (sub_ProviderName (sr_sub row)) s = Inr config"
    and "pay_svc_CreatePayment adp (WithTenantID ctx (row_tenant row))
           (renewal_payment (lr_uuid_string r) (scan_due row) config) s = (res, s1)"
  shows "if visible s (row_tenant row) then (case res of
      Inr x \<Rightarrow> renewSubscription (r\<lparr>lr_paySvc := pay_svc_CreatePayment adp\<rparr>) ctx (scan_due row) s
        = (None, s1\<lparr>subscriptions := update_where (\<lambda>q. sub_ID (sr_sub q) = sub_ID (sr_sub row))
            (with_period (trunc_us (sub_CurrentPeriodEnd (sr_sub row)))
               (trunc_us (calculatePeriodEnd (sub_CurrentPeriodEnd (sr_sub row)) (sub_Interval (sr_sub row))
                  (sub_IntervalCount (sr_sub row)))) (db_now s)) (subscriptions s)\<rparr>)
    | Inl e \<Rightarrow> renewSubscription (r\<lparr>lr_paySvc := pay_svc_CreatePayment adp\<rparr>) ctx (scan_due row) s
        = (Some (Plain ''charge failed: %!w(<nil>)''), s1\<lparr>subscriptions :=
            update_where (\<lambda>q. sub_ID (sr_sub q) = sub_ID (sr_sub row)) (with_status StatusPastDue (db_now s))
              (subscriptions s)\<rparr>))
    else \<exists>e. renewSubscription (r\<lparr>lr_paySvc := pay_svc_CreatePayment adp\<rparr>) ctx (scan_due row) s = (Some e, s1)
      \<and> subscriptions s1 = subscriptions s"
proof -
  let ?r = "r\<lparr>lr_paySvc := pay_svc_CreatePayment adp\<rparr>"
  have "sub_Interval (sr_sub row) \<in> set all_intervals"
    using assms(1,2) by (simp add: subs_ok_def sub_constraints_None)
  note next_end = nextPeriodEnd_eq [OF this]
  have "sub_ID (scan_due row) = sub_ID (sr_sub row)" "lr_paySvc ?r = pay_svc_CreatePayment adp" by simp_all
  note renew = billing.renew_row [of ?r adp s row "scan_due row" config ctx res s1, OF this(2) assms(1,2) this(1)]
  have "subscriptions s1 = subscriptions s" using pay_svc_frame assms(4) by (metis snd_conv)
  then show ?thesis
    using renew assms(3,4) by (cases res) (auto simp: row_tenant_def next_end)
qed

text \<open>The sample subscription at its first renewal, with a provider that takes the charge.\<close>

definition sample_renewal :: create_payment_input where
  "sample_renewal = renewal_payment (\<lambda>u. ''u'') (scan_due pay_sample_sub) [(''access_token'', ''x'')]"

theorem renewal_result_witness:
  "fst (renewSubscription sample_runner background (scan_due pay_sample_sub) due_sys) = None
   \<and> map (sub_CurrentPeriodEnd \<circ> sr_sub) (subscriptions (snd (renewSubscription sample_runner background
        (scan_due pay_sample_sub) due_sys))) = [2678400000000000 + 28 * 86400000000000]"
proof -
  have ok: "is_ok (fst (pay_svc_CreatePayment sample_adapter (WithTenantID background 7) sample_renewal due_sys))" by code_simp
  then obtain x s1 where pay: "pay_svc_CreatePayment sample_adapter (WithTenantID background 7) sample_renewal due_sys = (Inr x, s1)"
    by (cases "pay_svc_CreatePayment sample_adapter (WithTenantID background 7) sample_renewal due_sys") (auto simp: is_ok_iff)
  have t: "row_tenant pay_sample_sub = 7" by code_simp
  have adv: "map (sub_CurrentPeriodEnd \<circ> sr_sub) (update_where (\<lambda>q. sub_ID (sr_sub q) = sub_ID (sr_sub pay_sample_sub))
      (with_period (trunc_us (sub_CurrentPeriodEnd (sr_sub pay_sample_sub)))
         (trunc_us (calculatePeriodEnd (sub_CurrentPeriodEnd (sr_sub pay_sample_sub)) (sub_Interval (sr_sub pay_sample_sub))
            (sub_IntervalCount (sr_sub pay_sample_sub)))) (db_now due_sys)) (subscriptions due_sys))
      = [2678400000000000 + 28 * 86400000000000]" by code_simp
  have "sample_runner = sample_runner\<lparr>lr_paySvc := pay_svc_CreatePayment sample_adapter\<rparr>"
    by (simp add: sample_runner_def)
  then show ?thesis
    using renewal_result [OF due_sys_facts(1,3), of sample_runner "[(''access_token'', ''x'')]" sample_adapter background "Inr x" s1]
      pay adv due_sys_facts(2) by (simp add: t sample_runner_def sample_renewal_def visible_def)
qed

text \<open>C20. The runner does not look at the status of the payment: when the provider answers the charge of a renewal
  with \<open>failed\<close> and the answer is stored as a new payment (on a connection that sees the subscription), that
  payment has the status failed, and the subscription nevertheless keeps its own status and is moved on to the
  next period as if it were paid; the renewal reports no error.\<close>

theorem declined_charge_renews:
  assumes "subs_ok s" "row \<in> set (subscriptions s)" "visible s (row_tenant row)"
    and "lr_credSvc r (row_tenant row) (sub_ProviderName (sr_sub row)) s = Inr config"
  defines "input \<equiv> renewal_payment (lr_uuid_string r) (scan_due row) config"
  assumes "map_of (ad_registry adp) (sub_ProviderName (sr_sub row)) = Some pv"
    and "pv_CreateCharge pv (length (charges s)) (payment_charge_request input) = Inr answer" "ch_Status answer = ''failed''"
    and "pay_svc_CreatePayment adp (WithTenantID ctx (row_tenant row)) input s = (Inr (p, True), s1)"
  shows "\<exists>s' q. renewSubscription (r\<lparr>lr_paySvc := pay_svc_CreatePayment adp\<rparr>) ctx (scan_due row) s = (None, s')
    \<and> payments s' = payments s @ [q] \<and> pay_Status q = StatusFailed \<and> pay_SubscriptionID q = sub_ID (sr_sub row)
    \<and> subscriptions s' = update_where (\<lambda>q. sub_ID (sr_sub q) = sub_ID (sr_sub row))
        (with_period (trunc_us (sub_CurrentPeriodEnd (sr_sub row)))
           (trunc_us (calculatePeriodEnd (sub_CurrentPeriodEnd (sr_sub row)) (sub_Interval (sr_sub row))
              (sub_IntervalCount (sr_sub row)))) (db_now s)) (subscriptions s)"
proof -
  have i: "sub_Interval (sr_sub row) \<in> set all_intervals"
    using assms(1,2) by (simp add: subs_ok_def sub_constraints_None)
  have "renewSubscription (r\<lparr>lr_paySvc := pay_svc_CreatePayment adp\<rparr>) ctx (scan_due row) s
      = (None, s1\<lparr>subscriptions := update_where (\<lambda>q. sub_ID (sr_sub q) = sub_ID (sr_sub row))
        (with_period (trunc_us (sub_CurrentPeriodEnd (sr_sub row)))
           (trunc_us (calculatePeriodEnd (sub_CurrentPeriodEnd (sr_sub row)) (sub_Interval (sr_sub row))
              (sub_IntervalCount (sr_sub row)))) (db_now s)) (subscriptions s)\<rparr>)"
    using billing.renew_row(1) [of "r\<lparr>lr_paySvc := pay_svc_CreatePayment adp\<rparr>" adp s row "scan_due row" config ctx "Inr (p, True)" s1]
      assms(1-4,9) by (simp add: row_tenant_def nextPeriodEnd_eq [OF i] input_def)
  moreover have "\<exists>q. payments s1 = payments s @ [q] \<and> pay_Status q = StatusFailed \<and> pay_SubscriptionID q = sub_ID (sr_sub row)"
    using assms(9)
  proof (cases rule: pay_svc_CreatePayment_cases)
    case (charged res s2 q)
    have "ci_ProviderName input = sub_ProviderName (sr_sub row)" by (simp add: input_def renewal_payment_def)
    then have res: "res = answer" "payments s2 = payments s"
      using charged(3) assms(6,7) by (auto elim!: adapter_CreateCharge_Inr)
    have status: "convertChargeStatus (ch_Status answer) = StatusFailed"
      unfolding assms(8) by code_simp
    have q: "q = Inr (p, True)" using charged(5) by (cases q) auto
    from charged(4) show ?thesis
    proof (cases rule: pay_repo_Create_cases)
      case (created new response)
      then show ?thesis
        using res status by (simp add: payment_row_def) (simp add: input_def renewal_payment_def)
    qed (use q in simp_all)
  qed simp_all
  ultimately show ?thesis by auto
qed

theorem declined_charge_renews_witness:
  "map (\<lambda>r. (sub_Status (sr_sub r), sub_CurrentPeriodEnd (sr_sub r))) (subscriptions (snd (renewSubscription
       (sample_runner\<lparr>lr_paySvc := pay_svc_CreatePayment declining_adapter\<rparr>) background (scan_due pay_sample_sub) due_sys)))
     = [(''active'', 2678400000000000 + 28 * 86400000000000)]"
proof -
  let ?pay = "pay_svc_CreatePayment declining_adapter (WithTenantID background 7) sample_renewal due_sys"
  let ?pv = "sample_provider\<lparr>pv_CreateCharge := (\<lambda>n req. Inr (sample_charge\<lparr>ch_Status := ''failed''\<rparr>))\<rparr>"
  have "map_sum id snd (fst ?pay) = Inr True" by code_simp
  then obtain p s1 where pay: "?pay = (Inr (p, True), s1)" by (cases ?pay; cases "fst ?pay") auto
  have t: "row_tenant pay_sample_sub = 7" "visible due_sys (row_tenant pay_sample_sub)"
    "sub_ProviderName (sr_sub pay_sample_sub) = ''mercadopago''" by code_simp+
  have adv: "map (\<lambda>r. (sub_Status (sr_sub r), sub_CurrentPeriodEnd (sr_sub r))) (update_where
      (\<lambda>q. sub_ID (sr_sub q) = sub_ID (sr_sub pay_sample_sub))
      (with_period (trunc_us (sub_CurrentPeriodEnd (sr_sub pay_sample_sub)))
         (trunc_us (calculatePeriodEnd (sub_CurrentPeriodEnd (sr_sub pay_sample_sub)) (sub_Interval (sr_sub pay_sample_sub))
            (sub_IntervalCount (sr_sub pay_sample_sub)))) (db_now due_sys)) (subscriptions due_sys))
      = [(''active'', 2678400000000000 + 28 * 86400000000000)]" by code_simp
  have "\<exists>s' q. renewSubscription (sample_runner\<lparr>lr_paySvc := pay_svc_CreatePayment declining_adapter\<rparr>) background
        (scan_due pay_sample_sub) due_sys = (None, s')
      \<and> payments s' = payments due_sys @ [q] \<and> pay_Status q = StatusFailed \<and> pay_SubscriptionID q = sub_ID (sr_sub pay_sample_sub)
      \<and> subscriptions s' = update_where (\<lambda>q. sub_ID (sr_sub q) = sub_ID (sr_sub pay_sample_sub))
        (with_period (trunc_us (sub_CurrentPeriodEnd (sr_sub pay_sample_sub)))
           (trunc_us (calculatePeriodEnd (sub_CurrentPeriodEnd (sr_sub pay_sample_sub)) (sub_Interval (sr_sub pay_sample_sub))
              (sub_IntervalCount (sr_sub pay_sample_sub)))) (db_now due_sys)) (subscriptions due_sys)"
    by (rule declined_charge_renews [OF due_sys_facts(1,3) t(2), where config = "[(''access_token'', ''x'')]" and pv = ?pv
          and answer = "sample_charge\<lparr>ch_Status := ''failed''\<rparr>" and p = p and ?s1.0 = s1])
      (use pay in \<open>simp_all add: sample_runner_def declining_adapter_def t(1,3) sample_renewal_def\<close>)
  then show ?thesis using adv by auto
qed

text \<open>On a connection whose tenant was never set, the jobs still read every due subscription, and a
  renewal still sends the charge; but neither the payment nor the new status or period can be
  written. So the subscription stays due, and the next run charges it again.\<close>

theorem renewal_without_session_charges:
  assumes "session s = Unset" "row_tenant row \<noteq> 0"
    and "lr_credSvc r (row_tenant row) (sub_ProviderName (sr_sub row)) s = Inr config"
    and "validate_payment (renewal_payment (lr_uuid_string r) (scan_due row) config) = None"
    and "map_of (ad_registry adp) (sub_ProviderName (sr_sub row)) = Some pv"
  shows "\<exists>e s'. renewSubscription (r\<lparr>lr_paySvc := pay_svc_CreatePayment adp\<rparr>) ctx (scan_due row) s = (Some e, s')
    \<and> charges s' = charges s @ [(sub_ProviderName (sr_sub row),
        payment_charge_request (renewal_payment (lr_uuid_string r) (scan_due row) config))]
    \<and> payments s' = payments s \<and> subscriptions s' = subscriptions s"
proof -
  let ?input = "renewal_payment (lr_uuid_string r) (scan_due row) config"
  have in_name: "ci_ProviderName ?input = sub_ProviderName (sr_sub row)" by (simp add: renewal_payment_def)
  obtain q s1 where c: "pay_svc_CreatePayment adp (WithTenantID ctx (row_tenant row)) ?input s = (q, s1)" by fastforce
  have name: "sub_ProviderName (sr_sub row) \<in> fst ` set (ad_registry adp)"
    using assms(5) by (force dest: map_of_SomeD)
  from c have pay: "(\<exists>e. q = Inl e) \<and> session s1 = Unset \<and> payments s1 = payments s \<and> subscriptions s1 = subscriptions s
      \<and> charges s1 = charges s @ [(sub_ProviderName (sr_sub row), payment_charge_request ?input)]"
  proof (cases rule: pay_svc_CreatePayment_cases)
    case (provider e)
    then show ?thesis
      using adapter_CreateCharge_frame [of adp "ci_ProviderName ?input" "payment_charge_request ?input" s] name assms(1)
        adapter_CreateCharge_charges [of adp "ci_ProviderName ?input" "payment_charge_request ?input" s]
      by (simp add: in_name)
  next
    case (charged res s2 q')
    have s2: "session s2 = Unset" "payments s2 = payments s" "subscriptions s2 = subscriptions s"
      "charges s2 = charges s @ [(sub_ProviderName (sr_sub row), payment_charge_request ?input)]"
      using charged(3) assms(1) by (auto simp: in_name elim!: adapter_CreateCharge_Inr)
    have "\<not> visible s2 t" for t using s2(1) by (simp add: visible_def)
    then show ?thesis using charged(4,5) by (auto simp: s2 elim!: pay_repo_Create_cases)
  qed (use assms in auto)
  then obtain e where e: "q = Inl e" by blast
  have "sub_repo_UpdateStatus i st s1 = (Inl (Wrap ''update subscription status'' unset_parameter), s1)" for i st
    using pay by (simp add: sub_repo_UpdateStatus_def exec_sub_def update_rows_def session_check_def)
  then have "renewSubscription (r\<lparr>lr_paySvc := pay_svc_CreatePayment adp\<rparr>) ctx (scan_due row) s
      = (Some (Wrap ''updating status to past_due after charge failure'' (Wrap ''update subscription status'' unset_parameter)), s1)"
    using assms(3) c e by (simp add: renewSubscription_def row_tenant_def)
  with pay show ?thesis by blast
qed

definition no_session_sys :: sys where
  "no_session_sys = due_sys\<lparr>session := Unset\<rparr>"

theorem renewal_without_session_charges_witness:
  "length (charges (snd (renewSubscription sample_runner background (scan_due pay_sample_sub) no_session_sys))) = 1"
proof -
  have h: "session no_session_sys = Unset" "row_tenant pay_sample_sub \<noteq> 0" "length (charges no_session_sys) = 0"
    "validate_payment (renewal_payment (\<lambda>u. ''u'') (scan_due pay_sample_sub) [(''access_token'', ''x'')]) = None" by code_simp+
  have "map_of (ad_registry sample_adapter) (sub_ProviderName (sr_sub pay_sample_sub)) = Some sample_provider"
    by (simp add: sample_adapter_def pay_sample_sub_def)
  from renewal_without_session_charges [OF h(1,2), of sample_runner "[(''access_token'', ''x'')]" sample_adapter, OF _ _ this, of background]
  show ?thesis using h(3,4) by (auto simp: sample_runner_def)
qed

text \<open>C21. An active subscription that was cancelled for the end of its period is touched by no job of the lifecycle
  runner in its whole life, however far the clock moves between the ticks, on any schema and any connection,
  as long as the requests of the rest of the system leave it alone: it is never renewed, and it never becomes
  canceled either.\<close>

theorem period_end_cancellation_never_ends:
  assumes "subs_ok s" "row \<in> set (subscriptions s)"
    and "sub_Status (sr_sub row) = StatusActive" "sub_CancelAtPeriodEnd (sr_sub row)"
    and "\<forall>env t. Ticked env \<in> set es \<and> subs_ok t \<and> row \<in> set (subscriptions t) \<longrightarrow> subs_ok (env t) \<and> row \<in> set (subscriptions (env t))"
  shows "row \<in> set (subscriptions (lifecycle_Run (r\<lparr>lr_paySvc := pay_svc_CreatePayment adp\<rparr>) ctx es s))"
proof -
  let ?r = "r\<lparr>lr_paySvc := pay_svc_CreatePayment adp\<rparr>"
  have p: "lr_paySvc ?r = pay_svc_CreatePayment adp" by simp
  have "StatusActive \<noteq> StatusTrialing" "StatusActive \<noteq> StatusPastDue" by code_simp+
  then have "\<not> due_for_renewal now row" "\<not> expired_trial now row" "\<not> past_due_pending_expiry now row" for now
    by (simp_all add: due_for_renewal_def expired_trial_def past_due_pending_expiry_def assms(3,4))
  then have jobs: "subs_ok (runAllJobs ?r ctx t) \<and> row \<in> set (subscriptions (runAllJobs ?r ctx t))"
    if "subs_ok t" "row \<in> set (subscriptions t)" for t
    using billing.jobs_skip_row [OF p that, of ctx] sub_steps_ok [OF billing.all_jobs_steps [OF p] that(1)] by blast
  show ?thesis using assms(1,2,5)
  proof (induction es arbitrary: s)
    case (Cons e es)
    show ?case
    proof (cases e)
      case (Ticked env)
      have "subs_ok (env s) \<and> row \<in> set (subscriptions (env s))" using Cons.prems Ticked by simp
      then show ?thesis using jobs [of "env s"] Cons.IH [of "runAllJobs ?r ctx (env s)"] Cons.prems(3) by (simp add: Ticked)
    qed (use Cons.prems(2) in simp)
  qed simp
qed

theorem period_end_cancellation_never_ends_witness:
  "pay_sample_sub\<lparr>sr_sub := (sr_sub pay_sample_sub)\<lparr>sub_CancelAtPeriodEnd := True\<rparr>\<rparr>
     \<in> set (subscriptions (lifecycle_Run (sample_runner\<lparr>lr_paySvc := pay_svc_CreatePayment sample_adapter\<rparr>) background
          [Ticked (\<lambda>s. s), Ticked (\<lambda>s. s\<lparr>clock := 100 * clock s\<rparr>), Ctx_Done] (with_row (\<lambda>p. p\<lparr>sub_CancelAtPeriodEnd := True\<rparr>))))"
proof -
  let ?row = "pay_sample_sub\<lparr>sr_sub := (sr_sub pay_sample_sub)\<lparr>sub_CancelAtPeriodEnd := True\<rparr>\<rparr>"
  let ?s = "with_row (\<lambda>p. p\<lparr>sub_CancelAtPeriodEnd := True\<rparr>)"
  have "subs_ok ?s" "?row \<in> set (subscriptions ?s)" "sub_Status (sr_sub ?row) = StatusActive"
    "sub_CancelAtPeriodEnd (sr_sub ?row)" by code_simp+
  then show ?thesis by (rule period_end_cancellation_never_ends) (auto simp: subs_ok_def cong: option.case_cong)
qed

text \<open>C11. The runner keeps the constraints of the table over its whole life, however its ticks interleave
  with the requests of the rest of the system, and removes no subscription and changes no identity.\<close>

theorem lifecycle_keeps_invariant:
  assumes "subs_ok s" "\<forall>env t. Ticked env \<in> set es \<longrightarrow> sub_step\<^sup>*\<^sup>* t (env t)"
  shows "subs_ok (lifecycle_Run (r\<lparr>lr_paySvc := pay_svc_CreatePayment adp\<rparr>) ctx es s)
    \<and> prefix (map sub_fixed (subscriptions s))
        (map sub_fixed (subscriptions (lifecycle_Run (r\<lparr>lr_paySvc := pay_svc_CreatePayment adp\<rparr>) ctx es s)))"
proof -
  have "sub_step\<^sup>*\<^sup>* s (lifecycle_Run (r\<lparr>lr_paySvc := pay_svc_CreatePayment adp\<rparr>) ctx es s)"
    by (rule billing.run_steps [of _ adp]) (use assms(2) in simp_all)
  then show ?thesis
    using sub_steps_ok [OF _ assms(1)] sub_changes_fixed [OF sub_steps_changes] by blast
qed

theorem lifecycle_keeps_invariant_witness:
  "subs_ok (lifecycle_Run (sample_runner\<lparr>lr_paySvc := pay_svc_CreatePayment sample_adapter\<rparr>) background
     [Ticked (\<lambda>s. s), Ctx_Done] due_sys)"
proof -
  have "\<forall>env t. Ticked env \<in> set [Ticked (\<lambda>s. s), Ctx_Done] \<longrightarrow> sub_step\<^sup>*\<^sup>* t (env t)" by simp
  from lifecycle_keeps_invariant [OF due_sys_facts(1) this] show ?thesis by blast
qed

end
