(* ===== verification/Calendar.thy ===== *)
theory Calendar
  imports Go_Time "HOL-Library.Product_Lexorder"
begin

text \<open>
  The order of calendar dates and the date text of a time. Dates are ordered by year, month and
  day; a later day has a later date, and two times have the same date text exactly when they are on
  the same day. This is what the renewal keys of the lifecycle runner rest on.
\<close>

section \<open>Dates are linearly ordered\<close>

definition civil_key :: "civil \<Rightarrow> int \<times> int \<times> int" where
  "civil_key c = (cyear c, cmonth c, cday c)"

lemma civil_key_inject: "civil_key a = civil_key b \<longleftrightarrow> a = b"
  by (cases a; cases b) (simp add: civil_key_def)

instantiation civil :: linorder
begin

definition less_eq_civil :: "civil \<Rightarrow> civil \<Rightarrow> bool" where
  "less_eq_civil a b \<longleftrightarrow> civil_key a \<le> civil_key b"

definition less_civil :: "civil \<Rightarrow> civil \<Rightarrow> bool" where
  "less_civil a b \<longleftrightarrow> civil_key a < civil_key b"

instance
  by standard (auto simp: less_eq_civil_def less_civil_def simp flip: civil_key_inject)

end

lemma civil_less_iff: "Civil y m d < Civil y' m' d' \<longleftrightarrow> y < y' \<or> (y = y' \<and> (m < m' \<or> (m = m' \<and> d < d')))"
  by (auto simp: less_civil_def civil_key_def)

lemma cyear_mono: "a \<le> b \<Longrightarrow> cyear a \<le> cyear b"
  by (auto simp: less_eq_civil_def civil_key_def)

section \<open>Days and dates\<close>

text \<open>A month ends where the next one starts.\<close>

lemma month_end:
  assumes "1 \<le> m" "m \<le> 12"
  shows "month_start (12 * y + (m - 1)) + days_in_month y m = month_start (12 * y + m)"
proof (cases "m = 12")
  case True
  have "(12 * y + 11) div 12 = y" "(12 * y + 11) mod 12 = 11" "(12 * y + 12) div 12 = y + 1" "(12 * y + 12) mod 12 = 0"
    by presburger+
  then show ?thesis
    by (simp add: True month_start_def days_in_month_def days_before_month_values year_length)
next
  case False
  then have "(12 * y + (m - 1)) div 12 = y" "(12 * y + (m - 1)) mod 12 = m - 1"
    "(12 * y + m) div 12 = y" "(12 * y + m) mod 12 = m"
    using assms by presburger+
  then show ?thesis by (simp add: month_start_def days_in_month_def)
qed

lemma month_start_mono: "j \<le> k \<Longrightarrow> month_start j \<le> month_start k"
  using month_start_add(1) [of j "nat (k - j)"] by simp

lemma date_to_days_less:
  assumes "Civil y m d < Civil y' m' d'" "1 \<le> m" "m \<le> 12" "d \<le> days_in_month y m" "1 \<le> m'" "m' \<le> 12" "1 \<le> d'"
  shows "date_to_days y m d < date_to_days y' m' d'"
proof (cases "y = y' \<and> m = m'")
  case True
  with assms(1) show ?thesis by (simp add: date_to_days_month_start civil_less_iff)
next
  case False
  then have "12 * y + m \<le> 12 * y' + (m' - 1)" using assms by (auto simp: civil_less_iff)
  then have "month_start (12 * y + m) \<le> month_start (12 * y' + (m' - 1))" by (rule month_start_mono)
  then show ?thesis
    using month_end [OF assms(2,3), of y] assms(4,7) by (simp add: date_to_days_month_start)
qed

lemma civil_of_days_less_iff: "civil_of_days a < civil_of_days b \<longleftrightarrow> a < b"
proof -
  have less: "a < b" if "civil_of_days a < civil_of_days b" for a b
    using that civil_of_days_valid [of a] civil_of_days_valid [of b] date_to_days_less
    by (cases "civil_of_days a"; cases "civil_of_days b") (metis (no_types))
  have "a = b" if "civil_of_days a = civil_of_days b"
    using that civil_of_days_valid(5) by (cases "civil_of_days a") metis
  then show ?thesis using less [of a b] less [of b a] by (metis less_linear not_less_iff_gr_or_eq)
qed

lemma civil_of_mono: "s \<le> t \<Longrightarrow> civil_of s \<le> civil_of t"
  using civil_of_days_less_iff [of "t div ns_per_day" "s div ns_per_day"]
  by (auto simp: civil_of_def not_less [symmetric] ns_per_day_def dest: zdiv_mono1 [of s t ns_per_day])

lemma civil_of_eq_iff: "civil_of s = civil_of t \<longleftrightarrow> s div ns_per_day = t div ns_per_day"
  using civil_of_days_less_iff by (metis civil_of_def less_irrefl linorder_neqE)

section \<open>Date texts\<close>

lemma append_int_digits:
  assumes "0 \<le> x"
  shows "digits_value (append_int x w) = x" "CHR ''-'' \<notin> set (append_int x w)"
proof -
  have a: "append_int x w = replicate (w - length (dec x)) (CHR ''0'') @ dec x"
    using assms by (simp add: append_int_def Let_def)
  show "digits_value (append_int x w) = x"
    unfolding a by (simp add: digits_value_zeros digits_value_dec assms)
  have "\<forall>c \<in> set (append_int x w). is_digit09 c"
    using dec_digits [OF assms] by (auto simp: a is_digit09_def less_eq_char_def)
  then show "CHR ''-'' \<notin> set (append_int x w)" using digits_not_special(2) by blast
qed

lemma format_date_parts:
  assumes "0 \<le> cyear (civil_of t)"
  shows "map digits_value (go_split (CHR ''-'') (format_date t)) = [cyear (civil_of t), cmonth (civil_of t), cday (civil_of t)]"
proof -
  obtain y m d where c: "civil_of t = Civil y m d" by (cases "civil_of t")
  then have pos: "0 \<le> y" "0 \<le> m" "0 \<le> d"
    using assms civil_of_days_valid [of "t div ns_per_day" y m d] by (simp_all add: civil_of_def)
  note dig = append_int_digits [OF pos(1), of 4] append_int_digits [OF pos(2), of 2] append_int_digits [OF pos(3), of 2]
  show ?thesis by (simp add: format_date_def c dig go_split_append go_split_no_sep)
qed

lemma format_date_eq_iff:
  assumes "0 \<le> cyear (civil_of s)" "0 \<le> cyear (civil_of t)"
  shows "format_date s = format_date t \<longleftrightarrow> s div ns_per_day = t div ns_per_day"
proof
  assume "format_date s = format_date t"
  then have "civil_of s = civil_of t"
    using format_date_parts [OF assms(1)] format_date_parts [OF assms(2)] by (cases "civil_of s"; cases "civil_of t") auto
  then show "s div ns_per_day = t div ns_per_day" by (simp add: civil_of_eq_iff)
next
  assume "s div ns_per_day = t div ns_per_day"
  then show "format_date s = format_date t" by (simp add: format_date_def flip: civil_of_eq_iff)
qed

end
