(* ===== verification/Renewal_Keys.thy ===== *)
theory Renewal_Keys
  imports Lifecycle Calendar
begin

text \<open>
  The idempotency keys of renewals. A key carries the subscription's key and the date on which the
  period ends, so a job that runs again for the same period finds the payment of the first run, and
  the renewal of the next period is a new payment.
\<close>

lemma period_at_least_a_day:
  assumes "interval \<in> set all_intervals" "int4_ok count" "1 \<le> sint count"
  shows "start + ns_per_day \<le> calculatePeriodEnd start interval count"
proof -
  have "1 \<le> k \<Longrightarrow> ns_per_day \<le> k * ns_per_day" for k by (simp add: ns_per_day_def)
  then have k: "ns_per_day \<le> sint count * ns_per_day" "ns_per_day \<le> 7 * sint count * ns_per_day"
    "ns_per_day \<le> 28 * sint count * ns_per_day" "ns_per_day \<le> 365 * sint count * ns_per_day"
    using assms(3) by simp_all
  have n: "0 \<le> sint count" using assms(3) by simp
  show ?thesis
    using assms(1) k add_months(1) [OF n, of start] add_years(1) [OF n, of start]
    by (auto simp: all_intervals_def IntervalDay_def IntervalWeek_def IntervalMonth_def IntervalYear_def
        calculatePeriodEnd_simps sint_times7 [OF assms(2)])
qed

text \<open>Two renewals of a subscription have the same idempotency key exactly when their periods end on
  the same day (in years after year 0).\<close>

theorem renewal_key_names_period:
  assumes "sub_SubscriptionKey a = sub_SubscriptionKey b"
    and "0 \<le> cyear (civil_of (sub_CurrentPeriodEnd a))" "0 \<le> cyear (civil_of (sub_CurrentPeriodEnd b))"
  shows "renewal_key uuid_string a = renewal_key uuid_string b
    \<longleftrightarrow> sub_CurrentPeriodEnd a div ns_per_day = sub_CurrentPeriodEnd b div ns_per_day"
  by (simp add: renewal_key_def assms(1) format_date_eq_iff [OF assms(2,3)])

theorem renewal_key_names_period_witness:
  "renewal_key (\<lambda>_. ''u'') sample_sub = renewal_key (\<lambda>_. ''u'') (sample_sub\<lparr>sub_CurrentPeriodEnd := 2678400000000001\<rparr>)"
proof -
  let ?b = "sample_sub\<lparr>sub_CurrentPeriodEnd := 2678400000000001\<rparr>"
  have "sub_SubscriptionKey sample_sub = sub_SubscriptionKey ?b" "0 \<le> cyear (civil_of (sub_CurrentPeriodEnd sample_sub))"
    "0 \<le> cyear (civil_of (sub_CurrentPeriodEnd ?b))"
    "sub_CurrentPeriodEnd sample_sub div ns_per_day = sub_CurrentPeriodEnd ?b div ns_per_day" by code_simp+
  then show ?thesis using renewal_key_names_period [of sample_sub ?b "\<lambda>_. ''u''"] by blast
qed

text \<open>C12. The renewal of the period that follows never reuses the key of this one: with an interval of the
  schema and a positive count, the ends of successive periods lie on different days.\<close>

theorem successive_renewal_keys_differ:
  assumes "sub_Interval sub \<in> set all_intervals" "int4_ok (sub_IntervalCount sub)" "1 \<le> sint (sub_IntervalCount sub)"
    and "0 \<le> cyear (civil_of (sub_CurrentPeriodEnd sub))"
  shows "renewal_key uuid_string (sub\<lparr>sub_CurrentPeriodEnd := nextPeriodEnd (sub_CurrentPeriodEnd sub)
      (sub_Interval sub) (sub_IntervalCount sub)\<rparr>) \<noteq> renewal_key uuid_string sub"
proof -
  let ?e = "sub_CurrentPeriodEnd sub"
  let ?next = "nextPeriodEnd ?e (sub_Interval sub) (sub_IntervalCount sub)"
  have day: "?e + ns_per_day \<le> ?next"
    unfolding nextPeriodEnd_eq [OF assms(1)] by (rule period_at_least_a_day [OF assms(1-3)])
  then have "civil_of ?e \<le> civil_of ?next" by (intro civil_of_mono) (simp add: ns_per_day_def)
  then have y: "0 \<le> cyear (civil_of ?next)" using cyear_mono assms(4) order_trans by blast
  have "(?e + ns_per_day) div ns_per_day \<le> ?next div ns_per_day"
    by (rule zdiv_mono1 [OF day]) (simp add: ns_per_day_def)
  then have "?e div ns_per_day < ?next div ns_per_day" by (simp add: ns_per_day_def)
  then show ?thesis
    by (simp add: renewal_key_def format_date_eq_iff [OF y assms(4)])
qed

theorem successive_renewal_keys_differ_witness:
  "renewal_key (\<lambda>_. ''u'') (sample_sub\<lparr>sub_CurrentPeriodEnd := nextPeriodEnd (sub_CurrentPeriodEnd sample_sub)
      (sub_Interval sample_sub) (sub_IntervalCount sample_sub)\<rparr>) \<noteq> renewal_key (\<lambda>_. ''u'') sample_sub"
proof -
  have "sub_Interval sample_sub \<in> set all_intervals" "int4_ok (sub_IntervalCount sample_sub)"
    "1 \<le> sint (sub_IntervalCount sample_sub)" "0 \<le> cyear (civil_of (sub_CurrentPeriodEnd sample_sub))" by code_simp+
  then show ?thesis by (rule successive_renewal_keys_differ)
qed

end
