(* ===== verification/Tenant.thy ===== *)
theory Tenant
  imports Database Base64 "HOL-Library.List_Lexorder"
begin

text \<open>
  Package \<open>internal/tenant\<close>: tenants and their API keys. Neither table has row-level security.
  Argon2id (\<open>golang.org/x/crypto/argon2\<close>) is a parameter \<open>idkey\<close> of the operations: password, salt,
  time, memory, threads and key length to the derived bytes. Texts are ordered bytewise.
  \<open>context.Canceled\<close> and failures to acquire a connection do not occur in the model.
\<close>

section \<open>Key generation (\<open>keygen.go\<close>)\<close>

type_synonym idkey = "string \<Rightarrow> string \<Rightarrow> nat \<Rightarrow> nat \<Rightarrow> nat \<Rightarrow> nat \<Rightarrow> string"

definition testKeyPrefix :: string where "testKeyPrefix = ''payd_test_''"
definition liveKeyPrefix :: string where "liveKeyPrefix = ''payd_live_''"

definition tenant_key_hash :: "idkey \<Rightarrow> string \<Rightarrow> string \<Rightarrow> string" where
  "tenant_key_hash idkey plaintext key_prefix =
     encode_to_string std_alphabet (idkey plaintext key_prefix 1 (64 * 1024) 4 32)"

definition GenerateAPIKey :: "idkey \<Rightarrow> string \<Rightarrow> sys \<Rightarrow> (string \<times> string \<times> string) \<times> sys" where
  "GenerateAPIKey idkey env s =
     (let keyPrefix = (if env = ''production'' then liveKeyPrefix else testKeyPrefix);
          (randomBytes, s1) = rand_read 32 s;
          plaintext = keyPrefix @ encode_to_string url_alphabet randomBytes;
          key_prefix = take 12 plaintext
      in ((plaintext, key_prefix, tenant_key_hash idkey plaintext key_prefix), s1))"

definition ValidateKeyFormat :: "string \<Rightarrow> bool" where
  "ValidateKeyFormat key =
     (if length key < 20 then False
      else (length testKeyPrefix < length key \<and> take (length testKeyPrefix) key = testKeyPrefix)
        \<or> (length liveKeyPrefix < length key \<and> take (length liveKeyPrefix) key = liveKeyPrefix))"

section \<open>Structs (\<open>model.go\<close>)\<close>

record plaintext_key =
  pk_Key :: string
  pk_APIKey :: api_key

record signup_input =
  si_Name :: string
  si_Slug :: string
  si_Email :: string
  si_Password :: string

record create_key_input =
  ck_Description :: string
  ck_ExpiresAt :: "gtime option"

record signup_response =
  sg_Tenant :: tenant
  sg_APIKey :: plaintext_key
  sg_Warning :: string

section \<open>Repository (\<open>repository.go\<close>)\<close>

text \<open>\<open>contains\<close> of the package, a loop over the offsets.\<close>

definition tenant_contains :: "string \<Rightarrow> string \<Rightarrow> bool" where
  "tenant_contains s substr = list_ex (\<lambda>i. take (length substr) (drop i s) = substr) [0..<length s + 1 - length substr]"

definition containsStr :: "string \<Rightarrow> string list \<Rightarrow> bool" where
  "containsStr s substrs = list_all (tenant_contains s) substrs"

text \<open>Reading a row into the struct fails on a NULL email (tenants older than migration 006).\<close>

definition null_email :: gerror where
  "null_email = Plain ''can't scan into dest[3] (col: email): cannot scan NULL (OID 25) into *string''"

definition scan_tenant :: "tenant \<Rightarrow> gerror + tenant" where
  "scan_tenant t = (case tn_Email t of None \<Rightarrow> Inl null_email | Some e \<Rightarrow> Inr t)"

definition valid_providers :: "string list" where
  "valid_providers = [''mercadopago'', ''stripe'', ''helipagos'']"

text \<open>The inserted row: id, default provider and times are the defaults of the columns.\<close>

definition new_tenant :: "tenant \<Rightarrow> sys \<Rightarrow> tenant" where
  "new_tenant t s = \<lparr>tn_ID = next_uuid s, tn_Name = tn_Name t, tn_Slug = tn_Slug t, tn_Email = tn_Email t,
     tn_IsActive = True, tn_DefaultProviderName = ''mercadopago'', tn_CreatedAt = db_now s, tn_UpdatedAt = db_now s\<rparr>"

definition tenant_insert :: "tenant \<Rightarrow> sys \<Rightarrow> (gerror + tenant) \<times> sys" where
  "tenant_insert t s =
     (let row = new_tenant t s;
          s1 = draw s
      in case first_error
           [check (tn_ID row \<notin> tn_ID ` set (tenants s)) (unique_violation ''tenants_pkey''),
            check (tn_Slug row \<notin> tn_Slug ` set (tenants s)) (unique_violation ''tenants_slug_key''),
            check (tn_Email row = None \<or> tn_Email row \<notin> tn_Email ` set (tenants s))
              (unique_violation ''idx_tenants_email'')] of
           Some err \<Rightarrow> (Inl err, s1)
         | None \<Rightarrow> (Inr row, s1\<lparr>tenants := tenants s @ [row]\<rparr>))"

definition duplicate_slug :: gerror where
  "duplicate_slug = Domain ''duplicate_slug'' ''a tenant with this slug already exists'' 409 ErrConflict"

definition duplicate_email :: gerror where
  "duplicate_email = Domain ''duplicate_email'' ''this email is already registered'' 409 ErrConflict"

definition tenant_repo_Create :: "tenant \<Rightarrow> sys \<Rightarrow> (gerror + tenant) \<times> sys" where
  "tenant_repo_Create t s =
     (case tenant_insert t s of
        (Inr created, s1) \<Rightarrow> (case scan_tenant created of Inl err \<Rightarrow> (Inl (Wrap ''creating tenant'' err), s1)
                                                   | Inr x \<Rightarrow> (Inr x, s1))
      | (Inl err, s1) \<Rightarrow>
          (if err = No_Rows then (Inl (Sentinel ErrNotFound), s1)
           else let errMsg = error_text err in
             if containsStr errMsg [''unique constraint'', ''slug''] \<or> containsStr errMsg [''duplicate key'', ''slug'']
             then (Inl duplicate_slug, s1)
             else if containsStr errMsg [''unique constraint'', ''email''] \<or> containsStr errMsg [''duplicate key'', ''email'']
             then (Inl duplicate_email, s1)
             else (Inl (Wrap ''creating tenant'' err), s1)))"

text \<open>\<open>SELECT .. FROM tenants WHERE P\<close> of one row.\<close>

definition tenant_query :: "string \<Rightarrow> (tenant \<Rightarrow> bool) \<Rightarrow> sys \<Rightarrow> gerror + tenant" where
  "tenant_query msg P s =
     (case find P (tenants s) of
        None \<Rightarrow> Inl (Sentinel ErrNotFound)
      | Some row \<Rightarrow> (case scan_tenant row of Inl err \<Rightarrow> Inl (Wrap msg err) | Inr t \<Rightarrow> Inr t))"

definition tenant_repo_GetBySlug :: "string \<Rightarrow> sys \<Rightarrow> gerror + tenant" where
  "tenant_repo_GetBySlug slug s = tenant_query ''getting tenant by slug'' (\<lambda>t. tn_Slug t = slug) s"

definition tenant_repo_GetByID :: "uuid \<Rightarrow> sys \<Rightarrow> gerror + tenant" where
  "tenant_repo_GetByID tid s = tenant_query ''getting tenant by id'' (\<lambda>t. tn_ID t = tid) s"

definition tenant_repo_GetByEmail :: "string \<Rightarrow> sys \<Rightarrow> gerror + tenant" where
  "tenant_repo_GetByEmail email s = tenant_query ''getting tenant by email'' (\<lambda>t. tn_Email t = Some email) s"

text \<open>The join with \<open>backoffice_users\<close>, which is under row-level security, without duplicates.\<close>

fun scan_tenants :: "tenant list \<Rightarrow> gerror + tenant list" where
  "scan_tenants [] = Inr []"
| "scan_tenants (t # ts) =
     (case scan_tenant t of
        Inl err \<Rightarrow> Inl (Wrap ''scanning tenant'' err)
      | Inr x \<Rightarrow> (case scan_tenants ts of Inl err \<Rightarrow> Inl err | Inr xs \<Rightarrow> Inr (x # xs)))"

definition tenant_repo_GetByEmailAcrossAllTenants :: "string \<Rightarrow> sys \<Rightarrow> gerror + tenant list" where
  "tenant_repo_GetByEmailAcrossAllTenants email s =
     (case session_check s of
        Some err \<Rightarrow> Inl (Wrap ''querying tenants by email'' err)
      | None \<Rightarrow>
         (let hit = (\<lambda>t. tn_IsActive t \<and> list_ex (\<lambda>u. visible s (us_TenantID (ur_user u)) \<and> us_TenantID (ur_user u) = tn_ID t
                            \<and> us_Email (ur_user u) = email \<and> us_IsActive (ur_user u)) (users s))
          in case scan_tenants (sort_key tn_Name (filter hit (tenants s))) of
               Inl err \<Rightarrow> Inl err
             | Inr ts \<Rightarrow> (if ts = [] then Inl (Sentinel ErrNotFound) else Inr ts)))"

text \<open>The row is written before its columns are read back.\<close>

definition tenant_repo_UpdateDefaultProvider :: "uuid \<Rightarrow> string \<Rightarrow> sys \<Rightarrow> (gerror + tenant) \<times> sys" where
  "tenant_repo_UpdateDefaultProvider tenantID providerName s =
     (let hit = (\<lambda>t. tn_ID t = tenantID);
          f = (\<lambda>t. t\<lparr>tn_DefaultProviderName := providerName, tn_UpdatedAt := db_now s\<rparr>)
      in case find hit (tenants s) of
           None \<Rightarrow> (Inl (Sentinel ErrNotFound), s)
         | Some row \<Rightarrow>
             (if providerName \<notin> set valid_providers
              then (Inl (Wrap ''updating default provider'' (check_violation ''tenants'' ''valid_default_provider'')), s)
              else let s1 = s\<lparr>tenants := update_where hit f (tenants s)\<rparr>
                   in case scan_tenant (f row) of
                        Inl err \<Rightarrow> (Inl (Wrap ''updating default provider'' err), s1)
                      | Inr t \<Rightarrow> (Inr t, s1)))"

definition new_key :: "uuid \<Rightarrow> string \<Rightarrow> create_key_input \<Rightarrow> sys \<Rightarrow> api_key" where
  "new_key tenantID keyPrefix input s =
     \<lparr>ak_ID = next_uuid s, ak_TenantID = tenantID, ak_KeyPrefix = keyPrefix,
      ak_Scopes = [''read'', ''write''], ak_Description = ck_Description input, ak_LastUsedAt = None,
      ak_ExpiresAt = map_option trunc_us (ck_ExpiresAt input), ak_IsActive = True, ak_CreatedAt = db_now s\<rparr>"

definition key_place :: "api_key_row \<Rightarrow> uuid \<times> string" where
  "key_place r = (ak_TenantID (kr_key r), ak_KeyPrefix (kr_key r))"

definition tenant_repo_CreateAPIKey ::
  "uuid \<Rightarrow> string \<Rightarrow> string \<Rightarrow> create_key_input \<Rightarrow> sys \<Rightarrow> (gerror + api_key) \<times> sys" where
  "tenant_repo_CreateAPIKey tenantID keyPrefix keyHash input s =
     (let key = new_key tenantID keyPrefix input s;
          s1 = draw s
      in case first_error
           [check (ak_ID key \<notin> (ak_ID \<circ> kr_key) ` set (api_keys s)) (unique_violation ''tenant_api_keys_pkey''),
            check (key_place \<lparr>kr_key = key, kr_key_hash = keyHash\<rparr> \<notin> key_place ` set (api_keys s))
              (unique_violation ''tenant_api_keys_tenant_id_key_prefix_key''),
            check (tenantID \<in> tn_ID ` set (tenants s))
              (fk_violation ''tenant_api_keys'' ''tenant_api_keys_tenant_id_fkey'')] of
           Some err \<Rightarrow> (Inl (Wrap ''creating api key'' err), s1)
         | None \<Rightarrow> (Inr key, s1\<lparr>api_keys := api_keys s @ [\<lparr>kr_key = key, kr_key_hash = keyHash\<rparr>]\<rparr>))"

definition tenant_repo_ListAPIKeys :: "uuid \<Rightarrow> sys \<Rightarrow> gerror + api_key list" where
  "tenant_repo_ListAPIKeys tenantID s =
     Inr (sort_key (\<lambda>k. - ak_CreatedAt k)
       (filter (\<lambda>k. ak_TenantID k = tenantID \<and> ak_IsActive k) (map kr_key (api_keys s))))"

definition key_not_found :: gerror where
  "key_not_found = Domain ''key_not_found'' ''API key not found'' 404 ErrNotFound"

definition tenant_repo_GetAPIKeyByID :: "uuid \<Rightarrow> uuid \<Rightarrow> sys \<Rightarrow> gerror + api_key" where
  "tenant_repo_GetAPIKeyByID tenantID keyID s =
     (case find (\<lambda>k. ak_ID k = keyID \<and> ak_TenantID k = tenantID) (map kr_key (api_keys s)) of
        None \<Rightarrow> Inl key_not_found
      | Some k \<Rightarrow> Inr k)"

definition revoke_row :: "api_key_row \<Rightarrow> api_key_row" where
  "revoke_row r = r\<lparr>kr_key := (kr_key r)\<lparr>ak_IsActive := False\<rparr>\<rparr>"

definition tenant_repo_RevokeAPIKey :: "uuid \<Rightarrow> uuid \<Rightarrow> sys \<Rightarrow> gerror option \<times> sys" where
  "tenant_repo_RevokeAPIKey tenantID keyID s =
     (let hit = (\<lambda>r. ak_ID (kr_key r) = keyID \<and> ak_TenantID (kr_key r) = tenantID)
      in if filter hit (api_keys s) = [] then (Some key_not_found, s)
         else (None, s\<lparr>api_keys := update_where hit revoke_row (api_keys s)\<rparr>))"

section \<open>Service (\<open>service.go\<close>)\<close>

definition validateProviderName :: "string \<Rightarrow> gerror option" where
  "validateProviderName providerName =
     (if providerName \<notin> set valid_providers
      then validation_err (collect [Some (field_err ''provider_name'' ''must be one of: mercadopago, stripe, helipagos'')])
      else None)"

definition is_slug_char :: "char \<Rightarrow> bool" where
  "is_slug_char c \<longleftrightarrow> is_lower_az c \<or> is_digit09 c \<or> c = CHR ''-''"

text \<open>\<open>strings.Trim(s, "-")\<close>.\<close>

definition trim_hyphens :: "string \<Rightarrow> string" where
  "trim_hyphens s = rev (dropWhile (\<lambda>c. c = CHR ''-'') (rev (dropWhile (\<lambda>c. c = CHR ''-'') s)))"

definition generateSlugFromName :: "string \<Rightarrow> string" where
  "generateSlugFromName name =
     (let slug = to_lower name;
          slug = map (\<lambda>c. if c = CHR '' '' then CHR ''-'' else c) slug;
          slug = filter is_slug_char slug;
          slug = trim_hyphens slug
      in if 100 < length slug then take 100 slug else slug)"

definition validateSlug :: "string \<Rightarrow> field_error option" where
  "validateSlug slug =
     (if length slug < 2 then Some (field_err ''slug'' ''must be at least 2 characters'')
      else if 100 < length slug then Some (field_err ''slug'' ''must be at most 100 characters'')
      else if slug = [] \<or> \<not> list_all is_slug_char slug
      then Some (field_err ''slug'' ''must contain only lowercase letters, numbers, and hyphens'')
      else None)"

definition tenant_svc_CreateKey ::
  "idkey \<Rightarrow> string \<Rightarrow> uuid \<Rightarrow> create_key_input \<Rightarrow> sys \<Rightarrow> (gerror + plaintext_key) \<times> sys" where
  "tenant_svc_CreateKey idkey env tenantID input s =
     (case (case ck_ExpiresAt input of Some e \<Rightarrow> e < clock s | None \<Rightarrow> False) of
        True \<Rightarrow> (Inl (Validation [field_err ''expires_at'' ''must be in the future'']), s)
      | False \<Rightarrow>
         (case GenerateAPIKey idkey env s of
            ((plaintext, key_prefix, hash), s1) \<Rightarrow>
              (case tenant_repo_CreateAPIKey tenantID key_prefix hash input s1 of
                 (Inl err, s2) \<Rightarrow> (Inl err, s2)
               | (Inr apiKey, s2) \<Rightarrow> (Inr \<lparr>pk_Key = plaintext, pk_APIKey = apiKey\<rparr>, s2))))"

definition validate_signup :: "signup_input \<Rightarrow> gerror option" where
  "validate_signup input =
     validation_err (collect
       [NonEmpty ''name'' (si_Name input), MaxLength ''name'' (si_Name input) 255,
        NonEmpty ''email'' (si_Email input),
        if si_Slug input \<noteq> [] then validateSlug (si_Slug input) else None])"

definition tenant_svc_Signup ::
  "idkey \<Rightarrow> string \<Rightarrow> signup_input \<Rightarrow> sys \<Rightarrow> (gerror + tenant \<times> plaintext_key) \<times> sys" where
  "tenant_svc_Signup idkey env input s =
     (case validate_signup input of
        Some err \<Rightarrow> (Inl err, s)
      | None \<Rightarrow>
         (let slug = (if si_Slug input = [] then generateSlugFromName (si_Name input) else si_Slug input);
              tenant = \<lparr>tn_ID = next_uuid s, tn_Name = si_Name input, tn_Slug = slug, tn_Email = Some (si_Email input),
                        tn_IsActive = True, tn_DefaultProviderName = [], tn_CreatedAt = 0, tn_UpdatedAt = 0\<rparr>
          in case tenant_repo_Create tenant (draw s) of
               (Inl err, s1) \<Rightarrow> (Inl err, s1)
             | (Inr created, s1) \<Rightarrow>
                 (case tenant_svc_CreateKey idkey env (tn_ID created)
                         \<lparr>ck_Description = ''Initial key'', ck_ExpiresAt = None\<rparr> s1 of
                    (Inl err, s2) \<Rightarrow> (Inl (Wrap ''creating initial key'' err), s2)
                  | (Inr plaintextKey, s2) \<Rightarrow> (Inr (created, plaintextKey), s2))))"

definition tenant_svc_ListKeys :: "uuid \<Rightarrow> sys \<Rightarrow> gerror + api_key list" where
  "tenant_svc_ListKeys tenantID s = tenant_repo_ListAPIKeys tenantID s"

definition tenant_svc_RevokeKey :: "uuid \<Rightarrow> uuid \<Rightarrow> sys \<Rightarrow> gerror option \<times> sys" where
  "tenant_svc_RevokeKey tenantID keyID s = tenant_repo_RevokeAPIKey tenantID keyID s"

definition tenant_svc_SetDefaultProvider :: "uuid \<Rightarrow> string \<Rightarrow> sys \<Rightarrow> (gerror + tenant) \<times> sys" where
  "tenant_svc_SetDefaultProvider tenantID providerName s =
     (case validateProviderName providerName of
        Some err \<Rightarrow> (Inl err, s)
      | None \<Rightarrow> tenant_repo_UpdateDefaultProvider tenantID providerName s)"

section \<open>Handlers (\<open>handler.go\<close>)\<close>

text \<open>The two switches of the configuration that the signup reads, and the backoffice service (\<open>None\<close>
  for nil), of which it calls \<open>CreateUser\<close> with tenant, email, name, password and role.\<close>

record signup_config =
  sc_AllowSignup :: bool
  sc_SignupRequiresPassword :: bool

type_synonym create_user = "uuid \<Rightarrow> string \<Rightarrow> string \<Rightarrow> string \<Rightarrow> string \<Rightarrow> sys \<Rightarrow> (gerror + user) \<times> sys"

definition tenant_handler_Signup ::
  "idkey \<Rightarrow> string \<Rightarrow> create_user option \<Rightarrow> signup_config \<Rightarrow> go_context \<Rightarrow> gerror + signup_input \<Rightarrow> sys
     \<Rightarrow> signup_response response \<times> sys" where
  "tenant_handler_Signup idkey env backoffice cfg ctx body s =
     (if \<not> sc_AllowSignup cfg then (RespondError ctx (Sentinel ErrSignupDisabled), s)
      else case body of
        Inl err \<Rightarrow> (RespondError ctx err, s)
      | Inr input \<Rightarrow>
         (if si_Name input = [] \<or> si_Email input = []
          then (RespondError ctx (Plain ''name and email are required''), s)
          else if sc_SignupRequiresPassword cfg \<and> si_Password input = []
          then (RespondError ctx (Plain ''password is required for signup''), s)
          else if sc_SignupRequiresPassword cfg \<and> length (si_Password input) < 8
          then (RespondError ctx (Plain ''password must be at least 8 characters''), s)
          else case tenant_svc_Signup idkey env input s of
            (Inl err, s1) \<Rightarrow> (RespondError ctx (Wrap ''signup error'' err), s1)
          | (Inr (tenant, plaintextKey), s1) \<Rightarrow>
              (let s2 = (case backoffice of
                           Some create_user \<Rightarrow>
                             (if si_Password input \<noteq> []
                              then snd (create_user (tn_ID tenant) (si_Email input) (si_Name input)
                                          (si_Password input) ''admin'' s1)
                              else s1)
                         | None \<Rightarrow> s1)
               in (RespondCreated \<lparr>sg_Tenant = tenant, sg_APIKey = plaintextKey,
                     sg_Warning = ''Store this key securely. It will not be shown again.''\<rparr>, s2))))"

definition missing_tenant_context :: gerror where
  "missing_tenant_context = Plain ''missing tenant context''"

definition tenant_handler_CreateKey ::
  "idkey \<Rightarrow> string \<Rightarrow> go_context \<Rightarrow> gerror + create_key_input \<Rightarrow> sys \<Rightarrow> plaintext_key response \<times> sys" where
  "tenant_handler_CreateKey idkey env ctx body s =
     (let tenantID = TenantIDFromContext ctx
      in if tenantID = uuid_nil then (RespondError ctx missing_tenant_context, s)
         else case body of
           Inl err \<Rightarrow> (RespondError ctx err, s)
         | Inr input \<Rightarrow>
            (case tenant_svc_CreateKey idkey env tenantID input s of
               (Inl err, s1) \<Rightarrow> (RespondError ctx err, s1)
             | (Inr k, s1) \<Rightarrow> (RespondCreated k, s1)))"

definition tenant_handler_ListKeys :: "go_context \<Rightarrow> sys \<Rightarrow> api_key list response" where
  "tenant_handler_ListKeys ctx s =
     (let tenantID = TenantIDFromContext ctx
      in if tenantID = uuid_nil then RespondError ctx missing_tenant_context
         else case tenant_svc_ListKeys tenantID s of
                Inl err \<Rightarrow> RespondError ctx err
              | Inr keys \<Rightarrow> RespondOK keys)"

definition tenant_handler_RevokeKey ::
  "(string \<Rightarrow> uuid option) \<Rightarrow> go_context \<Rightarrow> string \<Rightarrow> sys \<Rightarrow> unit response \<times> sys" where
  "tenant_handler_RevokeKey uuid_parse ctx keyID s =
     (let tenantID = TenantIDFromContext ctx
      in if tenantID = uuid_nil then (RespondError ctx missing_tenant_context, s)
         else if keyID = [] then (RespondError ctx (Plain ''missing keyID parameter''), s)
         else case uuid_parse keyID of
           None \<Rightarrow> (RespondError ctx (Plain ''invalid keyID format''), s)
         | Some keyUUID \<Rightarrow>
            (case tenant_svc_RevokeKey tenantID keyUUID s of
               (Some err, s1) \<Rightarrow> (RespondError ctx err, s1)
             | (None, s1) \<Rightarrow> (No_Content, s1)))"

definition tenant_handler_SetDefaultProvider ::
  "go_context \<Rightarrow> gerror + string \<Rightarrow> sys \<Rightarrow> tenant response \<times> sys" where
  "tenant_handler_SetDefaultProvider ctx body s =
     (let tenantID = TenantIDFromContext ctx
      in if tenantID = uuid_nil then (RespondError ctx missing_tenant_context, s)
         else case body of
           Inl err \<Rightarrow> (RespondError ctx err, s)
         | Inr providerName \<Rightarrow>
            (case tenant_svc_SetDefaultProvider tenantID providerName s of
               (Inl err, s1) \<Rightarrow> (RespondError ctx err, s1)
             | (Inr t, s1) \<Rightarrow> (RespondOK t, s1)))"

section \<open>Lemmas\<close>

lemma tenant_contains_eq: "tenant_contains s sub = contains s sub"
proof -
  have "tenant_contains s sub \<longleftrightarrow> (\<exists>i. i + length sub \<le> length s \<and> take (length sub) (drop i s) = sub)"
    by (force simp: tenant_contains_def list_ex_iff)
  also have "\<dots> \<longleftrightarrow> sublist sub s"
  proof
    assume "sublist sub s"
    then obtain ps ss where "s = ps @ sub @ ss" by (auto simp: sublist_def)
    then show "\<exists>i. i + length sub \<le> length s \<and> take (length sub) (drop i s) = sub"
      by (intro exI [of _ "length ps"]) simp
  next
    assume "\<exists>i. i + length sub \<le> length s \<and> take (length sub) (drop i s) = sub"
    then show "sublist sub s" by (metis sublist_drop sublist_order.order.trans sublist_take)
  qed
  finally show ?thesis by (simp add: contains_iff)
qed

lemma tenant_contains_append [simp]: "tenant_contains (a @ b @ c) b"
  by (simp add: tenant_contains_eq contains_iff)

lemma violation_texts:
  "containsStr (error_text (unique_violation ''tenants_pkey'')) [''unique constraint'', ''slug''] = False"
  "containsStr (error_text (unique_violation ''tenants_pkey'')) [''duplicate key'', ''slug''] = False"
  "containsStr (error_text (unique_violation ''tenants_pkey'')) [''unique constraint'', ''email''] = False"
  "containsStr (error_text (unique_violation ''tenants_pkey'')) [''duplicate key'', ''email''] = False"
  "containsStr (error_text (unique_violation ''tenants_slug_key'')) [''unique constraint'', ''slug''] = True"
  "containsStr (error_text (unique_violation ''idx_tenants_email'')) [''unique constraint'', ''slug''] = False"
  "containsStr (error_text (unique_violation ''idx_tenants_email'')) [''duplicate key'', ''slug''] = False"
  "containsStr (error_text (unique_violation ''idx_tenants_email'')) [''unique constraint'', ''email''] = True"
  unfolding containsStr_def tenant_contains_eq [abs_def] by code_simp+

lemma unique_violation_not_No_Rows [simp]: "unique_violation c \<noteq> No_Rows"
  by (simp add: unique_violation_def)

text \<open>The constraints of \<open>tenants\<close> and \<open>tenant_api_keys\<close>.\<close>

definition tenants_ok :: "sys \<Rightarrow> bool" where
  "tenants_ok s \<longleftrightarrow> distinct (map tn_ID (tenants s)) \<and> distinct (map tn_Slug (tenants s))
     \<and> distinct (filter (\<lambda>e. e \<noteq> None) (map tn_Email (tenants s)))
     \<and> (\<forall>t \<in> set (tenants s). tn_DefaultProviderName t \<in> set valid_providers)
     \<and> distinct (map (ak_ID \<circ> kr_key) (api_keys s)) \<and> distinct (map key_place (api_keys s))
     \<and> (\<forall>r \<in> set (api_keys s). ak_TenantID (kr_key r) \<in> tn_ID ` set (tenants s))"

lemma new_tenant_simps:
  "tn_ID (new_tenant t s) = next_uuid s" "tn_Slug (new_tenant t s) = tn_Slug t"
  "tn_Email (new_tenant t s) = tn_Email t" "tn_DefaultProviderName (new_tenant t s) = ''mercadopago''"
  by (simp_all add: new_tenant_def)

text \<open>The outcomes of \<open>Create\<close>: which constraint fails decides the error.\<close>

lemma tenant_repo_Create_cases [consumes 2, case_names created id_taken slug_taken email_taken]:
  assumes "tenant_repo_Create t s = (r, s')" "tn_Email t = Some email"
  obtains "r = Inr (new_tenant t s)" "s' = (draw s)\<lparr>tenants := tenants s @ [new_tenant t s]\<rparr>"
      "next_uuid s \<notin> tn_ID ` set (tenants s)" "tn_Slug t \<notin> tn_Slug ` set (tenants s)"
      "Some email \<notin> tn_Email ` set (tenants s)"
    | "r = Inl (Wrap ''creating tenant'' (unique_violation ''tenants_pkey''))" "s' = draw s"
      "next_uuid s \<in> tn_ID ` set (tenants s)"
    | "r = Inl duplicate_slug" "s' = draw s" "tn_Slug t \<in> tn_Slug ` set (tenants s)"
    | "r = Inl duplicate_email" "s' = draw s" "tn_Slug t \<notin> tn_Slug ` set (tenants s)"
      "Some email \<in> tn_Email ` set (tenants s)"
proof -
  note d = tenant_repo_Create_def tenant_insert_def Let_def scan_tenant_def new_tenant_simps violation_texts
  consider "next_uuid s \<in> tn_ID ` set (tenants s)"
    | "next_uuid s \<notin> tn_ID ` set (tenants s)" "tn_Slug t \<in> tn_Slug ` set (tenants s)"
    | "next_uuid s \<notin> tn_ID ` set (tenants s)" "tn_Slug t \<notin> tn_Slug ` set (tenants s)" "Some email \<in> tn_Email ` set (tenants s)"
    | "next_uuid s \<notin> tn_ID ` set (tenants s)" "tn_Slug t \<notin> tn_Slug ` set (tenants s)" "Some email \<notin> tn_Email ` set (tenants s)"
    by blast
  then show ?thesis
  proof cases
    case 1
    with assms show ?thesis by (intro that(2)) (simp_all add: d)
  next
    case 2
    with assms show ?thesis by (intro that(3)) (simp_all add: d)
  next
    case 3
    with assms show ?thesis by (intro that(4)) (simp_all add: d)
  next
    case 4
    with assms show ?thesis by (intro that(1)) (simp_all add: d)
  qed
qed

lemma new_key_simps:
  "ak_ID (new_key t p input s) = next_uuid s" "ak_TenantID (new_key t p input s) = t"
  "ak_KeyPrefix (new_key t p input s) = p"
  "key_place \<lparr>kr_key = new_key t p input s, kr_key_hash = h\<rparr> = (t, p)"
  by (simp_all add: new_key_def key_place_def)

lemma tenant_repo_CreateAPIKey_cases [consumes 1, case_names created refused]:
  assumes "tenant_repo_CreateAPIKey t p h input s = (r, s')"
  obtains "r = Inr (new_key t p input s)"
      "s' = (draw s)\<lparr>api_keys := api_keys s @ [\<lparr>kr_key = new_key t p input s, kr_key_hash = h\<rparr>]\<rparr>"
      "next_uuid s \<notin> (ak_ID \<circ> kr_key) ` set (api_keys s)" "(t, p) \<notin> key_place ` set (api_keys s)"
      "t \<in> tn_ID ` set (tenants s)"
    | e where "r = Inl (Wrap ''creating api key'' e)" "server_error e" "s' = draw s"
      "next_uuid s \<in> (ak_ID \<circ> kr_key) ` set (api_keys s) \<or> (t, p) \<in> key_place ` set (api_keys s) \<or> t \<notin> tn_ID ` set (tenants s)"
proof -
  let ?c = "first_error
           [check (next_uuid s \<notin> (ak_ID \<circ> kr_key) ` set (api_keys s)) (unique_violation ''tenant_api_keys_pkey''),
            check ((t, p) \<notin> key_place ` set (api_keys s)) (unique_violation ''tenant_api_keys_tenant_id_key_prefix_key''),
            check (t \<in> tn_ID ` set (tenants s)) (fk_violation ''tenant_api_keys'' ''tenant_api_keys_tenant_id_fkey'')]"
  have eq: "tenant_repo_CreateAPIKey t p h input s = (case ?c of
       Some err \<Rightarrow> (Inl (Wrap ''creating api key'' err), draw s)
     | None \<Rightarrow> (Inr (new_key t p input s), (draw s)\<lparr>api_keys := api_keys s @ [\<lparr>kr_key = new_key t p input s, kr_key_hash = h\<rparr>]\<rparr>))"
    by (simp add: tenant_repo_CreateAPIKey_def Let_def new_key_simps)
  show ?thesis
  proof (cases ?c)
    case None
    then show ?thesis using assms eq by (intro that(1)) (auto simp: first_error_None check_None)
  next
    case (Some e)
    moreover have "server_error e" by (rule pred_option_SomeD [OF Some]) simp
    moreover have "\<not> (next_uuid s \<notin> (ak_ID \<circ> kr_key) ` set (api_keys s)
        \<and> (t, p) \<notin> key_place ` set (api_keys s) \<and> t \<in> tn_ID ` set (tenants s))"
    proof
      assume "next_uuid s \<notin> (ak_ID \<circ> kr_key) ` set (api_keys s)
        \<and> (t, p) \<notin> key_place ` set (api_keys s) \<and> t \<in> tn_ID ` set (tenants s)"
      then have "?c = None" by (simp add: first_error_None check_None)
      with Some show False by simp
    qed
    ultimately show ?thesis using assms eq by (intro that(2) [of e]) auto
  qed
qed

end
