(* ===== verification/Auth.thy ===== *)
theory Auth
  imports Tenant
begin

text \<open>
  \<open>internal/middleware/auth.go\<close>: the API key of a request is looked up by its first 12 characters and
  checked against the stored Argon2id hash; the tenant of the key is put into the
  context of the request and set on a connection of the pool, which need not be the one the handler then gets.
  A handler \<open>next\<close> maps a context and a state to a response and a state. The five-second time-out of the lookup is not modelled. The second half of the theory states
  what the key life cycle of \<open>Tenant\<close> and the middleware guarantee together.
\<close>

definition writeErrorResponse :: "nat \<Rightarrow> string \<Rightarrow> string \<Rightarrow> 'a response" where
  "writeErrorResponse statusCode code message =
     Error_Response statusCode \<lparr>ed_code = code, ed_message = message, ed_request_id = [], ed_fields = []\<rparr>"

text \<open>\<open>pool.Exec\<close> runs on a connection of the pool and gives it back. \<open>set_config(.., false)\<close> sets the parameter for the
  rest of the session of that connection (a role that bypasses row-level security still bypasses it); which
  connection comes next is up to the pool.\<close>

definition setRLSContext :: "uuid \<Rightarrow> sys \<Rightarrow> gerror option \<times> sys" where
  "setRLSContext tenantID s =
     (None, acquire (s\<lparr>session := (if session s = Bypass then Bypass else Current_Tenant tenantID)\<rparr>))"

lemma setRLS_fields [simp]:
  "clock (snd (setRLSContext t s)) = clock s" "uuids (snd (setRLSContext t s)) = uuids s" "drawn (snd (setRLSContext t s)) = drawn s"
  "tenants (snd (setRLSContext t s)) = tenants s" "plans (snd (setRLSContext t s)) = plans s"
  "subscriptions (snd (setRLSContext t s)) = subscriptions s" "payments (snd (setRLSContext t s)) = payments s"
  "charges (snd (setRLSContext t s)) = charges s" "api_keys (snd (setRLSContext t s)) = api_keys s"
  "credentials (snd (setRLSContext t s)) = credentials s" "users (snd (setRLSContext t s)) = users s"
  by (simp_all add: setRLSContext_def)

lemma setRLS_one_connection:
  assumes "one_connection s"
  shows "snd (setRLSContext t s)
    = s\<lparr>session := (if session s = Bypass then Bypass else Current_Tenant t), acquired := Suc (acquired s)\<rparr>"
  using assms by (simp add: setRLSContext_def one_connection_acquire one_connection_def)

definition hashToString :: "string \<Rightarrow> string" where
  "hashToString hash = encode_to_string std_alphabet hash"

definition AuthMiddleware ::
  "idkey \<Rightarrow> (go_context \<Rightarrow> sys \<Rightarrow> 'a response \<times> sys) \<Rightarrow> go_context \<Rightarrow> string \<Rightarrow> sys \<Rightarrow> 'a response \<times> sys" where
  "AuthMiddleware idkey next ctx authHeader s =
     (if authHeader = [] then (writeErrorResponse 401 ''missing_auth_header'' ''Missing Authorization header'', s)
      else let parts = split_n2 (CHR '' '') authHeader
      in if length parts \<noteq> 2 \<or> parts ! 0 \<noteq> ''Bearer''
      then (writeErrorResponse 401 ''invalid_auth_header'' ''Invalid Authorization header format'', s)
      else let token = parts ! 1
      in if length token < 12 then (writeErrorResponse 401 ''invalid_api_key'' ''Invalid API key format'', s)
      else let keyPrefix = take 12 token
      in case find (\<lambda>r. ak_KeyPrefix (kr_key r) = keyPrefix \<and> ak_IsActive (kr_key r)) (api_keys s) of
           None \<Rightarrow> (writeErrorResponse 401 ''invalid_api_key'' ''Invalid API key'', s)
         | Some r \<Rightarrow>
             (if \<not> ak_IsActive (kr_key r)
              then (writeErrorResponse 401 ''api_key_inactive'' ''API key is inactive'', s)
              else if (case ak_ExpiresAt (kr_key r) of Some e \<Rightarrow> e < clock s | None \<Rightarrow> False)
              then (writeErrorResponse 401 ''api_key_expired'' ''API key has expired'', s)
              else if hashToString (idkey token keyPrefix 1 (64 * 1024) 4 32) \<noteq> kr_key_hash r
              then (writeErrorResponse 401 ''invalid_api_key'' ''Invalid API key'', s)
              else case setRLSContext (ak_TenantID (kr_key r)) s of
                (Some err, s1) \<Rightarrow> (writeErrorResponse 500 ''internal_error'' ''Internal server error'', s1)
              | (None, s1) \<Rightarrow> next (WithTenantID ctx (ak_TenantID (kr_key r))) s1))"

section \<open>The lookup of a key\<close>

definition active_key :: "string \<Rightarrow> sys \<Rightarrow> api_key_row option" where
  "active_key p s = find (\<lambda>r. ak_KeyPrefix (kr_key r) = p \<and> ak_IsActive (kr_key r)) (api_keys s)"

definition unexpired :: "gtime \<Rightarrow> api_key \<Rightarrow> bool" where
  "unexpired now k \<longleftrightarrow> (case ak_ExpiresAt k of Some e \<Rightarrow> now \<le> e | None \<Rightarrow> True)"

text \<open>What the middleware does with a well-formed header, by the row found for the prefix.\<close>

lemma Auth_bearer:
  assumes "12 \<le> length token"
  shows "AuthMiddleware idkey next ctx (''Bearer '' @ token) s =
    (case active_key (take 12 token) s of
       None \<Rightarrow> (writeErrorResponse 401 ''invalid_api_key'' ''Invalid API key'', s)
     | Some r \<Rightarrow>
         (if \<not> unexpired (clock s) (kr_key r) then (writeErrorResponse 401 ''api_key_expired'' ''API key has expired'', s)
          else if kr_key_hash r \<noteq> tenant_key_hash idkey token (take 12 token)
          then (writeErrorResponse 401 ''invalid_api_key'' ''Invalid API key'', s)
          else next (WithTenantID ctx (ak_TenantID (kr_key r))) (snd (setRLSContext (ak_TenantID (kr_key r)) s))))"
proof -
  have "split_n2 (CHR '' '') (''Bearer'' @ CHR '' '' # token) = [''Bearer'', token]"
    by (rule split_n2_append) simp
  then have split: "split_n2 (CHR '' '') (''Bearer '' @ token) = [''Bearer'', token]" by simp
  have act: "active_key (take 12 token) s = Some r \<Longrightarrow> ak_IsActive (kr_key r)" for r
    by (auto simp: active_key_def dest: find_SomeD)
  have "\<not> unexpired now k \<longleftrightarrow> (case ak_ExpiresAt k of Some e \<Rightarrow> e < now | None \<Rightarrow> False)" for now k
    by (auto simp: unexpired_def split: option.split)
  then show ?thesis
    unfolding AuthMiddleware_def Let_def split active_key_def [symmetric] hashToString_def tenant_key_hash_def
    using assms by (auto simp: setRLSContext_def split: option.split dest: act)
qed

text \<open>Any other header is refused.\<close>

lemma Auth_not_bearer:
  assumes "\<nexists>token. authHeader = ''Bearer '' @ token \<and> 12 \<le> length token"
  shows "\<exists>code msg. AuthMiddleware idkey next ctx authHeader s = (writeErrorResponse 401 code msg, s)"
proof (cases "CHR '' '' \<in> set authHeader \<and> takeWhile (\<lambda>c. c \<noteq> CHR '' '') authHeader = ''Bearer''")
  case True
  let ?rest = "dropWhile (\<lambda>c. c \<noteq> CHR '' '') authHeader"
  obtain token where rest: "?rest = CHR '' '' # token"
  proof (cases ?rest)
    case Nil
    then show ?thesis using True by (auto simp: dropWhile_eq_Nil_conv)
  next
    case (Cons c cs)
    then have "c = CHR '' ''" using hd_dropWhile [of "\<lambda>c. c \<noteq> CHR '' ''" authHeader] by simp
    with Cons that show ?thesis by blast
  qed
  have h: "authHeader = ''Bearer '' @ token"
    using takeWhile_dropWhile_id [of "\<lambda>c. c \<noteq> CHR '' ''" authHeader] True rest by simp
  then have "length token < 12" using assms h by (cases "12 \<le> length token") auto
  then show ?thesis using True rest h
    by (auto simp: AuthMiddleware_def Let_def split_n2_def)
next
  case False
  then show ?thesis by (auto simp: AuthMiddleware_def Let_def split_n2_def)
qed

text \<open>C23. The middleware either runs the handler, for the tenant of an active, unexpired key whose
  prefix and stored hash are those of the presented token, or answers 401 and changes nothing; there
  is no other way to the handler.\<close>

theorem auth_decides:
  "(\<exists>token r. authHeader = ''Bearer '' @ token \<and> 12 \<le> length token \<and> r \<in> set (api_keys s)
      \<and> ak_KeyPrefix (kr_key r) = take 12 token \<and> ak_IsActive (kr_key r) \<and> unexpired (clock s) (kr_key r)
      \<and> kr_key_hash r = tenant_key_hash idkey token (take 12 token)
      \<and> AuthMiddleware idkey next ctx authHeader s
          = next (WithTenantID ctx (ak_TenantID (kr_key r))) (snd (setRLSContext (ak_TenantID (kr_key r)) s)))
   \<or> (\<exists>code msg. AuthMiddleware idkey next ctx authHeader s = (writeErrorResponse 401 code msg, s))"
proof (cases "\<exists>token. authHeader = ''Bearer '' @ token \<and> 12 \<le> length token")
  case True
  then obtain token where t: "authHeader = ''Bearer '' @ token" "12 \<le> length token" by blast
  note bearer = Auth_bearer [OF t(2), of idkey "next" ctx s, folded t(1)]
  show ?thesis
  proof (cases "active_key (take 12 token) s")
    case (Some r)
    then have r: "r \<in> set (api_keys s)" "ak_KeyPrefix (kr_key r) = take 12 token" "ak_IsActive (kr_key r)"
      by (auto simp: active_key_def dest: find_SomeD)
    show ?thesis
      using t r unfolding bearer Some by (cases "unexpired (clock s) (kr_key r) \<and> kr_key_hash r = tenant_key_hash idkey token (take 12 token)") auto
  qed (simp add: bearer, blast)
next
  case False
  then show ?thesis using Auth_not_bearer by blast
qed

section \<open>Generated keys\<close>

lemma length_encode_bytes: "length (encode_bytes al bs) = 4 * ((length bs + 2) div 3)"
proof (induction al bs rule: encode_bytes.induct)
  case (1 al x y z rest)
  have "(length (x # y # z # rest) + 2) div 3 = Suc ((length rest + 2) div 3)"
    using div_add_self2 [of 3 "length rest + 2"] by simp
  with 1 show ?case by simp
qed auto

definition env_prefix :: "string \<Rightarrow> string" where
  "env_prefix env = (if env = ''production'' then liveKeyPrefix else testKeyPrefix)"

lemma length_prefixes [simp]: "length testKeyPrefix = 10" "length liveKeyPrefix = 10" "length (env_prefix env) = 10"
  by (simp_all add: env_prefix_def liveKeyPrefix_def testKeyPrefix_def)

text \<open>The first twelve characters: ten fixed ones and two of the random part.\<close>

definition short_prefixes :: "string \<Rightarrow> string set" where
  "short_prefixes env = (\<lambda>(a, b). env_prefix env @ [a, b]) ` (set url_alphabet \<times> set url_alphabet)"

lemma card_short_prefixes: "card (short_prefixes env) \<le> 4096" "finite (short_prefixes env)"
proof -
  have c: "card (set url_alphabet) = 64"
    using good_alphabets(2) distinct_card unfolding good_alphabet_def by metis
  have "card (short_prefixes env) \<le> card (set url_alphabet \<times> set url_alphabet)"
    unfolding short_prefixes_def by (rule card_image_le) simp
  also have "\<dots> = 4096" by (simp add: card_cartesian_product c)
  finally show "card (short_prefixes env) \<le> 4096" .
  show "finite (short_prefixes env)" by (simp add: short_prefixes_def)
qed

lemma GenerateAPIKey_cases:
  assumes "GenerateAPIKey idkey env s = ((k, p, h), s1)"
  shows "p = take 12 k" "h = tenant_key_hash idkey k p" "p \<in> short_prefixes env" "length k = 54"
    and "take 10 k = env_prefix env" "s1 = s\<lparr>random_pos := random_pos s + 32\<rparr>"
proof -
  let ?bs = "fst (rand_read 32 s)"
  have k: "k = env_prefix env @ encode_to_string url_alphabet ?bs"
    and p: "p = take 12 k" and h: "h = tenant_key_hash idkey k p" and s1: "s1 = snd (rand_read 32 s)"
    using assms by (auto simp: GenerateAPIKey_def Let_def env_prefix_def case_prod_beta simp del: rand_read_simps)
  show "p = take 12 k" "h = tenant_key_hash idkey k p" by (fact p h)+
  show "s1 = s\<lparr>random_pos := random_pos s + 32\<rparr>" using s1 by simp
  show "length k = 54" by (simp add: k encode_to_string_def length_encode_bytes)
  show "take 10 k = env_prefix env" by (simp add: k)
  obtain x y z rest where bs: "(map of_char ?bs :: nat list) = x # y # z # rest"
  proof -
    have "Suc (Suc (Suc 0)) \<le> length (map of_char ?bs :: nat list)" by simp
    then show ?thesis using that by (auto simp only: Suc_le_length_iff list.map)
  qed
  let ?a = "url_alphabet ! (x div 4)" and ?b = "url_alphabet ! (x mod 4 * 16 + y div 16)"
  have "take 2 (encode_to_string url_alphabet ?bs) = [?a, ?b]"
    by (simp add: encode_to_string_def bs numeral_2_eq_2)
  then have pe: "p = env_prefix env @ [?a, ?b]" by (simp add: p k)
  have "\<forall>n \<in> set (map of_char ?bs :: nat list). n < 256" using of_char_less_256 by auto
  then have "x < 256" "y < 256" by (simp_all add: bs)
  then have "?a \<in> set url_alphabet" "?b \<in> set url_alphabet"
    using sextets(1,2) [of x y 0] good_alphabets(2) by (auto simp: good_alphabet_def)
  then show "p \<in> short_prefixes env" by (auto simp: pe short_prefixes_def)
qed

lemma tenant_svc_CreateKey_cases [consumes 1, case_names created expired refused]:
  assumes "tenant_svc_CreateKey idkey env t input s = (r, s')"
  obtains pk p where "r = Inr pk" "p = take 12 (pk_Key pk)" "p \<in> short_prefixes env" "length (pk_Key pk) = 54"
      "take 10 (pk_Key pk) = env_prefix env" "pk_APIKey pk = new_key t p input s"
      "s' = s\<lparr>random_pos := random_pos s + 32, drawn := Suc (drawn s), api_keys := api_keys s
         @ [\<lparr>kr_key = pk_APIKey pk, kr_key_hash = tenant_key_hash idkey (pk_Key pk) p\<rparr>]\<rparr>"
      "next_uuid s \<notin> (ak_ID \<circ> kr_key) ` set (api_keys s)" "(t, p) \<notin> key_place ` set (api_keys s)"
      "t \<in> tn_ID ` set (tenants s)" "\<forall>e. ck_ExpiresAt input = Some e \<longrightarrow> clock s \<le> e"
    | "r = Inl (Validation [field_err ''expires_at'' ''must be in the future''])" "s' = s"
      "ck_ExpiresAt input \<noteq> None"
    | e k p h where "r = Inl (Wrap ''creating api key'' e)" "server_error e"
      "s' = s\<lparr>random_pos := random_pos s + 32, drawn := Suc (drawn s)\<rparr>"
      "fst (GenerateAPIKey idkey env s) = (k, p, h)"
      "next_uuid s \<in> (ak_ID \<circ> kr_key) ` set (api_keys s) \<or> (t, p) \<in> key_place ` set (api_keys s) \<or> t \<notin> tn_ID ` set (tenants s)"
proof (cases "case ck_ExpiresAt input of Some e \<Rightarrow> e < clock s | None \<Rightarrow> False")
  case True
  then show ?thesis using assms by (intro that(2)) (auto simp: tenant_svc_CreateKey_def split: option.splits)
next
  case False
  obtain k p h s1 where g: "GenerateAPIKey idkey env s = ((k, p, h), s1)"
    by (cases "GenerateAPIKey idkey env s") auto
  note gc = GenerateAPIKey_cases [OF g]
  have nk: "new_key t p input s1 = new_key t p input s" "next_uuid s1 = next_uuid s" "api_keys s1 = api_keys s"
      "tenants s1 = tenants s" "draw s1 = s\<lparr>random_pos := random_pos s + 32, drawn := Suc (drawn s)\<rparr>"
    by (simp_all add: gc(6) new_key_def next_uuid_def db_now_def draw_def)
  obtain r' s2 where c: "tenant_repo_CreateAPIKey t p h input s1 = (r', s2)" by fastforce
  have eq: "(r, s') = (case r' of Inl err \<Rightarrow> (Inl err, s2) | Inr apiKey \<Rightarrow> (Inr \<lparr>pk_Key = k, pk_APIKey = apiKey\<rparr>, s2))"
    using assms False g c by (simp add: tenant_svc_CreateKey_def split: sum.splits)
  have exp: "\<forall>e. ck_ExpiresAt input = Some e \<longrightarrow> clock s \<le> e" using False by (auto split: option.splits)
  from c show ?thesis
  proof (cases rule: tenant_repo_CreateAPIKey_cases)
    case created
    show ?thesis
      by (rule that(1) [of "\<lparr>pk_Key = k, pk_APIKey = new_key t p input s\<rparr>" p])
        (use eq created gc exp nk in simp_all)
  next
    case (refused e)
    show ?thesis by (rule that(3) [of e k p h]) (use eq refused g nk in simp_all)
  qed
qed

end
