(* ===== verification/Tenant_Keys.thy ===== *)
theory Tenant_Keys
  imports Auth
begin

text \<open>
  What the key life cycle and the tenant service guarantee: a key that was handed out opens the API for
  its tenant until it expires or is revoked, unless another tenant's key shares its twelve-character
  prefix; the tables keep their constraints; a tenant can hold 4096 keys in its lifetime; what a
  successful signup stores; the form of generated slugs.
\<close>

section \<open>Keys\<close>

lemma active_key_append:
  "find (\<lambda>r. ak_KeyPrefix (kr_key r) = p \<and> ak_IsActive (kr_key r)) (rs @ [r]) =
    (case find (\<lambda>r. ak_KeyPrefix (kr_key r) = p \<and> ak_IsActive (kr_key r)) rs of
       Some x \<Rightarrow> Some x | None \<Rightarrow> if ak_KeyPrefix (kr_key r) = p \<and> ak_IsActive (kr_key r) then Some r else None)"
  by (rule find_append_last)

lemma CreateKey_ok:
  assumes "ck_ExpiresAt input = None" "t \<in> tn_ID ` set (tenants s)"
    and "next_uuid s \<notin> (ak_ID \<circ> kr_key) ` set (api_keys s)" "\<forall>r \<in> set (api_keys s). ak_TenantID (kr_key r) \<noteq> t"
  shows "\<exists>pk s1. tenant_svc_CreateKey idkey env t input s = (Inr pk, s1)"
proof -
  obtain r s1 where c: "tenant_svc_CreateKey idkey env t input s = (r, s1)" by fastforce
  then show ?thesis
    by (cases rule: tenant_svc_CreateKey_cases) (use c assms in \<open>auto simp: key_place_def\<close>)
qed

text \<open>After a revocation no active key of the tenant with that id is left; keys of others stay.\<close>

lemma RevokeAPIKey_result:
  assumes "r \<in> set (api_keys s)" "ak_TenantID (kr_key r) = t" "ak_ID (kr_key r) = i"
  shows "tenant_svc_RevokeKey t i s = (None, s\<lparr>api_keys :=
    update_where (\<lambda>r. ak_ID (kr_key r) = i \<and> ak_TenantID (kr_key r) = t) revoke_row (api_keys s)\<rparr>)"
  using assms by (auto simp: tenant_svc_RevokeKey_def tenant_repo_RevokeAPIKey_def Let_def filter_empty_conv)

text \<open>C24. A key that \<open>CreateKey\<close> hands out opens the API: as long as it has not expired and no other active
  key has its prefix, a request with it runs the handler for the tenant it was created for; once it is
  revoked, the same request is answered with 401.\<close>

theorem issued_key_authenticates:
  assumes "tenant_svc_CreateKey idkey env t input s = (Inr pk, s1)"
    and "\<forall>e. ck_ExpiresAt input = Some e \<longrightarrow> clock s \<le> trunc_us e"
    and "\<forall>r \<in> set (api_keys s). ak_KeyPrefix (kr_key r) = take 12 (pk_Key pk) \<longrightarrow> \<not> ak_IsActive (kr_key r)"
  shows "ValidateKeyFormat (pk_Key pk)
    \<and> AuthMiddleware idkey next ctx (''Bearer '' @ pk_Key pk) s1 = next (WithTenantID ctx t) (snd (setRLSContext t s1))
    \<and> (let s2 = snd (tenant_svc_RevokeKey t (ak_ID (pk_APIKey pk)) s1) in
        AuthMiddleware idkey next ctx (''Bearer '' @ pk_Key pk) s2
          = (writeErrorResponse 401 ''invalid_api_key'' ''Invalid API key'', s2))"
proof -
  have none: "active_key (take 12 (pk_Key pk)) s = None"
    using assms(3) by (auto simp: active_key_def find_None_iff_all)
  from assms(1) show ?thesis
  proof (cases rule: tenant_svc_CreateKey_cases)
    case (created pk' p)
    then have pk: "pk' = pk" by simp
    let ?row = "\<lparr>kr_key = pk_APIKey pk, kr_key_hash = tenant_key_hash idkey (pk_Key pk) p\<rparr>"
    have len: "12 \<le> length (pk_Key pk)" using created pk by simp
    have k: "ak_TenantID (pk_APIKey pk) = t" "ak_KeyPrefix (pk_APIKey pk) = p" "ak_IsActive (pk_APIKey pk)"
        "ak_ExpiresAt (pk_APIKey pk) = map_option trunc_us (ck_ExpiresAt input)"
      using created pk by (simp_all add: new_key_def)
    have fmt: "ValidateKeyFormat (pk_Key pk)"
      using created(4,5) pk
      by (auto simp: ValidateKeyFormat_def env_prefix_def)
    have act: "active_key (take 12 (pk_Key pk)) s1 = Some ?row"
      using none created pk k by (simp add: active_key_def active_key_append)
    have "unexpired (clock s1) (pk_APIKey pk)"
      using assms(2) created k(4) by (auto simp: unexpired_def split: option.split)
    then have use: "AuthMiddleware idkey next ctx (''Bearer '' @ pk_Key pk) s1
        = next (WithTenantID ctx t) (snd (setRLSContext t s1))"
      using act created(2) pk k(1) by (simp add: Auth_bearer [OF len] del: append.simps)
    let ?hit = "\<lambda>r. ak_ID (kr_key r) = ak_ID (pk_APIKey pk) \<and> ak_TenantID (kr_key r) = t"
    have rev: "tenant_svc_RevokeKey t (ak_ID (pk_APIKey pk)) s1
        = (None, s1\<lparr>api_keys := update_where ?hit revoke_row (api_keys s1)\<rparr>)"
      by (rule RevokeAPIKey_result [of ?row]) (use created pk k in auto)
    have "active_key (take 12 (pk_Key pk)) (s1\<lparr>api_keys := update_where ?hit revoke_row (api_keys s1)\<rparr>) = None"
      using assms(3) created(7) pk k(1) by (auto simp: active_key_def find_None_iff_all set_update_where revoke_row_def)
    then have "AuthMiddleware idkey next ctx (''Bearer '' @ pk_Key pk) (s1\<lparr>api_keys := update_where ?hit revoke_row (api_keys s1)\<rparr>)
        = (writeErrorResponse 401 ''invalid_api_key'' ''Invalid API key'', s1\<lparr>api_keys := update_where ?hit revoke_row (api_keys s1)\<rparr>)"
      by (simp add: Auth_bearer [OF len] del: append.simps)
    with fmt use rev show ?thesis by (simp add: Let_def)
  qed simp_all
qed

text \<open>Two characters of a prefix are random. When an older active key, of whatever tenant, has the prefix
  of a new one and another hash, the new key is handed out but never accepted; and a tenant that already
  has a key with the prefix, even a revoked one, gets 500 for its request.\<close>

theorem prefix_collision:
  assumes "active_key p s = Some r" "GenerateAPIKey idkey env s = ((k, p, h), s0)"
    and "kr_key_hash r \<noteq> h" "TenantIDFromContext ctx = t" "t \<noteq> 0"
  shows "(\<forall>pk s1. tenant_svc_CreateKey idkey env t input s = (Inr pk, s1) \<longrightarrow>
      pk_Key pk = k \<and> response_status (fst (AuthMiddleware idkey next c (''Bearer '' @ k) s1)) = 401)
    \<and> ((t, p) \<in> key_place ` set (api_keys s) \<and> ck_ExpiresAt input = None \<longrightarrow>
      response_status (fst (tenant_handler_CreateKey idkey env ctx (Inr input) s)) = 500)"
proof (intro conjI allI impI)
  note g = GenerateAPIKey_cases [OF assms(2)]
  fix pk s1
  assume c: "tenant_svc_CreateKey idkey env t input s = (Inr pk, s1)"
  then show k: "pk_Key pk = k"
    using assms(2) by (auto simp: tenant_svc_CreateKey_def split: if_splits bool.splits sum.splits prod.splits)
  from c show "response_status (fst (AuthMiddleware idkey next c (''Bearer '' @ k) s1)) = 401" for c
  proof (cases rule: tenant_svc_CreateKey_cases)
    case (created pk' p')
    have len: "12 \<le> length k" by (simp add: g(4))
    have "active_key (take 12 k) s1 = Some r"
      using assms(1) created(7) by (simp add: active_key_def active_key_append g(1) [symmetric])
    then show ?thesis
      using assms(3) g(2) by (simp add: Auth_bearer [OF len] writeErrorResponse_def g(1) [symmetric] del: append.simps)
  qed simp_all
next
  assume c: "(t, p) \<in> key_place ` set (api_keys s) \<and> ck_ExpiresAt input = None"
  obtain res s1 where r: "tenant_svc_CreateKey idkey env t input s = (res, s1)" by fastforce
  then have "\<exists>e. res = Inl (Wrap ''creating api key'' e) \<and> server_error e"
  proof (cases rule: tenant_svc_CreateKey_cases)
    case (created pk p')
    then have "pk_Key pk = k"
      using r assms(2) by (auto simp: tenant_svc_CreateKey_def split: if_splits bool.splits sum.splits prod.splits)
    then have "p' = p" using created(2) GenerateAPIKey_cases(1) [OF assms(2)] by simp
    with created(9) c show ?thesis by simp
  next
    case expired
    with c show ?thesis by simp
  qed auto
  then show "response_status (fst (tenant_handler_CreateKey idkey env ctx (Inr input) s)) = 500"
    using r assms(4,5) by (auto simp: tenant_handler_CreateKey_def Let_def dest: server_error_D)
qed

section \<open>The tables\<close>

text \<open>A request on tenants and keys, or anything that leaves these tables and their clock of ids alone.\<close>

inductive tenant_step :: "idkey \<Rightarrow> string \<Rightarrow> sys \<Rightarrow> sys \<Rightarrow> bool" for idkey env where
  step_signup: "tenant_step idkey env s (snd (tenant_svc_Signup idkey env input s))"
| step_create_key: "tenant_step idkey env s (snd (tenant_svc_CreateKey idkey env t kin s))"
| step_revoke: "tenant_step idkey env s (snd (tenant_svc_RevokeKey t i s))"
| step_default: "tenant_step idkey env s (snd (tenant_svc_SetDefaultProvider t p s))"
| step_other: "tenants s' = tenants s \<Longrightarrow> api_keys s' = api_keys s \<Longrightarrow> tenant_step idkey env s s'"

definition tenant_identity :: "tenant \<Rightarrow> uuid \<times> string \<times> string \<times> string option \<times> gtime" where
  "tenant_identity t = (tn_ID t, tn_Name t, tn_Slug t, tn_Email t, tn_CreatedAt t)"

definition key_identity :: "api_key_row \<Rightarrow> uuid \<times> uuid \<times> string \<times> string \<times> gtime option" where
  "key_identity r = (ak_ID (kr_key r), ak_TenantID (kr_key r), ak_KeyPrefix (kr_key r), kr_key_hash r, ak_ExpiresAt (kr_key r))"

definition table_identities :: "sys \<Rightarrow> (uuid \<times> string \<times> string \<times> string option \<times> gtime) list
    \<times> (uuid \<times> uuid \<times> string \<times> string \<times> gtime option) list" where
  "table_identities s = (map tenant_identity (tenants s), map key_identity (api_keys s))"

definition grows :: "sys \<Rightarrow> sys \<Rightarrow> bool" where
  "grows s s' \<longleftrightarrow> prefix (fst (table_identities s)) (fst (table_identities s'))
     \<and> prefix (snd (table_identities s)) (snd (table_identities s'))"

lemma grows_refl [simp]: "grows s s"
  by (simp add: grows_def)

lemma grows_trans: "grows s s' \<Longrightarrow> grows s' s'' \<Longrightarrow> grows s s''"
  by (auto simp: grows_def)

lemma grows_same: "tenants s' = tenants s \<Longrightarrow> api_keys s' = api_keys s \<Longrightarrow> grows s s'"
  by (simp add: grows_def table_identities_def)

text \<open>Every prefix in the key table has one of the 4096 forms of the environment.\<close>

definition prefixes_ok :: "string \<Rightarrow> sys \<Rightarrow> bool" where
  "prefixes_ok env s \<longleftrightarrow> (\<forall>r \<in> set (api_keys s). ak_KeyPrefix (kr_key r) \<in> short_prefixes env)"

text \<open>What every operation keeps.\<close>

definition keeps :: "string \<Rightarrow> sys \<Rightarrow> sys \<Rightarrow> bool" where
  "keeps env s s' \<longleftrightarrow> grows s s' \<and> (tenants_ok s \<longrightarrow> tenants_ok s') \<and> (prefixes_ok env s \<longrightarrow> prefixes_ok env s')"

lemma keeps_same: "tenants s' = tenants s \<Longrightarrow> api_keys s' = api_keys s \<Longrightarrow> keeps env s s'"
  by (simp add: keeps_def grows_same tenants_ok_def prefixes_ok_def)

lemma keeps_trans: "keeps env s s' \<Longrightarrow> keeps env s' s'' \<Longrightarrow> keeps env s s''"
  by (auto simp: keeps_def intro: grows_trans)

lemma keeps_Create:
  assumes "tn_Email t = Some e"
  shows "keeps env s (snd (tenant_repo_Create t s))"
proof -
  obtain r s' where c: "tenant_repo_Create t s = (r, s')" by fastforce
  then have "keeps env s s'"
    using assms
  proof (cases rule: tenant_repo_Create_cases)
    case created
    then have "grows s s'" by (simp add: grows_def table_identities_def)
    moreover have "tenants_ok s'" if "tenants_ok s"
      using that created assms by (auto simp: tenants_ok_def new_tenant_simps valid_providers_def)
    ultimately show ?thesis using created by (simp add: keeps_def prefixes_ok_def)
  qed (auto intro: keeps_same)
  then show ?thesis using c by simp
qed

lemma keeps_CreateKey: "keeps env s (snd (tenant_svc_CreateKey idkey env t input s))"
proof -
  obtain r s' where c: "tenant_svc_CreateKey idkey env t input s = (r, s')" by fastforce
  then have "keeps env s s'"
  proof (cases rule: tenant_svc_CreateKey_cases)
    case (created pk p)
    then have "grows s s'" by (simp add: grows_def table_identities_def)
    moreover have "tenants_ok s'" if "tenants_ok s"
      using that created(6-10) by (auto simp: tenants_ok_def new_key_simps)
    moreover have "prefixes_ok env s'" if "prefixes_ok env s"
      using that created by (auto simp: prefixes_ok_def new_key_simps)
    ultimately show ?thesis by (simp add: keeps_def)
  qed (auto intro: keeps_same)
  then show ?thesis using c by simp
qed

lemma Signup_snd:
  "snd (tenant_svc_Signup idkey env input s) = s
   \<or> (\<exists>t s1. tn_Email t = Some (si_Email input) \<and> s1 = snd (tenant_repo_Create t (draw s))
       \<and> (snd (tenant_svc_Signup idkey env input s) = s1
          \<or> (\<exists>i k. snd (tenant_svc_Signup idkey env input s) = snd (tenant_svc_CreateKey idkey env i k s1))))"
proof (cases "validate_signup input")
  case None
  let ?slug = "if si_Slug input = [] then generateSlugFromName (si_Name input) else si_Slug input"
  let ?t = "\<lparr>tn_ID = next_uuid s, tn_Name = si_Name input, tn_Slug = ?slug, tn_Email = Some (si_Email input),
     tn_IsActive = True, tn_DefaultProviderName = [], tn_CreatedAt = 0, tn_UpdatedAt = 0\<rparr>"
  obtain r s1 where c: "tenant_repo_Create ?t (draw s) = (r, s1)" by fastforce
  have "snd (tenant_svc_Signup idkey env input s) = s1
      \<or> (\<exists>i k. snd (tenant_svc_Signup idkey env input s) = snd (tenant_svc_CreateKey idkey env i k s1))"
  proof (cases r)
    case (Inr created)
    let ?k = "\<lparr>ck_Description = ''Initial key'', ck_ExpiresAt = None\<rparr>"
    obtain r2 s2 where k: "tenant_svc_CreateKey idkey env (tn_ID created) ?k s1 = (r2, s2)" by fastforce
    then have "snd (tenant_svc_Signup idkey env input s) = s2"
      using None c Inr by (cases r2) (simp_all add: tenant_svc_Signup_def Let_def)
    then show ?thesis using k by (intro disjI2 exI [of _ "tn_ID created"] exI [of _ ?k]) simp
  qed (use None c in \<open>simp add: tenant_svc_Signup_def Let_def\<close>)
  then show ?thesis using c by (intro disjI2 exI [of _ ?t] exI [of _ s1]) simp
qed (simp add: tenant_svc_Signup_def)

lemma keeps_Revoke: "keeps env s (snd (tenant_svc_RevokeKey t i s))"
proof -
  have f: "kr_key_hash (revoke_row r) = kr_key_hash r" "key_place (revoke_row r) = key_place r"
    "key_identity (revoke_row r) = key_identity r" "ak_ID (kr_key (revoke_row r)) = ak_ID (kr_key r)"
    "ak_TenantID (kr_key (revoke_row r)) = ak_TenantID (kr_key r)"
    "ak_KeyPrefix (kr_key (revoke_row r)) = ak_KeyPrefix (kr_key r)" for r
    by (simp_all add: revoke_row_def key_place_def key_identity_def)
  let ?s = "s\<lparr>api_keys := update_where P revoke_row (api_keys s)\<rparr>"
  have "keeps env s (s\<lparr>api_keys := update_where P revoke_row (api_keys s)\<rparr>)" for P
    by (auto simp: keeps_def grows_def table_identities_def tenants_ok_def prefixes_ok_def map_update_where f
        set_update_where)
  then show ?thesis
    by (auto simp: tenant_svc_RevokeKey_def tenant_repo_RevokeAPIKey_def Let_def intro: keeps_same)
qed

lemma keeps_SetDefaultProvider: "keeps env s (snd (tenant_svc_SetDefaultProvider t p s))"
proof -
  let ?f = "\<lambda>t :: tenant. t\<lparr>tn_DefaultProviderName := p, tn_UpdatedAt := db_now s\<rparr>"
  let ?s = "s\<lparr>tenants := update_where (\<lambda>x. tn_ID x = t) ?f (tenants s)\<rparr>"
  have s': "snd (tenant_svc_SetDefaultProvider t p s) = s
      \<or> p \<in> set valid_providers \<and> snd (tenant_svc_SetDefaultProvider t p s) = ?s"
    by (auto simp: tenant_svc_SetDefaultProvider_def tenant_repo_UpdateDefaultProvider_def Let_def
        split: option.split sum.split)
  have ident: "map tenant_identity (update_where P ?f ts) = map tenant_identity ts"
    "map tn_ID (update_where P ?f ts) = map tn_ID ts" "map tn_Slug (update_where P ?f ts) = map tn_Slug ts"
    "map tn_Email (update_where P ?f ts) = map tn_Email ts" for P and ts :: "tenant list"
    by (simp_all add: map_update_where tenant_identity_def)
  then have ids: "tn_ID ` set (update_where P ?f ts) = tn_ID ` set ts" for P ts
    by (simp only: list.set_map [symmetric])
  have prov: "\<forall>x \<in> set (tenants ?s). tn_DefaultProviderName x \<in> set valid_providers"
    if "p \<in> set valid_providers" "tenants_ok s"
    using that by (auto simp: tenants_ok_def set_update_where)
  have "keeps env s ?s" if "p \<in> set valid_providers"
    using prov [OF that] by (auto simp: keeps_def grows_def table_identities_def tenants_ok_def prefixes_ok_def ident ids)
  then show ?thesis using s' by (auto intro: keeps_same)
qed

lemma tenant_step_keeps:
  assumes "tenant_step idkey env s s'"
  shows "keeps env s s'"
  using assms
proof cases
  case (step_signup input)
  have draw: "keeps env s (draw s)" by (rule keeps_same) simp_all
  then show ?thesis
    using Signup_snd [of idkey env input s] keeps_Create keeps_CreateKey step_signup
    by (metis keeps_same keeps_trans)
qed (auto intro: keeps_CreateKey keeps_Revoke keeps_SetDefaultProvider keeps_same)

lemma tenant_steps_keep: "(tenant_step idkey env)\<^sup>*\<^sup>* s s' \<Longrightarrow> keeps env s s'"
  by (induction rule: rtranclp_induct) (auto intro: keeps_same keeps_trans tenant_step_keeps)

text \<open>C25. No sequence of requests breaks the constraints of the tenant and key tables (ids, slugs and emails of
  tenants unique, providers known, keys unique per tenant and prefix and owned by a tenant), removes a tenant or
  a key, or changes the identity of a tenant or the hash, owner or expiry of a key.\<close>

theorem tenants_invariant:
  assumes "(tenant_step idkey env)\<^sup>*\<^sup>* s s'" "tenants_ok s"
  shows "tenants_ok s' \<and> prefix (map tenant_identity (tenants s)) (map tenant_identity (tenants s'))
    \<and> prefix (map key_identity (api_keys s)) (map key_identity (api_keys s'))"
  using tenant_steps_keep [OF assms(1)] assms(2) by (simp add: keeps_def grows_def table_identities_def)

text \<open>A tenant never has more than 4096 API keys, revoked ones included: keys are unique per tenant and prefix,
  no request deletes one, and only two base64 characters of a prefix vary.\<close>

theorem tenant_keys_bounded:
  assumes "(tenant_step idkey env)\<^sup>*\<^sup>* s s'" "tenants_ok s" "api_keys s = []"
  shows "length (filter (\<lambda>r. ak_TenantID (kr_key r) = t) (api_keys s')) \<le> 4096"
proof -
  have "tenants_ok s' \<and> prefixes_ok env s'"
    using tenant_steps_keep [OF assms(1)] assms(2,3) by (simp add: keeps_def prefixes_ok_def)
  then have d: "distinct (map key_place (api_keys s'))"
    and p: "\<forall>r \<in> set (api_keys s'). ak_KeyPrefix (kr_key r) \<in> short_prefixes env"
    by (simp_all add: tenants_ok_def prefixes_ok_def)
  let ?rs = "filter (\<lambda>r. ak_TenantID (kr_key r) = t) (api_keys s')"
  have "distinct ?rs" "inj_on key_place (set ?rs)"
    using d by (auto simp: distinct_map intro: inj_on_subset)
  then have "inj_on (\<lambda>r. ak_KeyPrefix (kr_key r)) (set ?rs)"
    by (auto simp: inj_on_def key_place_def)
  then have "card (set ?rs) \<le> card (short_prefixes env)"
    by (rule card_inj_on_le) (use p card_short_prefixes in auto)
  then show ?thesis using card_short_prefixes(1) [of env] distinct_card [OF \<open>distinct ?rs\<close>] by simp
qed

section \<open>Signup\<close>

definition signup_slug :: "signup_input \<Rightarrow> string" where
  "signup_slug input = (if si_Slug input = [] then generateSlugFromName (si_Name input) else si_Slug input)"

text \<open>The first key of a tenant is always created, and then the only one listed.\<close>

lemma first_key:
  assumes "\<forall>k \<in> set (api_keys s). ak_TenantID (kr_key k) \<noteq> t" "next_uuid s \<notin> (ak_ID \<circ> kr_key) ` set (api_keys s)"
    and "t \<in> tn_ID ` set (tenants s)" "ck_ExpiresAt input = None"
  obtains pk s' where "tenant_svc_CreateKey idkey env t input s = (Inr pk, s')" "tenants s' = tenants s"
    "tenant_svc_ListKeys t s' = Inr [pk_APIKey pk]"
proof -
  obtain r s' where k: "tenant_svc_CreateKey idkey env t input s = (r, s')" by fastforce
  then show thesis
  proof (cases rule: tenant_svc_CreateKey_cases)
    case (created pk p)
    have "filter (\<lambda>k. ak_TenantID k = t \<and> ak_IsActive k) (map kr_key (api_keys s)) = []"
      using assms(1) by (auto simp: filter_empty_conv)
    moreover have "ak_TenantID (pk_APIKey pk) = t" "ak_IsActive (pk_APIKey pk)"
      using created(6) by (simp_all add: new_key_def)
    ultimately show ?thesis
      using created(1,7) k by (intro that [of pk s']) (simp_all add: tenant_svc_ListKeys_def tenant_repo_ListAPIKeys_def)
  next
    case (refused e a p h)
    then show ?thesis using assms by (auto simp: key_place_def)
  qed (use assms(4) in simp)
qed

text \<open>C26. What a valid signup does, when the drawn ids are fresh: a taken slug or email is answered as a
  conflict (409) and stores no tenant; otherwise the tenant is stored under the requested or generated
  slug with Mercado Pago as its provider, is found by slug and by email, and its only key is the one
  that is returned.\<close>

theorem signup_outcome:
  assumes "validate_signup input = None" "tenants_ok s"
    and "uuids s (drawn s + 1) \<notin> tn_ID ` set (tenants s)" "uuids s (drawn s + 2) \<notin> (ak_ID \<circ> kr_key) ` set (api_keys s)"
  shows "case tenant_svc_Signup idkey env input s of
      (Inl err, s') \<Rightarrow> sentinel_status err = 409 \<and> tenants s' = tenants s
        \<and> (signup_slug input \<in> tn_Slug ` set (tenants s) \<or> Some (si_Email input) \<in> tn_Email ` set (tenants s))
    | (Inr (t, pk), s') \<Rightarrow> tenants s' = tenants s @ [t] \<and> tn_Name t = si_Name input \<and> tn_Slug t = signup_slug input
        \<and> tn_IsActive t \<and> tn_DefaultProviderName t = ''mercadopago''
        \<and> tenant_repo_GetBySlug (signup_slug input) s' = Inr t \<and> tenant_repo_GetByEmail (si_Email input) s' = Inr t
        \<and> tenant_svc_ListKeys (tn_ID t) s' = Inr [pk_APIKey pk]"
proof -
  let ?t = "\<lparr>tn_ID = next_uuid s, tn_Name = si_Name input, tn_Slug = signup_slug input, tn_Email = Some (si_Email input),
     tn_IsActive = True, tn_DefaultProviderName = [], tn_CreatedAt = 0, tn_UpdatedAt = 0\<rparr>"
  let ?k = "\<lparr>ck_Description = ''Initial key'', ck_ExpiresAt = None\<rparr>"
  obtain r s1 where c: "tenant_repo_Create ?t (draw s) = (r, s1)" by fastforce
  have eq: "tenant_svc_Signup idkey env input s = (case r of
       Inl err \<Rightarrow> (Inl err, s1)
     | Inr created \<Rightarrow> (case tenant_svc_CreateKey idkey env (tn_ID created) ?k s1 of
          (Inl err, s2) \<Rightarrow> (Inl (Wrap ''creating initial key'' err), s2)
        | (Inr plaintextKey, s2) \<Rightarrow> (Inr (created, plaintextKey), s2)))"
    using assms(1) c by (simp add: tenant_svc_Signup_def signup_slug_def Let_def split: sum.split)
  have fresh: "next_uuid (draw s) \<notin> tn_ID ` set (tenants s)" using assms(3) by (simp add: next_uuid_def)
  have email: "tn_Email ?t = Some (si_Email input)" by simp
  from c email show ?thesis
  proof (cases rule: tenant_repo_Create_cases)
    case created
    let ?n = "new_tenant ?t (draw s)"
    have n: "tn_ID ?n = next_uuid (draw s)" "tn_Name ?n = si_Name input" "tn_Slug ?n = signup_slug input"
      "tn_Email ?n = Some (si_Email input)" "tn_IsActive ?n" "tn_DefaultProviderName ?n = ''mercadopago''"
      by (simp_all add: new_tenant_def)
    have "ak_TenantID (kr_key k) \<in> tn_ID ` set (tenants s)" if "k \<in> set (api_keys s)" for k
      using assms(2) that by (simp add: tenants_ok_def)
    then have own: "\<forall>k \<in> set (api_keys s). ak_TenantID (kr_key k) \<noteq> tn_ID ?n"
      using fresh n(1) by metis
    have key: "next_uuid s1 \<notin> (ak_ID \<circ> kr_key) ` set (api_keys s1)"
      using assms(4) created(2) by (simp add: next_uuid_def draw_def)
    have keys: "api_keys s1 = api_keys s" using created(2) by simp
    obtain pk s2 where k: "tenant_svc_CreateKey idkey env (tn_ID ?n) ?k s1 = (Inr pk, s2)"
      and r2: "tenants s2 = tenants s @ [?n]" "tenant_svc_ListKeys (tn_ID ?n) s2 = Inr [pk_APIKey pk]"
      by (rule first_key [of s1 "tn_ID ?n" ?k idkey env]) (use created(1,2) own key keys n in auto)
    have "find (\<lambda>x. tn_Slug x = signup_slug input) (tenants s2) = Some ?n"
      "find (\<lambda>x. tn_Email x = Some (si_Email input)) (tenants s2) = Some ?n"
      using created(4,5) n by (auto simp: r2(1) find_append find_None_iff_all image_iff split: option.split dest!: find_SomeD)
    then have "tenant_repo_GetBySlug (signup_slug input) s2 = Inr ?n" "tenant_repo_GetByEmail (si_Email input) s2 = Inr ?n"
      using n(4) by (simp_all add: tenant_repo_GetBySlug_def tenant_repo_GetByEmail_def tenant_query_def scan_tenant_def)
    then show ?thesis using eq created(1) k r2 n by simp
  next
    case id_taken
    then show ?thesis using fresh by simp
  next
    case slug_taken
    then show ?thesis using eq by (simp add: duplicate_slug_def sentinel_status_def)
  next
    case email_taken
    then show ?thesis using eq by (simp add: duplicate_email_def sentinel_status_def)
  qed
qed

lemma trim_hyphens_hd: "trim_hyphens s = [] \<or> hd (trim_hyphens s) \<noteq> CHR ''-''"
proof -
  let ?P = "\<lambda>c. c = CHR ''-''"
  let ?d = "dropWhile ?P s"
  have "?d = [] \<or> hd ?d \<noteq> CHR ''-''" using hd_dropWhile [of ?P s] by auto
  moreover obtain q where "?d = trim_hyphens s @ q"
  proof -
    have "rev ?d = takeWhile ?P (rev ?d) @ dropWhile ?P (rev ?d)" by simp
    then have "?d = rev (dropWhile ?P (rev ?d)) @ rev (takeWhile ?P (rev ?d))"
      by (metis rev_append rev_rev_ident)
    then show ?thesis using that by (auto simp: trim_hyphens_def)
  qed
  ultimately show ?thesis by (cases "trim_hyphens s") auto
qed

lemma set_trim_hyphens: "set (trim_hyphens s) \<subseteq> set s"
  by (auto simp: trim_hyphens_def dest!: set_dropWhileD)

lemma trim_hyphens_Nil: "trim_hyphens s = [] \<longleftrightarrow> (\<forall>c \<in> set s. c = CHR ''-'')"
proof -
  have "trim_hyphens s = [] \<longleftrightarrow> (\<forall>c \<in> set (dropWhile (\<lambda>c. c = CHR ''-'') s). c = CHR ''-'')"
    by (simp add: trim_hyphens_def dropWhile_eq_Nil_conv)
  also have "\<dots> \<longleftrightarrow> (\<forall>c \<in> set s. c = CHR ''-'')"
  proof (cases "dropWhile (\<lambda>c. c = CHR ''-'') s")
    case Nil
    then show ?thesis by (auto simp: dropWhile_eq_Nil_conv dest: set_dropWhileD)
  next
    case (Cons c cs)
    then have "c \<noteq> CHR ''-''" using hd_dropWhile [of "\<lambda>c. c = CHR ''-''" s] by simp
    moreover have "c \<in> set s" using Cons set_dropWhileD [of c "\<lambda>c. c = CHR ''-''" s] by simp
    ultimately show ?thesis using Cons by auto
  qed
  finally show ?thesis .
qed

text \<open>A generated slug has only lower-case letters, digits and hyphens, at most 100 of them, and does not
  begin with a hyphen; it is empty exactly when the name has no ASCII letter or digit, and only from two
  characters on would it pass the validation that a requested slug has to pass.\<close>

theorem generated_slug:
  "let slug = generateSlugFromName name
   in list_all is_slug_char slug \<and> length slug \<le> 100 \<and> (slug = [] \<or> hd slug \<noteq> CHR ''-'')
      \<and> (slug = [] \<longleftrightarrow> (\<forall>c \<in> set name. \<not> (is_upper_az c \<or> is_lower_az c \<or> is_digit09 c)))
      \<and> (validateSlug slug = None \<longleftrightarrow> 2 \<le> length slug)"
proof -
  let ?h = "map (\<lambda>c. if c = CHR '' '' then CHR ''-'' else c) (to_lower name)"
  let ?t = "trim_hyphens (filter is_slug_char ?h)"
  have g: "generateSlugFromName name = take 100 ?t"
    by (simp add: generateSlugFromName_def Let_def)
  have chars: "list_all is_slug_char (generateSlugFromName name)"
    unfolding g list_all_iff using set_trim_hyphens [of "filter is_slug_char ?h"] by (auto dest!: in_set_takeD)
  have hd: "take 100 ?t = [] \<or> hd (take 100 ?t) \<noteq> CHR ''-''"
    using trim_hyphens_hd [of "filter is_slug_char ?h"] by (auto simp: hd_take)
  let ?f = "\<lambda>c. if lower_char c = CHR '' '' then CHR ''-'' else lower_char c"
  have h: "?h = map ?f name" by (simp add: to_lower_def)
  have word: "is_slug_char (?f c) \<and> ?f c \<noteq> CHR ''-'' \<longleftrightarrow> is_upper_az c \<or> is_lower_az c \<or> is_digit09 c" for c
    by (auto simp: is_slug_char_def lower_char_def char_range_simps char_of_eq_iff take_bit_eq_mod split: if_splits)
  have "?t = [] \<longleftrightarrow> (\<forall>d \<in> set ?h. \<not> (is_slug_char d \<and> d \<noteq> CHR ''-''))"
    by (auto simp: trim_hyphens_Nil)
  also have "\<dots> \<longleftrightarrow> (\<forall>c \<in> set name. \<not> (is_upper_az c \<or> is_lower_az c \<or> is_digit09 c))"
    by (simp only: h list.set_map ball_simps word)
  finally have "generateSlugFromName name = [] \<longleftrightarrow> (\<forall>c \<in> set name. \<not> (is_upper_az c \<or> is_lower_az c \<or> is_digit09 c))"
    by (simp add: g)
  with chars hd show ?thesis by (auto simp: Let_def validateSlug_def g)
qed

section \<open>Concrete data for the witnesses\<close>

text \<open>Two tenants, a constant key derivation and random source, and an older key of tenant 8.\<close>

definition tenant_of :: "uuid \<Rightarrow> string \<Rightarrow> tenant" where
  "tenant_of i slug = \<lparr>tn_ID = i, tn_Name = slug, tn_Slug = slug, tn_Email = Some slug, tn_IsActive = True,
     tn_DefaultProviderName = ''mercadopago'', tn_CreatedAt = 0, tn_UpdatedAt = 0\<rparr>"

definition tenant_sample_sys :: sys where
  "tenant_sample_sys = \<lparr>clock = 0, session = Unset, uuids = (\<lambda>n. of_nat n + 100), drawn = 0, jsonb = Some,
     tenants = [tenant_of 7 ''a'', tenant_of 8 ''b''], plans = [], subscriptions = [], payments = [], charges = [],
     api_keys = [], credentials = [], users = [],
     random = (\<lambda>n. CHR 0x00), random_pos = 0,
     idle = [Current_Tenant 8], choices = (\<lambda>n. 0), acquired = 0\<rparr>"

definition sample_idkey :: idkey where
  "sample_idkey pw salt t m th len = []"

definition no_expiry :: create_key_input where
  "no_expiry = \<lparr>ck_Description = [], ck_ExpiresAt = None\<rparr>"

definition whoami :: "go_context \<Rightarrow> sys \<Rightarrow> uuid response \<times> sys" where
  "whoami ctx s = (RespondOK (TenantIDFromContext ctx), s)"

definition tenant_sample_sys1 :: sys where
  "tenant_sample_sys1 = tenant_sample_sys\<lparr>api_keys :=
     [\<lparr>kr_key = new_key 8 ''payd_test_AA'' no_expiry tenant_sample_sys, kr_key_hash = ''old''\<rparr>], drawn := 1\<rparr>"

definition acme :: signup_input where
  "acme = \<lparr>si_Name = ''ACME Corp'', si_Slug = [], si_Email = ''it@acme.test'', si_Password = []\<rparr>"

theorem issued_key_authenticates_witness:
  "\<exists>pk s1. tenant_svc_CreateKey sample_idkey ''development'' 8 no_expiry tenant_sample_sys = (Inr pk, s1)
     \<and> response_status (fst (AuthMiddleware sample_idkey whoami background (''Bearer '' @ pk_Key pk) s1)) = 200"
proof -
  obtain pk s1 where c: "tenant_svc_CreateKey sample_idkey ''development'' 8 no_expiry tenant_sample_sys = (Inr pk, s1)"
  proof -
    have "ck_ExpiresAt no_expiry = None" "8 \<in> tn_ID ` set (tenants tenant_sample_sys)" "api_keys tenant_sample_sys = []"
      by code_simp+
    then show ?thesis
      using CreateKey_ok [of no_expiry 8 tenant_sample_sys sample_idkey "''development''"] that by auto
  qed
  have "\<forall>e. ck_ExpiresAt no_expiry = Some e \<longrightarrow> clock tenant_sample_sys \<le> trunc_us e" by (simp add: no_expiry_def)
  moreover have "\<forall>r \<in> set (api_keys tenant_sample_sys). ak_KeyPrefix (kr_key r) = take 12 (pk_Key pk) \<longrightarrow> \<not> ak_IsActive (kr_key r)"
    by (simp add: tenant_sample_sys_def)
  ultimately have "AuthMiddleware sample_idkey whoami background (''Bearer '' @ pk_Key pk) s1
      = whoami (WithTenantID background 8) (snd (setRLSContext 8 s1))"
    using issued_key_authenticates [OF c] by blast
  then have "response_status (fst (AuthMiddleware sample_idkey whoami background (''Bearer '' @ pk_Key pk) s1)) = 200"
    by (simp add: whoami_def)
  with c show ?thesis by blast
qed

theorem prefix_collision_witness:
  "\<exists>pk s1. tenant_svc_CreateKey sample_idkey ''development'' 7 no_expiry tenant_sample_sys1 = (Inr pk, s1)
     \<and> response_status (fst (AuthMiddleware sample_idkey whoami background (''Bearer '' @ pk_Key pk) s1)) = 401"
proof -
  have "ck_ExpiresAt no_expiry = None" "7 \<in> tn_ID ` set (tenants tenant_sample_sys1)"
    "next_uuid tenant_sample_sys1 \<notin> (ak_ID \<circ> kr_key) ` set (api_keys tenant_sample_sys1)"
    "\<forall>r \<in> set (api_keys tenant_sample_sys1). ak_TenantID (kr_key r) \<noteq> 7"
    by code_simp+
  then obtain pk s1 where c: "tenant_svc_CreateKey sample_idkey ''development'' 7 no_expiry tenant_sample_sys1 = (Inr pk, s1)"
    using CreateKey_ok by blast
  obtain k p h s0 where g: "GenerateAPIKey sample_idkey ''development'' tenant_sample_sys1 = ((k, p, h), s0)"
    by (cases "GenerateAPIKey sample_idkey ''development'' tenant_sample_sys1") auto
  have "take 12 (testKeyPrefix @ encode_to_string url_alphabet (fst (rand_read 32 tenant_sample_sys1))) = ''payd_test_AA''"
    by code_simp
  moreover have "tenant_key_hash sample_idkey k p = []" for k p
    by (simp add: tenant_key_hash_def sample_idkey_def encode_to_string_def)
  ultimately have "snd (fst (GenerateAPIKey sample_idkey ''development'' tenant_sample_sys1)) = (''payd_test_AA'', [])"
    by (simp add: GenerateAPIKey_def Let_def case_prod_beta)
  then have "p = ''payd_test_AA''" "h = []" by (simp_all add: g)
  moreover have "map_option kr_key_hash (active_key ''payd_test_AA'' tenant_sample_sys1) = Some ''old''"
    by code_simp
  ultimately obtain r where r: "active_key p tenant_sample_sys1 = Some r" "kr_key_hash r \<noteq> h"
    by auto
  from prefix_collision [OF r(1) g r(2), of "WithTenantID background 7" 7 no_expiry whoami background] c
  show ?thesis by auto
qed

lemma sample_key_step: "(tenant_step sample_idkey ''development'')\<^sup>*\<^sup>* tenant_sample_sys
    (snd (tenant_svc_CreateKey sample_idkey ''development'' 8 no_expiry tenant_sample_sys))"
  by (rule r_into_rtranclp) (rule tenant_step.step_create_key)

lemma sample_tenants_ok: "tenants_ok tenant_sample_sys" "api_keys tenant_sample_sys = []"
  by code_simp+

theorem tenants_invariant_witness:
  "tenants_ok (snd (tenant_svc_CreateKey sample_idkey ''development'' 8 no_expiry tenant_sample_sys))"
  using tenants_invariant [OF sample_key_step sample_tenants_ok(1)] by blast

theorem tenant_keys_bounded_witness:
  "length (filter (\<lambda>r. ak_TenantID (kr_key r) = 8)
     (api_keys (snd (tenant_svc_CreateKey sample_idkey ''development'' 8 no_expiry tenant_sample_sys)))) \<le> 4096"
  by (rule tenant_keys_bounded [OF sample_key_step sample_tenants_ok])

theorem signup_outcome_witness:
  "\<exists>t pk s'. tenant_svc_Signup sample_idkey ''development'' acme tenant_sample_sys = (Inr (t, pk), s')
     \<and> tenant_repo_GetBySlug ''acme-corp'' s' = Inr t"
proof -
  have h: "validate_signup acme = None" "tenants_ok tenant_sample_sys"
    "uuids tenant_sample_sys (drawn tenant_sample_sys + 1) \<notin> tn_ID ` set (tenants tenant_sample_sys)"
    "uuids tenant_sample_sys (drawn tenant_sample_sys + 2) \<notin> (ak_ID \<circ> kr_key) ` set (api_keys tenant_sample_sys)"
    "signup_slug acme = ''acme-corp''"
    "''acme-corp'' \<notin> tn_Slug ` set (tenants tenant_sample_sys)"
    "Some (si_Email acme) \<notin> tn_Email ` set (tenants tenant_sample_sys)"
    by code_simp+
  show ?thesis
    using signup_outcome [OF h(1-4), of sample_idkey "''development''"] h(5-7)
    by (auto split: prod.splits sum.splits)
qed

theorem generated_slug_witness:
  "generateSlugFromName ''?!'' = [] \<and> validateSlug (generateSlugFromName ''?!'') \<noteq> None"
proof -
  let ?g = "generateSlugFromName ''?!''"
  have *: "?g = [] \<longleftrightarrow> (\<forall>c \<in> set ''?!''. \<not> (is_upper_az c \<or> is_lower_az c \<or> is_digit09 c))"
    "validateSlug ?g = None \<longleftrightarrow> 2 \<le> length ?g"
    using generated_slug [of "''?!''"] unfolding Let_def by blast+
  have "?g = []" unfolding *(1) by (simp add: char_range_simps)
  with *(2) show ?thesis by simp
qed

end
