(* ===== verification/Aes_Gcm.thy ===== *)
theory Aes_Gcm
  imports Go_Strings
begin

unbundle bit_operations_syntax

text \<open>
  Go's packages \<open>crypto/aes\<close> and \<open>crypto/cipher\<close> as far as \<open>internal/crypto\<close> uses them: AES with a
  32-byte key (FIPS 197) and Galois/Counter Mode with a 12-byte nonce, a 16-byte tag and no
  additional data (NIST SP 800-38D). Messages are lists of bytes. The contract the program relies on
  is the locale \<open>aead\<close>: what was sealed opens to itself, and a sealed message is 16 bytes longer.
\<close>

type_synonym byte = "8 word"

section \<open>AES-256\<close>

definition sbox :: "byte list" where
  "sbox = [
   0x63, 0x7c, 0x77, 0x7b, 0xf2, 0x6b, 0x6f, 0xc5, 0x30, 0x01, 0x67, 0x2b, 0xfe, 0xd7, 0xab, 0x76,
   0xca, 0x82, 0xc9, 0x7d, 0xfa, 0x59, 0x47, 0xf0, 0xad, 0xd4, 0xa2, 0xaf, 0x9c, 0xa4, 0x72, 0xc0,
   0xb7, 0xfd, 0x93, 0x26, 0x36, 0x3f, 0xf7, 0xcc, 0x34, 0xa5, 0xe5, 0xf1, 0x71, 0xd8, 0x31, 0x15,
   0x04, 0xc7, 0x23, 0xc3, 0x18, 0x96, 0x05, 0x9a, 0x07, 0x12, 0x80, 0xe2, 0xeb, 0x27, 0xb2, 0x75,
   0x09, 0x83, 0x2c, 0x1a, 0x1b, 0x6e, 0x5a, 0xa0, 0x52, 0x3b, 0xd6, 0xb3, 0x29, 0xe3, 0x2f, 0x84,
   0x53, 0xd1, 0x00, 0xed, 0x20, 0xfc, 0xb1, 0x5b, 0x6a, 0xcb, 0xbe, 0x39, 0x4a, 0x4c, 0x58, 0xcf,
   0xd0, 0xef, 0xaa, 0xfb, 0x43, 0x4d, 0x33, 0x85, 0x45, 0xf9, 0x02, 0x7f, 0x50, 0x3c, 0x9f, 0xa8,
   0x51, 0xa3, 0x40, 0x8f, 0x92, 0x9d, 0x38, 0xf5, 0xbc, 0xb6, 0xda, 0x21, 0x10, 0xff, 0xf3, 0xd2,
   0xcd, 0x0c, 0x13, 0xec, 0x5f, 0x97, 0x44, 0x17, 0xc4, 0xa7, 0x7e, 0x3d, 0x64, 0x5d, 0x19, 0x73,
   0x60, 0x81, 0x4f, 0xdc, 0x22, 0x2a, 0x90, 0x88, 0x46, 0xee, 0xb8, 0x14, 0xde, 0x5e, 0x0b, 0xdb,
   0xe0, 0x32, 0x3a, 0x0a, 0x49, 0x06, 0x24, 0x5c, 0xc2, 0xd3, 0xac, 0x62, 0x91, 0x95, 0xe4, 0x79,
   0xe7, 0xc8, 0x37, 0x6d, 0x8d, 0xd5, 0x4e, 0xa9, 0x6c, 0x56, 0xf4, 0xea, 0x65, 0x7a, 0xae, 0x08,
   0xba, 0x78, 0x25, 0x2e, 0x1c, 0xa6, 0xb4, 0xc6, 0xe8, 0xdd, 0x74, 0x1f, 0x4b, 0xbd, 0x8b, 0x8a,
   0x70, 0x3e, 0xb5, 0x66, 0x48, 0x03, 0xf6, 0x0e, 0x61, 0x35, 0x57, 0xb9, 0x86, 0xc1, 0x1d, 0x9e,
   0xe1, 0xf8, 0x98, 0x11, 0x69, 0xd9, 0x8e, 0x94, 0x9b, 0x1e, 0x87, 0xe9, 0xce, 0x55, 0x28, 0xdf,
   0x8c, 0xa1, 0x89, 0x0d, 0xbf, 0xe6, 0x42, 0x68, 0x41, 0x99, 0x2d, 0x0f, 0xb0, 0x54, 0xbb, 0x16]"

definition sub_byte :: "byte \<Rightarrow> byte" where
  "sub_byte b = sbox ! unat b"

definition xtime :: "byte \<Rightarrow> byte" where
  "xtime b = push_bit 1 b XOR (if bit b 7 then 0x1b else 0)"

definition xor_bytes :: "byte list \<Rightarrow> byte list \<Rightarrow> byte list" where
  "xor_bytes xs ys = map2 (XOR) xs ys"

text \<open>The key schedule: 60 words of four bytes, newest first. The argument is the number of the next word.\<close>

fun rcon :: "nat \<Rightarrow> byte" where
  "rcon 0 = 1"
| "rcon (Suc n) = xtime (rcon n)"

definition next_word :: "byte list list \<Rightarrow> nat \<Rightarrow> byte list" where
  "next_word ws i =
     (let prev = ws ! 0;
          t = (if i mod 8 = 0 then xor_bytes (map sub_byte (rotate1 prev)) [rcon (i div 8 - 1), 0, 0, 0]
               else if i mod 8 = 4 then map sub_byte prev else prev)
      in xor_bytes (ws ! 7) t)"

fun expand :: "nat \<Rightarrow> nat \<Rightarrow> byte list list \<Rightarrow> byte list list" where
  "expand 0 i ws = ws"
| "expand (Suc n) i ws = expand n (Suc i) (next_word ws i # ws)"

definition key_words :: "byte list \<Rightarrow> byte list list" where
  "key_words key = rev (expand 52 8 (rev (map (\<lambda>i. take 4 (drop (4 * i) key)) [0..<8])))"

definition round_key :: "byte list list \<Rightarrow> nat \<Rightarrow> byte list" where
  "round_key ws r = concat (take 4 (drop (4 * r) ws))"

text \<open>The state is the 16 bytes in column order.\<close>

definition shift_rows :: "byte list \<Rightarrow> byte list" where
  "shift_rows st = map (\<lambda>i. st ! ((i + 4 * (i mod 4)) mod 16)) [0..<16]"

definition mix_column :: "byte list \<Rightarrow> byte list" where
  "mix_column c =
     map (\<lambda>i. let a = c ! i; b = c ! ((i + 1) mod 4); d = c ! ((i + 2) mod 4); e = c ! ((i + 3) mod 4)
               in xtime a XOR (xtime b XOR b) XOR d XOR e) [0..<4]"

definition mix_columns :: "byte list \<Rightarrow> byte list" where
  "mix_columns st = concat (map (\<lambda>k. mix_column (take 4 (drop (4 * k) st))) [0..<4])"

definition aes_round :: "byte list list \<Rightarrow> byte list \<Rightarrow> nat \<Rightarrow> byte list" where
  "aes_round ws st r = xor_bytes (mix_columns (shift_rows (map sub_byte st))) (round_key ws r)"

definition aes_block :: "byte list \<Rightarrow> byte list \<Rightarrow> byte list" where
  "aes_block key b =
     (let ws = key_words key;
          st = foldl (aes_round ws) (xor_bytes b (round_key ws 0)) [1..<14];
          last = shift_rows (map sub_byte st);
          rk = round_key ws 14
      in map (\<lambda>i. (last ! i) XOR (rk ! i)) [0..<16])"

section \<open>Galois/Counter Mode\<close>

type_synonym block = "128 word"

definition bytes_to_block :: "byte list \<Rightarrow> block" where
  "bytes_to_block bs = foldl (\<lambda>x b. push_bit 8 x OR ucast b) 0 bs"

definition block_to_bytes :: "block \<Rightarrow> byte list" where
  "block_to_bytes x = map (\<lambda>i. ucast (drop_bit (8 * (15 - i)) x)) [0..<16]"

text \<open>Multiplication in the field of 2 to the 128 elements; the most significant bit is the first.\<close>

fun gf_mult_bits :: "nat \<Rightarrow> block \<Rightarrow> block \<Rightarrow> block \<Rightarrow> block" where
  "gf_mult_bits 0 x v z = z"
| "gf_mult_bits (Suc n) x v z =
     gf_mult_bits n x (drop_bit 1 v XOR (if bit v 0 then push_bit 120 0xe1 else 0)) (if bit x n then z XOR v else z)"

definition gf_mult :: "block \<Rightarrow> block \<Rightarrow> block" where
  "gf_mult x y = gf_mult_bits 128 x y 0"

function chunks :: "'a list \<Rightarrow> 'a list list" where
  "chunks xs = (if xs = [] then [] else take 16 xs # chunks (drop 16 xs))"
  by pat_completeness auto
termination
  by (relation "measure length") auto

declare chunks.simps [simp del]

definition pad_block :: "byte list \<Rightarrow> byte list" where
  "pad_block bs = bs @ replicate (16 - length bs) 0"

definition ghash :: "block \<Rightarrow> byte list \<Rightarrow> block" where
  "ghash h ct =
     (let y = foldl (\<lambda>y b. gf_mult (y XOR bytes_to_block (pad_block b)) h) 0 (chunks ct)
      in gf_mult (y XOR of_nat (8 * length ct)) h)"

definition counter_block :: "byte list \<Rightarrow> nat \<Rightarrow> byte list" where
  "counter_block nonce n = nonce @ map (\<lambda>i. ucast (drop_bit (8 * (3 - i)) (of_nat n :: 32 word))) [0..<4]"

definition keystream :: "byte list \<Rightarrow> byte list \<Rightarrow> nat \<Rightarrow> byte list" where
  "keystream key nonce n = concat (map (\<lambda>k. aes_block key (counter_block nonce (k + 2))) [0..<n])"

definition ctr_xor :: "byte list \<Rightarrow> byte list \<Rightarrow> byte list \<Rightarrow> byte list" where
  "ctr_xor key nonce p = xor_bytes p (keystream key nonce ((length p + 15) div 16))"

definition gcm_tag :: "byte list \<Rightarrow> byte list \<Rightarrow> byte list \<Rightarrow> byte list" where
  "gcm_tag key nonce ct =
     block_to_bytes (ghash (bytes_to_block (aes_block key (replicate 16 0))) ct
       XOR bytes_to_block (aes_block key (counter_block nonce 1)))"

definition gcm_seal :: "byte list \<Rightarrow> byte list \<Rightarrow> byte list \<Rightarrow> byte list" where
  "gcm_seal key nonce p = (let ct = ctr_xor key nonce p in ct @ gcm_tag key nonce ct)"

definition gcm_open :: "byte list \<Rightarrow> byte list \<Rightarrow> byte list \<Rightarrow> byte list option" where
  "gcm_open key nonce sealed =
     (if length sealed < 16 then None
      else let ct = take (length sealed - 16) sealed
           in if drop (length sealed - 16) sealed = gcm_tag key nonce ct then Some (ctr_xor key nonce ct) else None)"

section \<open>The contract\<close>

locale aead =
  fixes seal :: "byte list \<Rightarrow> byte list \<Rightarrow> byte list \<Rightarrow> byte list"
    and open_sealed :: "byte list \<Rightarrow> byte list \<Rightarrow> byte list \<Rightarrow> byte list option"
  assumes open_seal: "open_sealed key nonce (seal key nonce p) = Some p"
    and length_seal: "length (seal key nonce p) = length p + 16"
begin

text \<open>A message that carries its nonce in front is opened by splitting at the length of the nonce.\<close>

lemma open_prefixed:
  assumes "msg = nonce @ seal key nonce p" "length nonce = n"
  shows "open_sealed key (take n msg) (drop n msg) = Some p" "n \<le> length msg"
  using assms by (auto simp: open_seal)

lemma seal_inject: "seal key nonce p = seal key nonce q \<Longrightarrow> p = q"
  using open_seal by (metis option.inject)

end

lemma length_xor_bytes [simp]: "length (xor_bytes xs ys) = min (length xs) (length ys)"
  by (simp add: xor_bytes_def)

lemma length_aes_block [simp]: "length (aes_block key b) = 16"
  by (simp add: aes_block_def Let_def)

lemma length_keystream [simp]: "length (keystream key nonce n) = 16 * n"
  by (induction n) (simp_all add: keystream_def)

lemma blocks_enough: "n \<le> 16 * ((n + 15) div 16)" for n :: nat
  by arith

lemma length_ctr_xor [simp]: "length (ctr_xor key nonce p) = length p"
  using blocks_enough [of "length p"] by (simp add: ctr_xor_def)

lemma xor_bytes_twice: "length xs \<le> length ks \<Longrightarrow> xor_bytes (xor_bytes xs ks) ks = xs"
proof (induction xs arbitrary: ks)
  case (Cons x xs)
  then show ?case by (cases ks) (auto simp: xor_bytes_def xor.assoc)
qed (simp add: xor_bytes_def)

lemma ctr_xor_twice: "ctr_xor key nonce (ctr_xor key nonce p) = p"
proof -
  let ?ks = "keystream key nonce ((length p + 15) div 16)"
  have "ctr_xor key nonce (ctr_xor key nonce p) = xor_bytes (xor_bytes p ?ks) ?ks"
    using length_ctr_xor [of key nonce p] by (simp add: ctr_xor_def)
  also have "\<dots> = p" by (rule xor_bytes_twice) (simp add: blocks_enough)
  finally show ?thesis .
qed

lemma length_gcm_tag [simp]: "length (gcm_tag key nonce ct) = 16"
  by (simp add: gcm_tag_def block_to_bytes_def)

interpretation gcm: aead gcm_seal gcm_open
  by unfold_locales (simp_all add: gcm_seal_def gcm_open_def Let_def ctr_xor_twice)

end
