(* ===== verification/Hmac_Sha256.thy ===== *)
theory Hmac_Sha256
  imports Go_Strings
begin

unbundle bit_operations_syntax

text \<open>
  Go's packages \<open>crypto/sha256\<close> (FIPS 180-4), \<open>crypto/hmac\<close> (RFC 2104) and \<open>encoding/hex\<close>, which the
  webhook code uses to authenticate a notification. Strings are converted to bytes one to one.
\<close>

type_synonym w32 = "32 word"

definition sha_k :: "w32 list" where
  "sha_k = [
   0x428a2f98, 0x71374491, 0xb5c0fbcf, 0xe9b5dba5, 0x3956c25b, 0x59f111f1,
   0x923f82a4, 0xab1c5ed5, 0xd807aa98, 0x12835b01, 0x243185be, 0x550c7dc3,
   0x72be5d74, 0x80deb1fe, 0x9bdc06a7, 0xc19bf174, 0xe49b69c1, 0xefbe4786,
   0x0fc19dc6, 0x240ca1cc, 0x2de92c6f, 0x4a7484aa, 0x5cb0a9dc, 0x76f988da,
   0x983e5152, 0xa831c66d, 0xb00327c8, 0xbf597fc7, 0xc6e00bf3, 0xd5a79147,
   0x06ca6351, 0x14292967, 0x27b70a85, 0x2e1b2138, 0x4d2c6dfc, 0x53380d13,
   0x650a7354, 0x766a0abb, 0x81c2c92e, 0x92722c85, 0xa2bfe8a1, 0xa81a664b,
   0xc24b8b70, 0xc76c51a3, 0xd192e819, 0xd6990624, 0xf40e3585, 0x106aa070,
   0x19a4c116, 0x1e376c08, 0x2748774c, 0x34b0bcb5, 0x391c0cb3, 0x4ed8aa4a,
   0x5b9cca4f, 0x682e6ff3, 0x748f82ee, 0x78a5636f, 0x84c87814, 0x8cc70208,
   0x90befffa, 0xa4506ceb, 0xbef9a3f7, 0xc67178f2]"

definition sha_h0 :: "w32 list" where
  "sha_h0 = [
   0x6a09e667, 0xbb67ae85, 0x3c6ef372, 0xa54ff53a,
   0x510e527f, 0x9b05688c, 0x1f83d9ab, 0x5be0cd19]"

definition rotr :: "nat \<Rightarrow> w32 \<Rightarrow> w32" where
  "rotr n x = drop_bit n x OR push_bit (32 - n) x"

definition small_sigma0 :: "w32 \<Rightarrow> w32" where
  "small_sigma0 x = rotr 7 x XOR rotr 18 x XOR drop_bit 3 x"

definition small_sigma1 :: "w32 \<Rightarrow> w32" where
  "small_sigma1 x = rotr 17 x XOR rotr 19 x XOR drop_bit 10 x"

definition big_sigma0 :: "w32 \<Rightarrow> w32" where
  "big_sigma0 x = rotr 2 x XOR rotr 13 x XOR rotr 22 x"

definition big_sigma1 :: "w32 \<Rightarrow> w32" where
  "big_sigma1 x = rotr 6 x XOR rotr 11 x XOR rotr 25 x"

text \<open>The message schedule, newest word first.\<close>

fun schedule :: "nat \<Rightarrow> w32 list \<Rightarrow> w32 list" where
  "schedule 0 ws = ws"
| "schedule (Suc n) ws = schedule n ((small_sigma1 (ws ! 1) + ws ! 6 + small_sigma0 (ws ! 14) + ws ! 15) # ws)"

fun compress_round :: "w32 list \<Rightarrow> w32 \<times> w32 \<Rightarrow> w32 list" where
  "compress_round [a, b, c, d, e, f, g, h] (k, w) =
     (let t1 = h + big_sigma1 e + ((e AND f) XOR (NOT e AND g)) + k + w;
          t2 = big_sigma0 a + ((a AND b) XOR (a AND c) XOR (b AND c))
      in [t1 + t2, a, b, c, d + t1, e, f, g])"
| "compress_round st kw = st"

definition word_of_bytes :: "8 word list \<Rightarrow> w32" where
  "word_of_bytes bs = foldl (\<lambda>x b. push_bit 8 x OR ucast b) 0 bs"

definition bytes_of_word :: "w32 \<Rightarrow> 8 word list" where
  "bytes_of_word x = map (\<lambda>i. ucast (drop_bit (8 * (3 - i)) x)) [0..<4]"

definition compress :: "w32 list \<Rightarrow> 8 word list \<Rightarrow> w32 list" where
  "compress h block =
     (let ws = rev (schedule 48 (rev (map (\<lambda>i. word_of_bytes (take 4 (drop (4 * i) block))) [0..<16])))
      in map2 (+) h (foldl compress_round h (zip sha_k ws)))"

definition sha_pad :: "8 word list \<Rightarrow> 8 word list" where
  "sha_pad m = m @ [0x80] @ replicate (63 - (length m + 8) mod 64) 0
     @ map (\<lambda>i. ucast (drop_bit (8 * (7 - i)) (of_nat (8 * length m) :: 64 word))) [0..<8]"

definition sha256 :: "8 word list \<Rightarrow> 8 word list" where
  "sha256 m =
     (let p = sha_pad m
      in concat (map bytes_of_word
           (foldl (\<lambda>h k. compress h (take 64 (drop (64 * k) p))) sha_h0 [0..<length p div 64])))"

definition hmac_sha256 :: "8 word list \<Rightarrow> 8 word list \<Rightarrow> 8 word list" where
  "hmac_sha256 key m =
     (let k = (if 64 < length key then sha256 key else key);
          k = k @ replicate (64 - length k) 0
      in sha256 (map (\<lambda>b. b XOR 0x5c) k @ sha256 (map (\<lambda>b. b XOR 0x36) k @ m)))"

definition string_bytes :: "string \<Rightarrow> 8 word list" where
  "string_bytes s = map (\<lambda>c. of_nat (of_char c)) s"

definition hex_digits :: string where
  "hex_digits = ''0123456789abcdef''"

definition hex_digit :: "nat \<Rightarrow> char" where
  "hex_digit n = hex_digits ! n"

definition hex_encode :: "8 word list \<Rightarrow> string" where
  "hex_encode bs = concat (map (\<lambda>b. [hex_digit (unat b div 16), hex_digit (unat b mod 16)]) bs)"

text \<open>\<open>hex.EncodeToString\<close> of the code of a message under a key, both given as strings.\<close>

definition hmac_hex :: "string \<Rightarrow> string \<Rightarrow> string" where
  "hmac_hex secret message = hex_encode (hmac_sha256 (string_bytes secret) (string_bytes message))"

lemma hex_digit_range: "n < 16 \<Longrightarrow> hex_digit n \<in> set hex_digits"
  unfolding hex_digit_def by (rule nth_mem) (simp add: hex_digits_def)

lemma hex_encode_chars: "set (hex_encode bs) \<subseteq> set hex_digits"
proof -
  have "unat b div 16 < 16" for b :: "8 word"
  proof -
    have "unat b < 2 ^ LENGTH(8)" by (rule unsigned_less)
    then show ?thesis by auto
  qed
  then show ?thesis by (auto simp: hex_encode_def hex_digit_range)
qed

lemma hmac_hex_no_separator: "c \<in> {CHR '','', CHR ''='', CHR ''|''} \<Longrightarrow> c \<notin> set (hmac_hex secret m)"
  using hex_encode_chars [of "hmac_sha256 (string_bytes secret) (string_bytes m)"] by (auto simp: hmac_hex_def hex_digits_def)

text \<open>A code is 64 digits long.\<close>

lemma length_compress [simp]: "length (compress h block) = length h"
proof -
  have "length (compress_round st kw) = length st" for st kw
    by (cases "(st, kw)" rule: compress_round.cases) (simp_all add: Let_def)
  then have "length (foldl compress_round st kws) = length st" for st kws
    by (induction kws arbitrary: st) simp_all
  then show ?thesis by (simp add: compress_def Let_def)
qed

lemma length_sha256 [simp]: "length (sha256 m) = 32"
proof -
  have "length (foldl (\<lambda>h k. compress h (f k)) st ks) = length st" for f st and ks :: "nat list"
    by (induction ks arbitrary: st) simp_all
  moreover have "length (concat (map bytes_of_word ws)) = 4 * length ws" for ws
    by (induction ws) (simp_all add: bytes_of_word_def)
  ultimately show ?thesis by (simp add: sha256_def Let_def sha_h0_def)
qed

lemma length_hmac_hex: "length (hmac_hex secret m) = 64"
proof -
  have "length (hex_encode bs) = 2 * length bs" for bs by (induction bs) (simp_all add: hex_encode_def)
  then show ?thesis by (simp add: hmac_hex_def hmac_sha256_def Let_def)
qed

end
