(* ===== verification/Crypto.thy ===== *)
theory Crypto
  imports Aes_Gcm Hmac_Sha256 Base64 Database
begin

text \<open>
  Package \<open>internal/crypto\<close>: a text is sealed with AES-256-GCM under a fresh 12-byte nonce and stored as
  the base64 form of nonce and sealed message. The checks of \<open>aes.NewCipher\<close> and \<open>cipher.NewGCM\<close> cannot
  fail for a 32-byte key.
\<close>

definition bytes_string :: "8 word list \<Rightarrow> string" where
  "bytes_string bs = map (\<lambda>b. char_of (unat b)) bs"

definition nonce_size :: nat where "nonce_size = 12"

definition Encrypt :: "string \<Rightarrow> string \<Rightarrow> sys \<Rightarrow> (gerror + string) \<times> sys" where
  "Encrypt plaintext key s =
     (if length key \<noteq> 32
      then (Inl (Plain (''encryption key must be 32 bytes, got '' @ nat_to_string (length key))), s)
      else let (nonce, s1) = rand_read nonce_size s;
               ciphertext = nonce @ bytes_string (gcm_seal (string_bytes key) (string_bytes nonce) (string_bytes plaintext))
           in (Inr (encode_to_string std_alphabet ciphertext), s1))"

definition Decrypt :: "string \<Rightarrow> string \<Rightarrow> gerror + string" where
  "Decrypt encoded key =
     (if length key \<noteq> 32
      then Inl (Plain (''decryption key must be 32 bytes, got '' @ nat_to_string (length key)))
      else case decode_string std_alphabet encoded of
        None \<Rightarrow> Inl (Wrap ''decoding base64'' (Plain ''illegal base64 data''))
      | Some data \<Rightarrow>
          (if length data < nonce_size
           then Inl (Plain (''ciphertext too short (minimum '' @ nat_to_string nonce_size @ '' bytes, got ''
                       @ nat_to_string (length data) @ '')''))
           else case gcm_open (string_bytes key) (string_bytes (take nonce_size data)) (string_bytes (drop nonce_size data)) of
             None \<Rightarrow> Inl (Wrap ''decryption failed'' (Plain ''cipher: message authentication failed''))
           | Some plaintext \<Rightarrow> Inr (bytes_string plaintext)))"

section \<open>Lemmas\<close>

lemma string_bytes_inverse [simp]: "bytes_string (string_bytes s) = s"
proof -
  have "unat (of_nat (of_char c) :: 8 word) = of_char c" for c
    by (simp add: unat_of_nat of_char_less_256 take_bit_nat_eq_self)
  then show ?thesis by (simp add: bytes_string_def string_bytes_def comp_def)
qed

lemma bytes_string_inverse [simp]: "string_bytes (bytes_string bs) = bs"
proof -
  have "of_nat (of_char (char_of (unat b) :: char)) = b" for b :: "8 word"
  proof -
    have "unat b < 256" using unsigned_less [of b] by simp
    then show ?thesis by (simp add: of_char_of)
  qed
  then show ?thesis by (simp add: bytes_string_def string_bytes_def comp_def map_idI)
qed

lemma string_bytes_take_drop:
  "string_bytes (take n s) = take n (string_bytes s)" "string_bytes (drop n s) = drop n (string_bytes s)"
  "length (string_bytes s) = length s" "string_bytes (s @ t) = string_bytes s @ string_bytes t"
  "length (bytes_string bs) = length bs"
  by (simp_all add: string_bytes_def take_map drop_map bytes_string_def)

lemma Encrypt_cases:
  obtains "length key \<noteq> 32" "Encrypt p key s = (Inl (Plain (''encryption key must be 32 bytes, got '' @ nat_to_string (length key))), s)"
    | e where "length key = 32" "Encrypt p key s = (Inr e, s\<lparr>random_pos := random_pos s + 12\<rparr>)" "e \<noteq> []" "Decrypt e key = Inr p"
proof (cases "length key = 32")
  case False
  then show ?thesis using that(1) by (simp add: Encrypt_def)
next
  case True
  let ?nonce = "fst (rand_read nonce_size s)"
  let ?c = "?nonce @ bytes_string (gcm_seal (string_bytes key) (string_bytes ?nonce) (string_bytes p))"
  let ?e = "encode_to_string std_alphabet ?c"
  have enc: "Encrypt p key s = (Inr ?e, s\<lparr>random_pos := random_pos s + 12\<rparr>)"
    using True by (simp add: Encrypt_def case_prod_beta' nonce_size_def Let_def)
  have dec: "decode_string std_alphabet ?e = Some ?c" by (rule decode_encode_string) (rule good_alphabets)
  have msg: "string_bytes ?c = string_bytes ?nonce @ gcm_seal (string_bytes key) (string_bytes ?nonce) (string_bytes p)"
    by (simp add: string_bytes_take_drop)
  have "gcm_open (string_bytes key) (string_bytes (take nonce_size ?c)) (string_bytes (drop nonce_size ?c)) = Some (string_bytes p)"
    unfolding string_bytes_take_drop(1,2)
    using gcm.open_prefixed(1) [OF msg, of nonce_size] by (simp add: string_bytes_take_drop)
  then have "Decrypt ?e key = Inr p"
    using True dec by (simp add: Decrypt_def)
  moreover have "?e \<noteq> []"
  proof
    assume "?e = []"
    then have "decode_string std_alphabet ?e = Some []" by (simp add: decode_string_def)
    with dec have "?c = []" by (metis option.inject)
    then have "length ?nonce = 0" by (simp only: append_is_Nil_conv list.size)
    then show False by (simp add: nonce_size_def)
  qed
  ultimately show ?thesis using that(2) [OF True enc] by blast
qed

text \<open>C27. What was encrypted under a 32-byte key decrypts to itself under that key, whatever the nonce;
  any other key length is refused on both sides.\<close>

theorem decrypt_encrypt:
  "case Encrypt plaintext key s of
     (Inr e, s') \<Rightarrow> length key = 32 \<and> Decrypt e key = Inr plaintext
   | (Inl err, s') \<Rightarrow> length key \<noteq> 32 \<and> s' = s \<and> (\<forall>e. \<not> is_ok (Decrypt e key))"
  by (rule Encrypt_cases [of key plaintext s]) (simp_all add: Decrypt_def)

end
