(* ===== verification/Json_Map.thy ===== *)
theory Json_Map
  imports Go_Strings Hmac_Sha256 "HOL-Library.AList" "HOL-Library.List_Lexorder"
begin

text \<open>
  Go's package \<open>encoding/json\<close> for values of type \<open>map[string]string\<close>, the shape of a provider
  configuration. A Go map is an association list, read with \<open>map_of\<close>. \<open>json_marshal_map\<close> prints the
  keys in order and escapes as \<open>json.Marshal\<close> does (HTML characters and invalid UTF-8 included);
  \<open>json_unmarshal_map\<close> is \<open>json.Unmarshal\<close>, \<open>None\<close> for any error. Decoding what was encoded gives
  the same map back; this is proved for ASCII texts.
\<close>

section \<open>UTF-8\<close>

definition byte_of :: "char \<Rightarrow> nat" where
  "byte_of c = of_char c"

definition cont_byte :: "char \<Rightarrow> bool" where
  "cont_byte c \<longleftrightarrow> 0x80 \<le> byte_of c \<and> byte_of c \<le> 0xBF"

text \<open>The length of the valid multi-byte sequence at the head of a text, 0 when there is none.\<close>

definition utf8_size :: "string \<Rightarrow> nat" where
  "utf8_size s =
     (case s of
        b0 # b1 # rest \<Rightarrow>
          (let x = byte_of b0; y = byte_of b1;
               lo = (if x = 0xE0 then 0xA0 else if x = 0xF0 then 0x90 else 0x80);
               hi = (if x = 0xED then 0x9F else if x = 0xF4 then 0x8F else 0xBF)
           in if y < lo \<or> hi < y then 0
              else if 0xC2 \<le> x \<and> x \<le> 0xDF then 2
              else if 0xE0 \<le> x \<and> x \<le> 0xEF then (case rest of b2 # _ \<Rightarrow> if cont_byte b2 then 3 else 0 | [] \<Rightarrow> 0)
              else if 0xF0 \<le> x \<and> x \<le> 0xF4
              then (case rest of b2 # b3 # _ \<Rightarrow> if cont_byte b2 \<and> cont_byte b3 then 4 else 0 | _ \<Rightarrow> 0)
              else 0)
      | _ \<Rightarrow> 0)"

definition utf8_encode :: "nat \<Rightarrow> string" where
  "utf8_encode r =
     map char_of
       (if r < 0x80 then [r]
        else if r < 0x800 then [0xC0 + r div 64, 0x80 + r mod 64]
        else if r < 0x10000 then [0xE0 + r div 4096, 0x80 + r div 64 mod 64, 0x80 + r mod 64]
        else [0xF0 + r div 262144, 0x80 + r div 4096 mod 64, 0x80 + r div 64 mod 64, 0x80 + r mod 64])"

definition replacement :: string where
  "replacement = utf8_encode 0xFFFD"

section \<open>Printing\<close>

definition u_escape :: "nat \<Rightarrow> string" where
  "u_escape n = [CHR 0x5C, CHR ''u'', hex_digit (n div 4096 mod 16), hex_digit (n div 256 mod 16),
     hex_digit (n div 16 mod 16), hex_digit (n mod 16)]"

definition json_escape :: "char \<Rightarrow> string" where
  "json_escape c =
     (if c = CHR 0x22 \<or> c = CHR 0x5C then [CHR 0x5C, c]
      else if c = CHR 0x08 then [CHR 0x5C, CHR ''b'']
      else if c = CHR 0x0C then [CHR 0x5C, CHR ''f'']
      else if c = CHR 0x0A then [CHR 0x5C, CHR ''n'']
      else if c = CHR 0x0D then [CHR 0x5C, CHR ''r'']
      else if c = CHR 0x09 then [CHR 0x5C, CHR ''t'']
      else if byte_of c < 0x20 \<or> c = CHR ''<'' \<or> c = CHR ''>'' \<or> c = CHR ''&'' then u_escape (byte_of c)
      else [c])"

function json_chars :: "string \<Rightarrow> string" where
  "json_chars s =
     (case s of
        [] \<Rightarrow> []
      | c # cs \<Rightarrow>
          (if byte_of c < 0x80 then json_escape c @ json_chars cs
           else let n = utf8_size s in
             if n = 0 then u_escape 0xFFFD @ json_chars cs
             else (let r = take n s
                   in if r = utf8_encode 0x2028 then u_escape 0x2028
                      else if r = utf8_encode 0x2029 then u_escape 0x2029 else r)
               @ json_chars (drop n s)))"
  by pat_completeness auto
termination
  by (relation "measure length") (auto simp: Let_def)

declare json_chars.simps [simp del]

definition json_quote :: "string \<Rightarrow> string" where
  "json_quote s = [CHR 0x22] @ json_chars s @ [CHR 0x22]"

definition json_marshal_map :: "(string \<times> string) list \<Rightarrow> string" where
  "json_marshal_map m =
     ''{'' @ join '','' (map (\<lambda>(k, v). json_quote k @ '':'' @ json_quote v) (sort_key fst (AList.clearjunk m))) @ ''}''"

section \<open>Reading\<close>

definition hex_value :: "char \<Rightarrow> nat option" where
  "hex_value c =
     (let n = byte_of c
      in if 48 \<le> n \<and> n \<le> 57 then Some (n - 48)
         else if 97 \<le> n \<and> n \<le> 102 then Some (n - 87)
         else if 65 \<le> n \<and> n \<le> 70 then Some (n - 55) else None)"

text \<open>Four hexadecimal digits and what follows them.\<close>

definition hex4 :: "string \<Rightarrow> (nat \<times> string) option" where
  "hex4 s =
     (case s of
        a # b # c # d # rest \<Rightarrow>
          (case (hex_value a, hex_value b, hex_value c, hex_value d) of
             (Some w, Some x, Some y, Some z) \<Rightarrow> Some (w * 4096 + x * 256 + y * 16 + z, rest)
           | _ \<Rightarrow> None)
      | _ \<Rightarrow> None)"

definition is_high :: "nat \<Rightarrow> bool" where "is_high r \<longleftrightarrow> 0xD800 \<le> r \<and> r < 0xDC00"
definition is_low :: "nat \<Rightarrow> bool" where "is_low r \<longleftrightarrow> 0xDC00 \<le> r \<and> r < 0xE000"

text \<open>The rune of a \<open>\u\<close> escape: a surrogate pair takes the next escape too, a lone surrogate is replaced.\<close>

definition u_rune :: "string \<Rightarrow> (nat \<times> string) option" where
  "u_rune s =
     (case hex4 s of
        None \<Rightarrow> None
      | Some (r, rest) \<Rightarrow>
          (if is_high r \<and> take 2 rest = [CHR 0x5C, CHR ''u'']
           then (case hex4 (drop 2 rest) of
                   Some (r2, rest2) \<Rightarrow>
                     (if is_low r2 then Some (0x10000 + (r - 0xD800) * 1024 + (r2 - 0xDC00), rest2) else Some (0xFFFD, rest))
                 | None \<Rightarrow> Some (0xFFFD, rest))
           else if is_high r \<or> is_low r then Some (0xFFFD, rest) else Some (r, rest)))"

definition simple_escape :: "char \<Rightarrow> char option" where
  "simple_escape e =
     (if e = CHR 0x22 \<or> e = CHR 0x5C \<or> e = CHR ''/'' then Some e
      else if e = CHR ''b'' then Some (CHR 0x08)
      else if e = CHR ''f'' then Some (CHR 0x0C)
      else if e = CHR ''n'' then Some (CHR 0x0A)
      else if e = CHR ''r'' then Some (CHR 0x0D)
      else if e = CHR ''t'' then Some (CHR 0x09) else None)"

text \<open>One element of a string literal: the bytes it stands for and the rest of the text.\<close>

definition literal_item :: "string \<Rightarrow> (string \<times> string) option" where
  "literal_item s =
     (case s of
        [] \<Rightarrow> None
      | c # cs \<Rightarrow>
          (if c = CHR 0x5C
           then (case cs of
                   [] \<Rightarrow> None
                 | e # es \<Rightarrow>
                     (if e = CHR ''u'' then map_option (\<lambda>(r, rest). (utf8_encode r, rest)) (u_rune es)
                      else map_option (\<lambda>x. ([x], es)) (simple_escape e)))
           else if byte_of c < 0x20 then None
           else if byte_of c < 0x80 then Some ([c], cs)
           else if utf8_size s = 0 then Some (replacement, cs)
           else Some (take (utf8_size s) s, drop (utf8_size s) s)))"

text \<open>A string literal after its opening quote; each item takes at least one byte, so the length of the
  text is enough fuel.\<close>

fun literal :: "nat \<Rightarrow> string \<Rightarrow> (string \<times> string) option" where
  "literal 0 s = None"
| "literal (Suc n) s =
     (if s \<noteq> [] \<and> hd s = CHR 0x22 then Some ([], tl s)
      else case literal_item s of
        None \<Rightarrow> None
      | Some (bs, rest) \<Rightarrow> map_option (\<lambda>(t, r). (bs @ t, r)) (literal n rest))"

definition parse_quoted :: "string \<Rightarrow> (string \<times> string) option" where
  "parse_quoted s = (if s \<noteq> [] \<and> hd s = CHR 0x22 then literal (length s) (tl s) else None)"

definition skip_space :: "string \<Rightarrow> string" where
  "skip_space s = dropWhile (\<lambda>c. c = CHR '' '' \<or> c = CHR 0x09 \<or> c = CHR 0x0A \<or> c = CHR 0x0D) s"

definition starts :: "char \<Rightarrow> string \<Rightarrow> bool" where
  "starts c s \<longleftrightarrow> s \<noteq> [] \<and> hd s = c"

text \<open>The value of a member: a string, or \<open>null\<close>, which decodes to the empty string.\<close>

definition parse_elem :: "string \<Rightarrow> (string \<times> string) option" where
  "parse_elem s = (if prefix ''null'' s then Some ([], drop 4 s) else parse_quoted s)"

fun parse_members :: "nat \<Rightarrow> string \<Rightarrow> (string \<times> string) list \<Rightarrow> ((string \<times> string) list \<times> string) option" where
  "parse_members 0 s acc = None"
| "parse_members (Suc n) s acc =
     (case parse_quoted (skip_space s) of
        None \<Rightarrow> None
      | Some (k, r) \<Rightarrow>
          (if starts (CHR '':'') (skip_space r)
           then (case parse_elem (skip_space (tl (skip_space r))) of
                   None \<Rightarrow> None
                 | Some (v, r2) \<Rightarrow>
                     (let acc = AList.update k v acc; r3 = skip_space r2
                      in if starts (CHR '','') r3 then parse_members n (tl r3) acc
                         else if starts (CHR ''}'') r3 then Some (acc, tl r3) else None))
           else None))"

definition json_unmarshal_map :: "string \<Rightarrow> (string \<times> string) list option" where
  "json_unmarshal_map s =
     (let t = skip_space s
      in if prefix ''null'' t then (if skip_space (drop 4 t) = [] then Some [] else None)
         else if \<not> starts (CHR ''{'') t then None
         else let u = skip_space (tl t)
              in if starts (CHR ''}'') u then (if skip_space (tl u) = [] then Some [] else None)
                 else case parse_members (length u) u [] of
                        None \<Rightarrow> None
                      | Some (m, r) \<Rightarrow> (if skip_space r = [] then Some m else None))"

section \<open>Reading what was printed\<close>

definition ascii :: "string \<Rightarrow> bool" where
  "ascii s \<longleftrightarrow> (\<forall>c \<in> set s. byte_of c < 0x80)"

lemma byte_of_less: "byte_of c < 256"
  by (simp add: byte_of_def)

lemma char_of_byte [simp]: "char_of (byte_of c) = c"
  by (simp add: byte_of_def)

lemma hex_value_digit: "n < 16 \<Longrightarrow> hex_value (hex_digit n) = Some n"
proof -
  have "\<forall>n \<in> set [0..<16]. hex_value (hex_digit n) = Some n" by code_simp
  then show "n < 16 \<Longrightarrow> hex_value (hex_digit n) = Some n" by simp
qed

lemma hex4_digits:
  assumes "n < 65536"
  shows "hex4 (hex_digit (n div 4096 mod 16) # hex_digit (n div 256 mod 16) # hex_digit (n div 16 mod 16)
    # hex_digit (n mod 16) # rest) = Some (n, rest)"
proof -
  have m: "n div 4096 mod 16 = n div 4096" using assms by (intro mod_less) auto
  have less16: "hex_value (hex_digit (n div 4096)) = Some (n div 4096)" using assms by (intro hex_value_digit) auto
  have "n = n div 16 * 16 + n mod 16" "n div 16 = n div 256 * 16 + n div 16 mod 16"
    "n div 256 = n div 4096 * 16 + n div 256 mod 16"
    using div_mult2_eq [of n 16 16] div_mult2_eq [of n 256 16] by simp_all
  then have "n div 4096 * 4096 + n div 256 mod 16 * 256 + n div 16 mod 16 * 16 + n mod 16 = n"
    by linarith
  then show ?thesis by (simp add: hex4_def hex_value_digit m less16)
qed

lemma literal_item_escape:
  assumes "byte_of c < 0x80"
  shows "literal_item (json_escape c @ rest) = Some ([c], rest)" "json_escape c \<noteq> []" "hd (json_escape c) \<noteq> CHR 0x22"
proof -
  have u: "literal_item (u_escape (byte_of c) @ rest) = Some ([c], rest)"
    using assms hex4_digits [of "byte_of c" rest]
    by (simp add: u_escape_def literal_item_def u_rune_def is_high_def is_low_def utf8_encode_def)
  show "literal_item (json_escape c @ rest) = Some ([c], rest)"
    using assms u by (auto simp: json_escape_def literal_item_def simple_escape_def)
  show "json_escape c \<noteq> []" "hd (json_escape c) \<noteq> CHR 0x22"
    by (auto simp: json_escape_def u_escape_def)
qed

lemma json_chars_ascii: "ascii s \<Longrightarrow> json_chars s = concat (map json_escape s)"
  by (induction s) (simp_all add: json_chars.simps ascii_def)

lemma literal_chars:
  "ascii s \<Longrightarrow> length s < n \<Longrightarrow> literal n (json_chars s @ CHR 0x22 # rest) = Some (s, rest)"
proof (induction s arbitrary: n)
  case Nil
  then show ?case by (cases n) (simp_all add: json_chars.simps)
next
  case (Cons c s)
  then obtain m where n: "n = Suc m" "length s < m" by (cases n) auto
  have c: "byte_of c < 0x80" and s: "ascii s" using Cons.prems(1) by (simp_all add: ascii_def)
  have "json_chars (c # s) @ CHR 0x22 # rest = json_escape c @ json_chars s @ CHR 0x22 # rest"
    using Cons.prems(1) s by (simp add: json_chars_ascii)
  then show ?case
    using n literal_item_escape [OF c] Cons.IH [OF s n(2)] by (simp add: hd_append)
qed

lemma length_json_chars: "ascii s \<Longrightarrow> length s \<le> length (json_chars s)"
proof (induction s)
  case (Cons c s)
  then have "json_escape c \<noteq> []" by (intro literal_item_escape(2)) (simp add: ascii_def)
  then have "1 \<le> length (json_escape c)" by (simp add: Suc_le_eq)
  with Cons show ?case by (simp add: json_chars_ascii ascii_def)
qed simp

lemma parse_quoted_quote: "ascii s \<Longrightarrow> parse_quoted (json_quote s @ rest) = Some (s, rest)"
  using literal_chars [of s "length (json_quote s @ rest)" rest] length_json_chars [of s]
  by (simp add: parse_quoted_def json_quote_def)

lemma skip_space_id: "s \<noteq> [] \<Longrightarrow> hd s \<notin> {CHR '' '', CHR 0x09, CHR 0x0A, CHR 0x0D} \<Longrightarrow> skip_space s = s"
  by (cases s) (simp_all add: skip_space_def)

lemma skip_space_quote [simp]: "skip_space (json_quote s @ rest) = json_quote s @ rest"
  by (rule skip_space_id) (simp_all add: json_quote_def)

definition member_text :: "string \<times> string \<Rightarrow> string" where
  "member_text m = json_quote (fst m) @ '':'' @ json_quote (snd m)"

definition ascii_map :: "(string \<times> string) list \<Rightarrow> bool" where
  "ascii_map m \<longleftrightarrow> (\<forall>(k, v) \<in> set m. ascii k \<and> ascii v)"

lemma parse_member:
  assumes "ascii k" "ascii v" "sep = CHR '','' \<or> sep = CHR ''}''"
  shows "parse_members (Suc n) (member_text (k, v) @ sep # rest) acc =
    (if sep = CHR '','' then parse_members n rest (AList.update k v acc) else Some (AList.update k v acc, rest))"
proof -
  have "\<not> prefix ''null'' (json_quote v @ sep # rest)" by (simp add: json_quote_def)
  then have elem: "parse_elem (json_quote v @ sep # rest) = Some (v, sep # rest)"
    using parse_quoted_quote [OF assms(2)] by (simp add: parse_elem_def)
  have sp: "skip_space (CHR '':'' # json_quote v @ sep # rest) = CHR '':'' # json_quote v @ sep # rest"
    "skip_space (sep # rest) = sep # rest"
    using assms(3) by (auto intro!: skip_space_id)
  show ?thesis
    using assms(3) parse_quoted_quote [OF assms(1)] elem sp
    by (auto simp: member_text_def starts_def Let_def)
qed

lemma parse_members_join:
  assumes "ms \<noteq> []" "ascii_map ms" "length ms \<le> n"
  shows "parse_members n (join '','' (map member_text ms) @ CHR ''}'' # rest) acc
    = Some (fold (\<lambda>(k, v). AList.update k v) ms acc, rest)"
  using assms
proof (induction ms arbitrary: n acc)
  case (Cons m ms)
  obtain k v where m: "m = (k, v)" by fastforce
  obtain n' where n: "n = Suc n'" "length ms \<le> n'" using Cons.prems(3) by (cases n) auto
  have kv: "ascii k" "ascii v" and ms: "ascii_map ms" using Cons.prems(2) m by (auto simp: ascii_map_def)
  show ?case
  proof (cases "ms = []")
    case True
    then show ?thesis using parse_member [OF kv, of "CHR ''}''"] by (simp add: m n(1))
  next
    case False
    then have "join '','' (map member_text (m # ms)) @ CHR ''}'' # rest
        = member_text (k, v) @ CHR '','' # join '','' (map member_text ms) @ CHR ''}'' # rest"
      by (cases ms) (simp_all add: m)
    then show ?thesis
      using parse_member [OF kv, of "CHR '',''"] Cons.IH [OF False ms n(2)] by (simp add: m n(1))
  qed
qed simp

lemma map_of_fold_update:
  "distinct (map fst ms) \<Longrightarrow> map_of (fold (\<lambda>(k, v). AList.update k v) ms acc) = map_of acc ++ map_of ms"
proof (induction ms arbitrary: acc)
  case (Cons m ms)
  then have "fst m \<notin> dom (map_of ms)" by (simp add: dom_map_of_conv_image_fst)
  with Cons show ?case
    by (auto simp: case_prod_beta' update_conv' map_add_def fun_eq_iff dom_def split: option.splits)
qed simp

lemma length_join: "length ms \<le> length (join '','' (map member_text ms))"
proof (induction ms)
  case (Cons m ms)
  then show ?case by (cases ms) (simp_all add: member_text_def)
qed simp

theorem json_map_round_trip:
  assumes "ascii_map m"
  shows "\<exists>m'. json_unmarshal_map (json_marshal_map m) = Some m' \<and> map_of m' = map_of m"
proof -
  let ?ms = "sort_key fst (AList.clearjunk m)"
  have eq: "json_marshal_map m = CHR ''{'' # join '','' (map member_text ?ms) @ ''}''"
    by (simp add: json_marshal_map_def member_text_def [abs_def] case_prod_beta')
  have d: "distinct (map fst ?ms)"
    using distinct_clearjunk [of m] by (simp add: distinct_map)
  have "map_of ?ms = map_of (AList.clearjunk m)"
    using d distinct_clearjunk [of m] by (intro map_of_eqI) (auto simp: fun_eq_iff map_of_eq_Some_iff intro: map_of_eq_Some_iff)
  then have mo: "map_of ?ms = map_of m" by (simp add: map_of_clearjunk)
  have entry: "(k, v) \<in> set m" if "(k, v) \<in> set ?ms" for k v
    using that d mo map_of_SomeD by (metis map_of_eq_Some_iff)
  have a: "ascii_map ?ms" using assms entry by (fastforce simp: ascii_map_def)
  show ?thesis
  proof (cases "?ms = []")
    case True
    then have "json_marshal_map m = ''{}''" by (simp add: eq)
    then have "json_unmarshal_map (json_marshal_map m) = Some []"
      by (simp add: json_unmarshal_map_def skip_space_def starts_def Let_def)
    then show ?thesis using mo True by simp
  next
    case False
    let ?u = "join '','' (map member_text ?ms) @ ''}''"
    obtain c r where u: "?u = CHR 0x22 # r"
    proof -
      obtain x xs where "?ms = x # xs" using False by (cases ?ms) auto
      then show ?thesis using that by (cases xs) (auto simp: member_text_def json_quote_def)
    qed
    have "skip_space ?u = ?u" by (rule skip_space_id) (simp_all add: u)
    moreover have "parse_members (length ?u) ?u [] = Some (fold (\<lambda>(k, v). AList.update k v) ?ms [], [])"
      using length_join [of ?ms] by (intro parse_members_join [OF False a]) simp
    moreover have "skip_space (json_marshal_map m) = CHR ''{'' # ?u" unfolding eq by (rule skip_space_id) simp_all
    ultimately have "json_unmarshal_map (json_marshal_map m) = Some (fold (\<lambda>(k, v). AList.update k v) ?ms [])"
      using u by (simp add: json_unmarshal_map_def Let_def starts_def skip_space_def)
    then show ?thesis using map_of_fold_update [OF d, of "[]"] mo by simp
  qed
qed

end
