(* ===== verification/Credentials.thy ===== *)
theory Credentials
  imports Crypto Json_Map Provider
begin

text \<open>
  Package \<open>internal/providercredentials\<close>: the configuration a tenant stores for a payment provider. The
  map is printed as JSON, sealed when the process has a 32-byte key, and kept in a JSONB column beside
  the webhook secret in clear. Putting the tenant in the Go context does not reach the connection: the
  row-level security state is the one the middleware left. Audit logging is left out.
\<close>

section \<open>Repository (\<open>repository.go\<close>)\<close>

record provider_config =
  pc_ProviderName :: string
  pc_Config :: config
  pc_CreatedAt :: gtime
  pc_UpdatedAt :: gtime

text \<open>The element of a Go map, the empty string when there is none.\<close>

definition at_key :: "config \<Rightarrow> string \<Rightarrow> string" where
  "at_key m k = (case map_of m k of Some v \<Rightarrow> v | None \<Rightarrow> [])"

definition credential_place :: "credential_row \<Rightarrow> uuid \<times> string" where
  "credential_place r = (cd_TenantID r, cd_ProviderName r)"

definition credential_providers :: "string list" where
  "credential_providers = [''mercadopago'', ''stripe'', ''helipagos'']"

text \<open>\<open>INSERT .. ON CONFLICT (tenant_id, provider_name) DO UPDATE\<close>. The columns are TIMESTAMP; the session
  runs in UTC.\<close>

definition credentials_upsert :: "uuid \<Rightarrow> string \<Rightarrow> string \<Rightarrow> string \<Rightarrow> sys \<Rightarrow> gerror option \<times> sys" where
  "credentials_upsert tenantID providerName configJSON webhookSecret s =
     (case jsonb s configJSON of
        None \<Rightarrow> (Some invalid_json, s)
      | Some doc \<Rightarrow>
          (let row = \<lparr>cd_ID = next_uuid s, cd_TenantID = tenantID, cd_ProviderName = providerName, cd_config = doc,
                      cd_webhook_secret = Some webhookSecret, cd_CreatedAt = db_now s, cd_UpdatedAt = db_now s\<rparr>;
               hit = (\<lambda>r. credential_place r = (tenantID, providerName));
               others = filter (\<lambda>r. \<not> hit r) (credentials s);
               s1 = draw s
           in case first_error
                [rls_check s ''provider_credentials'' tenantID,
                 check (providerName \<in> set credential_providers)
                   (check_violation ''provider_credentials'' ''valid_provider_name''),
                 check (Some webhookSecret \<notin> cd_webhook_secret ` set others)
                   (unique_violation ''idx_provider_credentials_webhook_secret'')] of
                Some err \<Rightarrow> (Some err, s1)
              | None \<Rightarrow>
                  (if filter hit (credentials s) \<noteq> []
                   then (None, s1\<lparr>credentials := update_where hit
                          (\<lambda>r. r\<lparr>cd_config := doc, cd_webhook_secret := Some webhookSecret, cd_UpdatedAt := db_now s\<rparr>)
                          (credentials s)\<rparr>)
                   else case first_error
                     [check (cd_ID row \<notin> cd_ID ` set (credentials s)) (unique_violation ''provider_credentials_pkey''),
                      check (tenantID \<in> tn_ID ` set (tenants s))
                        (fk_violation ''provider_credentials'' ''provider_credentials_tenant_id_fkey'')] of
                       Some err \<Rightarrow> (Some err, s1)
                     | None \<Rightarrow> (None, s1\<lparr>credentials := credentials s @ [row]\<rparr>))))"

definition invalid_provider_text :: string where
  "invalid_provider_text = ''new row for relation '' @ quoted ''provider_credentials''
     @ '' violates check constraint '' @ quoted ''valid_provider_name''"

text \<open>The stored text: the JSON of the map, or a wrapper around its sealed form.\<close>

definition stored_config :: "string \<Rightarrow> config \<Rightarrow> sys \<Rightarrow> (gerror + string) \<times> sys" where
  "stored_config encKey config s =
     (let plainJSON = json_marshal_map config
      in if length encKey = 32
         then (case Encrypt plainJSON encKey s of
                 (Inl err, s1) \<Rightarrow> (Inl (Wrap ''set credentials: encrypting config'' err), s1)
               | (Inr encrypted, s1) \<Rightarrow> (Inr (json_marshal_map [(''_enc'', encrypted)]), s1))
         else (Inr plainJSON, s))"

definition cred_repo_Set :: "string \<Rightarrow> uuid \<Rightarrow> string \<Rightarrow> config \<Rightarrow> sys \<Rightarrow> gerror option \<times> sys" where
  "cred_repo_Set encKey tenantID providerName config s =
     (if tenantID = uuid_nil then (Some (Wrap ''set credentials'' (Sentinel ErrMissingTenantID)), s)
      else if providerName = []
      then (Some (Wrap ''set credentials: provider_name cannot be empty'' (Sentinel ErrInvalidInput)), s)
      else if config = []
      then (Some (Wrap ''set credentials: config cannot be empty'' (Sentinel ErrInvalidInput)), s)
      else case stored_config encKey config s of
        (Inl err, s1) \<Rightarrow> (Some err, s1)
      | (Inr configJSON, s1) \<Rightarrow>
          (case credentials_upsert tenantID providerName configJSON (at_key config ''webhook_secret'') s1 of
             (Some execErr, s2) \<Rightarrow>
               (if error_text execErr = invalid_provider_text
                then (Some (Wrap (''set credentials: invalid provider '' @ quoted providerName) (Sentinel ErrInvalidInput)), s2)
                else (Some (Wrap ''set credentials'' execErr), s2))
           | (None, s2) \<Rightarrow> (None, s2)))"

text \<open>Reading the column back, as \<open>Get\<close>, \<open>List\<close> and \<open>GetTenantByWebhookSecret\<close> do with their own texts.\<close>

definition open_config :: "string \<Rightarrow> string \<Rightarrow> string \<Rightarrow> string \<Rightarrow> gerror + config" where
  "open_config encKey op unmarshal_msg rawJSON =
     (let plain = (\<lambda>raw. case json_unmarshal_map raw of
                     None \<Rightarrow> Inl (Wrap (op @ unmarshal_msg) (Plain ''invalid JSON''))
                   | Some m \<Rightarrow> Inr m)
      in case json_unmarshal_map rawJSON of
           None \<Rightarrow> plain rawJSON
         | Some wrapper \<Rightarrow>
             (if at_key wrapper ''_enc'' = [] then plain rawJSON
              else if encKey = []
              then Inl (Plain (op @ '': credentials are encrypted but CREDENTIALS_ENCRYPTION_KEY is not configured''))
              else case Decrypt (at_key wrapper ''_enc'') encKey of
                Inl err \<Rightarrow> Inl (Wrap (op @ '': decrypting config'') err)
              | Inr decrypted \<Rightarrow> plain decrypted))"

definition cred_repo_Get :: "string \<Rightarrow> uuid \<Rightarrow> string \<Rightarrow> sys \<Rightarrow> gerror + config" where
  "cred_repo_Get encKey tenantID providerName s =
     (if tenantID = uuid_nil then Inl (Wrap ''get credentials'' (Sentinel ErrMissingTenantID))
      else if providerName = []
      then Inl (Wrap ''get credentials: provider_name cannot be empty'' (Sentinel ErrInvalidInput))
      else case query_row s cd_TenantID (\<lambda>r. credential_place r = (tenantID, providerName)) (credentials s) of
        Inl err \<Rightarrow> (if err = No_Rows then Inl (Wrap ''get credentials'' (Sentinel ErrNotFound))
                     else Inl (Wrap ''get credentials'' err))
      | Inr r \<Rightarrow> open_config encKey ''get credentials'' '': unmarsaling config'' (cd_config r))"

fun open_rows :: "string \<Rightarrow> credential_row list \<Rightarrow> gerror + provider_config list" where
  "open_rows encKey [] = Inr []"
| "open_rows encKey (r # rs) =
     (case open_config encKey ''list credentials'' '': unmarshaling config'' (cd_config r) of
        Inl err \<Rightarrow> Inl err
      | Inr c \<Rightarrow>
          (case open_rows encKey rs of
             Inl err \<Rightarrow> Inl err
           | Inr pcs \<Rightarrow> Inr (\<lparr>pc_ProviderName = cd_ProviderName r, pc_Config = c, pc_CreatedAt = cd_CreatedAt r,
                              pc_UpdatedAt = cd_UpdatedAt r\<rparr> # pcs)))"

definition cred_repo_List :: "string \<Rightarrow> uuid \<Rightarrow> sys \<Rightarrow> gerror + provider_config list" where
  "cred_repo_List encKey tenantID s =
     (if tenantID = uuid_nil then Inl (Wrap ''list credentials'' (Sentinel ErrMissingTenantID))
      else case session_check s of
        Some err \<Rightarrow> Inl (Wrap ''list credentials'' err)
      | None \<Rightarrow> open_rows encKey (sort_key cd_ProviderName
                   (filter (\<lambda>r. visible s (cd_TenantID r) \<and> cd_TenantID r = tenantID) (credentials s))))"

definition cred_repo_Delete :: "uuid \<Rightarrow> string \<Rightarrow> sys \<Rightarrow> gerror option \<times> sys" where
  "cred_repo_Delete tenantID providerName s =
     (if tenantID = uuid_nil then (Some (Wrap ''delete credentials'' (Sentinel ErrMissingTenantID)), s)
      else if providerName = []
      then (Some (Wrap ''delete credentials: provider_name cannot be empty'' (Sentinel ErrInvalidInput)), s)
      else case session_check s of
        Some err \<Rightarrow> (Some (Wrap ''delete credentials'' err), s)
      | None \<Rightarrow>
          (let hit = (\<lambda>r. visible s (cd_TenantID r) \<and> credential_place r = (tenantID, providerName))
           in if filter hit (credentials s) = [] then (Some (Wrap ''delete credentials'' (Sentinel ErrNotFound)), s)
              else (None, s\<lparr>credentials := filter (\<lambda>r. \<not> hit r) (credentials s)\<rparr>)))"

text \<open>The SECURITY DEFINER function of migration 008 sees every row.\<close>

definition cred_repo_GetTenantByWebhookSecret ::
  "string \<Rightarrow> string \<Rightarrow> sys \<Rightarrow> gerror + uuid \<times> string \<times> config" where
  "cred_repo_GetTenantByWebhookSecret encKey secret s =
     (if secret = []
      then Inl (Wrap ''get tenant by webhook secret: secret cannot be empty'' (Sentinel ErrInvalidInput))
      else case find (\<lambda>r. cd_webhook_secret r = Some secret) (credentials s) of
        None \<Rightarrow> Inl (Wrap ''get tenant by webhook secret'' (Sentinel ErrNotFound))
      | Some r \<Rightarrow>
          (case open_config encKey ''get tenant by webhook secret'' '': unmarshaling config'' (cd_config r) of
             Inl err \<Rightarrow> Inl err
           | Inr c \<Rightarrow> Inr (cd_TenantID r, cd_ProviderName r, c)))"

section \<open>Service (\<open>service.go\<close>)\<close>

definition cred_svc_SetProviderConfig ::
  "string \<Rightarrow> adapter \<Rightarrow> uuid \<Rightarrow> string \<Rightarrow> config \<Rightarrow> sys \<Rightarrow> gerror option \<times> sys" where
  "cred_svc_SetProviderConfig encKey a tenantID providerName config s =
     (if tenantID = uuid_nil then (Some (Wrap ''set provider config'' (Sentinel ErrMissingTenantID)), s)
      else if providerName = []
      then (Some (Wrap ''set provider config: provider_name cannot be empty'' (Sentinel ErrInvalidInput)), s)
      else if config = []
      then (Some (Wrap ''set provider config: config cannot be empty'' (Sentinel ErrInvalidInput)), s)
      else if list_ex (\<lambda>(k, v). trim_space k = [] \<or> trim_space v = []) config
      then (Some (Wrap ''set provider config: config keys and values must be non-empty strings'' (Sentinel ErrInvalidInput)), s)
      else case LookupProvider a providerName of
        Inl err \<Rightarrow> (Some (Wrap (''set provider config: provider '' @ quoted providerName @ '' not registered'')
                             (Sentinel ErrInvalidInput)), s)
      | Inr p \<Rightarrow>
          (case pv_ValidateConfig p config of
             Some err \<Rightarrow> (Some (Wrap (''set provider config: invalid config for '' @ providerName)
                                   (Sentinel ErrInvalidInput)), s)
           | None \<Rightarrow>
               (case cred_repo_Set encKey tenantID providerName config s of
                  (Some err, s1) \<Rightarrow> (Some (Wrap ''set provider config: storing credentials'' err), s1)
                | (None, s1) \<Rightarrow> (None, s1))))"

definition cred_svc_GetProviderConfig :: "string \<Rightarrow> uuid \<Rightarrow> string \<Rightarrow> sys \<Rightarrow> gerror + config" where
  "cred_svc_GetProviderConfig encKey tenantID providerName s =
     (if tenantID = uuid_nil then Inl (Wrap ''get provider config'' (Sentinel ErrMissingTenantID))
      else if providerName = []
      then Inl (Wrap ''get provider config: provider_name cannot be empty'' (Sentinel ErrInvalidInput))
      else case cred_repo_Get encKey tenantID providerName s of
        Inl err \<Rightarrow> Inl (Wrap ''get provider config: provider not configured for this tenant'' (Sentinel ErrInvalidInput))
      | Inr c \<Rightarrow> Inr c)"

definition cred_svc_ValidateAndFetch :: "string \<Rightarrow> adapter \<Rightarrow> uuid \<Rightarrow> string \<Rightarrow> sys \<Rightarrow> gerror + config" where
  "cred_svc_ValidateAndFetch encKey a tenantID providerName s =
     (if tenantID = uuid_nil then Inl (Wrap ''validate and fetch'' (Sentinel ErrMissingTenantID))
      else if providerName = []
      then Inl (Wrap ''validate and fetch: provider_name cannot be empty'' (Sentinel ErrInvalidInput))
      else case LookupProvider a providerName of
        Inl err \<Rightarrow> Inl (Wrap (''validate and fetch: provider '' @ quoted providerName @ '' not registered'')
                         (Sentinel ErrInvalidInput))
      | Inr p \<Rightarrow>
          (case cred_repo_Get encKey tenantID providerName s of
             Inl err \<Rightarrow> Inl (Wrap ''validate and fetch: provider not configured'' (Sentinel ErrInvalidInput))
           | Inr c \<Rightarrow> Inr c))"

definition cred_svc_ListProviders :: "string \<Rightarrow> uuid \<Rightarrow> sys \<Rightarrow> gerror + string list" where
  "cred_svc_ListProviders encKey tenantID s =
     (if tenantID = uuid_nil then Inl (Wrap ''list providers'' (Sentinel ErrMissingTenantID))
      else case cred_repo_List encKey tenantID s of
        Inl err \<Rightarrow> Inl (Wrap ''list providers'' err)
      | Inr configs \<Rightarrow> Inr (map pc_ProviderName configs))"

definition cred_svc_DeleteProviderConfig :: "uuid \<Rightarrow> string \<Rightarrow> sys \<Rightarrow> gerror option \<times> sys" where
  "cred_svc_DeleteProviderConfig tenantID providerName s =
     (if tenantID = uuid_nil then (Some (Wrap ''delete provider config'' (Sentinel ErrMissingTenantID)), s)
      else if providerName = []
      then (Some (Wrap ''delete provider config: provider_name cannot be empty'' (Sentinel ErrInvalidInput)), s)
      else case cred_repo_Delete tenantID providerName s of
        (Some err, s1) \<Rightarrow> (Some (Wrap ''delete provider config'' err), s1)
      | (None, s1) \<Rightarrow> (None, s1))"

definition cred_svc_LookupByWebhookSecret :: "string \<Rightarrow> string \<Rightarrow> sys \<Rightarrow> gerror + uuid \<times> string \<times> config" where
  "cred_svc_LookupByWebhookSecret encKey secret s =
     (if secret = [] then Inl (Wrap ''lookup by webhook secret: secret cannot be empty'' (Sentinel ErrInvalidInput))
      else case cred_repo_GetTenantByWebhookSecret encKey secret s of
        Inl err \<Rightarrow> Inl (Wrap ''lookup by webhook secret'' (Sentinel ErrNotFound))
      | Inr r \<Rightarrow> Inr r)"

section \<open>Handlers (\<open>handler.go\<close>)\<close>

definition cred_handler_Set ::
  "string \<Rightarrow> adapter \<Rightarrow> go_context \<Rightarrow> string \<Rightarrow> gerror + config \<Rightarrow> sys \<Rightarrow> config response \<times> sys" where
  "cred_handler_Set encKey a ctx providerName body s =
     (case body of
        Inl err \<Rightarrow> (RespondError ctx err, s)
      | Inr config \<Rightarrow>
         (case cred_svc_SetProviderConfig encKey a (TenantIDFromContext ctx) providerName config s of
            (Some err, s1) \<Rightarrow> (RespondError ctx err, s1)
          | (None, s1) \<Rightarrow> (Response 201 [(''provider'', providerName), (''message'', ''credentials configured'')], s1)))"

definition cred_handler_ListProviders :: "string \<Rightarrow> go_context \<Rightarrow> sys \<Rightarrow> string list response" where
  "cred_handler_ListProviders encKey ctx s =
     respond ctx (\<lambda>ps. Response 200 ps) (cred_svc_ListProviders encKey (TenantIDFromContext ctx) s)"

definition cred_handler_GetProviderStatus :: "string \<Rightarrow> go_context \<Rightarrow> string \<Rightarrow> sys \<Rightarrow> (string \<times> bool) response" where
  "cred_handler_GetProviderStatus encKey ctx providerName s =
     Response 200 (providerName, is_ok (cred_svc_GetProviderConfig encKey (TenantIDFromContext ctx) providerName s))"

definition cred_handler_Delete :: "go_context \<Rightarrow> string \<Rightarrow> sys \<Rightarrow> unit response \<times> sys" where
  "cred_handler_Delete ctx providerName s =
     (case cred_svc_DeleteProviderConfig (TenantIDFromContext ctx) providerName s of
        (Some err, s1) \<Rightarrow> (RespondError ctx err, s1)
      | (None, s1) \<Rightarrow> (No_Content, s1))"

end
