(* ===== verification/Credential_Rules.thy ===== *)
theory Credential_Rules
  imports Credentials
begin

text \<open>
  What the credential store guarantees: a stored configuration is read back as it was set, by the tenant and
  by the webhook secret; the constraints of the table hold after every request; a connection set to a
  tenant never reads or changes what others stored; and a second configuration without a webhook
  secret, whoever stores it, fails.
\<close>

section \<open>Storing\<close>

definition creds_ok :: "sys \<Rightarrow> bool" where
  "creds_ok s \<longleftrightarrow> distinct (map cd_ID (credentials s)) \<and> distinct (map credential_place (credentials s))
     \<and> distinct (map cd_webhook_secret (filter (\<lambda>r. cd_webhook_secret r \<noteq> None) (credentials s)))
     \<and> (\<forall>r \<in> set (credentials s). cd_ProviderName r \<in> set credential_providers \<and> cd_TenantID r \<in> tn_ID ` set (tenants s))"

text \<open>PostgreSQL keeps the members of a JSON object of texts that it accepts: only their order and spacing may change.
  Which texts it accepts is left open (it refuses some that Go decodes, among them those with \<open>\u0000\<close> and with
  unpaired surrogates).\<close>

definition jsonb_ok :: "sys \<Rightarrow> bool" where
  "jsonb_ok s \<longleftrightarrow> (\<forall>t t' m. jsonb s t = Some t' \<and> json_unmarshal_map t = Some m \<longrightarrow>
     (\<exists>m'. json_unmarshal_map t' = Some m' \<and> map_of m' = map_of m))"

lemma at_key_cong: "map_of m = map_of m' \<Longrightarrow> at_key m k = at_key m' k"
  by (simp add: at_key_def)

lemma ascii_base64: "ascii (encode_to_string std_alphabet s)"
proof -
  have "ascii (CHR ''='' # std_alphabet)" by code_simp
  moreover have "\<forall>n \<in> set (map of_char s :: nat list). n < 256" using of_char_less_256 by auto
  ultimately show ?thesis
    using set_encode_bytes [OF good_alphabets(1), of "map of_char s"]
    by (auto simp: ascii_def encode_to_string_def)
qed

lemma stored_config_cases:
  obtains e where "length encKey = 32" "stored_config encKey c s
      = (Inr (json_marshal_map [(''_enc'', e)]), s\<lparr>random_pos := random_pos s + 12\<rparr>)"
      "e \<noteq> []" "Decrypt e encKey = Inr (json_marshal_map c)" "ascii e"
    | "length encKey \<noteq> 32" "stored_config encKey c s = (Inr (json_marshal_map c), s)"
proof (cases "length encKey = 32")
  case True
  from True obtain e where e: "Encrypt (json_marshal_map c) encKey s = (Inr e, s\<lparr>random_pos := random_pos s + 12\<rparr>)"
      "e \<noteq> []" "Decrypt e encKey = Inr (json_marshal_map c)"
    by (rule_tac Encrypt_cases [of encKey "json_marshal_map c" s]) auto
  then have "ascii e"
    using True ascii_base64 by (auto simp: Encrypt_def split: prod.splits)
  with e True show ?thesis by (intro that(1)) (simp_all add: stored_config_def Let_def)
next
  case False
  then show ?thesis by (intro that(2)) (simp_all add: stored_config_def Let_def)
qed

lemma open_config_plain:
  assumes "json_unmarshal_map doc = Some m" "at_key m ''_enc'' = []"
  shows "open_config encKey op msg doc = Inr m"
  using assms by (simp add: open_config_def)

lemma open_config_sealed:
  assumes "json_unmarshal_map doc = Some w" "at_key w ''_enc'' = e" "e \<noteq> []" "encKey \<noteq> []"
    and "Decrypt e encKey = Inr j" "json_unmarshal_map j = Some m"
  shows "open_config encKey op msg doc = Inr m"
  using assms by (simp add: open_config_def)

text \<open>What \<open>Set\<close> stores, \<open>open_config\<close> gives back.\<close>

lemma open_stored:
  assumes "stored_config encKey c s = (Inr j, s1)" "ascii_map c" "jsonb_ok s"
    and "length encKey = 32 \<or> at_key c ''_enc'' = []" "jsonb s j = Some doc"
  shows "\<exists>m. map_of m = map_of c \<and> (\<forall>op msg. open_config encKey op msg doc = Inr m)"
proof (rule stored_config_cases [of encKey c s])
  fix e
  assume len: "length encKey = 32"
    and st: "stored_config encKey c s = (Inr (json_marshal_map [(''_enc'', e)]), s\<lparr>random_pos := random_pos s + 12\<rparr>)"
    and e: "e \<noteq> []" "Decrypt e encKey = Inr (json_marshal_map c)" "ascii e"
  have "ascii_map [(''_enc'', e)]" using e(3) by (simp add: ascii_map_def ascii_def byte_of_def)
  then obtain w where w: "json_unmarshal_map j = Some w" "map_of w = map_of [(''_enc'', e)]"
    using json_map_round_trip st assms(1) by force
  then obtain w' where doc: "json_unmarshal_map doc = Some w'" "map_of w' = map_of [(''_enc'', e)]"
    using assms(3,5) unfolding jsonb_ok_def by metis
  obtain m where m: "json_unmarshal_map (json_marshal_map c) = Some m" "map_of m = map_of c"
    using json_map_round_trip [OF assms(2)] by blast
  have "at_key w' ''_enc'' = e" using doc(2) by (simp add: at_key_def)
  then have "open_config encKey op msg doc = Inr m" for op msg
    using doc(1) e len m(1) by (intro open_config_sealed) auto
  with m(2) show ?thesis by blast
next
  assume len: "length encKey \<noteq> 32" and st: "stored_config encKey c s = (Inr (json_marshal_map c), s)"
  obtain m where m: "json_unmarshal_map j = Some m" "map_of m = map_of c"
    using json_map_round_trip [OF assms(2)] st assms(1) by auto
  then obtain m' where doc: "json_unmarshal_map doc = Some m'" "map_of m' = map_of c"
    using assms(3,5) unfolding jsonb_ok_def by metis
  have "at_key m' ''_enc'' = []" using assms(4) len at_key_cong [OF doc(2)] by simp
  then have "open_config encKey op msg doc = Inr m'" for op msg
    using doc(1) by (rule_tac open_config_plain)
  with doc show ?thesis by blast
qed

lemma credentials_upsert_cases [consumes 1, case_names updated inserted refused]:
  assumes "credentials_upsert t p j w s = (r, s')"
  obtains doc where "r = None" "jsonb s j = Some doc" "visible s t" "p \<in> set credential_providers"
      "\<forall>x \<in> set (credentials s). cd_webhook_secret x = Some w \<longrightarrow> credential_place x = (t, p)"
      "(t, p) \<in> credential_place ` set (credentials s)"
      "s' = (draw s)\<lparr>credentials := update_where (\<lambda>r. credential_place r = (t, p))
         (\<lambda>r. r\<lparr>cd_config := doc, cd_webhook_secret := Some w, cd_UpdatedAt := db_now s\<rparr>) (credentials s)\<rparr>"
    | doc where "r = None" "jsonb s j = Some doc" "visible s t" "p \<in> set credential_providers"
      "\<forall>x \<in> set (credentials s). cd_webhook_secret x \<noteq> Some w" "(t, p) \<notin> credential_place ` set (credentials s)"
      "next_uuid s \<notin> cd_ID ` set (credentials s)" "t \<in> tn_ID ` set (tenants s)"
      "s' = (draw s)\<lparr>credentials := credentials s @ [\<lparr>cd_ID = next_uuid s, cd_TenantID = t, cd_ProviderName = p,
         cd_config = doc, cd_webhook_secret = Some w, cd_CreatedAt = db_now s, cd_UpdatedAt = db_now s\<rparr>]\<rparr>"
    | e where "r = Some e" "server_error e" "s' = s \<or> s' = draw s"
proof (cases "jsonb s j")
  case None
  then show ?thesis using assms by (intro that(3) [of invalid_json]) (simp_all add: credentials_upsert_def)
next
  case (Some doc)
  let ?hit = "\<lambda>r. credential_place r = (t, p)"
  let ?row = "\<lparr>cd_ID = next_uuid s, cd_TenantID = t, cd_ProviderName = p, cd_config = doc,
      cd_webhook_secret = Some w, cd_CreatedAt = db_now s, cd_UpdatedAt = db_now s\<rparr>"
  let ?c1 = "first_error [rls_check s ''provider_credentials'' t,
       check (p \<in> set credential_providers) (check_violation ''provider_credentials'' ''valid_provider_name''),
       check (Some w \<notin> cd_webhook_secret ` set (filter (\<lambda>r. \<not> ?hit r) (credentials s)))
         (unique_violation ''idx_provider_credentials_webhook_secret'')]"
  let ?c2 = "first_error [check (next_uuid s \<notin> cd_ID ` set (credentials s)) (unique_violation ''provider_credentials_pkey''),
       check (t \<in> tn_ID ` set (tenants s)) (fk_violation ''provider_credentials'' ''provider_credentials_tenant_id_fkey'')]"
  have eq: "(case ?c1 of Some err \<Rightarrow> (Some err, draw s)
     | None \<Rightarrow> if filter ?hit (credentials s) \<noteq> []
         then (None, (draw s)\<lparr>credentials := update_where ?hit
           (\<lambda>r. r\<lparr>cd_config := doc, cd_webhook_secret := Some w, cd_UpdatedAt := db_now s\<rparr>) (credentials s)\<rparr>)
         else case ?c2 of Some err \<Rightarrow> (Some err, draw s) | None \<Rightarrow> (None, (draw s)\<lparr>credentials := credentials s @ [?row]\<rparr>)) = (r, s')"
    using assms by (simp only: credentials_upsert_def Let_def Some option.case credential_row.simps)
  have c: "pred_option server_error ?c1" "pred_option server_error ?c2" by simp_all
  have c1: "?c1 = None \<Longrightarrow> visible s t \<and> p \<in> set credential_providers
      \<and> (\<forall>x \<in> set (credentials s). cd_webhook_secret x = Some w \<longrightarrow> ?hit x)"
    by (auto simp: first_error_None rls_check_None check_None image_iff)
  have c2: "?c2 = None \<Longrightarrow> next_uuid s \<notin> cd_ID ` set (credentials s) \<and> t \<in> tn_ID ` set (tenants s)"
    by (auto simp: first_error_None check_None)
  show ?thesis
  proof (cases ?c1)
    case (Some e)
    then show ?thesis using eq pred_option_SomeD [OF Some c(1)] by (intro that(3) [of e]) auto
  next
    case c1N: None
    show ?thesis
    proof (cases "filter ?hit (credentials s) = []")
      case False
      then have "(t, p) \<in> credential_place ` set (credentials s)" by (force simp: filter_empty_conv)
      then show ?thesis using eq c1N c1 [OF c1N] False \<open>jsonb s j = Some doc\<close> by (intro that(1) [of doc]) auto
    next
      case True
      then have new: "(t, p) \<notin> credential_place ` set (credentials s)" by (auto simp: filter_empty_conv)
      show ?thesis
      proof (cases ?c2)
        case (Some e)
        then show ?thesis using eq c1N True pred_option_SomeD [OF Some c(2)] by (intro that(3) [of e]) auto
      next
        case None
        have "\<forall>x \<in> set (credentials s). cd_webhook_secret x \<noteq> Some w"
          using c1 [OF c1N] new by (metis imageI)
        then show ?thesis
          using eq c1N True None c1 [OF c1N] c2 [OF None] new \<open>jsonb s j = Some doc\<close> by (intro that(2) [of doc]) auto
      qed
    qed
  qed
qed

text \<open>The effect of a successful \<open>SetProviderConfig\<close>: the row of tenant and provider holds a text that opens
  to the configuration, and its secret.\<close>

lemma SetProviderConfig_None:
  assumes "cred_svc_SetProviderConfig encKey a t p c s = (None, s')"
  obtains j s1 where "t \<noteq> 0" "p \<noteq> []" "c \<noteq> []" "stored_config encKey c s = (Inr j, s1)"
    "credentials_upsert t p j (at_key c ''webhook_secret'') s1 = (None, s')"
proof -
  have repo: "cred_repo_Set encKey t p c s = (None, s')" and t: "t \<noteq> 0" "p \<noteq> []" "c \<noteq> []"
    using assms by (auto simp: cred_svc_SetProviderConfig_def split: if_splits sum.splits option.splits prod.splits)
  obtain j s1 where st: "stored_config encKey c s = (Inr j, s1)"
    by (rule stored_config_cases [of encKey c s]) auto
  have "credentials_upsert t p j (at_key c ''webhook_secret'') s1 = (None, s')"
    using repo t st by (auto simp: cred_repo_Set_def split: if_splits option.splits prod.splits)
  with t st that show ?thesis by blast
qed

lemma stored_config_frame:
  assumes "stored_config encKey c s = (Inr j, s1)"
  shows "s1 = s \<or> s1 = s\<lparr>random_pos := random_pos s + 12\<rparr>"
  using assms by (rule_tac stored_config_cases [of encKey c s]) auto

lemma creds_ok_upsert:
  assumes "credentials_upsert t p j w s = (r, s')" "creds_ok s"
  shows "creds_ok s'"
  using assms(1)
proof (cases rule: credentials_upsert_cases)
  case (updated doc)
  let ?hit = "\<lambda>r. credential_place r = (t, p)"
  let ?f = "\<lambda>r :: credential_row. r\<lparr>cd_config := doc, cd_webhook_secret := Some w, cd_UpdatedAt := db_now s\<rparr>"
  have cols: "cd_ID (?f r) = cd_ID r" "credential_place (?f r) = credential_place r"
    "cd_ProviderName (?f r) = cd_ProviderName r" "cd_TenantID (?f r) = cd_TenantID r" for r
    by (simp_all add: credential_place_def)
  have d: "distinct (map credential_place (credentials s))" using assms(2) by (simp add: creds_ok_def)
  have secrets: "distinct (map cd_webhook_secret (filter (\<lambda>r. cd_webhook_secret r \<noteq> None) (update_where ?hit ?f rs)))"
    if "distinct (map credential_place rs)" "distinct (map cd_webhook_secret (filter (\<lambda>r. cd_webhook_secret r \<noteq> None) rs))"
      "\<forall>x \<in> set rs. cd_webhook_secret x = Some w \<longrightarrow> ?hit x" for rs
    using that
  proof (induction rs)
    case (Cons x rs)
    show ?case
    proof (cases "?hit x")
      case True
      then have "\<forall>y \<in> set rs. \<not> ?hit y" using Cons.prems(1) by (metis imageI list.set_map distinct.simps(2) list.simps(9))
      then show ?thesis using Cons True by (auto simp: update_where_none split: if_splits)
    next
      case False
      then have "cd_webhook_secret x \<noteq> Some w" using Cons.prems(3) by auto
      then show ?thesis using Cons False by (auto simp: set_update_where split: if_splits)
    qed
  qed simp
  have ids: "map cd_ID (update_where ?hit ?f rs) = map cd_ID rs"
    "map credential_place (update_where ?hit ?f rs) = map credential_place rs" for rs
    by (simp_all add: map_update_where cols)
  let ?rs = "update_where ?hit ?f (credentials s)"
  have "\<forall>r \<in> set ?rs. cd_ProviderName r \<in> set credential_providers \<and> cd_TenantID r \<in> tn_ID ` set (tenants s)"
    using assms(2) by (auto simp: creds_ok_def set_update_where)
  moreover have "distinct (map cd_webhook_secret (filter (\<lambda>r. cd_webhook_secret r \<noteq> None) ?rs))"
    by (rule secrets [OF d]) (use assms(2) updated(5) in \<open>simp_all add: creds_ok_def\<close>)
  moreover have "credentials s' = ?rs" "tenants s' = tenants s" by (simp_all add: updated(7))
  ultimately show ?thesis using assms(2) by (simp add: creds_ok_def ids)
next
  case (inserted doc)
  then show ?thesis using assms(2) by (auto simp: creds_ok_def credential_place_def)
next
  case (refused e)
  then show ?thesis using assms(2) by (auto simp: creds_ok_def)
qed

text \<open>The row that storing a configuration leaves behind.\<close>

lemma upsert_row:
  assumes "credentials_upsert t p j w s = (None, s')"
  obtains r where "r \<in> set (credentials s')" "credential_place r = (t, p)" "jsonb s j = Some (cd_config r)"
    "cd_webhook_secret r = Some w" "visible s' t"
  using assms
proof (cases rule: credentials_upsert_cases)
  case (updated d)
  from updated(6) obtain x where x: "x \<in> set (credentials s)" "credential_place x = (t, p)" by auto
  let ?x = "x\<lparr>cd_config := d, cd_webhook_secret := Some w, cd_UpdatedAt := db_now s\<rparr>"
  have "credentials s' = update_where (\<lambda>r. credential_place r = (t, p))
      (\<lambda>r. r\<lparr>cd_config := d, cd_webhook_secret := Some w, cd_UpdatedAt := db_now s\<rparr>) (credentials s)"
    unfolding updated(7) by simp
  then have "?x \<in> set (credentials s')" using x by (auto simp: set_update_where intro: rev_image_eqI [of x])
  moreover have "credential_place ?x = (t, p)" using x(2) by (simp add: credential_place_def)
  moreover have "visible s' t" using updated(3) unfolding updated(7) by (simp add: visible_def)
  ultimately show ?thesis using updated(2) by (intro that [of ?x]) simp_all
next
  case (inserted d)
  let ?x = "\<lparr>cd_ID = next_uuid s, cd_TenantID = t, cd_ProviderName = p, cd_config = d,
      cd_webhook_secret = Some w, cd_CreatedAt = db_now s, cd_UpdatedAt = db_now s\<rparr>"
  have "?x \<in> set (credentials s')" unfolding inserted(9) by simp
  moreover have "visible s' t" using inserted(3) unfolding inserted(9) by (simp add: visible_def)
  ultimately show ?thesis using inserted(2) by (intro that [of ?x]) (simp_all add: credential_place_def)
qed simp

lemma set_config_row:
  assumes "cred_svc_SetProviderConfig encKey a t p c s = (None, s')" "creds_ok s" "jsonb_ok s" "ascii_map c"
    and "length encKey = 32 \<or> at_key c ''_enc'' = []"
  obtains r m where "t \<noteq> 0" "p \<noteq> []" "creds_ok s'" "r \<in> set (credentials s')" "credential_place r = (t, p)"
    "cd_webhook_secret r = Some (at_key c ''webhook_secret'')" "visible s' t" "map_of m = map_of c"
    "\<And>op msg. open_config encKey op msg (cd_config r) = Inr m"
proof -
  let ?w = "at_key c ''webhook_secret''"
  obtain j s1 where h: "t \<noteq> 0" "p \<noteq> []" "stored_config encKey c s = (Inr j, s1)" "credentials_upsert t p j ?w s1 = (None, s')"
    using SetProviderConfig_None [OF assms(1)] by blast
  have s1: "creds_ok s1" "jsonb s1 = jsonb s"
    using stored_config_frame [OF h(3)] assms(2) by (auto simp: creds_ok_def)
  have ok: "creds_ok s'" by (rule creds_ok_upsert [OF h(4) s1(1)])
  obtain r where r: "r \<in> set (credentials s')" "credential_place r = (t, p)" "jsonb s j = Some (cd_config r)"
      "cd_webhook_secret r = Some ?w" "visible s' t"
    by (rule upsert_row [OF h(4)]) (use s1(2) that in simp)
  obtain m where m: "map_of m = map_of c" "\<And>op msg. open_config encKey op msg (cd_config r) = Inr m"
    using open_stored [OF h(3) assms(4,3,5) r(3)] by blast
  show ?thesis by (rule that [OF h(1,2) ok r(1,2) r(4,5) m])
qed

lemma set_then_read:
  assumes "cred_svc_SetProviderConfig encKey a t p c s = (None, s')" "creds_ok s" "jsonb_ok s" "ascii_map c"
    and "length encKey = 32 \<or> at_key c ''_enc'' = []"
  shows "\<exists>m. map_of m = map_of c \<and> cred_svc_GetProviderConfig encKey t p s' = Inr m
    \<and> (at_key c ''webhook_secret'' \<noteq> [] \<longrightarrow>
        cred_svc_LookupByWebhookSecret encKey (at_key c ''webhook_secret'') s' = Inr (t, p, m))"
proof -
  let ?w = "at_key c ''webhook_secret''"
  obtain r m where h: "t \<noteq> 0" "p \<noteq> []" and ok: "creds_ok s'" and r: "r \<in> set (credentials s')" "credential_place r = (t, p)"
      "cd_webhook_secret r = Some ?w" "visible s' t" and m: "map_of m = map_of c"
      and o: "\<And>op msg. open_config encKey op msg (cd_config r) = Inr m"
    by (rule set_config_row [OF assms]) blast
  have d: "distinct (map credential_place (credentials s'))"
    and dw: "distinct (map cd_webhook_secret (filter (\<lambda>r. cd_webhook_secret r \<noteq> None) (credentials s')))"
    using ok by (simp_all add: creds_ok_def)
  have tr: "cd_TenantID r = t" "cd_ProviderName r = p" using r(2) by (simp_all add: credential_place_def)
  have "query_row s' cd_TenantID (\<lambda>x. credential_place x = credential_place r) (credentials s') = Inr r"
    by (rule query_row_unique [OF d r(1)]) (simp add: tr r(4))
  then have "cred_svc_GetProviderConfig encKey t p s' = Inr m"
    using h o r(2) by (simp add: cred_svc_GetProviderConfig_def cred_repo_Get_def)
  moreover have "cred_svc_LookupByWebhookSecret encKey ?w s' = Inr (t, p, m)" if "?w \<noteq> []"
  proof -
    have "x = r" if "x \<in> set (credentials s')" "cd_webhook_secret x = Some ?w" for x
      using distinct_key_eq [OF dw, of x r] that r(1,3) by simp
    then have "find (\<lambda>x. cd_webhook_secret x = Some ?w) (credentials s') = Some r"
    proof (cases "find (\<lambda>x. cd_webhook_secret x = Some ?w) (credentials s')")
      case None
      then show ?thesis using r(1,3) by (simp add: find_None_iff_all)
    next
      case (Some y)
      from find_SomeD [OF Some] \<open>\<And>x. x \<in> set (credentials s') \<Longrightarrow> cd_webhook_secret x = Some ?w \<Longrightarrow> x = r\<close> Some
      show ?thesis by blast
    qed
    then show ?thesis
      using that o tr by (simp add: cred_svc_LookupByWebhookSecret_def cred_repo_GetTenantByWebhookSecret_def)
  qed
  ultimately show ?thesis using m by blast
qed

text \<open>C28. A configuration that was set successfully is read back as it was set, by the tenant for the provider and by
  the webhook secret (when it is not empty), sealed or not, provided its texts are ASCII; without a 32-byte key
  it must not use the key of the wrapper. Of the database this assumes the constraints of the table and that a
  JSON object of texts that it accepts for the JSONB column keeps its members (\<open>jsonb_ok\<close>, which says nothing
  about texts that it refuses: with such a text the configuration is not set).\<close>

theorem credentials_round_trip:
  assumes "cred_svc_SetProviderConfig encKey a t p c s = (None, s')" "creds_ok s" "jsonb_ok s" "ascii_map c"
    and "length encKey = 32 \<or> at_key c ''_enc'' = []"
  shows "\<exists>m. map_of m = map_of c \<and> cred_svc_GetProviderConfig encKey t p s' = Inr m
    \<and> (at_key c ''webhook_secret'' \<noteq> [] \<longrightarrow>
        cred_svc_LookupByWebhookSecret encKey (at_key c ''webhook_secret'') s' = Inr (t, p, m))"
  by (rule set_then_read [OF assms])

section \<open>The table\<close>

inductive cred_step :: "string \<Rightarrow> adapter \<Rightarrow> sys \<Rightarrow> sys \<Rightarrow> bool" for encKey a where
  step_set: "cred_step encKey a s (snd (cred_svc_SetProviderConfig encKey a t p c s))"
| step_delete: "cred_step encKey a s (snd (cred_svc_DeleteProviderConfig t p s))"

lemma cred_svc_Set_snd:
  "snd (cred_svc_SetProviderConfig encKey a t p c s) = s
   \<or> (\<exists>j s1. stored_config encKey c s = (Inr j, s1)
       \<and> snd (cred_svc_SetProviderConfig encKey a t p c s) = snd (credentials_upsert t p j (at_key c ''webhook_secret'') s1))"
proof -
  obtain j s1 where st: "stored_config encKey c s = (Inr j, s1)"
    by (rule stored_config_cases [of encKey c s]) auto
  obtain r s2 where up: "credentials_upsert t p j (at_key c ''webhook_secret'') s1 = (r, s2)" by fastforce
  have repo: "snd (cred_repo_Set encKey t p c s) = s \<or> snd (cred_repo_Set encKey t p c s) = s2"
    using st up by (auto simp: cred_repo_Set_def split: option.split)
  have "snd (cred_svc_SetProviderConfig encKey a t p c s) = s
      \<or> snd (cred_svc_SetProviderConfig encKey a t p c s) = snd (cred_repo_Set encKey t p c s)"
    by (auto simp: cred_svc_SetProviderConfig_def split: sum.split option.split prod.split)
  then show ?thesis using repo st up by auto
qed

lemma cred_svc_Delete_snd:
  "snd (cred_svc_DeleteProviderConfig t p s) = s
   \<or> snd (cred_svc_DeleteProviderConfig t p s) = s\<lparr>credentials :=
       filter (\<lambda>r. \<not> (visible s (cd_TenantID r) \<and> credential_place r = (t, p))) (credentials s)\<rparr>"
  by (auto simp: cred_svc_DeleteProviderConfig_def cred_repo_Delete_def Let_def split: option.split prod.split)

lemma distinct_filter_filter: "distinct (map f (filter Q xs)) \<Longrightarrow> distinct (map f (filter Q (filter P xs)))"
  by (induction xs) (auto simp: image_iff)

text \<open>The credential table keeps its constraints under every request: one configuration per tenant and
  provider, known providers and existing tenants only, and no webhook secret stored twice, so a secret
  never leads to two tenants.\<close>

theorem credentials_invariant:
  assumes "(cred_step encKey a)\<^sup>*\<^sup>* s s'" "creds_ok s"
  shows "creds_ok s'"
  using assms
proof (induction rule: rtranclp_induct)
  case (step y z)
  from step.hyps(2) have "creds_ok y \<Longrightarrow> creds_ok z"
  proof cases
    case (step_set t p c)
    assume ok: "creds_ok y"
    from cred_svc_Set_snd [of encKey a t p c y] show ?thesis
    proof (elim disjE exE conjE)
      fix j s1
      assume st: "stored_config encKey c y = (Inr j, s1)"
        and z: "snd (cred_svc_SetProviderConfig encKey a t p c y) = snd (credentials_upsert t p j (at_key c ''webhook_secret'') s1)"
      have "creds_ok s1" using stored_config_frame [OF st] ok by (auto simp: creds_ok_def)
      then show ?thesis
        using creds_ok_upsert [of t p j "at_key c ''webhook_secret''" s1] step_set z
        by (cases "credentials_upsert t p j (at_key c ''webhook_secret'') s1") simp
    qed (use step_set ok in simp)
  next
    case (step_delete t p)
    assume "creds_ok y"
    then show ?thesis
      using cred_svc_Delete_snd [of t p y] step_delete
      by (auto simp: creds_ok_def distinct_map_filter distinct_filter_filter simp del: filter_filter)
  qed
  then show ?case using step by blast
qed simp

section \<open>Isolation and failures\<close>

lemma filter_weaker: "(\<And>x. Q x \<Longrightarrow> P x) \<Longrightarrow> filter Q (filter P xs) = filter Q xs"
  by (induction xs) auto

definition creds_of_others :: "uuid \<Rightarrow> sys \<Rightarrow> credential_row list" where
  "creds_of_others t s = filter (\<lambda>r. cd_TenantID r \<noteq> t) (credentials s)"

text \<open>On a connection set to a tenant no credential request reads or changes what another tenant stored,
  whatever tenant the caller names.\<close>

theorem credentials_tenant_isolation:
  assumes "session s = Current_Tenant t"
  shows "(\<forall>u p c. cred_svc_GetProviderConfig encKey u p s = Inr c \<longrightarrow> u = t)
    \<and> (\<forall>u p c. cred_svc_ValidateAndFetch encKey a u p s = Inr c \<longrightarrow> u = t)
    \<and> creds_of_others t (snd (cred_svc_SetProviderConfig encKey a u p c s)) = creds_of_others t s
    \<and> creds_of_others t (snd (cred_svc_DeleteProviderConfig u p s)) = creds_of_others t s"
proof (intro conjI allI impI)
  have vis: "visible s' v \<longleftrightarrow> v = t" if "session s' = session s" for s' v
    using assms that by (auto simp: visible_def)
  have get: "cred_repo_Get encKey u p s = Inr c \<Longrightarrow> u = t" for u p c
    using vis [OF refl]
    by (auto simp: cred_repo_Get_def credential_place_def split: if_splits sum.splits dest!: query_row_Inr)
  show "cred_svc_GetProviderConfig encKey u p s = Inr c \<Longrightarrow> u = t" for u p c
    by (auto simp: cred_svc_GetProviderConfig_def split: if_splits sum.splits dest: get)
  show "cred_svc_ValidateAndFetch encKey a u p s = Inr c \<Longrightarrow> u = t" for u p c
    by (auto simp: cred_svc_ValidateAndFetch_def split: if_splits sum.splits dest: get)
  show "creds_of_others t (snd (cred_svc_DeleteProviderConfig u p s)) = creds_of_others t s"
    using cred_svc_Delete_snd [of u p s] vis [OF refl]
    by (auto simp: creds_of_others_def intro!: filter_weaker simp del: filter_filter)
  have up: "creds_of_others t s2 = creds_of_others t s1"
    if "credentials_upsert u p j w s1 = (r, s2)" "session s1 = session s" for u p j w s1 s2 r
    using that(1)
  proof (cases rule: credentials_upsert_cases)
    case (updated doc)
    have "u = t" using updated(3) vis [OF that(2)] by simp
    then have "filter (\<lambda>r. cd_TenantID r \<noteq> t) (update_where (\<lambda>r. credential_place r = (u, p))
        (\<lambda>r. r\<lparr>cd_config := doc, cd_webhook_secret := Some w, cd_UpdatedAt := db_now s1\<rparr>) (credentials s1))
      = filter (\<lambda>r. cd_TenantID r \<noteq> t) (credentials s1)"
      by (intro filter_update_where) (simp add: credential_place_def)
    then show ?thesis unfolding creds_of_others_def updated(7) by simp
  next
    case (inserted doc)
    have "u = t" using inserted(3) vis [OF that(2)] by simp
    then show ?thesis unfolding creds_of_others_def inserted(9) by simp
  next
    case (refused e)
    then show ?thesis by (auto simp: creds_of_others_def)
  qed
  from cred_svc_Set_snd [of encKey a u p c s]
  show "creds_of_others t (snd (cred_svc_SetProviderConfig encKey a u p c s)) = creds_of_others t s"
  proof (elim disjE exE conjE)
    fix j s1
    assume st: "stored_config encKey c s = (Inr j, s1)"
      and z: "snd (cred_svc_SetProviderConfig encKey a u p c s) = snd (credentials_upsert u p j (at_key c ''webhook_secret'') s1)"
    obtain r s2 where u: "credentials_upsert u p j (at_key c ''webhook_secret'') s1 = (r, s2)" by fastforce
    have "session s1 = session s" "creds_of_others t s1 = creds_of_others t s"
      using stored_config_frame [OF st] by (auto simp: creds_of_others_def)
    then show ?thesis using up [OF u] z u by simp
  qed simp
qed

lemma credentials_upsert_pg:
  assumes "credentials_upsert t p j w s = (Some e, s')"
  shows "\<exists>q m. e = Pg_Error q m"
proof -
  have c: "pred_option (\<lambda>e. \<exists>q m. e = Pg_Error q m) (rls_check s x t)" for x
    by (simp add: rls_check_def session_check_def unset_parameter_def rls_violation_def)
  have f: "pred_option (\<lambda>e. \<exists>q m. e = Pg_Error q m) (first_error es)"
    if "\<forall>x \<in> set es. pred_option (\<lambda>e. \<exists>q m. e = Pg_Error q m) x" for es
    using that by (rule pred_option_first_error)
  show ?thesis
    using assms unfolding credentials_upsert_def Let_def
    by (auto simp: invalid_json_def check_violation_def unique_violation_def fk_violation_def c
        split: option.splits if_splits dest!: pred_option_SomeD [OF _ f])
qed

lemma pg_text_differs: "error_text (Pg_Error q m) \<noteq> invalid_provider_text"
  by (simp add: invalid_provider_text_def)

text \<open>The webhook secret of a configuration without one is stored as the empty text instead of NULL, and
  the unique index of the column spans all tenants: once one such configuration is stored, storing any
  other fails with 500, for every tenant. The test for an unknown provider compares the whole text of
  the server's error and never succeeds.\<close>

theorem second_secretless_config_fails:
  assumes "cred_repo_Set encKey t1 p1 c1 s = (None, s1)" "at_key c1 ''webhook_secret'' = []"
    and "credentials s2 = credentials s1" "at_key c2 ''webhook_secret'' = []" "(t2, p2) \<noteq> (t1, p1)"
    and "t2 \<noteq> 0" "p2 \<noteq> []" "c2 \<noteq> []"
  shows "\<exists>err s3. cred_repo_Set encKey t2 p2 c2 s2 = (Some err, s3) \<and> sentinel_status err = 500
    \<and> credentials s3 = credentials s2"
proof -
  have "t1 \<noteq> 0" "p1 \<noteq> []" "c1 \<noteq> []" using assms(1) by (auto simp: cred_repo_Set_def split: if_splits)
  obtain j1 s0 where j1: "stored_config encKey c1 s = (Inr j1, s0)"
    by (rule stored_config_cases [of encKey c1 s]) auto
  have "credentials_upsert t1 p1 j1 [] s0 = (None, s1)"
    using assms(1,2) j1 by (auto simp: cred_repo_Set_def split: if_splits option.splits prod.splits)
  then have first: "\<exists>r \<in> set (credentials s1). credential_place r = (t1, p1) \<and> cd_webhook_secret r = Some []"
  proof (cases rule: credentials_upsert_cases)
    case (updated doc)
    from updated(6) obtain x where x: "x \<in> set (credentials s0)" "credential_place x = (t1, p1)" by auto
    let ?x = "x\<lparr>cd_config := doc, cd_webhook_secret := Some [], cd_UpdatedAt := db_now s0\<rparr>"
    have "?x \<in> set (credentials s1)" unfolding updated(7) using x by (auto simp: set_update_where intro: rev_image_eqI [of x])
    then show ?thesis using x(2) by (intro bexI [of _ ?x]) (auto simp: credential_place_def)
  next
    case (inserted doc)
    then show ?thesis by (auto simp: credential_place_def)
  qed simp
  obtain j2 s2' where j2: "stored_config encKey c2 s2 = (Inr j2, s2')"
    by (rule stored_config_cases [of encKey c2 s2]) auto
  have creds: "credentials s2' = credentials s2" using stored_config_frame [OF j2] by auto
  obtain r s3 where up: "credentials_upsert t2 p2 j2 [] s2' = (r, s3)" by fastforce
  then have "\<exists>e. r = Some e \<and> server_error e \<and> credentials s3 = credentials s2"
  proof (cases rule: credentials_upsert_cases)
    case (updated doc)
    then show ?thesis using first assms(3,5) creds by auto
  next
    case (inserted doc)
    then show ?thesis using first assms(3) creds by auto
  next
    case (refused e)
    then show ?thesis using creds by auto
  qed
  then obtain e where e: "r = Some e" "server_error e" "credentials s3 = credentials s2" by blast
  obtain q m where "e = Pg_Error q m" using credentials_upsert_pg up e(1) by blast
  then have "error_text e \<noteq> invalid_provider_text" by (simp only: pg_text_differs not_False_eq_True)
  then have "cred_repo_Set encKey t2 p2 c2 s2 = (Some (Wrap ''set credentials'' e), s3)"
    using assms(4,6-8) j2 up e(1) by (simp add: cred_repo_Set_def)
  then show ?thesis using e server_error_D(3) [OF e(2)] by simp
qed

section \<open>Concrete data for the witnesses\<close>

definition lenient_provider :: provider where
  "lenient_provider = \<lparr>pv_Name = ''mercadopago'', pv_Capabilities = \<lparr>caps_Plans = True, caps_PayPerUse = False\<rparr>,
     pv_CreateCharge = (\<lambda>n r. Inl (Sentinel ErrProviderError)), pv_RefundCharge = (\<lambda>n c a. Inl (Sentinel ErrNotSupported)),
     pv_HandleWebhook = (\<lambda>p s. Inl (Sentinel ErrNotSupported)), pv_ValidateConfig = (\<lambda>c. None)\<rparr>"

definition lenient_adapter :: adapter where
  "lenient_adapter = \<lparr>ad_registry = [(''mercadopago'', lenient_provider)], ad_yamlCaps = []\<rparr>"

definition cred_tenant :: "uuid \<Rightarrow> tenant" where
  "cred_tenant i = \<lparr>tn_ID = i, tn_Name = ''n'', tn_Slug = ''s'', tn_Email = None, tn_IsActive = True,
     tn_DefaultProviderName = ''mercadopago'', tn_CreatedAt = 0, tn_UpdatedAt = 0\<rparr>"

definition cred_sample_sys :: sys where
  "cred_sample_sys = \<lparr>clock = 0, session = Current_Tenant 7, uuids = (\<lambda>n. of_nat n + 100), drawn = 0, jsonb = Some,
     tenants = [cred_tenant 7, cred_tenant 8], plans = [], subscriptions = [], payments = [], charges = [],
     api_keys = [], credentials = [], users = [], random = (\<lambda>n. CHR 0x07), random_pos = 0,
     idle = [], choices = (\<lambda>n. 0), acquired = 0\<rparr>"

definition mp_config :: config where
  "mp_config = [(''access_token'', ''tok''), (''webhook_secret'', ''whs'')]"

definition bare_config :: config where
  "bare_config = [(''access_token'', ''tok'')]"

lemma stored_config_fst: "\<exists>j. stored_config encKey c s = (Inr j, s) \<or> stored_config encKey c s = (Inr j, s\<lparr>random_pos := random_pos s + 12\<rparr>)"
  by (rule stored_config_cases [of encKey c s]) auto

lemma sample_set:
  assumes p: "LookupProvider a ''mercadopago'' = Inr p" "pv_ValidateConfig p c = None"
    and l: "\<not> list_ex (\<lambda>(k, v). trim_space k = [] \<or> trim_space v = []) c" "c \<noteq> []"
  shows "\<exists>s'. cred_svc_SetProviderConfig encKey a 7 ''mercadopago'' c cred_sample_sys = (None, s')"
proof -
  obtain j s1 where st: "stored_config encKey c cred_sample_sys = (Inr j, s1)"
    and s1: "s1 = cred_sample_sys \<or> s1 = cred_sample_sys\<lparr>random_pos := random_pos cred_sample_sys + 12\<rparr>"
    using stored_config_fst [of encKey c cred_sample_sys] by blast
  have f: "jsonb s1 = Some" "credentials s1 = []" "visible s1 7" "7 \<in> tn_ID ` set (tenants s1)"
    using s1 by (auto simp: cred_sample_sys_def visible_def cred_tenant_def)
  obtain r s2 where u: "credentials_upsert 7 ''mercadopago'' j (at_key c ''webhook_secret'') s1 = (r, s2)" by fastforce
  have "r = None"
    using u f by (auto simp: credentials_upsert_def Let_def first_error_None rls_check_None [THEN iffD2] credential_providers_def)
  then have "cred_repo_Set encKey 7 ''mercadopago'' c cred_sample_sys = (None, s2)"
    using st u l(2) by (simp add: cred_repo_Set_def)
  then show ?thesis using l p by (simp add: cred_svc_SetProviderConfig_def)
qed

lemma sample_set_ok: "\<exists>s'. cred_svc_SetProviderConfig encKey lenient_adapter 7 ''mercadopago'' mp_config cred_sample_sys = (None, s')"
proof (rule sample_set)
  show "LookupProvider lenient_adapter ''mercadopago'' = Inr lenient_provider" "pv_ValidateConfig lenient_provider mp_config = None"
    by (simp_all add: LookupProvider_def Lookup_def lenient_adapter_def lenient_provider_def)
  show "\<not> list_ex (\<lambda>(k, v). trim_space k = [] \<or> trim_space v = []) mp_config" "mp_config \<noteq> []" by code_simp+
qed

lemma sample_creds_ok: "creds_ok cred_sample_sys" "jsonb_ok cred_sample_sys" "ascii_map mp_config"
proof -
  show "creds_ok cred_sample_sys" by (simp add: creds_ok_def cred_sample_sys_def)
  show "jsonb_ok cred_sample_sys" by (auto simp: jsonb_ok_def cred_sample_sys_def)
  show "ascii_map mp_config" by code_simp
qed

theorem credentials_round_trip_witness:
  "\<exists>s' m. map_of m = map_of mp_config
     \<and> cred_svc_GetProviderConfig (replicate 32 (CHR ''k'')) 7 ''mercadopago'' s' = Inr m
     \<and> cred_svc_LookupByWebhookSecret (replicate 32 (CHR ''k'')) ''whs'' s' = Inr (7, ''mercadopago'', m)"
proof -
  obtain s' where s': "cred_svc_SetProviderConfig (replicate 32 (CHR ''k'')) lenient_adapter 7 ''mercadopago'' mp_config cred_sample_sys = (None, s')"
    using sample_set_ok by blast
  have "at_key mp_config ''webhook_secret'' = ''whs''" by code_simp
  with credentials_round_trip [OF s' sample_creds_ok] show ?thesis by auto
qed

theorem credentials_invariant_witness:
  "creds_ok (snd (cred_svc_SetProviderConfig [] lenient_adapter 7 ''mercadopago'' mp_config cred_sample_sys))"
  by (rule credentials_invariant [OF r_into_rtranclp sample_creds_ok(1)]) (rule cred_step.step_set)

theorem credentials_tenant_isolation_witness:
  "creds_of_others 7 (snd (cred_svc_DeleteProviderConfig 8 ''mercadopago'' cred_sample_sys)) = creds_of_others 7 cred_sample_sys"
  using credentials_tenant_isolation [of cred_sample_sys 7] by (simp add: cred_sample_sys_def)

theorem second_secretless_config_fails_witness:
  "\<exists>s1 err s3. cred_repo_Set [] 7 ''stripe'' bare_config cred_sample_sys = (None, s1)
     \<and> cred_repo_Set [] 8 ''stripe'' bare_config (s1\<lparr>session := Current_Tenant 8\<rparr>) = (Some err, s3)
     \<and> sentinel_status err = 500"
proof -
  have b: "at_key bare_config ''webhook_secret'' = []" "bare_config \<noteq> []" by code_simp+
  have "fst (cred_repo_Set [] 7 ''stripe'' bare_config cred_sample_sys) = None"
    using b by (simp add: cred_repo_Set_def stored_config_def credentials_upsert_def Let_def first_error_None
        rls_check_None [THEN iffD2] cred_sample_sys_def visible_def cred_tenant_def credential_providers_def)
  then obtain s1 where s1: "cred_repo_Set [] 7 ''stripe'' bare_config cred_sample_sys = (None, s1)"
    by (cases "cred_repo_Set [] 7 ''stripe'' bare_config cred_sample_sys") simp
  from second_secretless_config_fails [OF s1 b(1), of "s1\<lparr>session := Current_Tenant 8\<rparr>" bare_config 8 "''stripe''"] b
  show ?thesis using s1 by auto
qed

end
