(* ===== verification/Json_Value.thy ===== *)
theory Json_Value
  imports Json_Map Prelude
begin

text \<open>
  Go's package \<open>encoding/json\<close> for decoding into structs: a parser of JSON values after RFC 8259, as the
  scanner of the package accepts them, and the rules by which a member is stored in a field (names
  matched without regard to case, \<open>null\<close> leaves a field alone, a value of another kind is an error, the
  last of several members wins). The limit of 10000 nested values is not modelled. The parser takes
  fuel; \<open>json_fuel\<close> shows that twice the length of the text is enough.
\<close>

datatype json =
    JNull
  | JBool bool
  | JNum string
  | JStr string
  | JArr "json list"
  | JObj "(string \<times> json) list"

section \<open>Values\<close>

definition digits_prefix :: "string \<Rightarrow> string" where
  "digits_prefix s = takeWhile is_digit09 s"

definition fraction_prefix :: "string \<Rightarrow> string option" where
  "fraction_prefix s =
     (if starts (CHR ''.'') s
      then (let d = digits_prefix (tl s) in if d = [] then None else Some (CHR ''.'' # d))
      else Some [])"

definition exponent_prefix :: "string \<Rightarrow> string option" where
  "exponent_prefix s =
     (if starts (CHR ''e'') s \<or> starts (CHR ''E'') s
      then (let t = tl s;
                sign = (if starts (CHR ''+'') t \<or> starts (CHR ''-'') t then [hd t] else []);
                d = digits_prefix (drop (length sign) t)
            in if d = [] then None else Some (hd s # sign @ d))
      else Some [])"

text \<open>The number literal at the head of a text.\<close>

definition json_number :: "string \<Rightarrow> string option" where
  "json_number s =
     (let sign = (if starts (CHR ''-'') s then ''-'' else []);
          t = drop (length sign) s;
          whole = (if starts (CHR ''0'') t then ''0'' else digits_prefix t)
      in if whole = [] then None
         else case fraction_prefix (drop (length whole) t) of
           None \<Rightarrow> None
         | Some f \<Rightarrow>
             (case exponent_prefix (drop (length (whole @ f)) t) of
                None \<Rightarrow> None
              | Some e \<Rightarrow> Some (sign @ whole @ f @ e)))"

fun json_value :: "nat \<Rightarrow> string \<Rightarrow> (json \<times> string) option"
  and json_elems :: "nat \<Rightarrow> string \<Rightarrow> (json list \<times> string) option"
  and json_members :: "nat \<Rightarrow> string \<Rightarrow> ((string \<times> json) list \<times> string) option" where
  "json_value 0 s = None"
| "json_value (Suc n) s =
     (if s = [] then None
      else if hd s = CHR ''{''
      then (let t = skip_space (tl s)
            in if starts (CHR ''}'') t then Some (JObj [], tl t)
               else map_option (\<lambda>(ms, r). (JObj ms, r)) (json_members n t))
      else if hd s = CHR ''[''
      then (let t = skip_space (tl s)
            in if starts (CHR '']'') t then Some (JArr [], tl t)
               else map_option (\<lambda>(vs, r). (JArr vs, r)) (json_elems n t))
      else if hd s = CHR 0x22 then map_option (\<lambda>(t, r). (JStr t, r)) (parse_quoted s)
      else if prefix ''null'' s then Some (JNull, drop 4 s)
      else if prefix ''true'' s then Some (JBool True, drop 4 s)
      else if prefix ''false'' s then Some (JBool False, drop 5 s)
      else map_option (\<lambda>x. (JNum x, drop (length x) s)) (json_number s))"
| "json_elems 0 s = None"
| "json_elems (Suc n) s =
     (case json_value n s of
        None \<Rightarrow> None
      | Some (v, r) \<Rightarrow>
          (let r' = skip_space r
           in if starts (CHR '','') r'
              then map_option (\<lambda>(vs, q). (v # vs, q)) (json_elems n (skip_space (tl r')))
              else if starts (CHR '']'') r' then Some ([v], tl r') else None))"
| "json_members 0 s = None"
| "json_members (Suc n) s =
     (case parse_quoted s of
        None \<Rightarrow> None
      | Some (k, r) \<Rightarrow>
          (if starts (CHR '':'') (skip_space r)
           then (case json_value n (skip_space (tl (skip_space r))) of
                   None \<Rightarrow> None
                 | Some (v, q) \<Rightarrow>
                     (let q' = skip_space q
                      in if starts (CHR '','') q'
                         then map_option (\<lambda>(ms, p). ((k, v) # ms, p)) (json_members n (skip_space (tl q')))
                         else if starts (CHR ''}'') q' then Some ([(k, v)], tl q') else None))
           else None))"

text \<open>\<open>Decoder.Decode\<close> reads the first value and leaves what follows; \<open>Unmarshal\<close> allows only space after it.\<close>

definition json_decode :: "string \<Rightarrow> json option" where
  "json_decode s = map_option fst (json_value (2 * length s) (skip_space s))"

definition json_unmarshal :: "string \<Rightarrow> json option" where
  "json_unmarshal s =
     (case json_value (2 * length s) (skip_space s) of
        Some (v, r) \<Rightarrow> if skip_space r = [] then Some v else None
      | None \<Rightarrow> None)"

section \<open>Storing values in fields\<close>

definition get_string :: "json \<Rightarrow> string \<Rightarrow> string option" where
  "get_string v old = (case v of JStr t \<Rightarrow> Some t | JNull \<Rightarrow> Some old | _ \<Rightarrow> None)"

text \<open>\<open>strconv.ParseInt(lit, 10, 64)\<close> on a number literal.\<close>

definition int_literal :: "string \<Rightarrow> int option" where
  "int_literal x =
     (let d = (if starts (CHR ''-'') x then tl x else x);
          v = (if starts (CHR ''-'') x then - digits_value d else digits_value d)
      in if d \<noteq> [] \<and> list_all is_digit09 d \<and> - (2 ^ 63) \<le> v \<and> v < 2 ^ 63 then Some v else None)"

definition get_int64 :: "json \<Rightarrow> int64 \<Rightarrow> int64 option" where
  "get_int64 v old =
     (case v of JNum x \<Rightarrow> map_option of_int (int_literal x) | JNull \<Rightarrow> Some old | _ \<Rightarrow> None)"

text \<open>The case folding of member names: ASCII letters, and the two other runes that fold to a letter.\<close>

fun fold_name :: "string \<Rightarrow> string" where
  "fold_name [] = []"
| "fold_name [a] = [lower_char a]"
| "fold_name (a # b # cs) =
     (if a = CHR 0xC5 \<and> b = CHR 0xBF then CHR ''s'' # fold_name cs
      else if a = CHR 0xE2 \<and> b = CHR 0x84 \<and> starts (CHR 0xAA) cs then CHR ''k'' # fold_name (tl cs)
      else lower_char a # fold_name (b # cs))"

fun fold_members :: "(string \<Rightarrow> json \<Rightarrow> 'a \<Rightarrow> 'a option) \<Rightarrow> (string \<times> json) list \<Rightarrow> 'a \<Rightarrow> 'a option" where
  "fold_members f [] x = Some x"
| "fold_members f ((k, v) # ms) x = (case f (fold_name k) v x of None \<Rightarrow> None | Some y \<Rightarrow> fold_members f ms y)"

definition get_struct :: "(string \<Rightarrow> json \<Rightarrow> 'a \<Rightarrow> 'a option) \<Rightarrow> json \<Rightarrow> 'a \<Rightarrow> 'a option" where
  "get_struct f v x = (case v of JObj ms \<Rightarrow> fold_members f ms x | JNull \<Rightarrow> Some x | _ \<Rightarrow> None)"

section \<open>Enough fuel\<close>

lemma length_skip_space: "length (skip_space s) \<le> length s"
  by (simp add: skip_space_def length_dropWhile_le)

lemma length_literal_item: "literal_item s = Some (t, r) \<Longrightarrow> length r < length s"
proof -
  have hex: "hex4 x = Some (y, z) \<Longrightarrow> length z < length x" for x y z
    by (auto simp: hex4_def split: list.splits option.splits prod.splits)
  have "u_rune x = Some (y, z) \<Longrightarrow> length z < length x" for x y z
    by (auto simp: u_rune_def split: option.splits prod.splits if_splits dest!: hex)
  then show "literal_item s = Some (t, r) \<Longrightarrow> length r < length s"
    by (fastforce simp: literal_item_def split: list.splits if_splits)
qed

lemma length_literal: "literal n s = Some (t, r) \<Longrightarrow> length r < length s"
proof (induction n arbitrary: s t r)
  case (Suc n)
  then show ?case
    by (cases s) (fastforce split: if_splits option.splits prod.splits dest!: length_literal_item)+
qed simp

lemma length_parse_quoted: "parse_quoted s = Some (t, r) \<Longrightarrow> length r < length s"
  by (cases s) (auto simp: parse_quoted_def simp del: literal.simps split: if_splits dest!: length_literal)

lemma length_skip_tl: "length (skip_space (tl s)) \<le> length s - 1"
  using length_skip_space [of "tl s"] by simp

lemma starts_not_Nil: "starts c s \<Longrightarrow> 0 < length s"
  by (simp add: starts_def)

lemma json_shorter:
  "json_value n s = Some (v, r) \<Longrightarrow> length r \<le> length s"
  "json_elems n s = Some (vs, r) \<Longrightarrow> length r \<le> length s"
  "json_members n s = Some (ms, r) \<Longrightarrow> length r \<le> length s"
proof (induction n arbitrary: s v vs ms r)
  case (Suc n)
  note tl = length_skip_tl and sp = length_skip_space and lq = length_parse_quoted
  { case 1
    have "json_members n (skip_space (tl s)) = Some (ms, r) \<Longrightarrow> length r \<le> length s" for ms
      using Suc.IH(3) [of "skip_space (tl s)" ms r] tl [of s] by linarith
    moreover have "json_elems n (skip_space (tl s)) = Some (vs, r) \<Longrightarrow> length r \<le> length s" for vs
      using Suc.IH(2) [of "skip_space (tl s)" vs r] tl [of s] by linarith
    moreover have "length (tl (skip_space (tl s))) \<le> length s" using tl [of s] by simp
    moreover have "parse_quoted s = Some (t, r) \<Longrightarrow> length r \<le> length s" for t using lq [of s t r] by linarith
    ultimately show ?case using 1 by (auto simp: Let_def split: if_splits) }
  { case 2
    then obtain w q where w: "json_value n s = Some (w, q)" by (auto split: option.splits)
    have q: "length (skip_space q) \<le> length s" using Suc.IH(1) [OF w] sp [of q] by linarith
    have "json_elems n (skip_space (tl (skip_space q))) = Some (us, r) \<Longrightarrow> length r \<le> length s" for us
      using Suc.IH(2) [of "skip_space (tl (skip_space q))" us r] tl [of "skip_space q"] q by linarith
    then show ?case using 2 w q by (auto simp: Let_def split: if_splits) }
  { case 3
    then obtain k p w q where kp: "parse_quoted s = Some (k, p)" and w: "json_value n (skip_space (tl (skip_space p))) = Some (w, q)"
      by (auto split: option.splits if_splits)
    have q: "length (skip_space q) \<le> length s"
      using lq [OF kp] Suc.IH(1) [OF w] sp [of q] sp [of p] tl [of "skip_space p"] by linarith
    have "json_members n (skip_space (tl (skip_space q))) = Some (us, r) \<Longrightarrow> length r \<le> length s" for us
      using Suc.IH(3) [of "skip_space (tl (skip_space q))" us r] tl [of "skip_space q"] q by linarith
    then show ?case using 3 kp w q by (auto simp: Let_def split: if_splits) }
qed simp_all

text \<open>More fuel than twice the length of the text changes nothing.\<close>

lemma json_fuel:
  "2 * length s \<le> n \<Longrightarrow> json_value (Suc n) s = json_value n s"
  "2 * length s + 1 \<le> n \<Longrightarrow> json_elems (Suc n) s = json_elems n s"
  "2 * length s + 1 \<le> n \<Longrightarrow> json_members (Suc n) s = json_members n s"
proof (induction n arbitrary: s)
  case (Suc m)
  note tl = length_skip_tl and sp = length_skip_space
  { case 1
    show ?case
    proof (cases "s = []")
      case False
      then have "0 < length s" by simp
      then have "2 * length (skip_space (tl s)) + 1 \<le> m" using tl [of s] 1 by linarith
      note eq = Suc.IH(2,3) [OF this]
      show ?thesis unfolding json_value.simps(2) [of m s] json_value.simps(2) [of "Suc m" s] Let_def eq ..
    qed simp }
  { case 2
    then have v: "json_value (Suc m) s = json_value m s" by (intro Suc.IH(1)) simp
    have "json_elems (Suc m) (skip_space (tl (skip_space r))) = json_elems m (skip_space (tl (skip_space r)))"
      if "json_value m s = Some (w, r)" "starts c (skip_space r)" for w r c
    proof -
      have "2 * length (skip_space (tl (skip_space r))) + 1 \<le> m"
        using json_shorter(1) [OF that(1)] sp [of r] tl [of "skip_space r"] starts_not_Nil [OF that(2)] 2 by linarith
      then show ?thesis by (rule Suc.IH(2))
    qed
    then show ?case unfolding json_elems.simps(2) [of m s] json_elems.simps(2) [of "Suc m" s] v
      by (simp add: Let_def del: json_elems.simps split: option.split) }
  { case 3
    show ?case
    proof (cases "parse_quoted s")
      case (Some kr)
      obtain k r where kr: "kr = (k, r)" by fastforce
      note lq = length_parse_quoted [OF Some [unfolded kr]]
      show ?thesis
      proof (cases "starts (CHR '':'') (skip_space r)")
        case True
        let ?t = "skip_space (tl (skip_space r))"
        have t: "2 * length ?t + 2 \<le> 2 * length s" using lq sp [of r] tl [of "skip_space r"] starts_not_Nil [OF True] by linarith
        have v: "json_value (Suc m) ?t = json_value m ?t" using t 3 by (intro Suc.IH(1)) linarith
        have "json_members (Suc m) (skip_space (tl (skip_space q))) = json_members m (skip_space (tl (skip_space q)))"
          if "json_value m ?t = Some (w, q)" for w q
        proof -
          have "2 * length (skip_space (tl (skip_space q))) + 1 \<le> m"
            using json_shorter(1) [OF that] sp [of q] tl [of "skip_space q"] t 3 by linarith
          then show ?thesis by (rule Suc.IH(3))
        qed
        then show ?thesis unfolding json_members.simps(2) [of m s] json_members.simps(2) [of "Suc m" s] Some kr
          by (simp add: Let_def v del: json_members.simps json_value.simps split: option.split)
      qed (simp add: Some kr)
    qed simp }
qed simp_all

lemma json_enough:
  "2 * length s \<le> n \<Longrightarrow> json_value n s = json_value (2 * length s) s"
  by (induction n rule: dec_induct) (simp_all add: json_fuel del: json_value.simps)

end
