(* ===== verification/Go_Float.thy ===== *)
theory Go_Float
  imports Prelude "HOL-Library.Log_Nat"
begin

text \<open>
  The type \<open>float64\<close>: a value is the rational number it stands for, and an operation is the exact one
  rounded to 53 significant bits, ties to even (IEEE 754). The exponent is unbounded: the amounts of
  the code stay between 2 to the power -7 and 2 to the power 64, far from subnormals and overflow.
\<close>

definition round_half_even :: "rat \<Rightarrow> int" where
  "round_half_even q =
     (let k = \<lfloor>q\<rfloor>; f = q - of_int k
      in if f < 1/2 then k else if 1/2 < f then k + 1 else if even k then k else k + 1)"

text \<open>The exponent for which the significand has 53 bits.\<close>

definition binade :: "rat \<Rightarrow> int" where
  "binade x =
     (case quotient_of x of (n, d) \<Rightarrow>
        (let e = bitlen \<bar>n\<bar> - bitlen d - 53
         in if 2 ^ 53 \<le> \<bar>x\<bar> / 2 powi e then e + 1 else e))"

definition f64 :: "rat \<Rightarrow> rat" where
  "f64 x = (if x = 0 then 0 else of_int (round_half_even (x / 2 powi (binade x))) * 2 powi (binade x))"

text \<open>\<open>math.Round\<close>: to the nearest integer, halves away from zero.\<close>

definition math_Round :: "rat \<Rightarrow> int" where
  "math_Round x = (if 0 \<le> x then \<lfloor>x + 1/2\<rfloor> else - \<lfloor>1/2 - x\<rfloor>)"

lemma round_half_even_error: "\<bar>of_int (round_half_even q) - q\<bar> \<le> 1/2"
proof -
  have "of_int \<lfloor>q\<rfloor> \<le> q" "q < of_int \<lfloor>q\<rfloor> + 1" by linarith+
  then show ?thesis by (auto simp: round_half_even_def Let_def abs_le_iff)
qed

lemma binade_significand:
  assumes "x \<noteq> 0"
  shows "2 ^ 52 \<le> \<bar>x\<bar> / 2 powi (binade x)"
proof -
  obtain n d where q: "quotient_of x = (n, d)" by fastforce
  have d: "0 < d" using quotient_of_denom_pos [OF q] .
  have x: "x = of_int n / of_int d" using quotient_of_div [OF q] .
  then have n: "0 < \<bar>n\<bar>" using assms by auto
  let ?e = "bitlen \<bar>n\<bar> - bitlen d - 53"
  have "2 ^ nat (bitlen \<bar>n\<bar> - 1) \<le> \<bar>n\<bar>" "d < 2 ^ nat (bitlen d)"
    using bitlen_bounds [OF n] bitlen_bounds [OF d] by auto
  then have "(of_int (2 ^ nat (bitlen \<bar>n\<bar> - 1)) :: rat) \<le> of_int \<bar>n\<bar>" "(of_int d :: rat) \<le> of_int (2 ^ nat (bitlen d))"
    unfolding of_int_le_iff by simp_all
  moreover have "(2 :: rat) ^ nat (bitlen \<bar>n\<bar> - 1) = 2 powi (bitlen \<bar>n\<bar> - 1)" "(2 :: rat) ^ nat (bitlen d) = 2 powi (bitlen d)"
    using bitlen_nonneg [of d] n by (simp_all add: power_int_def bitlen_def floorlog_def)
  ultimately have b: "(2 :: rat) powi (bitlen \<bar>n\<bar> - 1) \<le> of_int \<bar>n\<bar>" "(of_int d :: rat) \<le> 2 powi (bitlen d)"
    by simp_all
  have "(2 :: rat) powi (bitlen \<bar>n\<bar> - 1) / 2 powi (bitlen d) \<le> of_int \<bar>n\<bar> / of_int d"
    using b d by (intro frac_le) simp_all
  then have "2 powi (bitlen \<bar>n\<bar> - 1 - bitlen d) \<le> \<bar>x\<bar>"
    using d by (simp add: x power_int_diff abs_divide)
  moreover have "(2 :: rat) powi (bitlen \<bar>n\<bar> - 1 - bitlen d) = 2 ^ 52 * 2 powi ?e"
    using power_int_add [of "2 :: rat" 52 ?e] by (simp add: algebra_simps)
  ultimately have lo: "2 ^ 52 \<le> \<bar>x\<bar> / 2 powi ?e" by (simp add: pos_le_divide_eq)
  have "\<bar>x\<bar> / 2 powi (?e + 1) = \<bar>x\<bar> / 2 powi ?e / 2"
    by (subst power_int_add_1) simp_all
  then show ?thesis using lo by (auto simp: binade_def q Let_def)
qed

text \<open>The relative error of one rounding.\<close>

lemma f64_error: "\<bar>f64 x - x\<bar> \<le> \<bar>x\<bar> / 2 ^ 53"
proof (cases "x = 0")
  case False
  let ?p = "2 powi (binade x) :: rat"
  let ?q = "x / ?p"
  have p: "0 < ?p" by simp
  have "f64 x - x = (of_int (round_half_even ?q) - ?q) * ?p" using False p by (simp add: f64_def field_simps)
  then have "\<bar>f64 x - x\<bar> = \<bar>of_int (round_half_even ?q) - ?q\<bar> * ?p" using p by (simp add: abs_mult)
  also have "\<dots> \<le> 1/2 * ?p" using round_half_even_error p by (intro mult_right_mono) simp_all
  also have "1/2 * ?p \<le> \<bar>x\<bar> / 2 ^ 53" using binade_significand [OF False] p by (simp add: field_simps)
  finally show ?thesis .
qed (simp add: f64_def)

lemma math_Round_unique:
  assumes "\<bar>x - of_int k\<bar> < 1/2"
  shows "math_Round x = k"
proof -
  have "x - of_int k < 1/2" "of_int k - x < 1/2" using assms unfolding abs_less_iff by linarith+
  then have "\<lfloor>x + 1/2\<rfloor> = k" "\<lfloor>1/2 - x\<rfloor> = - k" unfolding floor_eq_iff by simp_all
  then show ?thesis by (simp add: math_Round_def)
qed

lemma round_half_even_int [simp]: "round_half_even (of_int k) = k"
  by (simp add: round_half_even_def)

text \<open>A number with a significand of 53 bits is not changed.\<close>

lemma f64_exact:
  assumes "\<bar>m\<bar> < 2 ^ 53"
  shows "f64 (of_int m * 2 powi e) = of_int m * 2 powi e"
proof (cases "m = 0")
  case False
  let ?x = "of_int m * 2 powi e :: rat" and ?b = "binade (of_int m * 2 powi e)"
  have x: "?x \<noteq> 0" using False by simp
  have abs: "\<bar>?x\<bar> / 2 powi ?b = of_int \<bar>m\<bar> * 2 powi (e - ?b)" by (simp add: abs_mult power_int_diff)
  have "?b \<le> e"
  proof (rule ccontr)
    assume "\<not> ?b \<le> e"
    then have "(2 :: rat) powi (e - ?b) \<le> 2 powi (- 1)" by (intro power_int_increasing) simp_all
    then have "of_int \<bar>m\<bar> * 2 powi (e - ?b) \<le> of_int \<bar>m\<bar> * (1/2 :: rat)"
      by (intro mult_left_mono) (simp_all add: power_int_minus)
    moreover have "(of_int \<bar>m\<bar> :: rat) < of_int (2 ^ 53)" using assms by (simp only: of_int_less_iff)
    ultimately show False using binade_significand [OF x] unfolding abs by simp
  qed
  then have "(2 :: rat) powi (e - ?b) = 2 ^ nat (e - ?b)" by (simp add: power_int_def)
  moreover have "?x / 2 powi ?b = of_int m * 2 powi (e - ?b)" by (simp add: power_int_diff)
  ultimately have "?x / 2 powi ?b = of_int (m * 2 ^ nat (e - ?b))" by simp
  then have "round_half_even (?x / 2 powi ?b) = m * 2 ^ nat (e - ?b)" by (simp only: round_half_even_int)
  then have "f64 ?x = of_int (m * 2 ^ nat (e - ?b)) * 2 powi ?b" using x by (simp only: f64_def if_False)
  also have "\<dots> = ?x / 2 powi ?b * 2 powi ?b" using \<open>?x / 2 powi ?b = of_int (m * 2 ^ nat (e - ?b))\<close> by simp
  finally show ?thesis by simp
qed (simp add: f64_def)

lemma f64_int: "\<bar>m\<bar> < 2 ^ 53 \<Longrightarrow> f64 (of_int m) = of_int m"
  using f64_exact [of m 0] by simp

lemma f64_0: "f64 0 = 0"
  by (simp add: f64_def)

lemma f64_le: "0 \<le> x \<Longrightarrow> f64 x \<le> x + x / 2 ^ 53"
  using f64_error [of x] by linarith

lemma f64_nonneg: "0 \<le> x \<Longrightarrow> 0 \<le> f64 x"
proof -
  assume x: "0 \<le> x"
  then have "x / 2 ^ 53 \<le> x" by simp
  then show ?thesis using f64_error [of x] x by linarith
qed

end
