(* ===== verification/Mercadopago.thy ===== *)
theory Mercadopago
  imports Credentials Json_Value Go_Float
begin

text \<open>
  Package \<open>internal/provider/mercadopago\<close>: client, mapper, connector and webhook validation. The network
  is a parameter \<open>mp_network\<close>: for each attempt of a call, whether the context ended during the wait
  before it, and the transport error or response of the request. A response body is text and decoded
  as the code does; only the printed form of a float64 that is read and printed again (in the raw
  response) and the URL parser are parameters. The length of the waits between attempts is not modelled.
\<close>

section \<open>Wire types (\<open>client.go\<close>)\<close>

record mp_create_payment_request =
  mq_TransactionAmount :: rat
  mq_Description :: string
  mq_PayerEmail :: string
  mq_ExternalReference :: string
  mq_Metadata :: config

text \<open>\<open>TransactionAmount\<close> of a response is kept in the form in which it is printed again.\<close>

record mp_payment =
  mp_ID :: int64
  mp_Status :: string
  mp_StatusDetail :: string
  mp_TransactionAmount :: string
  mp_PaymentMethodID :: string
  mp_PaymentTypeID :: string
  mp_Card :: "string option"

record mp_refund =
  mr_ID :: int64
  mr_Status :: string

record mp_error_response =
  me_Message :: string
  me_Error :: string
  me_Status :: int64

datatype mp_body = Payment_Body mp_create_payment_request | Refund_Body rat

record mp_request =
  rq_Path :: string
  rq_Authorization :: string
  rq_IdempotencyKey :: "string option"
  rq_Body :: mp_body

record http_response =
  hr_StatusCode :: nat
  hr_Body :: string

record mp_network =
  ctx_done :: "nat \<Rightarrow> gerror option"
  http_do :: "nat \<Rightarrow> mp_request \<Rightarrow> string + http_response"
  valid_url :: "string \<Rightarrow> bool"
  float_text :: "string \<Rightarrow> string option"

section \<open>Client (\<open>client.go\<close>)\<close>

definition mapErrorCategory :: "nat \<Rightarrow> string" where
  "mapErrorCategory httpStatus =
     (if httpStatus = 401 then ErrorCategoryAuthFailure
      else if httpStatus = 422 then ErrorCategoryRejected
      else if httpStatus = 429 then ErrorCategoryRateLimited
      else if httpStatus = 400 then ErrorCategoryValidation
      else ErrorCategoryUnknown)"

definition error_member :: "string \<Rightarrow> json \<Rightarrow> mp_error_response \<Rightarrow> mp_error_response option" where
  "error_member k v e =
     (if k = ''message'' then map_option (\<lambda>x. e\<lparr>me_Message := x\<rparr>) (get_string v (me_Message e))
      else if k = ''error'' then map_option (\<lambda>x. e\<lparr>me_Error := x\<rparr>) (get_string v (me_Error e))
      else if k = ''status'' then map_option (\<lambda>x. e\<lparr>me_Status := x\<rparr>) (get_int64 v (me_Status e))
      else Some e)"

definition decode_error :: "string \<Rightarrow> mp_error_response option" where
  "decode_error body =
     (case json_decode body of
        None \<Rightarrow> None
      | Some v \<Rightarrow> get_struct error_member v \<lparr>me_Message = [], me_Error = [], me_Status = 0\<rparr>)"

definition readErrorResponse :: "http_response \<Rightarrow> gerror" where
  "readErrorResponse resp =
     (case decode_error (hr_Body resp) of
        None \<Rightarrow> Provider_Error (mapErrorCategory (hr_StatusCode resp)) (hr_StatusCode resp) ''unknown''
                  ''unreadable error response''
      | Some mpErr \<Rightarrow> Provider_Error (mapErrorCategory (hr_StatusCode resp)) (hr_StatusCode resp)
                        (me_Error mpErr) (me_Message mpErr))"

definition maxRetries :: nat where "maxRetries = 3"

text \<open>The loop of \<open>doWithRetry\<close> with the attempts left and the number of the next one; besides the result it
  returns the requests that were sent.\<close>

fun retry_loop :: "mp_network \<Rightarrow> mp_request \<Rightarrow> nat \<Rightarrow> nat \<Rightarrow> gerror \<Rightarrow> mp_request list \<times> (gerror + http_response)" where
  "retry_loop net req 0 attempt lastErr =
     ([], Inl (case lastErr of
                 Provider_Error cat st code msg \<Rightarrow> lastErr
               | _ \<Rightarrow> Wrap (''mercadopago: max retries exceeded after '' @ nat_to_string (maxRetries + 1) @ '' attempts'') lastErr))"
| "retry_loop net req (Suc left) attempt lastErr =
     (case (if 0 < attempt then ctx_done net attempt else None) of
        Some err \<Rightarrow> ([], Inl err)
      | None \<Rightarrow>
          (case http_do net attempt req of
             Inl msg \<Rightarrow> (case retry_loop net req left (attempt + 1) (Plain msg) of (sent, r) \<Rightarrow> (req # sent, r))
           | Inr resp \<Rightarrow>
               (if hr_StatusCode resp = 429
                then (case retry_loop net req left (attempt + 1) (readErrorResponse resp) of (sent, r) \<Rightarrow> (req # sent, r))
                else ([req], Inr resp))))"

definition doWithRetry :: "mp_network \<Rightarrow> mp_request \<Rightarrow> mp_request list \<times> (gerror + http_response)" where
  "doWithRetry net req = retry_loop net req (maxRetries + 1) 0 (Plain [])"

definition payment_member :: "mp_network \<Rightarrow> string \<Rightarrow> json \<Rightarrow> mp_payment \<Rightarrow> mp_payment option" where
  "payment_member net k v p =
     (if k = ''id'' then map_option (\<lambda>x. p\<lparr>mp_ID := x\<rparr>) (get_int64 v (mp_ID p))
      else if k = ''status'' then map_option (\<lambda>x. p\<lparr>mp_Status := x\<rparr>) (get_string v (mp_Status p))
      else if k = ''status_detail'' then map_option (\<lambda>x. p\<lparr>mp_StatusDetail := x\<rparr>) (get_string v (mp_StatusDetail p))
      else if k = ''transaction_amount''
      then (case v of JNum x \<Rightarrow> map_option (\<lambda>y. p\<lparr>mp_TransactionAmount := y\<rparr>) (float_text net x)
                    | JNull \<Rightarrow> Some p | _ \<Rightarrow> None)
      else if k = ''payment_method_id'' then map_option (\<lambda>x. p\<lparr>mp_PaymentMethodID := x\<rparr>) (get_string v (mp_PaymentMethodID p))
      else if k = ''payment_type_id'' then map_option (\<lambda>x. p\<lparr>mp_PaymentTypeID := x\<rparr>) (get_string v (mp_PaymentTypeID p))
      else if k = ''card''
      then (if v = JNull then Some (p\<lparr>mp_Card := None\<rparr>)
            else map_option (\<lambda>c. p\<lparr>mp_Card := Some c\<rparr>)
              (get_struct (\<lambda>k' v' c. if k' = ''last_four_digits'' then get_string v' c else Some c) v
                (case mp_Card p of Some c \<Rightarrow> c | None \<Rightarrow> [])))
      else Some p)"

definition zero_payment :: mp_payment where
  "zero_payment = \<lparr>mp_ID = 0, mp_Status = [], mp_StatusDetail = [], mp_TransactionAmount = ''0'',
     mp_PaymentMethodID = [], mp_PaymentTypeID = [], mp_Card = None\<rparr>"

definition decode_payment :: "mp_network \<Rightarrow> string \<Rightarrow> mp_payment option" where
  "decode_payment net body =
     (case json_decode body of None \<Rightarrow> None | Some v \<Rightarrow> get_struct (payment_member net) v zero_payment)"

definition refund_member :: "string \<Rightarrow> json \<Rightarrow> mp_refund \<Rightarrow> mp_refund option" where
  "refund_member k v r =
     (if k = ''id'' then map_option (\<lambda>x. r\<lparr>mr_ID := x\<rparr>) (get_int64 v (mr_ID r))
      else if k = ''status'' then map_option (\<lambda>x. r\<lparr>mr_Status := x\<rparr>) (get_string v (mr_Status r))
      else Some r)"

definition decode_refund :: "string \<Rightarrow> mp_refund option" where
  "decode_refund body =
     (case json_decode body of None \<Rightarrow> None | Some v \<Rightarrow> get_struct refund_member v \<lparr>mr_ID = 0, mr_Status = []\<rparr>)"

definition mp_CreatePayment ::
  "mp_network \<Rightarrow> mp_create_payment_request \<Rightarrow> string \<Rightarrow> string \<Rightarrow> mp_request list \<times> (gerror + mp_payment)" where
  "mp_CreatePayment net req accessToken idempotencyKey =
     (let httpReq = \<lparr>rq_Path = ''/v1/payments'', rq_Authorization = ''Bearer '' @ accessToken,
                     rq_IdempotencyKey = Some idempotencyKey, rq_Body = Payment_Body req\<rparr>
      in case doWithRetry net httpReq of
        (sent, Inl err) \<Rightarrow> (sent, Inl err)
      | (sent, Inr resp) \<Rightarrow>
          (sent,
           if 400 \<le> hr_StatusCode resp then Inl (readErrorResponse resp)
           else case decode_payment net (hr_Body resp) of
             None \<Rightarrow> Inl (Wrap ''decoding payment response'' (Plain ''invalid JSON''))
           | Some payment \<Rightarrow> Inr payment))"

definition mp_CreateRefund ::
  "mp_network \<Rightarrow> string \<Rightarrow> rat \<Rightarrow> string \<Rightarrow> mp_request list \<times> (gerror + mp_refund)" where
  "mp_CreateRefund net paymentID amount accessToken =
     (let path = ''/v1/payments/'' @ paymentID @ ''/refunds'';
          httpReq = \<lparr>rq_Path = path, rq_Authorization = ''Bearer '' @ accessToken,
                     rq_IdempotencyKey = None, rq_Body = Refund_Body amount\<rparr>
      in if \<not> valid_url net path then ([], Inl (Wrap ''creating refund request'' (Plain ''parse'')))
         else case doWithRetry net httpReq of
        (sent, Inl err) \<Rightarrow> (sent, Inl err)
      | (sent, Inr resp) \<Rightarrow>
          (sent,
           if 400 \<le> hr_StatusCode resp then Inl (readErrorResponse resp)
           else case decode_refund (hr_Body resp) of
             None \<Rightarrow> Inl (Wrap ''decoding refund response'' (Plain ''invalid JSON''))
           | Some refund \<Rightarrow> Inr refund))"

definition centavosToUnits :: "int64 \<Rightarrow> rat" where
  "centavosToUnits centavos = f64 (f64 (of_int (sint centavos)) / 100)"

definition unitsToCentavos :: "rat \<Rightarrow> int64" where
  "unitsToCentavos units = of_int (math_Round (f64 (units * 100)))"

section \<open>Mapper (\<open>mapper.go\<close>)\<close>

definition mapStatus :: "string \<Rightarrow> string" where
  "mapStatus mpStatus =
     (if mpStatus = ''approved'' then ChargeStatusSucceeded
      else if mpStatus \<in> {''pending'', ''in_process'', ''authorized''} then ChargeStatusPending
      else if mpStatus \<in> {''rejected'', ''cancelled'', ''charged_back'', ''refunded''} then ChargeStatusFailed
      else ChargeStatusPending)"

definition mapRefundStatus :: "string \<Rightarrow> string" where
  "mapRefundStatus mpStatus =
     (if mpStatus = ''approved'' then ChargeStatusSucceeded
      else if mpStatus = ''pending'' then ChargeStatusPending
      else ChargeStatusFailed)"

definition mapPaymentMethod :: "mp_payment option \<Rightarrow> payment_method_info option" where
  "mapPaymentMethod payment =
     (case payment of
        None \<Rightarrow> None
      | Some p \<Rightarrow>
         (let info = \<lparr>pm_Type = mp_PaymentTypeID p, pm_Brand = mp_PaymentMethodID p, pm_LastFour = [], pm_Bank = []\<rparr>
          in Some (case mp_Card p of
                     Some four \<Rightarrow> if four \<noteq> [] then info\<lparr>pm_LastFour := four\<rparr> else info
                   | None \<Rightarrow> info)))"

definition buildCreatePaymentRequest :: "charge_request \<Rightarrow> mp_create_payment_request" where
  "buildCreatePaymentRequest req =
     \<lparr>mq_TransactionAmount = centavosToUnits (cr_Amount req), mq_Description = cr_Description req,
      mq_PayerEmail = cr_ExternalCustomerID req, mq_ExternalReference = cr_IdempotencyKey req,
      mq_Metadata = cr_Metadata req\<rparr>"

definition payment_json :: "mp_payment \<Rightarrow> string" where
  "payment_json p =
     ''{'' @ json_quote ''id'' @ '':'' @ int_to_string (sint (mp_ID p))
     @ '','' @ json_quote ''status'' @ '':'' @ json_quote (mp_Status p)
     @ '','' @ json_quote ''status_detail'' @ '':'' @ json_quote (mp_StatusDetail p)
     @ '','' @ json_quote ''transaction_amount'' @ '':'' @ mp_TransactionAmount p
     @ '','' @ json_quote ''payment_method_id'' @ '':'' @ json_quote (mp_PaymentMethodID p)
     @ '','' @ json_quote ''payment_type_id'' @ '':'' @ json_quote (mp_PaymentTypeID p)
     @ (case mp_Card p of
          None \<Rightarrow> []
        | Some four \<Rightarrow> '','' @ json_quote ''card'' @ '':{'' @ json_quote ''last_four_digits'' @ '':'' @ json_quote four @ ''}'')
     @ ''}''"

definition mapToChargeResult :: "mp_payment \<Rightarrow> gerror + charge_result" where
  "mapToChargeResult p =
     Inr \<lparr>ch_ProviderChargeID = int_to_string (sint (mp_ID p)), ch_Status = mapStatus (mp_Status p),
          ch_FailureReason = mp_StatusDetail p, ch_PaymentMethod = mapPaymentMethod (Some p),
          ch_RawResponse = Some (payment_json p)\<rparr>"

definition refund_json :: "mp_refund \<Rightarrow> string" where
  "refund_json r =
     ''{'' @ json_quote ''id'' @ '':'' @ int_to_string (sint (mr_ID r))
     @ '','' @ json_quote ''status'' @ '':'' @ json_quote (mr_Status r) @ ''}''"

definition mapToRefundResult :: "mp_refund \<Rightarrow> gerror + refund_result" where
  "mapToRefundResult r =
     Inr \<lparr>rf_ProviderRefundID = int_to_string (sint (mr_ID r)), rf_Status = mapRefundStatus (mr_Status r),
          rf_RawResponse = Some (refund_json r)\<rparr>"

section \<open>Webhook validation (\<open>webhook.go\<close>)\<close>

record mp_webhook_payload =
  wp_ID :: int64
  wp_Type :: string
  wp_Action :: string
  wp_DataID :: string

definition webhook_member :: "string \<Rightarrow> json \<Rightarrow> mp_webhook_payload \<Rightarrow> mp_webhook_payload option" where
  "webhook_member k v w =
     (if k = ''id'' then map_option (\<lambda>x. w\<lparr>wp_ID := x\<rparr>) (get_int64 v (wp_ID w))
      else if k = ''type'' then map_option (\<lambda>x. w\<lparr>wp_Type := x\<rparr>) (get_string v (wp_Type w))
      else if k = ''action'' then map_option (\<lambda>x. w\<lparr>wp_Action := x\<rparr>) (get_string v (wp_Action w))
      else if k = ''data''
      then map_option (\<lambda>x. w\<lparr>wp_DataID := x\<rparr>)
             (get_struct (\<lambda>k' v' i. if k' = ''id'' then get_string v' i else Some i) v (wp_DataID w))
      else Some w)"

definition decode_webhook :: "string \<Rightarrow> mp_webhook_payload option" where
  "decode_webhook payload =
     (case json_unmarshal payload of
        None \<Rightarrow> None
      | Some v \<Rightarrow> get_struct webhook_member v \<lparr>wp_ID = 0, wp_Type = [], wp_Action = [], wp_DataID = []\<rparr>)"

text \<open>The payment a notification is about.\<close>

definition notified_payment :: "mp_webhook_payload \<Rightarrow> string" where
  "notified_payment wh = (if wp_DataID wh = [] then int_to_string (sint (wp_ID wh)) else wp_DataID wh)"

fun signature_fields :: "string list \<Rightarrow> string \<times> string \<Rightarrow> string \<times> string" where
  "signature_fields [] (ts, v1) = (ts, v1)"
| "signature_fields (part # parts) (ts, v1) =
     (case go_split (CHR ''='') part of
        [k, v] \<Rightarrow> signature_fields parts (if k = ''ts'' then (v, v1) else if k = ''v1'' then (ts, v) else (ts, v1))
      | _ \<Rightarrow> signature_fields parts (ts, v1))"

definition signed_message :: "string \<Rightarrow> string \<Rightarrow> string \<Rightarrow> string" where
  "signed_message paymentID requestID ts = ''id:'' @ paymentID @ '';request-id:'' @ requestID @ '';ts:'' @ ts @ '';''"

definition validateSignature :: "string \<Rightarrow> string \<Rightarrow> string \<Rightarrow> string \<Rightarrow> gerror option" where
  "validateSignature payload secret requestID rawSignature =
     (let (ts, v1) = signature_fields (go_split (CHR '','') rawSignature) ([], [])
      in if ts = [] \<or> v1 = []
         then Some (Plain ''mercadopago webhook: malformed signature (missing ts or v1)'')
         else case decode_webhook payload of
           None \<Rightarrow> Some (Wrap ''mercadopago webhook: parsing payload for ID'' (Plain ''invalid JSON''))
         | Some wh \<Rightarrow>
             (if hmac_hex secret (signed_message (notified_payment wh) requestID ts) \<noteq> v1
              then Some (Plain ''mercadopago webhook: signature validation failed'')
              else None))"

definition parseWebhookEvent :: "string \<Rightarrow> gerror + webhook_event" where
  "parseWebhookEvent payload =
     (case decode_webhook payload of
        None \<Rightarrow> Inl (Wrap ''mercadopago webhook: parsing payload'' (Plain ''invalid JSON''))
      | Some wh \<Rightarrow>
          (let event = \<lparr>we_ProviderName = ''mercadopago'', we_EventType = wp_Type wh, we_ProviderChargeID = [],
                        we_Status = [], we_RawPayload = payload\<rparr>
           in Inr (if wp_Type wh = ''payment''
                   then event\<lparr>we_ProviderChargeID := notified_payment wh, we_Status := ChargeStatusPending\<rparr>
                   else event)))"

definition validateAndParseWebhook :: "string \<Rightarrow> string \<Rightarrow> string \<Rightarrow> string \<Rightarrow> gerror + webhook_event" where
  "validateAndParseWebhook payload rawSignature secret requestID =
     (case validateSignature payload secret requestID rawSignature of
        Some err \<Rightarrow> Inl (Wrap ''mercadopago.validateAndParseWebhook'' (Sentinel ErrWebhookSignatureInvalid))
      | None \<Rightarrow>
          (case parseWebhookEvent payload of
             Inl err \<Rightarrow> Inl (Wrap ''mercadopago.validateAndParseWebhook'' (Sentinel ErrInvalidInput))
           | Inr event \<Rightarrow> Inr event))"

section \<open>Connector (\<open>provider.go\<close>)\<close>

definition RequiredConfig :: "string list" where
  "RequiredConfig = [''access_token'', ''webhook_secret'']"

definition mp_ValidateConfig :: "config \<Rightarrow> gerror option" where
  "mp_ValidateConfig config =
     (case find (\<lambda>key. at_key config key = []) RequiredConfig of
        Some key \<Rightarrow> Some (Wrap (''mercadopago: missing required config key '' @ quoted key) (Sentinel ErrInvalidInput))
      | None \<Rightarrow> None)"

text \<open>The sentinel for an error of \<open>CreatePayment\<close>, by the category of a provider error in its chain.\<close>

definition charge_error :: "gerror \<Rightarrow> gerror" where
  "charge_error err =
     (case errors_as_provider err of
        Some (cat, st, code, msg) \<Rightarrow>
          (if cat = ErrorCategoryAuthFailure then Wrap ''mercadopago.CreateCharge'' (Sentinel ErrProviderAuthFailure)
           else if cat = ErrorCategoryRejected then Domain ''provider_rejected'' msg 422 ErrProviderRejected
           else if cat = ErrorCategoryRateLimited then Wrap ''mercadopago.CreateCharge'' (Sentinel ErrProviderRateLimited)
           else if cat = ErrorCategoryValidation then Wrap ''mercadopago.CreateCharge'' (Sentinel ErrInvalidInput)
           else Wrap ''mercadopago.CreateCharge'' (Sentinel ErrProviderError))
      | None \<Rightarrow> Wrap ''mercadopago.CreateCharge'' (Sentinel ErrProviderError))"

definition mp_CreateCharge :: "mp_network \<Rightarrow> charge_request \<Rightarrow> mp_request list \<times> (gerror + charge_result)" where
  "mp_CreateCharge net req =
     (let accessToken = at_key (cr_Config req) ''access_token''
      in if accessToken = []
         then ([], Inl (Wrap ''mercadopago.CreateCharge: access_token is required'' (Sentinel ErrInvalidInput)))
         else case mp_CreatePayment net (buildCreatePaymentRequest req) accessToken (cr_IdempotencyKey req) of
           (sent, Inl err) \<Rightarrow> (sent, Inl (charge_error err))
         | (sent, Inr payment) \<Rightarrow>
             (sent, case mapToChargeResult payment of
                      Inl err \<Rightarrow> Inl (Wrap ''mercadopago.CreateCharge: mapping result'' err)
                    | Inr result \<Rightarrow> Inr result))"

definition mp_RefundCharge :: "string \<Rightarrow> int64 \<Rightarrow> gerror + refund_result" where
  "mp_RefundCharge chargeID amount =
     Inl (Wrap (''mercadopago.RefundCharge: not implemented - the PaymentProvider interface does not propagate ''
                @ ''per-call credentials to this method'') (Sentinel ErrNotSupported))"

definition mp_HandleWebhook :: "string \<Rightarrow> string \<Rightarrow> gerror + webhook_event" where
  "mp_HandleWebhook payload signature =
     (case go_split (CHR ''|'') signature of
        [secret, requestID, rawSignature] \<Rightarrow>
          (case validateAndParseWebhook payload rawSignature secret requestID of
             Inl err \<Rightarrow>
               Inl (Wrap ''mercadopago.HandleWebhook''
                  (Sentinel (if errors_is err ErrWebhookSignatureInvalid then ErrWebhookSignatureInvalid else ErrInvalidInput)))
           | Inr event \<Rightarrow> Inr event)
      | _ \<Rightarrow> Inl (Wrap (''mercadopago.HandleWebhook: signature parameter must be '' @ [CHR 0x27] @ ''secret|requestID|rawSignature'' @ [CHR 0x27])
               (Sentinel ErrInvalidInput)))"

definition mp_provider :: "(nat \<Rightarrow> mp_network) \<Rightarrow> provider" where
  "mp_provider net =
     \<lparr>pv_Name = ''mercadopago'', pv_Capabilities = \<lparr>caps_Plans = True, caps_PayPerUse = False\<rparr>,
      pv_CreateCharge = (\<lambda>n req. snd (mp_CreateCharge (net n) req)),
      pv_RefundCharge = (\<lambda>n chargeID amount. mp_RefundCharge chargeID amount),
      pv_HandleWebhook = mp_HandleWebhook, pv_ValidateConfig = mp_ValidateConfig\<rparr>"

end
