(* ===== verification/Webhook.thy ===== *)
theory Webhook
  imports Mercadopago Credential_Rules
begin

text \<open>
  \<open>internal/webhook/handler.go\<close> over the credentials and the Mercado Pago connector, and what the
  connector and the handler guarantee: which notifications are accepted, how the outcomes of a charge
  are answered, how often the provider is called, and that amounts survive the conversion to float64.
  The handler writes nothing, so it takes the state and returns a response.
\<close>

section \<open>Handler (\<open>webhook/handler.go\<close>)\<close>

text \<open>\<open>body\<close> is \<open>None\<close> when reading it fails; a missing header is the empty text.\<close>

definition webhook_HandleWebhook ::
  "string \<Rightarrow> adapter \<Rightarrow> go_context \<Rightarrow> string \<Rightarrow> string option \<Rightarrow> string \<Rightarrow> string \<Rightarrow> sys \<Rightarrow> (string \<times> string) list response" where
  "webhook_HandleWebhook encKey a ctx webhookSecret body xSignature xRequestID s =
     (if webhookSecret = [] then RespondError ctx (Sentinel ErrInvalidInput)
      else case body of
        None \<Rightarrow> RespondError ctx (Sentinel ErrInvalidInput)
      | Some payload \<Rightarrow>
          (case cred_svc_LookupByWebhookSecret encKey webhookSecret s of
             Inl err \<Rightarrow> RespondError ctx (Sentinel ErrWebhookSignatureInvalid)
           | Inr (tenantID, providerName, config) \<Rightarrow>
               (if providerName = ''mercadopago'' \<and> (xSignature = [] \<or> xRequestID = [])
                then RespondError ctx (Sentinel ErrInvalidInput)
                else let signature = (if providerName = ''mercadopago''
                                      then webhookSecret @ ''|'' @ xRequestID @ ''|'' @ xSignature else xSignature)
                     in case adapter_HandleWebhook a providerName payload signature of
                       Inl err \<Rightarrow> RespondError ctx err
                     | Inr event \<Rightarrow> Response 200 [(''message'', ''webhook received'')])))"

section \<open>Which notifications are accepted\<close>

lemma signature_header:
  assumes "CHR '','' \<notin> set ts" "CHR ''='' \<notin> set ts" "CHR '','' \<notin> set v1" "CHR ''='' \<notin> set v1"
  shows "signature_fields (go_split (CHR '','') (''ts='' @ ts @ '',v1='' @ v1)) ([], []) = (ts, v1)"
proof -
  have "go_split (CHR '','') ((''ts='' @ ts) @ CHR '','' # (''v1='' @ v1)) = [''ts='' @ ts, ''v1='' @ v1]"
    using assms(1,3) by (subst go_split_append) (simp_all add: go_split_no_sep del: go_split.simps)
  moreover have "go_split (CHR ''='') (k @ CHR ''='' # v) = [k, v]" if "CHR ''='' \<notin> set k" "CHR ''='' \<notin> set v" for k v
    using that by (simp add: go_split_append go_split_no_sep)
  from this [of "''ts''" ts] this [of "''v1''" v1] assms(2,4)
  have "go_split (CHR ''='') (''ts='' @ ts) = [''ts'', ts]" "go_split (CHR ''='') (''v1='' @ v1) = [''v1'', v1]"
    by (simp_all del: go_split.simps)
  ultimately show ?thesis by (simp del: go_split.simps)
qed

lemma split_signature:
  assumes "CHR ''|'' \<notin> set w" "CHR ''|'' \<notin> set rid" "CHR ''|'' \<notin> set sig"
  shows "go_split (CHR ''|'') (w @ ''|'' @ rid @ ''|'' @ sig) = [w, rid, sig]"
  using assms by (simp add: go_split_append go_split_no_sep)

text \<open>What the connector does with a signature parameter assembled by the handler.\<close>

lemma mp_HandleWebhook_signed:
  assumes "CHR ''|'' \<notin> set w" "CHR ''|'' \<notin> set rid" "CHR ''|'' \<notin> set sig"
    and "signature_fields (go_split (CHR '','') sig) ([], []) = (ts, v1)" "ts \<noteq> []"
    and "decode_webhook payload = Some wh"
  shows "v1 = hmac_hex w (signed_message (notified_payment wh) rid ts) \<Longrightarrow> v1 \<noteq> [] \<Longrightarrow>
      \<exists>event. mp_HandleWebhook payload (w @ ''|'' @ rid @ ''|'' @ sig) = Inr event
        \<and> we_EventType event = wp_Type wh
        \<and> (wp_Type wh = ''payment'' \<longrightarrow> we_ProviderChargeID event = notified_payment wh)"
    "v1 \<noteq> hmac_hex w (signed_message (notified_payment wh) rid ts) \<Longrightarrow>
      mp_HandleWebhook payload (w @ ''|'' @ rid @ ''|'' @ sig)
        = Inl (Wrap ''mercadopago.HandleWebhook'' (Sentinel ErrWebhookSignatureInvalid))"
  using assms(4-6)
  by (auto simp: mp_HandleWebhook_def split_signature [OF assms(1-3), simplified] validateAndParseWebhook_def
      validateSignature_def parseWebhookEvent_def Let_def)

text \<open>A secret with a separator in it can be stored, but splits into too many parts.\<close>

lemma length_go_split: "length (go_split c s) = Suc (count_list s c)"
  by (induction s) (auto split: list.splits)

lemma mp_HandleWebhook_separator:
  assumes "CHR ''|'' \<in> set w \<or> CHR ''|'' \<in> set rid \<or> CHR ''|'' \<in> set sig"
  shows "\<exists>msg. mp_HandleWebhook payload (w @ ''|'' @ rid @ ''|'' @ sig) = Inl (Wrap msg (Sentinel ErrInvalidInput))"
proof -
  let ?s = "w @ ''|'' @ rid @ ''|'' @ sig"
  have "0 < count_list w (CHR ''|'') + count_list rid (CHR ''|'') + count_list sig (CHR ''|'')"
    using assms by (auto simp: count_list_0_iff intro: gr0I)
  then have "length (go_split (CHR ''|'') ?s) \<noteq> 3" by (simp add: length_go_split)
  then have "\<nexists>x y z. go_split (CHR ''|'') ?s = [x, y, z]" by auto
  then show ?thesis
    unfolding mp_HandleWebhook_def by (auto split: list.split)
qed

lemma webhook_routed:
  assumes "cred_svc_SetProviderConfig encKey a t ''mercadopago'' c s = (None, s')" "creds_ok s" "jsonb_ok s" "ascii_map c"
    and "length encKey = 32 \<or> at_key c ''_enc'' = []" "Lookup (ad_registry a) ''mercadopago'' = Inr (mp_provider net)"
    and "sig \<noteq> []" "rid \<noteq> []"
  defines "w \<equiv> at_key c ''webhook_secret''"
  shows "w \<noteq> []"
    "webhook_HandleWebhook encKey a ctx w (Some payload) sig rid s'
      = (case mp_HandleWebhook payload (w @ ''|'' @ rid @ ''|'' @ sig) of
           Inl err \<Rightarrow> RespondError ctx (Wrap ''adapter.HandleWebhook via mercadopago'' err)
         | Inr event \<Rightarrow> Response 200 [(''message'', ''webhook received'')])"
proof -
  have "pv_ValidateConfig (mp_provider net) c = None"
    using assms(1,6) by (auto simp: cred_svc_SetProviderConfig_def LookupProvider_def split: if_splits option.splits)
  then show w: "w \<noteq> []"
    unfolding w_def by (auto simp: mp_provider_def mp_ValidateConfig_def RequiredConfig_def split: if_splits)
  obtain m where "cred_svc_LookupByWebhookSecret encKey w s' = Inr (t, ''mercadopago'', m)"
    using set_then_read [OF assms(1-5)] w unfolding w_def by blast
  then show "webhook_HandleWebhook encKey a ctx w (Some payload) sig rid s'
      = (case mp_HandleWebhook payload (w @ ''|'' @ rid @ ''|'' @ sig) of
           Inl err \<Rightarrow> RespondError ctx (Wrap ''adapter.HandleWebhook via mercadopago'' err)
         | Inr event \<Rightarrow> Response 200 [(''message'', ''webhook received'')])"
    using w assms(6-8) by (simp add: webhook_HandleWebhook_def adapter_HandleWebhook_def mp_provider_def split: sum.split)
qed

lemma webhook_error_status:
  "sentinel_status (Sentinel ErrWebhookSignatureInvalid) = 401" "sentinel_status (Sentinel ErrInvalidInput) = 400"
  by (simp_all add: sentinel_status_def)

lemma mp_HandleWebhook_refused:
  assumes "CHR ''|'' \<notin> set w" "CHR ''|'' \<notin> set rid" "CHR ''|'' \<notin> set sig"
    and "signature_fields (go_split (CHR '','') sig) ([], []) = (ts, v1)"
    and "ts = [] \<or> v1 = [] \<or> decode_webhook payload = None"
  shows "mp_HandleWebhook payload (w @ ''|'' @ rid @ ''|'' @ sig)
    = Inl (Wrap ''mercadopago.HandleWebhook'' (Sentinel ErrWebhookSignatureInvalid))"
  using assms(4,5)
  by (auto simp: mp_HandleWebhook_def split_signature [OF assms(1-3), simplified] validateAndParseWebhook_def
      validateSignature_def Let_def split: option.split)

lemma webhook_without_headers:
  assumes "cred_svc_SetProviderConfig encKey a t ''mercadopago'' c s = (None, s')" "creds_ok s" "jsonb_ok s" "ascii_map c"
    and "length encKey = 32 \<or> at_key c ''_enc'' = []" "at_key c ''webhook_secret'' \<noteq> []" "sig = [] \<or> rid = []"
  shows "response_status (webhook_HandleWebhook encKey a ctx (at_key c ''webhook_secret'') (Some payload) sig rid s') = 400"
proof -
  obtain m where "cred_svc_LookupByWebhookSecret encKey (at_key c ''webhook_secret'') s' = Inr (t, ''mercadopago'', m)"
    using set_then_read [OF assms(1-5)] assms(6) by blast
  then show ?thesis using assms(6,7) by (auto simp: webhook_HandleWebhook_def HTTPStatusFor_def sentinel_status_def)
qed

text \<open>C29. Once a tenant has stored its Mercado Pago credentials, a notification posted to the URL with its webhook
  secret (the body could be read) is answered with 400 when the signature or request id header is missing or the
  character \<open>|\<close> is in the secret or in one of them; otherwise with 200 exactly when the signature header has a
  time stamp and the HMAC-SHA-256, under that secret, of the notified payment, the request id and the time
  stamp, and with 401 when not. (The time stamp is not compared with the clock, so a notification can be
  replayed.) The conditions on what was stored are those of reading a configuration back: the constraints of the
  table, ASCII texts, JSONB keeping the members of what it accepts, and without a 32-byte key no member \<open>_enc\<close>.\<close>

theorem webhook_decides:
  assumes "cred_svc_SetProviderConfig encKey a t ''mercadopago'' c s = (None, s')" "creds_ok s" "jsonb_ok s" "ascii_map c"
    and "length encKey = 32 \<or> at_key c ''_enc'' = []" "Lookup (ad_registry a) ''mercadopago'' = Inr (mp_provider net)"
  defines "w \<equiv> at_key c ''webhook_secret''"
  shows "response_status (webhook_HandleWebhook encKey a ctx w (Some payload) sig rid s')
    = (if sig = [] \<or> rid = [] \<or> CHR ''|'' \<in> set w \<union> set rid \<union> set sig then 400
       else let (ts, v1) = signature_fields (go_split (CHR '','') sig) ([], [])
         in if ts \<noteq> [] \<and> v1 \<noteq> [] \<and> (\<exists>wh. decode_webhook payload = Some wh
                 \<and> v1 = hmac_hex w (signed_message (notified_payment wh) rid ts))
            then 200 else 401)"
proof -
  have "pv_ValidateConfig (mp_provider net) c = None"
    using assms(1,6) by (auto simp: cred_svc_SetProviderConfig_def LookupProvider_def split: if_splits option.splits)
  then have w: "at_key c ''webhook_secret'' \<noteq> []"
    by (auto simp: mp_provider_def mp_ValidateConfig_def RequiredConfig_def split: if_splits)
  obtain ts v1 where f: "signature_fields (go_split (CHR '','') sig) ([], []) = (ts, v1)" by fastforce
  consider "sig = [] \<or> rid = []" | "sig \<noteq> []" "rid \<noteq> []" "CHR ''|'' \<in> set w \<or> CHR ''|'' \<in> set rid \<or> CHR ''|'' \<in> set sig"
    | "sig \<noteq> []" "rid \<noteq> []" "CHR ''|'' \<notin> set w" "CHR ''|'' \<notin> set rid" "CHR ''|'' \<notin> set sig" by blast
  then show ?thesis
  proof cases
    case 1
    then show ?thesis using webhook_without_headers [OF assms(1-5) w 1] by (auto simp: w_def)
  next
    case 2
    obtain msg where "mp_HandleWebhook payload (w @ ''|'' @ rid @ ''|'' @ sig) = Inl (Wrap msg (Sentinel ErrInvalidInput))"
      using mp_HandleWebhook_separator 2(3) by blast
    then show ?thesis
      using 2(3) unfolding w_def webhook_routed(2) [OF assms(1-6) 2(1,2)] by (auto simp: webhook_error_status)
  next
    case 3
    note routed = webhook_routed(2) [OF assms(1-6) 3(1,2), folded w_def]
    show ?thesis
    proof (cases "ts = [] \<or> v1 = [] \<or> decode_webhook payload = None")
      case True
      then show ?thesis
        using 3 by (auto simp: routed f mp_HandleWebhook_refused [OF 3(3-5) f True, simplified] webhook_error_status)
    next
      case False
      then obtain wh where wh: "decode_webhook payload = Some wh" "ts \<noteq> []" "v1 \<noteq> []" by auto
      show ?thesis
      proof (cases "v1 = hmac_hex w (signed_message (notified_payment wh) rid ts)")
        case True
        obtain event where "mp_HandleWebhook payload (w @ ''|'' @ rid @ ''|'' @ sig) = Inr event"
          using mp_HandleWebhook_signed(1) [OF 3(3-5) f wh(2,1) True wh(3)] by blast
        then show ?thesis unfolding routed using 3 wh True by (simp add: f)
      next
        case False
        show ?thesis
          unfolding routed mp_HandleWebhook_signed(2) [OF 3(3-5) f wh(2,1) False]
          using 3 wh False by (simp add: f webhook_error_status)
      qed
    qed
  qed
qed

text \<open>A webhook secret that contains the separator \<open>|\<close> is accepted and stored, but every notification for it,
  correctly signed or not, is then answered with 400.\<close>

theorem webhook_secret_with_separator:
  assumes "cred_svc_SetProviderConfig encKey a t ''mercadopago'' c s = (None, s')" "creds_ok s" "jsonb_ok s" "ascii_map c"
    and "length encKey = 32 \<or> at_key c ''_enc'' = []" "Lookup (ad_registry a) ''mercadopago'' = Inr (mp_provider net)"
    and "CHR ''|'' \<in> set (at_key c ''webhook_secret'')"
  shows "response_status (webhook_HandleWebhook encKey a ctx (at_key c ''webhook_secret'') (Some payload) sig rid s') = 400"
proof (cases "sig = [] \<or> rid = []")
  case True
  have "at_key c ''webhook_secret'' \<noteq> []" using assms(7) by auto
  then show ?thesis by (rule webhook_without_headers [OF assms(1-5) _ True])
next
  case False
  then have ne: "sig \<noteq> []" "rid \<noteq> []" by auto
  obtain msg where "mp_HandleWebhook payload (at_key c ''webhook_secret'' @ ''|'' @ rid @ ''|'' @ sig)
      = Inl (Wrap msg (Sentinel ErrInvalidInput))"
    using mp_HandleWebhook_separator assms(7) by blast
  then show ?thesis unfolding webhook_routed(2) [OF assms(1-6) ne] by (simp add: webhook_error_status)
qed

section \<open>Charges\<close>

text \<open>An attempt that is repeated: it got no response, or one with status 429.\<close>

definition attempt_fails :: "mp_network \<Rightarrow> mp_request \<Rightarrow> nat \<Rightarrow> bool" where
  "attempt_fails net req i = (case http_do net i req of Inl msg \<Rightarrow> True | Inr resp \<Rightarrow> hr_StatusCode resp = 429)"

definition attempt_error :: "mp_network \<Rightarrow> mp_request \<Rightarrow> nat \<Rightarrow> gerror" where
  "attempt_error net req i = (case http_do net i req of Inl msg \<Rightarrow> Plain msg | Inr resp \<Rightarrow> readErrorResponse resp)"

lemma retry_step:
  "retry_loop net req (Suc left) n e =
     (if 0 < n \<and> ctx_done net n \<noteq> None then ([], Inl (the (ctx_done net n)))
      else if attempt_fails net req n
      then (req # fst (retry_loop net req left (n + 1) (attempt_error net req n)),
            snd (retry_loop net req left (n + 1) (attempt_error net req n)))
      else ([req], http_do_result (http_do net n req)))"
  if "http_do_result = (\<lambda>r. case r of Inl msg \<Rightarrow> Inl (Plain msg) | Inr resp \<Rightarrow> Inr resp)"
proof (cases "0 < n \<and> ctx_done net n \<noteq> None")
  case True
  then show ?thesis by auto
next
  case False
  then have c: "(if 0 < n then ctx_done net n else None) = None" by auto
  show ?thesis
    unfolding retry_loop.simps(2) c using False
    by (cases "http_do net n req") (simp_all add: attempt_fails_def attempt_error_def that case_prod_beta)
qed

lemma retry_loop_sent: "\<exists>k \<le> left. fst (retry_loop net req left n e) = replicate k req"
proof (induction left arbitrary: n e)
  case (Suc left)
  obtain k where k: "k \<le> left" "fst (retry_loop net req left (n + 1) (attempt_error net req n)) = replicate k req"
    using Suc.IH by blast
  have "fst (retry_loop net req (Suc left) n e) \<in> {[], [req], req # replicate k req}"
    unfolding retry_step [OF refl] if_distrib [of fst] fst_conv k(2) by simp
  then show ?case using k(1)
    by (auto intro: exI [of _ 0] exI [of _ 1] exI [of _ "Suc k"])
qed simp

lemma retry_loop_answered:
  assumes "\<And>i. ctx_done net i = None" "http_do net (n + k) req = Inr resp" "hr_StatusCode resp \<noteq> 429"
    and "\<forall>i < k. attempt_fails net req (n + i)" "k < left"
  shows "retry_loop net req left n e = (replicate (Suc k) req, Inr resp)"
  using assms(2,4,5)
proof (induction k arbitrary: n left e)
  case 0
  then obtain l where "left = Suc l" by (cases left) auto
  with 0 show ?case using assms(1,3) by (simp add: retry_step [OF refl] attempt_fails_def del: retry_loop.simps)
next
  case (Suc k)
  then obtain l where l: "left = Suc l" by (cases left) auto
  have "attempt_fails net req (n + 1 + i)" if "i < k" for i
    using Suc.prems(2) that by (auto dest: spec [of _ "Suc i"])
  then have "retry_loop net req l (n + 1) e' = (replicate (Suc k) req, Inr resp)" for e'
    using Suc.prems(1,3) l by (intro Suc.IH) auto
  moreover have "attempt_fails net req n" using Suc.prems(2) by (auto dest: spec [of _ 0])
  ultimately show ?case using assms(1) l by (simp add: retry_step [OF refl] del: retry_loop.simps)
qed

text \<open>What the loop returns when all attempts fail.\<close>

definition last_error :: "mp_network \<Rightarrow> mp_request \<Rightarrow> nat \<Rightarrow> gerror" where
  "last_error net req i =
     (case http_do net i req of
        Inl msg \<Rightarrow> Wrap ''mercadopago: max retries exceeded after 4 attempts'' (Plain msg)
      | Inr resp \<Rightarrow> readErrorResponse resp)"

lemma readErrorResponse_cases:
  obtains code msg where "readErrorResponse resp = Provider_Error (mapErrorCategory (hr_StatusCode resp)) (hr_StatusCode resp) code msg"
proof (cases "decode_error (hr_Body resp)")
  case None
  then show thesis by (intro that) (simp add: readErrorResponse_def)
next
  case (Some e)
  then show thesis by (intro that) (simp add: readErrorResponse_def)
qed

lemma retry_loop_end: "retry_loop net req 0 n (attempt_error net req i) = ([], Inl (last_error net req i))"
proof -
  have "nat_to_string (maxRetries + 1) = ''4''" by code_simp
  moreover have "(case readErrorResponse resp of Provider_Error cat st code msg \<Rightarrow> readErrorResponse resp | _ \<Rightarrow> other)
      = readErrorResponse resp" for resp other
    by (rule readErrorResponse_cases [of resp]) simp
  ultimately show ?thesis
    by (cases "http_do net i req") (simp_all add: attempt_error_def last_error_def)
qed

lemma retry_loop_exhausted:
  assumes "\<And>i. ctx_done net i = None" "\<forall>i < Suc left. attempt_fails net req (n + i)"
  shows "retry_loop net req (Suc left) n e = (replicate (Suc left) req, Inl (last_error net req (n + left)))"
  using assms(2)
proof (induction left arbitrary: n e)
  case 0
  then show ?case using assms(1) retry_loop_end by (simp add: retry_step [OF refl] del: retry_loop.simps)
next
  case (Suc left)
  have "attempt_fails net req (n + 1 + i)" if "i < Suc left" for i
    using Suc.prems that by (auto dest: spec [of _ "Suc i"])
  then have "retry_loop net req (Suc left) (n + 1) e' = (replicate (Suc left) req, Inl (last_error net req (n + Suc left)))" for e'
    using Suc.IH [of "n + 1" e'] by simp
  moreover have "attempt_fails net req n" using Suc.prems by (auto dest: spec [of _ 0])
  ultimately show ?case using assms(1) by (simp add: retry_step [OF refl, of net req "Suc left"] del: retry_loop.simps)
qed

text \<open>The request that a charge sends.\<close>

definition charge_http_request :: "charge_request \<Rightarrow> mp_request" where
  "charge_http_request req =
     \<lparr>rq_Path = ''/v1/payments'', rq_Authorization = ''Bearer '' @ at_key (cr_Config req) ''access_token'',
      rq_IdempotencyKey = Some (cr_IdempotencyKey req), rq_Body = Payment_Body (buildCreatePaymentRequest req)\<rparr>"

lemma mp_CreateCharge_alt:
  "mp_CreateCharge net req =
     (if at_key (cr_Config req) ''access_token'' = []
      then ([], Inl (Wrap ''mercadopago.CreateCharge: access_token is required'' (Sentinel ErrInvalidInput)))
      else (fst (doWithRetry net (charge_http_request req)),
        case snd (doWithRetry net (charge_http_request req)) of
          Inl err \<Rightarrow> Inl (charge_error err)
        | Inr resp \<Rightarrow>
            (if 400 \<le> hr_StatusCode resp then Inl (charge_error (readErrorResponse resp))
             else case decode_payment net (hr_Body resp) of
               None \<Rightarrow> Inl (Wrap ''mercadopago.CreateCharge'' (Sentinel ErrProviderError))
             | Some p \<Rightarrow> mapToChargeResult p)))"
  by (auto simp: mp_CreateCharge_def mp_CreatePayment_def Let_def charge_http_request_def mapToChargeResult_def
      charge_error_def case_prod_beta split: sum.split option.split prod.split)

text \<open>C31. Whatever the network does, a charge sends at most four requests, all the same: the token and the
  idempotency key of the charge, and an amount that does not depend on the currency, which is not sent.\<close>

theorem charge_requests:
  "(\<exists>k \<le> 4. fst (mp_CreateCharge net req) = replicate k (charge_http_request req))
   \<and> rq_IdempotencyKey (charge_http_request req) = Some (cr_IdempotencyKey req)
   \<and> mp_CreateCharge net (req\<lparr>cr_Currency := currency\<rparr>) = mp_CreateCharge net req"
proof -
  have "\<exists>k \<le> 4. fst (doWithRetry net (charge_http_request req)) = replicate k (charge_http_request req)"
    using retry_loop_sent [of 4 net "charge_http_request req" 0 "Plain []"] by (simp add: doWithRetry_def maxRetries_def)
  then have "\<exists>k \<le> 4. fst (mp_CreateCharge net req) = replicate k (charge_http_request req)"
    by (auto simp: mp_CreateCharge_alt intro: exI [of _ 0])
  then show ?thesis by (simp add: charge_http_request_def mp_CreateCharge_alt buildCreatePaymentRequest_def)
qed

text \<open>The status with which the API answers for a status of the provider.\<close>

definition api_status :: "nat \<Rightarrow> nat" where
  "api_status st = (if st = 422 then 422 else if st = 429 then 503 else if st = 400 then 400 else 502)"

lemma charge_error_status:
  "sentinel_status (charge_error (readErrorResponse resp)) = api_status (hr_StatusCode resp)"
  by (rule readErrorResponse_cases [of resp])
    (simp add: charge_error_def api_status_def mapErrorCategory_def sentinel_status_def ErrorCategoryAuthFailure_def
      ErrorCategoryRejected_def ErrorCategoryRateLimited_def ErrorCategoryValidation_def ErrorCategoryUnknown_def)

text \<open>C30. Requests without a response and responses with status 429 are repeated, as long as the context of the request
  is not done (\<open>ctx_done\<close>: neither cancelled nor timed out between the attempts), for a configuration with an
  access token. The first other response, if it comes within four attempts, decides: with a status below 400 it
  is a charge, with the id, the mapped status and the status detail of the decoded payment, exactly when the
  body decodes, and otherwise an error that the API answers with 502; from 400 on it is an error that the
  API answers with 422 for 422, 400 for 400 and 502 for any other. When all four attempts fail the answer is
  503 after a last 429 and 502 after a last transport error.\<close>

theorem charge_outcome:
  assumes "at_key (cr_Config req) ''access_token'' \<noteq> []" "\<And>i. ctx_done net i = None"
  defines "r \<equiv> charge_http_request req"
  shows "(\<forall>k resp. k < 4 \<and> (\<forall>i < k. attempt_fails net r i) \<and> http_do net k r = Inr resp \<and> hr_StatusCode resp \<noteq> 429 \<longrightarrow>
      fst (mp_CreateCharge net req) = replicate (k + 1) r
      \<and> (if hr_StatusCode resp < 400
         then (case decode_payment net (hr_Body resp) of
             Some p \<Rightarrow> (\<exists>res. snd (mp_CreateCharge net req) = Inr res \<and> ch_ProviderChargeID res = int_to_string (sint (mp_ID p))
               \<and> ch_Status res = mapStatus (mp_Status p) \<and> ch_FailureReason res = mp_StatusDetail p)
           | None \<Rightarrow> (\<exists>err. snd (mp_CreateCharge net req) = Inl err \<and> sentinel_status err = 502))
         else \<exists>err. snd (mp_CreateCharge net req) = Inl err \<and> sentinel_status err =
           (if hr_StatusCode resp = 422 then 422 else if hr_StatusCode resp = 400 then 400 else 502)))
    \<and> ((\<forall>i < 4. attempt_fails net r i) \<longrightarrow>
      fst (mp_CreateCharge net req) = replicate 4 r
      \<and> (\<exists>err. snd (mp_CreateCharge net req) = Inl err
          \<and> sentinel_status err = (case http_do net 3 r of Inl msg \<Rightarrow> 502 | Inr resp \<Rightarrow> 503)))"
proof (rule conjI; (intro allI)?; intro impI)
  fix k resp
  assume a: "k < 4 \<and> (\<forall>i < k. attempt_fails net r i) \<and> http_do net k r = Inr resp \<and> hr_StatusCode resp \<noteq> 429"
  have d: "doWithRetry net r = (replicate (k + 1) r, Inr resp)"
    using retry_loop_answered [of net 0 k r resp 4 "Plain []"] a assms(2) by (simp add: doWithRetry_def maxRetries_def)
  have sent: "fst (mp_CreateCharge net req) = replicate (k + 1) r" using assms(1) d by (simp add: mp_CreateCharge_alt r_def)
  have out: "snd (mp_CreateCharge net req) = (if 400 \<le> hr_StatusCode resp then Inl (charge_error (readErrorResponse resp))
     else case decode_payment net (hr_Body resp) of None \<Rightarrow> Inl (Wrap ''mercadopago.CreateCharge'' (Sentinel ErrProviderError))
       | Some p \<Rightarrow> mapToChargeResult p)"
    using assms(1) d by (simp add: mp_CreateCharge_alt r_def)
  show "fst (mp_CreateCharge net req) = replicate (k + 1) r
      \<and> (if hr_StatusCode resp < 400
         then (case decode_payment net (hr_Body resp) of
             Some p \<Rightarrow> (\<exists>res. snd (mp_CreateCharge net req) = Inr res \<and> ch_ProviderChargeID res = int_to_string (sint (mp_ID p))
               \<and> ch_Status res = mapStatus (mp_Status p) \<and> ch_FailureReason res = mp_StatusDetail p)
           | None \<Rightarrow> (\<exists>err. snd (mp_CreateCharge net req) = Inl err \<and> sentinel_status err = 502))
         else \<exists>err. snd (mp_CreateCharge net req) = Inl err \<and> sentinel_status err =
           (if hr_StatusCode resp = 422 then 422 else if hr_StatusCode resp = 400 then 400 else 502))"
    using a sent unfolding out
    by (auto simp: charge_error_status api_status_def mapToChargeResult_def sentinel_status_def [of "Sentinel _"] split: option.split)
next
  assume f: "\<forall>i < 4. attempt_fails net r i"
  have d: "doWithRetry net r = (replicate 4 r, Inl (last_error net r 3))"
    using retry_loop_exhausted [of net 3 r 0 "Plain []"] f assms(2) by (simp add: doWithRetry_def maxRetries_def numeral_eq_Suc)
  have "sentinel_status (charge_error (last_error net r 3)) = (case http_do net 3 r of Inl msg \<Rightarrow> 502 | Inr resp \<Rightarrow> 503)"
  proof (cases "http_do net 3 r")
    case (Inl msg)
    then show ?thesis by (simp add: last_error_def charge_error_def sentinel_status_def)
  next
    case (Inr resp)
    then show ?thesis using f by (auto simp: last_error_def charge_error_status attempt_fails_def api_status_def dest: spec [of _ 3])
  qed
  with d show "fst (mp_CreateCharge net req) = replicate 4 r
      \<and> (\<exists>err. snd (mp_CreateCharge net req) = Inl err
          \<and> sentinel_status err = (case http_do net 3 r of Inl msg \<Rightarrow> 502 | Inr resp \<Rightarrow> 503))"
    using assms(1) by (simp add: mp_CreateCharge_alt r_def)
qed

text \<open>Amounts up to \<open>2^50\<close> minor units survive the conversion to float64: what is sent is less than half a minor
  unit off, and converting it back gives the amount.\<close>

theorem amount_round_trip:
  assumes "\<bar>sint c\<bar> \<le> 2 ^ 50"
  shows "\<bar>100 * centavosToUnits c - of_int (sint c)\<bar> < 1/2 \<and> unitsToCentavos (centavosToUnits c) = c"
proof -
  let ?c = "of_int (sint c) :: rat"
  let ?a = "f64 ?c" and ?b = "centavosToUnits c" and ?d = "f64 (centavosToUnits c * 100)"
  have "of_int \<bar>sint c\<bar> \<le> (of_int (2 ^ 50) :: rat)" using assms unfolding of_int_le_iff .
  then have c: "\<bar>?c\<bar> \<le> 1125899906842624" by simp
  have a: "\<bar>?a - ?c\<bar> \<le> 1/8" using f64_error [of ?c] c by simp
  have b: "\<bar>?b - ?a / 100\<bar> \<le> \<bar>?a / 100\<bar> / 2 ^ 53" using f64_error [of "?a / 100"] by (simp add: centavosToUnits_def)
  have "\<bar>?a / 100\<bar> \<le> 11258999068427" using a c by linarith
  then have b': "\<bar>?b - ?a / 100\<bar> \<le> 1/799" using b by simp
  have d: "\<bar>?d - ?b * 100\<bar> \<le> \<bar>?b * 100\<bar> / 2 ^ 53" by (rule f64_error)
  have "\<bar>?b * 100\<bar> \<le> 1125899906842626" using a b' c by linarith
  then have d': "\<bar>?d - ?b * 100\<bar> \<le> 1/7" using d by simp
  have "\<bar>?d - ?c\<bar> < 1/2" using a b' d' by linarith
  then have "math_Round ?d = sint c" by (rule math_Round_unique)
  moreover have "\<bar>100 * ?b - ?c\<bar> < 1/2" using a b' by linarith
  ultimately show ?thesis by (simp add: unitsToCentavos_def)
qed

section \<open>Concrete data for the witnesses\<close>

text \<open>A network that answers the first attempt with 429 and the second with an approved payment.\<close>

definition busy_network :: mp_network where
  "busy_network = \<lparr>ctx_done = (\<lambda>_. None),
     http_do = (\<lambda>i r. Inr (if i = 0 then \<lparr>hr_StatusCode = 429, hr_Body = []\<rparr> else \<lparr>hr_StatusCode = 201, hr_Body = ''{}''\<rparr>)),
     valid_url = (\<lambda>_. True), float_text = Some\<rparr>"

definition sample_charge :: charge_request where
  "sample_charge = \<lparr>cr_Amount = 150, cr_Currency = ''ARS'', cr_Description = ''d'', cr_ExternalCustomerID = ''e'',
     cr_IdempotencyKey = ''k'', cr_Config = [(''access_token'', ''tok'')], cr_Metadata = []\<rparr>"

definition mp_adapter :: adapter where
  "mp_adapter = \<lparr>ad_registry = [(''mercadopago'', mp_provider (\<lambda>_. busy_network))], ad_yamlCaps = []\<rparr>"

definition piped_config :: config where
  "piped_config = [(''access_token'', ''tok''), (''webhook_secret'', ''a|b'')]"

definition notification :: string where
  "notification = ''{'' @ json_quote ''type'' @ '':'' @ json_quote ''payment'' @ '','' @ json_quote ''data'' @ '':{''
     @ json_quote ''id'' @ '':'' @ json_quote ''42'' @ ''}}''"

lemma decode_notification:
  "decode_webhook notification = Some \<lparr>wp_ID = 0, wp_Type = ''payment'', wp_Action = [], wp_DataID = ''42''\<rparr>"
  by code_simp

theorem amount_round_trip_witness: "unitsToCentavos (centavosToUnits 150) = 150"
  using amount_round_trip [of 150] by simp

theorem charge_outcome_witness:
  "fst (mp_CreateCharge busy_network sample_charge) = replicate 2 (charge_http_request sample_charge)"
proof -
  have "at_key (cr_Config sample_charge) ''access_token'' \<noteq> []" by code_simp
  moreover have "ctx_done busy_network i = None" for i by (simp add: busy_network_def)
  ultimately show ?thesis
    using charge_outcome [of sample_charge busy_network]
    by (auto simp: busy_network_def attempt_fails_def numeral_2_eq_2 dest!: spec [of _ 1])
qed

lemma mp_adapter_registered: "Lookup (ad_registry mp_adapter) ''mercadopago'' = Inr (mp_provider (\<lambda>_. busy_network))"
  by (simp add: Lookup_def mp_adapter_def)

lemma sample_webhook_set:
  assumes "c = mp_config \<or> c = piped_config"
  shows "\<exists>s'. cred_svc_SetProviderConfig encKey mp_adapter 7 ''mercadopago'' c cred_sample_sys = (None, s')"
proof (rule sample_set)
  show "LookupProvider mp_adapter ''mercadopago'' = Inr (mp_provider (\<lambda>_. busy_network))"
    by (simp add: LookupProvider_def mp_adapter_registered)
  show "pv_ValidateConfig (mp_provider (\<lambda>_. busy_network)) c = None" "c \<noteq> []"
    "\<not> list_ex (\<lambda>(k, v). trim_space k = [] \<or> trim_space v = []) c"
    using assms by (elim disjE; simp add: mp_provider_def mp_ValidateConfig_def RequiredConfig_def mp_config_def piped_config_def at_key_def; code_simp)+
qed

theorem webhook_decides_witness:
  "\<exists>s'. response_status (webhook_HandleWebhook [] mp_adapter background ''whs'' (Some notification)
     (''ts=1,v1='' @ hmac_hex ''whs'' (signed_message ''42'' ''r1'' ''1'')) ''r1'' s') = 200"
proof -
  obtain s' where s': "cred_svc_SetProviderConfig [] mp_adapter 7 ''mercadopago'' mp_config cred_sample_sys = (None, s')"
    using sample_webhook_set by blast
  let ?v = "hmac_hex ''whs'' (signed_message ''42'' ''r1'' ''1'')"
  let ?sig = "''ts=1,v1='' @ ?v"
  have w: "at_key mp_config ''webhook_secret'' = ''whs''" "at_key mp_config ''_enc'' = []" by code_simp+
  have v: "?v \<noteq> []" using length_hmac_hex [of "''whs''" "signed_message ''42'' ''r1'' ''1''"] by auto
  have "signature_fields (go_split (CHR '','') (''ts='' @ ''1'' @ '',v1='' @ ?v)) ([], []) = (''1'', ?v)"
    by (rule signature_header) (simp_all add: hmac_hex_no_separator)
  then have f: "signature_fields (go_split (CHR '','') ?sig) ([], []) = (''1'', ?v)" by simp
  have sep: "CHR ''|'' \<notin> set (at_key mp_config ''webhook_secret'')" "CHR ''|'' \<notin> set ''r1''" "CHR ''|'' \<notin> set ?sig"
    by (simp_all add: w hmac_hex_no_separator)
  have "response_status (webhook_HandleWebhook [] mp_adapter background ''whs'' (Some notification) ?sig ''r1'' s') = 200"
    using webhook_decides [OF s' sample_creds_ok disjI2 [OF w(2)] mp_adapter_registered, of background notification ?sig "''r1''"] sep f
    by (simp add: w decode_notification notified_payment_def v)
  then show ?thesis by blast
qed

theorem webhook_secret_with_separator_witness:
  "\<exists>s'. response_status (webhook_HandleWebhook [] mp_adapter background ''a|b'' (Some notification) ''x'' ''r1'' s') = 400"
proof -
  obtain s' where s': "cred_svc_SetProviderConfig [] mp_adapter 7 ''mercadopago'' piped_config cred_sample_sys = (None, s')"
    using sample_webhook_set by blast
  have w: "at_key piped_config ''webhook_secret'' = ''a|b''" "at_key piped_config ''_enc'' = []" by code_simp+
  have "ascii_map piped_config" by code_simp
  from webhook_secret_with_separator [OF s' sample_creds_ok(1,2) this disjI2 [OF w(2)] mp_adapter_registered]
  have "response_status (webhook_HandleWebhook [] mp_adapter background ''a|b'' (Some notification) ''x'' ''r1'' s') = 400"
    unfolding w(1) by simp
  then show ?thesis by blast
qed

end
