(* ===== verification/Backoffice.thy ===== *)
theory Backoffice
  imports Auth "HOL-Library.Multiset"
begin

text \<open>
  Package \<open>internal/backoffice\<close> and \<open>internal/middleware/backoffice.go\<close>: users of the admin interface,
  their passwords and tokens. The libraries bcrypt and golang-jwt, and the printing and parsing of
  UUIDs, are the fields of \<open>bo_libs\<close>; a token library is given the key function of the code and the
  present time. The repository sets the tenant with \<open>set_config(.., true)\<close>, whose effect ends with
  the statement outside a transaction: the session is as before when the query runs.
\<close>

section \<open>Structs (\<open>model.go\<close>)\<close>

definition RoleAdmin :: string where "RoleAdmin = ''admin''"
definition RoleMember :: string where "RoleMember = ''member''"

record login_request =
  lq_Email :: string
  lq_Password :: string
  lq_TenantSlug :: string

record login_response =
  lr_Token :: string
  lr_User :: user

record create_user_request =
  cu_Email :: string
  cu_Name :: string
  cu_Role :: string
  cu_Password :: string

record change_password_request =
  cp_CurrentPassword :: string
  cp_NewPassword :: string

record jwt_claims =
  jc_UserID :: uuid
  jc_TenantID :: uuid
  jc_Email :: string
  jc_Role :: string

section \<open>Libraries\<close>

datatype claim = Claim_Text string | Claim_Number int | Claim_Other

type_synonym map_claims = "(string \<times> claim) list"

text \<open>\<open>lb_hash pw salt\<close>, \<open>lb_compare hash pw\<close>; \<open>lb_sign secret claims\<close>, \<open>lb_parse now keyfunc token\<close>, where the
  key function gets the algorithm of the token's header.\<close>

record bo_libs =
  lb_hash :: "string \<Rightarrow> string \<Rightarrow> gerror + string"
  lb_compare :: "string \<Rightarrow> string \<Rightarrow> bool"
  lb_sign :: "string \<Rightarrow> map_claims \<Rightarrow> gerror + string"
  lb_parse :: "gtime \<Rightarrow> (string \<Rightarrow> gerror + string) \<Rightarrow> string \<Rightarrow> gerror + map_claims"
  lb_uuid_string :: "uuid \<Rightarrow> string"
  lb_uuid_parse :: "string \<Rightarrow> uuid option"

section \<open>Repository (\<open>repository.go\<close>)\<close>

definition tenant_of_user :: "user_row \<Rightarrow> uuid" where
  "tenant_of_user r = us_TenantID (ur_user r)"

definition user_place :: "user_row \<Rightarrow> uuid \<times> string" where
  "user_place r = (us_TenantID (ur_user r), us_Email (ur_user r))"

definition new_user :: "uuid \<Rightarrow> string \<Rightarrow> string \<Rightarrow> string \<Rightarrow> sys \<Rightarrow> user" where
  "new_user tenantID email name role s =
     \<lparr>us_ID = next_uuid s, us_TenantID = tenantID, us_Email = email, us_Role = role, us_Name = name,
      us_MustChangePassword = False, us_IsActive = True, us_CreatedAt = db_now s, us_UpdatedAt = db_now s\<rparr>"

definition user_insert :: "uuid \<Rightarrow> string \<Rightarrow> string \<Rightarrow> string \<Rightarrow> string \<Rightarrow> sys \<Rightarrow> (gerror + user) \<times> sys" where
  "user_insert tenantID email name passwordHash role s =
     (let u = new_user tenantID email name role s;
          row = \<lparr>ur_user = u, ur_password_hash = passwordHash\<rparr>;
          s1 = draw s
      in case first_error
           [rls_check s ''backoffice_users'' tenantID,
            check (role \<in> {RoleAdmin, RoleMember}) (check_violation ''backoffice_users'' ''backoffice_users_role_check''),
            check (us_ID u \<notin> (us_ID \<circ> ur_user) ` set (users s)) (unique_violation ''backoffice_users_pkey''),
            check (user_place row \<notin> user_place ` set (users s)) (unique_violation ''idx_backoffice_users_email_tenant''),
            check (tenantID \<in> tn_ID ` set (tenants s)) (fk_violation ''backoffice_users'' ''backoffice_users_tenant_id_fkey'')] of
           Some err \<Rightarrow> (Inl err, s1)
         | None \<Rightarrow> (Inr u, s1\<lparr>users := users s @ [row]\<rparr>))"

definition duplicate_user_text :: string where
  "duplicate_user_text = ''new row for relation '' @ quoted ''backoffice_users''
     @ '' violates unique constraint '' @ quoted ''idx_backoffice_users_email_tenant''"

definition user_repo_Create :: "uuid \<Rightarrow> string \<Rightarrow> string \<Rightarrow> string \<Rightarrow> string \<Rightarrow> sys \<Rightarrow> (gerror + user) \<times> sys" where
  "user_repo_Create tenantID email name passwordHash role s =
     (if tenantID = uuid_nil then (Inl (Wrap ''create backoffice user'' (Sentinel ErrMissingTenantID)), s)
      else if email = []
      then (Inl (Wrap ''create backoffice user: email cannot be empty'' (Sentinel ErrInvalidInput)), s)
      else if passwordHash = []
      then (Inl (Wrap ''create backoffice user: password_hash cannot be empty'' (Sentinel ErrInvalidInput)), s)
      else case user_insert tenantID email name passwordHash role s of
        (Inl err, s1) \<Rightarrow>
          (if error_text err = duplicate_user_text
           then (Inl (Wrap ''create backoffice user: email already exists'' (Sentinel ErrConflict)), s1)
           else (Inl (Wrap ''create backoffice user'' err), s1))
      | (Inr u, s1) \<Rightarrow> (Inr u, s1))"

text \<open>The end of a lookup: no row becomes \<open>ErrNotFound\<close>, both errors with the text of the operation.\<close>

definition user_query :: "string \<Rightarrow> (user_row \<Rightarrow> bool) \<Rightarrow> sys \<Rightarrow> gerror + user_row" where
  "user_query op P s =
     (case query_row s tenant_of_user P (users s) of
        Inl err \<Rightarrow> Inl (Wrap op (if err = No_Rows then Sentinel ErrNotFound else err))
      | Inr r \<Rightarrow> Inr r)"

definition user_repo_GetByEmail :: "uuid \<Rightarrow> string \<Rightarrow> sys \<Rightarrow> gerror + user \<times> string" where
  "user_repo_GetByEmail tenantID email s =
     (if tenantID = uuid_nil then Inl (Wrap ''get backoffice user by email'' (Sentinel ErrMissingTenantID))
      else if email = []
      then Inl (Wrap ''get backoffice user by email: email cannot be empty'' (Sentinel ErrInvalidInput))
      else case user_query ''get backoffice user by email'' (\<lambda>r. user_place r = (tenantID, email)) s of
        Inl err \<Rightarrow> Inl err
      | Inr r \<Rightarrow> Inr (ur_user r, ur_password_hash r))"

definition user_repo_GetByID :: "uuid \<Rightarrow> sys \<Rightarrow> gerror + user" where
  "user_repo_GetByID uid s =
     (if uid = uuid_nil
      then Inl (Wrap ''get backoffice user by id: invalid user id'' (Sentinel ErrInvalidInput))
      else case user_query ''get backoffice user by id'' (\<lambda>r. us_ID (ur_user r) = uid) s of
        Inl err \<Rightarrow> Inl err
      | Inr r \<Rightarrow> Inr (ur_user r))"

definition user_repo_GetPasswordHashByID :: "uuid \<Rightarrow> sys \<Rightarrow> gerror + string" where
  "user_repo_GetPasswordHashByID uid s =
     (if uid = uuid_nil
      then Inl (Wrap ''get backoffice user password hash: invalid user id'' (Sentinel ErrInvalidInput))
      else case user_query ''get backoffice user password hash'' (\<lambda>r. us_ID (ur_user r) = uid) s of
        Inl err \<Rightarrow> Inl err
      | Inr r \<Rightarrow> Inr (ur_password_hash r))"

text \<open>\<open>SET LOCAL .. = '..'::uuid\<close>: the grammar of \<open>SET\<close> has no casts, so the server refuses the statement.\<close>

definition set_local_cast :: "sys \<Rightarrow> gerror option" where
  "set_local_cast s = Some (Pg_Error ''42601'' (''syntax error at or near '' @ quoted ''::''))"

definition user_repo_List :: "uuid \<Rightarrow> sys \<Rightarrow> gerror + user list" where
  "user_repo_List tenantID s =
     (if tenantID = uuid_nil then Inl (Wrap ''list backoffice users'' (Sentinel ErrMissingTenantID))
      else case set_local_cast s of
        Some err \<Rightarrow> Inl (Wrap ''list backoffice users: setting tenant context'' err)
      | None \<Rightarrow>
          (case session_check s of
             Some err \<Rightarrow> Inl (Wrap ''list backoffice users'' err)
           | None \<Rightarrow> Inr (sort_key (\<lambda>u. - us_CreatedAt u) (map ur_user
               (filter (\<lambda>r. visible s (tenant_of_user r) \<and> tenant_of_user r = tenantID) (users s))))))"

text \<open>\<open>UPDATE backoffice_users SET .. WHERE id = ..\<close>, counted.\<close>

definition exec_user :: "string \<Rightarrow> uuid \<Rightarrow> (user_row \<Rightarrow> user_row) \<Rightarrow> sys \<Rightarrow> gerror option \<times> sys" where
  "exec_user op uid f s =
     (case update_rows s tenant_of_user (\<lambda>r. us_ID (ur_user r) = uid) f (\<lambda>_. None) (users s) of
        Inl err \<Rightarrow> (Some (Wrap op err), s)
      | Inr (written, rows) \<Rightarrow>
          (if written = [] then (Some (Wrap op (Sentinel ErrNotFound)), s) else (None, s\<lparr>users := rows\<rparr>)))"

definition user_repo_UpdatePassword :: "uuid \<Rightarrow> string \<Rightarrow> sys \<Rightarrow> gerror option \<times> sys" where
  "user_repo_UpdatePassword uid newPasswordHash s =
     (if uid = uuid_nil
      then (Some (Wrap ''update backoffice user password: invalid user id'' (Sentinel ErrInvalidInput)), s)
      else if newPasswordHash = []
      then (Some (Wrap ''update backoffice user password: password_hash cannot be empty'' (Sentinel ErrInvalidInput)), s)
      else exec_user ''update backoffice user password'' uid
        (\<lambda>r :: user_row. r\<lparr>ur_password_hash := newPasswordHash,
           ur_user := (ur_user r)\<lparr>us_MustChangePassword := False, us_UpdatedAt := db_now s\<rparr>\<rparr>) s)"

definition user_repo_UpdateMustChangePassword :: "uuid \<Rightarrow> bool \<Rightarrow> sys \<Rightarrow> gerror option \<times> sys" where
  "user_repo_UpdateMustChangePassword uid value s =
     (if uid = uuid_nil
      then (Some (Wrap ''update backoffice user must_change_password: invalid user id'' (Sentinel ErrInvalidInput)), s)
      else exec_user ''update backoffice user must_change_password'' uid
        (\<lambda>r :: user_row. r\<lparr>ur_user := (ur_user r)\<lparr>us_MustChangePassword := value, us_UpdatedAt := db_now s\<rparr>\<rparr>) s)"

definition user_repo_UpdateName :: "uuid \<Rightarrow> string \<Rightarrow> sys \<Rightarrow> gerror option \<times> sys" where
  "user_repo_UpdateName uid name s =
     (if uid = uuid_nil
      then (Some (Wrap ''update backoffice user name: invalid user id'' (Sentinel ErrInvalidInput)), s)
      else if name = []
      then (Some (Wrap ''update backoffice user name: name cannot be empty'' (Sentinel ErrInvalidInput)), s)
      else exec_user ''update backoffice user name'' uid
        (\<lambda>r :: user_row. r\<lparr>ur_user := (ur_user r)\<lparr>us_Name := name, us_UpdatedAt := db_now s\<rparr>\<rparr>) s)"

definition user_repo_Deactivate :: "uuid \<Rightarrow> sys \<Rightarrow> gerror option \<times> sys" where
  "user_repo_Deactivate uid s =
     (if uid = uuid_nil
      then (Some (Wrap ''deactivate backoffice user: invalid user id'' (Sentinel ErrInvalidInput)), s)
      else exec_user ''deactivate backoffice user'' uid
        (\<lambda>r :: user_row. r\<lparr>ur_user := (ur_user r)\<lparr>us_IsActive := False, us_UpdatedAt := db_now s\<rparr>\<rparr>) s)"

section \<open>Tokens (\<open>jwt.go\<close>)\<close>

definition unix_seconds :: "gtime \<Rightarrow> int" where
  "unix_seconds t = t div 1000000000"

definition token_claims :: "bo_libs \<Rightarrow> user \<Rightarrow> int \<Rightarrow> gtime \<Rightarrow> map_claims" where
  "token_claims libs u ttl now =
     [(''user_id'', Claim_Text (lb_uuid_string libs (us_ID u))),
      (''tenant_id'', Claim_Text (lb_uuid_string libs (us_TenantID u))),
      (''email'', Claim_Text (us_Email u)),
      (''role'', Claim_Text (us_Role u)),
      (''exp'', Claim_Number (unix_seconds (now + ttl))),
      (''iat'', Claim_Number (unix_seconds now))]"

definition GenerateToken :: "bo_libs \<Rightarrow> user \<Rightarrow> string \<Rightarrow> int \<Rightarrow> gtime \<Rightarrow> gerror + string" where
  "GenerateToken libs u secret ttl now =
     (if secret = [] then Inl (Plain ''generate token: secret cannot be empty'')
      else if us_ID u = uuid_nil then Inl (Plain ''generate token: user id cannot be nil'')
      else if us_TenantID u = uuid_nil then Inl (Plain ''generate token: tenant id cannot be nil'')
      else case lb_sign libs secret (token_claims libs u ttl now) of
        Inl err \<Rightarrow> Inl (Wrap ''generate token: signing'' err)
      | Inr tokenStr \<Rightarrow> Inr tokenStr)"

text \<open>The key function: only the HMAC family of algorithms.\<close>

definition hmac_keyfunc :: "string \<Rightarrow> string \<Rightarrow> gerror + string" where
  "hmac_keyfunc secret alg =
     (if alg \<in> {''HS256'', ''HS384'', ''HS512''} then Inr secret
      else Inl (Plain (''unexpected signing method: '' @ alg)))"

definition claim_text :: "map_claims \<Rightarrow> string \<Rightarrow> string option" where
  "claim_text claims key = (case map_of claims key of Some (Claim_Text t) \<Rightarrow> Some t | _ \<Rightarrow> None)"

definition ValidateToken :: "bo_libs \<Rightarrow> gtime \<Rightarrow> string \<Rightarrow> string \<Rightarrow> gerror + jwt_claims" where
  "ValidateToken libs now tokenStr secret =
     (if secret = [] then Inl (Plain ''validate token: secret cannot be empty'')
      else if tokenStr = [] then Inl (Plain ''validate token: token cannot be empty'')
      else case lb_parse libs now (hmac_keyfunc secret) tokenStr of
        Inl err \<Rightarrow> Inl (Wrap ''validate token: parsing'' err)
      | Inr claims \<Rightarrow>
          (case claim_text claims ''user_id'' of
             None \<Rightarrow> Inl (Plain ''validate token: user_id claim missing or invalid type'')
           | Some userIDStr \<Rightarrow>
          (case lb_uuid_parse libs userIDStr of
             None \<Rightarrow> Inl (Wrap ''validate token: parsing user_id'' (Plain ''invalid UUID''))
           | Some userID \<Rightarrow>
          (case claim_text claims ''tenant_id'' of
             None \<Rightarrow> Inl (Plain ''validate token: tenant_id claim missing or invalid type'')
           | Some tenantIDStr \<Rightarrow>
          (case lb_uuid_parse libs tenantIDStr of
             None \<Rightarrow> Inl (Wrap ''validate token: parsing tenant_id'' (Plain ''invalid UUID''))
           | Some tenantID \<Rightarrow>
          (case claim_text claims ''email'' of
             None \<Rightarrow> Inl (Plain ''validate token: email claim missing or invalid type'')
           | Some email \<Rightarrow>
          (case claim_text claims ''role'' of
             None \<Rightarrow> Inl (Plain ''validate token: role claim missing or invalid type'')
           | Some role \<Rightarrow>
               Inr \<lparr>jc_UserID = userID, jc_TenantID = tenantID, jc_Email = email, jc_Role = role\<rparr>)))))))"

end
