(* ===== verification/Backoffice_Service.thy ===== *)
theory Backoffice_Service
  imports Backoffice
begin

text \<open>
  \<open>backoffice/service.go\<close>, \<open>backoffice/handler.go\<close>, the middleware \<open>BackofficeAuth\<close> with its context
  values, and the functions of \<open>cmd/payd/main.go\<close> that join the backoffice to the signup. The request
  body is \<open>None\<close> when it cannot be decoded.
\<close>

section \<open>Passwords\<close>

definition MinPasswordLength :: nat where "MinPasswordLength = 8"
definition MaxPasswordLength :: nat where "MaxPasswordLength = 128"

definition uppercase :: string where "uppercase = ''ABCDEFGHIJKLMNOPQRSTUVWXYZ''"
definition lowercase :: string where "lowercase = ''abcdefghijklmnopqrstuvwxyz''"
definition digits :: string where "digits = ''0123456789''"
definition special :: string where "special = ''!@#$%^&*''"

definition validatePassword :: "string \<Rightarrow> gerror option" where
  "validatePassword password =
     (if length password < MinPasswordLength
      then Some (Wrap (''password_too_short: password must be at least '' @ nat_to_string MinPasswordLength @ '' characters'')
                   (Sentinel ErrInvalidInput))
      else if MaxPasswordLength < length password
      then Some (Wrap (''password_too_long: password must not exceed '' @ nat_to_string MaxPasswordLength @ '' characters'')
                   (Sentinel ErrInvalidInput))
      else if \<not> list_ex is_upper_az password
      then Some (Wrap ''password_missing_uppercase: password must contain at least one uppercase letter''
                   (Sentinel ErrInvalidInput))
      else if \<not> list_ex is_lower_az password
      then Some (Wrap ''password_missing_lowercase: password must contain at least one lowercase letter''
                   (Sentinel ErrInvalidInput))
      else if \<not> list_ex is_digit09 password
      then Some (Wrap ''password_missing_digit: password must contain at least one digit'' (Sentinel ErrInvalidInput))
      else if \<not> list_ex (\<lambda>c. c \<in> set special) password
      then Some (Wrap ''password_missing_special: password must contain at least one special character (!@#$%^&*)''
                   (Sentinel ErrInvalidInput))
      else None)"

definition randomIndex :: "nat \<Rightarrow> sys \<Rightarrow> nat \<times> sys" where
  "randomIndex limit s = (let (b, s1) = rand_read 1 s in (of_char (b ! 0) mod limit, s1))"

text \<open>A character of each list in turn, drawn at random.\<close>

fun random_chars :: "string list \<Rightarrow> sys \<Rightarrow> string \<times> sys" where
  "random_chars [] s = ([], s)"
| "random_chars (cs # css) s =
     (let (i, s1) = randomIndex (length cs) s; (t, s2) = random_chars css s1 in (cs ! i # t, s2))"

text \<open>The shuffle: each position is exchanged with a random one.\<close>

fun shuffle :: "nat list \<Rightarrow> string \<Rightarrow> sys \<Rightarrow> string \<times> sys" where
  "shuffle [] b s = (b, s)"
| "shuffle (i # is) b s =
     (let (idx, s1) = randomIndex 12 s in shuffle is (b[idx := b ! i, i := b ! idx]) s1)"

definition generateTemporaryPassword :: "sys \<Rightarrow> string \<times> sys" where
  "generateTemporaryPassword s =
     (let allChars = uppercase @ lowercase @ digits @ special;
          (b, s1) = random_chars ([uppercase, lowercase, digits, special] @ replicate 8 allChars) s
      in shuffle [0..<12] b s1)"

section \<open>Service (\<open>service.go\<close>)\<close>

record bo_service =
  bs_libs :: bo_libs
  bs_jwtSecret :: string
  bs_jwtTTL :: int

text \<open>\<open>bcrypt.GenerateFromPassword\<close>: the salt is 16 random bytes.\<close>

definition hash_password :: "bo_service \<Rightarrow> string \<Rightarrow> sys \<Rightarrow> (gerror + string) \<times> sys" where
  "hash_password svc password s =
     (let (salt, s1) = rand_read 16 s
      in case lb_hash (bs_libs svc) password salt of Inl err \<Rightarrow> (Inl err, s) | Inr h \<Rightarrow> (Inr h, s1))"

definition bo_svc_Login :: "bo_service \<Rightarrow> uuid \<Rightarrow> string \<Rightarrow> string \<Rightarrow> sys \<Rightarrow> gerror + string \<times> user" where
  "bo_svc_Login svc tenantID email password s =
     (if tenantID = uuid_nil then Inl (Wrap ''login'' (Sentinel ErrMissingTenantID))
      else if email = [] then Inl (Wrap ''login: email cannot be empty'' (Sentinel ErrInvalidInput))
      else if password = [] then Inl (Wrap ''login: password cannot be empty'' (Sentinel ErrInvalidInput))
      else case user_repo_GetByEmail tenantID email s of
        Inl err \<Rightarrow> Inl (Wrap ''login'' (Sentinel ErrInvalidInput))
      | Inr (u, passwordHash) \<Rightarrow>
          (if \<not> us_IsActive u then Inl (Wrap ''login: user is inactive'' (Sentinel ErrInvalidInput))
           else if \<not> lb_compare (bs_libs svc) passwordHash password then Inl (Wrap ''login'' (Sentinel ErrInvalidInput))
           else if us_MustChangePassword u
           then Inl (Plain ''login: must_change_password: user must change password before accessing backoffice'')
           else case GenerateToken (bs_libs svc) u (bs_jwtSecret svc) (bs_jwtTTL svc) (clock s) of
             Inl err \<Rightarrow> Inl (Wrap ''login'' err)
           | Inr token \<Rightarrow> Inr (token, u)))"

definition bo_svc_CreateUser ::
  "bo_service \<Rightarrow> uuid \<Rightarrow> string \<Rightarrow> string \<Rightarrow> string \<Rightarrow> string \<Rightarrow> sys \<Rightarrow> (gerror + user) \<times> sys" where
  "bo_svc_CreateUser svc tenantID email name password role s =
     (if tenantID = uuid_nil then (Inl (Wrap ''create user'' (Sentinel ErrMissingTenantID)), s)
      else if email = [] then (Inl (Wrap ''create user: email cannot be empty'' (Sentinel ErrInvalidInput)), s)
      else if name = [] then (Inl (Wrap ''create user: name cannot be empty'' (Sentinel ErrInvalidInput)), s)
      else if role \<noteq> RoleAdmin \<and> role \<noteq> RoleMember
      then (Inl (Wrap ''create user: invalid role'' (Sentinel ErrInvalidInput)), s)
      else let mustChangePassword = (password = []);
               (pwdToHash, s1) = (if mustChangePassword then generateTemporaryPassword s else (password, s))
           in case (if mustChangePassword then None else validatePassword password) of
             Some err \<Rightarrow> (Inl (Wrap ''create user'' err), s1)
           | None \<Rightarrow>
          (case hash_password svc pwdToHash s1 of
             (Inl err, s2) \<Rightarrow> (Inl (Wrap ''create user: hashing password'' err), s2)
           | (Inr passwordHash, s2) \<Rightarrow>
          (case user_repo_Create tenantID email name passwordHash role s2 of
             (Inl err, s3) \<Rightarrow> (Inl (Wrap ''create user'' err), s3)
           | (Inr u, s3) \<Rightarrow>
               (if mustChangePassword
                then case user_repo_UpdateMustChangePassword (us_ID u) True s3 of
                  (Some err, s4) \<Rightarrow> (Inl (Wrap ''create user: setting must_change_password'' err), s4)
                | (None, s4) \<Rightarrow> (Inr (u\<lparr>us_MustChangePassword := True\<rparr>), s4)
                else (Inr u, s3)))))"

definition bo_svc_ListUsers :: "uuid \<Rightarrow> sys \<Rightarrow> gerror + user list" where
  "bo_svc_ListUsers tenantID s =
     (if tenantID = uuid_nil then Inl (Wrap ''list users'' (Sentinel ErrMissingTenantID))
      else case user_repo_List tenantID s of Inl err \<Rightarrow> Inl (Wrap ''list users'' err) | Inr us \<Rightarrow> Inr us)"

definition bo_svc_DeactivateUser :: "uuid \<Rightarrow> sys \<Rightarrow> gerror option \<times> sys" where
  "bo_svc_DeactivateUser uid s =
     (if uid = uuid_nil then (Some (Wrap ''deactivate user: invalid user id'' (Sentinel ErrInvalidInput)), s)
      else case user_repo_Deactivate uid s of
        (Some err, s1) \<Rightarrow> (Some (Wrap ''deactivate user'' err), s1)
      | (None, s1) \<Rightarrow> (None, s1))"

definition bo_svc_ChangePassword :: "bo_service \<Rightarrow> uuid \<Rightarrow> string \<Rightarrow> string \<Rightarrow> sys \<Rightarrow> gerror option \<times> sys" where
  "bo_svc_ChangePassword svc userID currentPassword newPassword s =
     (if userID = uuid_nil then (Some (Wrap ''change password: invalid user id'' (Sentinel ErrInvalidInput)), s)
      else if currentPassword = []
      then (Some (Wrap ''change password: current password cannot be empty'' (Sentinel ErrInvalidInput)), s)
      else if newPassword = []
      then (Some (Wrap ''change password: new password cannot be empty'' (Sentinel ErrInvalidInput)), s)
      else case validatePassword newPassword of
        Some err \<Rightarrow> (Some (Wrap ''change password'' err), s)
      | None \<Rightarrow>
          (if currentPassword = newPassword
           then (Some (Wrap ''change password: new password must be different from current password'' (Sentinel ErrInvalidInput)), s)
           else case user_repo_GetPasswordHashByID userID s of
             Inl err \<Rightarrow> (Some (Wrap ''change password'' err), s)
           | Inr passwordHash \<Rightarrow>
               (if \<not> lb_compare (bs_libs svc) passwordHash currentPassword
                then (Some (Wrap ''change password: current password incorrect'' (Sentinel ErrInvalidInput)), s)
                else case hash_password svc newPassword s of
                  (Inl err, s1) \<Rightarrow> (Some (Wrap ''change password: hashing new password'' err), s1)
                | (Inr newHash, s1) \<Rightarrow>
                    (case user_repo_UpdatePassword userID newHash s1 of
                       (Some err, s2) \<Rightarrow> (Some (Wrap ''change password'' err), s2)
                     | (None, s2) \<Rightarrow> (None, s2)))))"

definition bo_svc_UpdateProfile :: "uuid \<Rightarrow> string \<Rightarrow> sys \<Rightarrow> (gerror + user) \<times> sys" where
  "bo_svc_UpdateProfile userID name s =
     (if userID = uuid_nil then (Inl (Wrap ''update profile: invalid user id'' (Sentinel ErrInvalidInput)), s)
      else if name = [] then (Inl (Wrap ''update profile: name cannot be empty'' (Sentinel ErrInvalidInput)), s)
      else case user_repo_UpdateName userID name s of
        (Some err, s1) \<Rightarrow> (Inl (Wrap ''update profile'' err), s1)
      | (None, s1) \<Rightarrow>
          (case user_repo_GetByID userID s1 of
             Inl err \<Rightarrow> (Inl (Wrap ''update profile'' err), s1)
           | Inr u \<Rightarrow> (Inr u, s1)))"

section \<open>Context and middleware (\<open>middleware/backoffice.go\<close>)\<close>

record bo_context =
  bx_context :: go_context
  bx_user_id :: "uuid option"
  bx_tenant_id :: "uuid option"
  bx_role :: "string option"

definition bo_background :: bo_context where
  "bo_background = \<lparr>bx_context = background, bx_user_id = None, bx_tenant_id = None, bx_role = None\<rparr>"

definition WithBackofficeUserID :: "bo_context \<Rightarrow> uuid \<Rightarrow> bo_context" where
  "WithBackofficeUserID ctx userID = ctx\<lparr>bx_user_id := Some userID\<rparr>"

definition BackofficeUserIDFromContext :: "bo_context \<Rightarrow> uuid" where
  "BackofficeUserIDFromContext ctx = (case bx_user_id ctx of Some i \<Rightarrow> i | None \<Rightarrow> uuid_nil)"

definition WithBackofficeTenantID :: "bo_context \<Rightarrow> uuid \<Rightarrow> bo_context" where
  "WithBackofficeTenantID ctx tenantID = ctx\<lparr>bx_tenant_id := Some tenantID\<rparr>"

definition BackofficeTenantIDFromContext :: "bo_context \<Rightarrow> uuid" where
  "BackofficeTenantIDFromContext ctx = (case bx_tenant_id ctx of Some i \<Rightarrow> i | None \<Rightarrow> uuid_nil)"

definition WithBackofficeRole :: "bo_context \<Rightarrow> string \<Rightarrow> bo_context" where
  "WithBackofficeRole ctx role = ctx\<lparr>bx_role := Some role\<rparr>"

definition BackofficeRoleFromContext :: "bo_context \<Rightarrow> string" where
  "BackofficeRoleFromContext ctx = (case bx_role ctx of Some r \<Rightarrow> r | None \<Rightarrow> [])"

definition invalid_token :: "string \<Rightarrow> 'a response" where
  "invalid_token msg = writeErrorResponse 401 ''invalid_token'' msg"

definition BackofficeAuth ::
  "bo_libs \<Rightarrow> string \<Rightarrow> (bo_context \<Rightarrow> sys \<Rightarrow> 'a response \<times> sys) \<Rightarrow> bo_context \<Rightarrow> string \<Rightarrow> sys \<Rightarrow> 'a response \<times> sys" where
  "BackofficeAuth libs jwtSecret next ctx authHeader s =
     (if authHeader = [] then (writeErrorResponse 401 ''missing_auth_header'' ''Missing Authorization header'', s)
      else let parts = split_n2 (CHR '' '') authHeader
      in if length parts \<noteq> 2 \<or> parts ! 0 \<noteq> ''Bearer''
      then (writeErrorResponse 401 ''invalid_auth_header'' ''Invalid Authorization header format'', s)
      else case lb_parse libs (clock s) (hmac_keyfunc jwtSecret) (parts ! 1) of
        Inl err \<Rightarrow> (invalid_token ''Invalid or expired token'', s)
      | Inr claims \<Rightarrow>
     (case claim_text claims ''user_id'' of
        None \<Rightarrow> (invalid_token ''Invalid token claims'', s)
      | Some userIDStr \<Rightarrow>
     (case lb_uuid_parse libs userIDStr of
        None \<Rightarrow> (invalid_token ''Invalid user ID in token'', s)
      | Some userID \<Rightarrow>
     (case claim_text claims ''tenant_id'' of
        None \<Rightarrow> (invalid_token ''Invalid token claims'', s)
      | Some tenantIDStr \<Rightarrow>
     (case lb_uuid_parse libs tenantIDStr of
        None \<Rightarrow> (invalid_token ''Invalid tenant ID in token'', s)
      | Some tenantID \<Rightarrow>
     (case claim_text claims ''role'' of
        None \<Rightarrow> (invalid_token ''Invalid token claims'', s)
      | Some roleStr \<Rightarrow>
         (let ctx1 = WithBackofficeRole (WithBackofficeTenantID (WithBackofficeUserID ctx userID) tenantID) roleStr;
              ctx2 = ctx1\<lparr>bx_context := WithTenantID (bx_context ctx1) tenantID\<rparr>
          in case setRLSContext tenantID s of
            (Some err, s1) \<Rightarrow> (writeErrorResponse 500 ''internal_error'' ''Internal server error'', s1)
          | (None, s1) \<Rightarrow> next ctx2 s1)))))))"

section \<open>Handlers (\<open>handler.go\<close>)\<close>

datatype check_email_response =
    Single_Tenant string string
  | Tenant_Options "(string \<times> string \<times> uuid) list"

definition bo_handler_CheckEmail :: "bo_context \<Rightarrow> string option \<Rightarrow> sys \<Rightarrow> check_email_response response" where
  "bo_handler_CheckEmail ctx body s =
     (case body of
        None \<Rightarrow> RespondError (bx_context ctx) (Sentinel ErrInvalidInput)
      | Some email \<Rightarrow>
          (if email = [] then RespondError (bx_context ctx) (Sentinel ErrInvalidInput)
           else case tenant_repo_GetByEmailAcrossAllTenants email s of
             Inl err \<Rightarrow> RespondError (bx_context ctx) (Sentinel ErrNotFound)
           | Inr ts \<Rightarrow>
               (if length ts = 1 then RespondOK (Single_Tenant (tn_Slug (ts ! 0)) (tn_Name (ts ! 0)))
                else RespondOK (Tenant_Options (map (\<lambda>t. (tn_Slug t, tn_Name t, tn_ID t)) ts)))))"

definition bo_handler_Login :: "bo_service \<Rightarrow> bo_context \<Rightarrow> login_request option \<Rightarrow> sys \<Rightarrow> login_response response" where
  "bo_handler_Login svc ctx body s =
     (case body of
        None \<Rightarrow> RespondError (bx_context ctx) (Sentinel ErrInvalidInput)
      | Some req \<Rightarrow>
          (if lq_Email req = [] \<or> lq_Password req = [] \<or> lq_TenantSlug req = []
           then RespondError (bx_context ctx) (Sentinel ErrInvalidInput)
           else case tenant_repo_GetBySlug (lq_TenantSlug req) s of
             Inl err \<Rightarrow> RespondError (bx_context ctx) (Sentinel ErrInvalidInput)
           | Inr tenantData \<Rightarrow>
               (case bo_svc_Login svc (tn_ID tenantData) (lq_Email req) (lq_Password req) s of
                  Inl err \<Rightarrow>
                    (if error_text err = ''login: must_change_password: user must change password before accessing backoffice''
                     then RespondError (bx_context ctx)
                       (Plain ''must_change_password: user must change password before accessing backoffice'')
                     else RespondError (bx_context ctx) err)
                | Inr (token, u) \<Rightarrow> RespondOK \<lparr>lr_Token = token, lr_User = u\<rparr>)))"

definition bo_handler_Me :: "bo_context \<Rightarrow> sys \<Rightarrow> user response" where
  "bo_handler_Me ctx s =
     (let userID = BackofficeUserIDFromContext ctx
      in if userID = uuid_nil then RespondError (bx_context ctx) (Sentinel ErrInvalidInput)
         else case user_repo_GetByID userID s of
           Inl err \<Rightarrow> RespondError (bx_context ctx) err
         | Inr u \<Rightarrow> RespondOK u)"

definition bo_handler_UpdateProfile :: "bo_context \<Rightarrow> string option \<Rightarrow> sys \<Rightarrow> user response \<times> sys" where
  "bo_handler_UpdateProfile ctx body s =
     (let userID = BackofficeUserIDFromContext ctx
      in if userID = uuid_nil then (RespondError (bx_context ctx) (Sentinel ErrInvalidInput), s)
         else case body of
           None \<Rightarrow> (RespondError (bx_context ctx) (Sentinel ErrInvalidInput), s)
         | Some name \<Rightarrow>
             (if name = []
              then (RespondError (bx_context ctx) (Plain ''at least one field must be provided for update''), s)
              else case bo_svc_UpdateProfile userID name s of
                (Inl err, s1) \<Rightarrow> (RespondError (bx_context ctx) err, s1)
              | (Inr u, s1) \<Rightarrow> (RespondOK u, s1)))"

definition bo_handler_CreateUser ::
  "bo_service \<Rightarrow> bo_context \<Rightarrow> create_user_request option \<Rightarrow> sys \<Rightarrow> user response \<times> sys" where
  "bo_handler_CreateUser svc ctx body s =
     (if BackofficeRoleFromContext ctx \<noteq> RoleAdmin
      then (RespondError (bx_context ctx) (Plain ''admin_required: only admins can create users''), s)
      else case body of
        None \<Rightarrow> (RespondError (bx_context ctx) (Sentinel ErrInvalidInput), s)
      | Some req \<Rightarrow>
          (if cu_Email req = [] then (RespondError (bx_context ctx) (Plain ''email is required''), s)
           else if cu_Name req = [] then (RespondError (bx_context ctx) (Plain ''name is required''), s)
           else if cu_Role req \<noteq> RoleAdmin \<and> cu_Role req \<noteq> RoleMember
           then (RespondError (bx_context ctx)
                   (Plain (''role must be '' @ [CHR 0x27] @ ''admin'' @ [CHR 0x27] @ '' or '' @ [CHR 0x27] @ ''member'' @ [CHR 0x27])), s)
           else let tenantID = BackofficeTenantIDFromContext ctx
           in if tenantID = uuid_nil then (RespondError (bx_context ctx) (Sentinel ErrMissingTenantID), s)
              else case bo_svc_CreateUser svc tenantID (cu_Email req) (cu_Name req) (cu_Password req) (cu_Role req) s of
                (Inl err, s1) \<Rightarrow> (RespondError (bx_context ctx) err, s1)
              | (Inr u, s1) \<Rightarrow> (RespondCreated u, s1)))"

definition bo_handler_ListUsers :: "bo_context \<Rightarrow> sys \<Rightarrow> user list response" where
  "bo_handler_ListUsers ctx s =
     (if BackofficeRoleFromContext ctx \<noteq> RoleAdmin
      then RespondError (bx_context ctx) (Plain ''admin_required: only admins can list users'')
      else let tenantID = BackofficeTenantIDFromContext ctx
      in if tenantID = uuid_nil then RespondError (bx_context ctx) (Sentinel ErrMissingTenantID)
         else case bo_svc_ListUsers tenantID s of
           Inl err \<Rightarrow> RespondError (bx_context ctx) err
         | Inr us \<Rightarrow> RespondOK us)"

definition bo_handler_DeactivateUser :: "bo_libs \<Rightarrow> bo_context \<Rightarrow> string \<Rightarrow> sys \<Rightarrow> unit response \<times> sys" where
  "bo_handler_DeactivateUser libs ctx userIDStr s =
     (if BackofficeRoleFromContext ctx \<noteq> RoleAdmin
      then (RespondError (bx_context ctx) (Plain ''admin_required: only admins can deactivate users''), s)
      else case lb_uuid_parse libs userIDStr of
        None \<Rightarrow> (RespondError (bx_context ctx) (Sentinel ErrInvalidInput), s)
      | Some userID \<Rightarrow>
          (case bo_svc_DeactivateUser userID s of
             (Some err, s1) \<Rightarrow> (RespondError (bx_context ctx) err, s1)
           | (None, s1) \<Rightarrow> (No_Content, s1)))"

definition bo_handler_ChangePassword ::
  "bo_service \<Rightarrow> bo_context \<Rightarrow> string \<Rightarrow> change_password_request option \<Rightarrow> sys \<Rightarrow> unit response \<times> sys" where
  "bo_handler_ChangePassword svc ctx userIDStr body s =
     (case lb_uuid_parse (bs_libs svc) userIDStr of
        None \<Rightarrow> (RespondError (bx_context ctx) (Sentinel ErrInvalidInput), s)
      | Some targetUserID \<Rightarrow>
          (if BackofficeUserIDFromContext ctx \<noteq> targetUserID \<and> BackofficeRoleFromContext ctx \<noteq> RoleAdmin
           then (RespondError (bx_context ctx)
                   (Plain (''forbidden: can only change your own password unless you'' @ [CHR 0x27] @ ''re an admin'')), s)
           else case body of
             None \<Rightarrow> (RespondError (bx_context ctx) (Sentinel ErrInvalidInput), s)
           | Some req \<Rightarrow>
               (case bo_svc_ChangePassword svc targetUserID (cp_CurrentPassword req) (cp_NewPassword req) s of
                  (Some err, s1) \<Rightarrow> (RespondError (bx_context ctx) err, s1)
                | (None, s1) \<Rightarrow> (No_Content, s1))))"

section \<open>Wiring to the signup (\<open>cmd/payd/main.go\<close>)\<close>

text \<open>\<open>backofficeServiceWrapper\<close>, as the signup handler calls it.\<close>

definition wrapped_CreateUser :: "bo_service \<Rightarrow> create_user" where
  "wrapped_CreateUser svc = (\<lambda>tenantID email name password role s. bo_svc_CreateUser svc tenantID email name password role s)"

record bootstrap_config =
  bc_TenantName :: string
  bc_TenantEmail :: string
  bc_TenantSlug :: string
  bc_AdminPassword :: string

definition bootstrapTenant :: "idkey \<Rightarrow> string \<Rightarrow> bo_service \<Rightarrow> bootstrap_config \<Rightarrow> sys \<Rightarrow> sys" where
  "bootstrapTenant idkey env svc cfg s =
     (let name = bc_TenantName cfg; email = bc_TenantEmail cfg; pass = bc_AdminPassword cfg
      in if name = [] \<and> email = [] \<and> pass = [] then s
         else if name = [] \<or> email = [] \<or> pass = [] then s
         else let (r, s1) = tenant_svc_Signup idkey env
                    \<lparr>si_Name = name, si_Slug = bc_TenantSlug cfg, si_Email = email, si_Password = []\<rparr> s;
                  created = (case r of
                      Inr (t, k) \<Rightarrow> Some t
                    | Inl err \<Rightarrow>
                        (if errors_is err ErrConflict \<or> contains (error_text err) ''duplicate''
                         then (case tenant_repo_GetByEmail email s1 of Inl e \<Rightarrow> None | Inr t \<Rightarrow> Some t)
                         else None))
              in case created of
                None \<Rightarrow> s1
              | Some t \<Rightarrow> snd (bo_svc_CreateUser svc (tn_ID t) email name pass RoleAdmin s1))"

end
