(* ===== verification/Backoffice_Rules.thy ===== *)
theory Backoffice_Rules
  imports Backoffice_Service
begin

text \<open>
  What the backoffice guarantees: generated passwords satisfy the policy, who can log in, what a token
  is good for, the constraints of the user table as an invariant, isolation of tenants, the effect of a
  password change; and where it fails: listing users, users with a temporary password, and sessions
  without the tenant of the user.
\<close>

section \<open>Temporary passwords\<close>

lemma of_char_bound: "0 < n \<Longrightarrow> fst (randomIndex n s) < n"
  by (simp add: randomIndex_def Let_def case_prod_beta)

lemma random_chars_nth:
  "list_all (\<lambda>cs. cs \<noteq> []) css \<Longrightarrow> list_all2 (\<lambda>c cs. c \<in> set cs) (fst (random_chars css s)) css"
proof (induction css arbitrary: s)
  case (Cons cs css)
  then have "fst (randomIndex (length cs) s) < length cs" by (intro of_char_bound) simp
  then show ?case using Cons by (simp add: case_prod_beta)
qed simp

lemma mset_shuffle:
  "\<forall>i \<in> set is. i < length b \<Longrightarrow> length b = 12 \<Longrightarrow> mset (fst (shuffle is b s)) = mset b"
proof (induction "is" arbitrary: b s)
  case (Cons i "is")
  have "fst (randomIndex 12 s) < length b" using of_char_bound [of 12 s] Cons.prems(2) by simp
  then have "mset (b[fst (randomIndex 12 s) := b ! i, i := b ! fst (randomIndex 12 s)]) = mset b"
    using Cons.prems(1) by (metis list.set_intros(1) mset_swap)
  then show ?case using Cons by (simp add: case_prod_beta)
qed simp

lemma password_classes: "list_all is_upper_az uppercase" "list_all is_lower_az lowercase" "list_all is_digit09 digits"
  by code_simp+

lemma temporary_password_chars:
  obtains u l d x rest where "set (fst (generateTemporaryPassword s)) = set (u # l # d # x # rest)"
    "length (fst (generateTemporaryPassword s)) = 12" "u \<in> set uppercase" "l \<in> set lowercase" "d \<in> set digits" "x \<in> set special"
proof -
  let ?all = "uppercase @ lowercase @ digits @ special"
  let ?css = "[uppercase, lowercase, digits, special] @ replicate 8 ?all"
  obtain b s1 where b: "random_chars ?css s = (b, s1)" by fastforce
  let ?p = "fst (generateTemporaryPassword s)"
  have "[uppercase, lowercase, digits, special] ! k \<noteq> []" if "k < 4" for k
    using that by (auto simp: uppercase_def lowercase_def digits_def special_def less_Suc_eq numeral_eq_Suc)
  from this [of 0] this [of 1] this [of 2] this [of 3]
  have "list_all (\<lambda>cs. cs \<noteq> []) ?css" by (simp add: list_all_iff)
  from random_chars_nth [OF this, of s] have "list_all2 (\<lambda>c cs. c \<in> set cs) b ?css" by (simp only: b fst_conv)
  then obtain u l d x rest where c: "b = u # l # d # x # rest" "u \<in> set uppercase" "l \<in> set lowercase" "d \<in> set digits"
      "x \<in> set special" "length rest = 8"
    by (auto simp: list_all2_Cons2 dest!: list_all2_lengthD)
  have p: "?p = fst (shuffle [0..<12] b s1)" unfolding generateTemporaryPassword_def Let_def b by simp
  have m: "mset ?p = mset b" unfolding p by (rule mset_shuffle) (use c in auto)
  then have "set ?p = set b" "length ?p = 12" using mset_eq_setD [OF m] mset_eq_length [OF m] c(1,6) by simp_all
  then show thesis using that c by simp
qed

lemma temporary_password_length: "length (fst (generateTemporaryPassword s)) = 12"
  by (rule temporary_password_chars [of s])

text \<open>A generated password always satisfies the policy for passwords: the shuffle permutes twelve characters
  that include one of each required class.\<close>

theorem temporary_password_valid:
  "validatePassword (fst (generateTemporaryPassword s)) = None"
proof -
  let ?p = "fst (generateTemporaryPassword s)"
  obtain u l d x rest where c: "set ?p = set (u # l # d # x # rest)" "length ?p = 12"
      "u \<in> set uppercase" "l \<in> set lowercase" "d \<in> set digits" "x \<in> set special"
    by (rule temporary_password_chars)
  have "is_upper_az u" "is_lower_az l" "is_digit09 d"
    using c(3-5) password_classes by (simp_all add: list_all_iff)
  then show ?thesis
    unfolding validatePassword_def list_ex_iff c(1,2) using c(6) by (auto simp: MinPasswordLength_def MaxPasswordLength_def)
qed

section \<open>The user table\<close>

text \<open>The constraints of \<open>backoffice_users\<close>.\<close>

definition users_ok :: "sys \<Rightarrow> bool" where
  "users_ok s \<longleftrightarrow> distinct (map (us_ID \<circ> ur_user) (users s)) \<and> distinct (map user_place (users s))
     \<and> (\<forall>r \<in> set (users s). us_Role (ur_user r) \<in> {RoleAdmin, RoleMember} \<and> tenant_of_user r \<in> tn_ID ` set (tenants s))"

lemma users_ok_alt:
  "users_ok s \<longleftrightarrow> distinct (map (us_ID \<circ> ur_user) (users s)) \<and> distinct (map user_place (users s))
     \<and> list_all (\<lambda>(role, t). role \<in> {RoleAdmin, RoleMember} \<and> t \<in> tn_ID ` set (tenants s))
         (map (\<lambda>r. (us_Role (ur_user r), tenant_of_user r)) (users s))"
  by (auto simp: users_ok_def list_all_iff)

text \<open>The columns that no statement writes after the insert.\<close>

definition user_identity :: "user_row \<Rightarrow> uuid \<times> uuid \<times> string \<times> string \<times> gtime" where
  "user_identity r = (us_ID (ur_user r), us_TenantID (ur_user r), us_Email (ur_user r), us_Role (ur_user r), us_CreatedAt (ur_user r))"

text \<open>What an operation does to the table: rows are changed without touching their identity, and only
  if the session sees them, and at most rows are added, for a tenant the session sees.\<close>

definition users_change :: "sys \<Rightarrow> sys \<Rightarrow> bool" where
  "users_change s s' \<longleftrightarrow> tenants s' = tenants s \<and> session s' = session s
     \<and> (users_ok s \<longrightarrow> users_ok s')
     \<and> prefix (map user_identity (users s)) (map user_identity (users s'))
     \<and> (\<forall>t. \<not> visible s t \<longrightarrow> filter (\<lambda>r. tenant_of_user r = t) (users s') = filter (\<lambda>r. tenant_of_user r = t) (users s))"

lemma users_change_refl [simp]: "users_change s s"
  by (simp add: users_change_def)

lemma users_change_trans: "users_change s s' \<Longrightarrow> users_change s' s'' \<Longrightarrow> users_change s s''"
  by (auto simp: users_change_def visible_def)

lemma users_change_same:
  "tenants s' = tenants s \<Longrightarrow> session s' = session s \<Longrightarrow> users s' = users s \<Longrightarrow> users_change s s'"
  by (auto simp: users_change_def users_ok_def)

lemma update_where_filter_other:
  "(\<And>r. hit r \<Longrightarrow> P r \<longleftrightarrow> P (f r)) \<Longrightarrow> (\<And>r. P r \<Longrightarrow> \<not> hit r) \<Longrightarrow> filter P (update_where hit f rs) = filter P rs"
  by (induction rs) auto

lemma users_change_exec:
  assumes "\<And>r. user_identity (f r) = user_identity r"
  shows "users_change s (snd (exec_user op uid f s))"
proof (cases "update_rows s tenant_of_user (\<lambda>r. us_ID (ur_user r) = uid) f (\<lambda>_. None) (users s)")
  case (Inr p)
  obtain written rows where p: "p = (written, rows)" by fastforce
  let ?hit = "\<lambda>r. visible s (tenant_of_user r) \<and> us_ID (ur_user r) = uid"
  note rows = update_rows_Inr(1) [OF Inr [unfolded p]]
  have f: "us_ID (ur_user (f r)) = us_ID (ur_user r)" "tenant_of_user (f r) = tenant_of_user r" "user_place (f r) = user_place r"
    "us_Role (ur_user (f r)) = us_Role (ur_user r)" for r
    using assms [of r] by (simp_all add: user_identity_def tenant_of_user_def user_place_def)
  have "users_change s (s\<lparr>users := rows\<rparr>)"
    unfolding users_change_def
  proof (intro conjI allI impI)
    show "users_ok (s\<lparr>users := rows\<rparr>)" if "users_ok s"
    proof -
      have "map (us_ID \<circ> ur_user) rows = map (us_ID \<circ> ur_user) (users s)" "map user_place rows = map user_place (users s)"
        "map (\<lambda>r. (us_Role (ur_user r), tenant_of_user r)) rows = map (\<lambda>r. (us_Role (ur_user r), tenant_of_user r)) (users s)"
        unfolding rows by (simp_all add: map_update_where f)
      then show ?thesis using that unfolding users_ok_alt by simp
    qed
    show "prefix (map user_identity (users s)) (map user_identity (users (s\<lparr>users := rows\<rparr>)))"
      unfolding rows by (simp add: map_update_where assms)
    show "filter (\<lambda>r. tenant_of_user r = t) (users (s\<lparr>users := rows\<rparr>)) = filter (\<lambda>r. tenant_of_user r = t) (users s)"
      if "\<not> visible s t" for t
      unfolding rows using that by (auto intro!: update_where_filter_other simp: f)
  qed simp_all
  then show ?thesis using Inr p by (simp add: exec_user_def)
qed (simp add: exec_user_def)

lemma user_insert_cases [consumes 1, case_names inserted refused]:
  assumes "user_insert t email name h role s = (r, s')"
  obtains "r = Inr (new_user t email name role s)"
      "s' = (draw s)\<lparr>users := users s @ [\<lparr>ur_user = new_user t email name role s, ur_password_hash = h\<rparr>]\<rparr>"
      "visible s t" "role \<in> {RoleAdmin, RoleMember}" "next_uuid s \<notin> (us_ID \<circ> ur_user) ` set (users s)"
      "(t, email) \<notin> user_place ` set (users s)" "t \<in> tn_ID ` set (tenants s)"
    | e where "r = Inl e" "s' = draw s" "server_error e"
proof -
  let ?u = "new_user t email name role s"
  let ?row = "\<lparr>ur_user = ?u, ur_password_hash = h\<rparr>"
  have simps: "us_ID ?u = next_uuid s" "user_place ?row = (t, email)" by (simp_all add: new_user_def user_place_def)
  let ?es = "[rls_check s ''backoffice_users'' t,
      check (role \<in> {RoleAdmin, RoleMember}) (check_violation ''backoffice_users'' ''backoffice_users_role_check''),
      check (us_ID ?u \<notin> (us_ID \<circ> ur_user) ` set (users s)) (unique_violation ''backoffice_users_pkey''),
      check (user_place ?row \<notin> user_place ` set (users s)) (unique_violation ''idx_backoffice_users_email_tenant''),
      check (t \<in> tn_ID ` set (tenants s)) (fk_violation ''backoffice_users'' ''backoffice_users_tenant_id_fkey'')]"
  show thesis
  proof (cases "first_error ?es")
    case None
    then have "\<forall>e \<in> set ?es. e = None" by (rule first_error_None [THEN iffD1])
    then have "rls_check s ''backoffice_users'' t = None" "role \<in> {RoleAdmin, RoleMember}"
        "next_uuid s \<notin> (us_ID \<circ> ur_user) ` set (users s)" "(t, email) \<notin> user_place ` set (users s)" "t \<in> tn_ID ` set (tenants s)"
      unfolding simps by (simp_all add: check_None)
    moreover have "r = Inr ?u" "s' = (draw s)\<lparr>users := users s @ [?row]\<rparr>"
      using assms unfolding user_insert_def Let_def None by simp_all
    ultimately show ?thesis using that(1) by (simp add: rls_check_None)
  next
    case (Some e)
    have "pred_option server_error (first_error ?es)" by (rule pred_option_first_error) (simp add: rls_check_def session_check_def)
    then have "server_error e" unfolding Some by simp
    moreover have "r = Inl e" "s' = draw s" using assms unfolding user_insert_def Let_def Some by simp_all
    ultimately show ?thesis using that(2) by blast
  qed
qed

lemma users_change_insert: "users_change s (snd (user_insert t email name h role s))"
proof -
  obtain r s' where i: "user_insert t email name h role s = (r, s')" by fastforce
  then have "users_change s s'"
  proof (cases rule: user_insert_cases)
    case inserted
    let ?row = "\<lparr>ur_user = new_user t email name role s, ur_password_hash = h\<rparr>"
    have row: "tenant_of_user ?row = t" "user_place ?row = (t, email)" "(us_ID \<circ> ur_user) ?row = next_uuid s" "us_Role (ur_user ?row) = role"
      by (simp_all add: tenant_of_user_def user_place_def new_user_def)
    have "users_ok s'" if "users_ok s"
      unfolding inserted(2) users_ok_def using that inserted(4-7) row by (simp add: users_ok_def)
    moreover have "filter (\<lambda>r. tenant_of_user r = t') (users s') = filter (\<lambda>r. tenant_of_user r = t') (users s)"
      if "\<not> visible s t'" for t'
      unfolding inserted(2) using that inserted(3) row(1) by auto
    ultimately show ?thesis unfolding users_change_def by (simp add: inserted(2))
  next
    case (refused e)
    then show ?thesis by (simp add: users_change_same)
  qed
  then show ?thesis using i by simp
qed

lemma users_change_Create: "users_change s (snd (user_repo_Create t email name h role s))"
  using users_change_insert [of s t email name h role]
  by (auto simp: user_repo_Create_def split: sum.split prod.split if_split)

lemma users_change_updates:
  "users_change s (snd (user_repo_UpdatePassword uid h s))"
  "users_change s (snd (user_repo_UpdateMustChangePassword uid v s))"
  "users_change s (snd (user_repo_UpdateName uid name s))"
  "users_change s (snd (user_repo_Deactivate uid s))"
  unfolding user_repo_UpdatePassword_def user_repo_UpdateMustChangePassword_def user_repo_UpdateName_def user_repo_Deactivate_def
  by (auto intro!: users_change_exec simp: user_identity_def)

section \<open>Operations of the service\<close>

text \<open>Drawing random bytes moves a position and nothing else.\<close>

definition draws :: "sys \<Rightarrow> sys \<Rightarrow> bool" where
  "draws s s' \<longleftrightarrow> (\<exists>n. s' = s\<lparr>random_pos := n\<rparr>)"

lemma draws_refl [simp]: "draws s s"
  unfolding draws_def by (intro exI [of _ "random_pos s"]) simp

lemma draws_trans: "draws s s' \<Longrightarrow> draws s' s'' \<Longrightarrow> draws s s''"
  by (auto simp: draws_def)

lemma draws_users_change: "draws s s' \<Longrightarrow> users_change s s'"
  by (auto simp: draws_def intro: users_change_same)

lemma draws_fields:
  "draws s s' \<Longrightarrow> users s' = users s" "draws s s' \<Longrightarrow> tenants s' = tenants s" "draws s s' \<Longrightarrow> session s' = session s"
  "draws s s' \<Longrightarrow> clock s' = clock s" "draws s s' \<Longrightarrow> visible s' t = visible s t" "draws s s' \<Longrightarrow> users_ok s' = users_ok s"
  by (auto simp: draws_def visible_def users_ok_def)

lemma draws_randomIndex: "draws s (snd (randomIndex n s))"
  by (auto simp: randomIndex_def rand_read_def draws_def)

lemma draws_random_chars: "draws s (snd (random_chars css s))"
proof (induction css arbitrary: s)
  case (Cons cs css)
  show ?case using draws_trans [OF draws_randomIndex Cons.IH] by (simp add: case_prod_beta)
qed simp

lemma draws_shuffle: "draws s (snd (shuffle is b s))"
proof (induction "is" arbitrary: b s)
  case (Cons i "is")
  show ?case using draws_trans [OF draws_randomIndex Cons.IH] by (simp add: case_prod_beta)
qed simp

lemma draws_temporary: "draws s (snd (generateTemporaryPassword s))"
  unfolding generateTemporaryPassword_def Let_def case_prod_beta
  by (rule draws_trans [OF draws_random_chars draws_shuffle])

lemma draws_hash: "draws s (snd (hash_password svc pw s))"
  by (auto simp: hash_password_def rand_read_def Let_def draws_def split: sum.split intro: exI [of _ "random_pos s"])

text \<open>The course of \<open>CreateUser\<close>: a password is chosen and hashed, then the row is written, and marked when
  the password is temporary.\<close>

lemma CreateUser_course:
  assumes "bo_svc_CreateUser svc t email name pw role s = (r, s')"
  obtains (early) err where "r = Inl err" "draws s s'"
    | (refused) s2 h err where "draws s s2" "user_repo_Create t email name h role s2 = (Inl err, s')"
        "r = Inl (Wrap ''create user'' err)"
    | (plain) s2 h u where "draws s s2" "user_repo_Create t email name h role s2 = (Inr u, s')" "r = Inr u" "pw \<noteq> []"
        "\<exists>salt. lb_hash (bs_libs svc) pw salt = Inr h" "validatePassword pw = None"
    | (temporary) s2 h u s3 where "draws s s2" "user_repo_Create t email name h role s2 = (Inr u, s3)" "pw = []"
        "user_repo_UpdateMustChangePassword (us_ID u) True s3 = (None, s')" "r = Inr (u\<lparr>us_MustChangePassword := True\<rparr>)"
    | (unmarked) s2 h u s3 err where "draws s s2" "user_repo_Create t email name h role s2 = (Inr u, s3)" "pw = []"
        "user_repo_UpdateMustChangePassword (us_ID u) True s3 = (Some err, s')"
        "r = Inl (Wrap ''create user: setting must_change_password'' err)"
proof -
  obtain q s1 where p: "(if pw = [] then generateTemporaryPassword s else (pw, s)) = (q, s1)" by fastforce
  have d1: "draws s s1" using draws_temporary [of s] p by (auto split: if_splits)
  obtain h s2 where h: "hash_password svc q s1 = (h, s2)" by fastforce
  have d2: "draws s s2" using draws_trans [OF d1 draws_hash [of s1 svc q]] h by simp
  note eq = bo_svc_CreateUser_def [of svc t email name pw role s, unfolded Let_def p prod.case h]
  show thesis
  proof (cases "t = 0 \<or> email = [] \<or> name = [] \<or> (role \<noteq> RoleAdmin \<and> role \<noteq> RoleMember)
      \<or> (pw \<noteq> [] \<and> validatePassword pw \<noteq> None) \<or> (\<exists>e. h = Inl e)")
    case True
    then have "\<exists>err. r = Inl err \<and> (s' = s \<or> s' = s1 \<or> s' = s2)"
      using assms unfolding eq by (auto split: if_splits option.splits)
    then show ?thesis using early d1 d2 by auto
  next
    case False
    then obtain x where x: "h = Inr x" by (cases h) auto
    have hash: "\<exists>salt. lb_hash (bs_libs svc) pw salt = Inr x" if "pw \<noteq> []"
      using h p that x by (auto simp: hash_password_def split: sum.splits prod.splits)
    obtain c s3 where c: "user_repo_Create t email name x role s2 = (c, s3)" by fastforce
    have eq: "(r, s') =
      (case c of Inl err \<Rightarrow> (Inl (Wrap ''create user'' err), s3)
       | Inr u \<Rightarrow> (if pw = []
            then case user_repo_UpdateMustChangePassword (us_ID u) True s3 of
              (Some err, s4) \<Rightarrow> (Inl (Wrap ''create user: setting must_change_password'' err), s4)
            | (None, s4) \<Rightarrow> (Inr (u\<lparr>us_MustChangePassword := True\<rparr>), s4)
            else (Inr u, s3)))"
    proof -
      have g: "(t = uuid_nil) = False" "(email = []) = False" "(name = []) = False"
        "(role \<noteq> RoleAdmin \<and> role \<noteq> RoleMember) = False" "(if pw = [] then None else validatePassword pw) = None"
        using False by auto
      show ?thesis using assms [symmetric] unfolding eq g if_False option.case x sum.case prod.case c by (simp cong: if_cong)
    qed
    show ?thesis
    proof (cases c)
      case (Inl err)
      then show ?thesis using refused [OF d2] c eq by simp
    next
      case (Inr u)
      obtain m s4 where m: "user_repo_UpdateMustChangePassword (us_ID u) True s3 = (m, s4)" by fastforce
      show ?thesis
      proof (cases "pw = []")
        case True
        then show ?thesis using temporary [OF d2 _ True] unmarked [OF d2 _ True] c eq Inr m by (cases m) auto
      next
        case pw: False
        then show ?thesis using plain [OF d2 _ _ pw hash [OF pw]] c eq Inr False by auto
      qed
    qed
  qed
qed

lemma users_change_CreateUser: "users_change s (snd (bo_svc_CreateUser svc t email name pw role s))"
proof -
  obtain r s' where c: "bo_svc_CreateUser svc t email name pw role s = (r, s')" by fastforce
  note step = users_change_trans [OF draws_users_change users_change_Create]
  note must = users_change_updates(2)
  from c have "users_change s s'"
  proof (cases rule: CreateUser_course)
    case (early err)
    then show ?thesis by (simp add: draws_users_change)
  next
    case (refused s2 h err)
    then show ?thesis using step [of s s2 t email name h role] by simp
  next
    case (plain s2 h u)
    then show ?thesis using step [of s s2 t email name h role] by simp
  next
    case (temporary s2 h u s3)
    then show ?thesis using users_change_trans [OF step [of s s2 t email name h role] must [of _ "us_ID u" True]] by simp
  next
    case (unmarked s2 h u s3 err)
    then show ?thesis using users_change_trans [OF step [of s s2 t email name h role] must [of _ "us_ID u" True]] by simp
  qed
  then show ?thesis using c by simp
qed

lemma users_change_ChangePassword: "users_change s (snd (bo_svc_ChangePassword svc uid old new s))"
proof -
  obtain h s1 where h: "hash_password svc new s = (h, s1)" by fastforce
  have d: "users_change s s1" using draws_users_change [OF draws_hash [of s svc new]] h by simp
  have u: "users_change s (snd (user_repo_UpdatePassword uid x s1))" for x
    by (rule users_change_trans [OF d users_change_updates(1)])
  show ?thesis using d u by (simp add: bo_svc_ChangePassword_def h case_prod_beta split: option.split sum.split)
qed

lemma users_change_Deactivate: "users_change s (snd (bo_svc_DeactivateUser uid s))"
  using users_change_updates(4) [of s uid]
  by (auto simp: bo_svc_DeactivateUser_def split: option.split prod.split)

lemma users_change_UpdateProfile: "users_change s (snd (bo_svc_UpdateProfile uid name s))"
  using users_change_updates(3) [of s uid name]
  by (auto simp: bo_svc_UpdateProfile_def split: option.split sum.split prod.split)

text \<open>A state change by one request to the service.\<close>

inductive user_step :: "bo_service \<Rightarrow> sys \<Rightarrow> sys \<Rightarrow> bool" for svc where
  create: "user_step svc s (snd (bo_svc_CreateUser svc t email name pw role s))"
| profile: "user_step svc s (snd (bo_svc_UpdateProfile uid name s))"
| deactivate: "user_step svc s (snd (bo_svc_DeactivateUser uid s))"
| password: "user_step svc s (snd (bo_svc_ChangePassword svc uid old new s))"

lemma user_step_change: "user_step svc s s' \<Longrightarrow> users_change s s'"
  by (cases rule: user_step.cases)
    (auto simp: users_change_CreateUser users_change_UpdateProfile users_change_Deactivate users_change_ChangePassword)

lemma user_steps_change: "(user_step svc)\<^sup>*\<^sup>* s s' \<Longrightarrow> users_change s s'"
  by (induction rule: rtranclp_induct) (auto intro: users_change_trans user_step_change)

text \<open>No sequence of backoffice requests breaks the constraints of the user table (ids unique, emails unique
  per tenant, roles admin or member, tenants known), removes a user, or changes the id, tenant, email, role
  or creation time of one.\<close>

theorem users_invariant:
  assumes "(user_step svc)\<^sup>*\<^sup>* s s'" "users_ok s"
  shows "users_ok s' \<and> prefix (map user_identity (users s)) (map user_identity (users s'))"
  using user_steps_change [OF assms(1)] assms(2) by (simp add: users_change_def)

text \<open>In the session of a tenant no sequence of backoffice requests, whatever user ids they name, adds or
  changes a user of another tenant.\<close>

theorem users_tenant_isolation:
  assumes "(user_step svc)\<^sup>*\<^sup>* s s'" "session s = Current_Tenant t" "t' \<noteq> t"
  shows "filter (\<lambda>r. tenant_of_user r = t') (users s') = filter (\<lambda>r. tenant_of_user r = t') (users s)"
proof -
  have "\<not> visible s t'" using assms(2,3) by (simp add: visible_def)
  then show ?thesis using user_steps_change [OF assms(1)] by (simp add: users_change_def)
qed

end
