(* ===== verification/Backoffice_Login.thy ===== *)
theory Backoffice_Login
  imports Backoffice_Rules
begin

text \<open>
  Logging in and what follows from it: who gets a token, what a token is good for, the effect of a
  password change, and users that can never log in. The documented behaviour of the token library
  and of bcrypt enters as \<open>jwt_law\<close> and \<open>bcrypt_law\<close>.
\<close>

section \<open>Laws of the libraries\<close>

definition ascii_text :: "string \<Rightarrow> bool" where
  "ascii_text t \<longleftrightarrow> list_all (\<lambda>c. (of_char c :: nat) < 128) t"

text \<open>A token signed with a secret is accepted with this secret until it expires, and carries the signed
  ASCII texts; a printed UUID is ASCII and parses to itself. The library also looks at a claim \<open>nbf\<close> (a token
  is not valid before that time), so the law is about claims without one; the program never sets it.\<close>

definition jwt_law :: "bo_libs \<Rightarrow> bool" where
  "jwt_law libs \<longleftrightarrow>
     (\<forall>secret claims token now e. lb_sign libs secret claims = Inr token \<and> ''nbf'' \<notin> fst ` set claims
        \<and> map_of claims ''exp'' = Some (Claim_Number e) \<and> unix_seconds now < e \<longrightarrow>
        (\<exists>claims'. lb_parse libs now (hmac_keyfunc secret) token = Inr claims'
           \<and> (\<forall>k v. map_of claims k = Some (Claim_Text v) \<and> ascii_text v \<longrightarrow> map_of claims' k = Some (Claim_Text v))))
     \<and> (\<forall>u. ascii_text (lb_uuid_string libs u) \<and> lb_uuid_parse libs (lb_uuid_string libs u) = Some u)"

text \<open>A hash is never empty and matches the password it was made from.\<close>

definition bcrypt_law :: "bo_libs \<Rightarrow> bool" where
  "bcrypt_law libs \<longleftrightarrow> (\<forall>pw salt h. lb_hash libs pw salt = Inr h \<longrightarrow> h \<noteq> [] \<and> lb_compare libs h pw)"

section \<open>Login\<close>

lemma user_query_place:
  assumes "users_ok s"
  shows "user_query op (\<lambda>r. user_place r = (t, email)) s = Inr r
    \<longleftrightarrow> r \<in> set (users s) \<and> user_place r = (t, email) \<and> visible s t"
proof -
  have ten: "tenant_of_user x = t" if "user_place x = (t, email)" for x
    using that by (simp add: user_place_def tenant_of_user_def)
  have d: "distinct (map user_place (users s))" using assms by (simp add: users_ok_def)
  have "query_row s tenant_of_user (\<lambda>x. user_place x = (t, email)) (users s) = Inr r
      \<longleftrightarrow> r \<in> set (users s) \<and> user_place r = (t, email) \<and> visible s t"
  proof
    assume "query_row s tenant_of_user (\<lambda>x. user_place x = (t, email)) (users s) = Inr r"
    from query_row_Inr [OF this] ten show "r \<in> set (users s) \<and> user_place r = (t, email) \<and> visible s t" by auto
  next
    assume a: "r \<in> set (users s) \<and> user_place r = (t, email) \<and> visible s t"
    then have "query_row s tenant_of_user (\<lambda>x. user_place x = user_place r) (users s) = Inr r"
      by (intro query_row_unique [OF d]) (simp_all add: ten)
    then show "query_row s tenant_of_user (\<lambda>x. user_place x = (t, email)) (users s) = Inr r" using a by simp
  qed
  then show ?thesis by (auto simp: user_query_def split: sum.split)
qed

lemma user_query_id:
  assumes "users_ok s" "r \<in> set (users s)" "visible s (tenant_of_user r)"
  shows "user_query op (\<lambda>x. us_ID (ur_user x) = us_ID (ur_user r)) s = Inr r"
proof -
  have "query_row s tenant_of_user (\<lambda>x. (us_ID \<circ> ur_user) x = (us_ID \<circ> ur_user) r) (users s) = Inr r"
    by (rule query_row_unique) (use assms in \<open>simp_all add: users_ok_def comp_def\<close>)
  then show ?thesis by (simp add: user_query_def)
qed

lemma GetByEmail_Inr:
  assumes "users_ok s" "t \<noteq> 0" "email \<noteq> []"
  shows "user_repo_GetByEmail t email s = Inr (u, h)
    \<longleftrightarrow> (\<exists>r \<in> set (users s). user_place r = (t, email) \<and> visible s t \<and> u = ur_user r \<and> h = ur_password_hash r)"
  using assms user_query_place [OF assms(1), of "''get backoffice user by email''" t email]
  by (auto simp: user_repo_GetByEmail_def split: sum.split) (metis sum.sel(2))+

text \<open>The row that a login is about, and the outcome for it.\<close>

lemma Login_row:
  assumes "users_ok s" "r \<in> set (users s)" "user_place r = (t, email)" "visible s t" "t \<noteq> 0" "email \<noteq> []" "pw \<noteq> []"
  shows "bo_svc_Login svc t email pw s =
    (if \<not> us_IsActive (ur_user r) then Inl (Wrap ''login: user is inactive'' (Sentinel ErrInvalidInput))
     else if \<not> lb_compare (bs_libs svc) (ur_password_hash r) pw then Inl (Wrap ''login'' (Sentinel ErrInvalidInput))
     else if us_MustChangePassword (ur_user r)
     then Inl (Plain ''login: must_change_password: user must change password before accessing backoffice'')
     else case GenerateToken (bs_libs svc) (ur_user r) (bs_jwtSecret svc) (bs_jwtTTL svc) (clock s) of
       Inl err \<Rightarrow> Inl (Wrap ''login'' err)
     | Inr token \<Rightarrow> Inr (token, ur_user r))"
proof -
  have "user_repo_GetByEmail t email s = Inr (ur_user r, ur_password_hash r)"
    using assms by (subst GetByEmail_Inr) auto
  then show ?thesis using assms(5-7) by (simp add: bo_svc_Login_def)
qed

lemma Login_no_row:
  assumes "users_ok s" "t \<noteq> 0" "\<not> (visible s t \<and> (t, email) \<in> user_place ` set (users s))"
  shows "\<exists>msg. bo_svc_Login svc t email pw s = Inl (Wrap msg (Sentinel ErrInvalidInput))"
proof (cases "email = [] \<or> pw = []")
  case True
  then show ?thesis using assms(2) by (auto simp: bo_svc_Login_def)
next
  case False
  then have "\<not> (\<exists>u h. user_repo_GetByEmail t email s = Inr (u, h))"
    using assms by (auto simp: GetByEmail_Inr image_iff)
  then obtain err where "user_repo_GetByEmail t email s = Inl err" by (cases "user_repo_GetByEmail t email s") auto
  then show ?thesis using False assms(2) by (simp add: bo_svc_Login_def)
qed

lemma bad_request_status: "sentinel_status (Wrap msg (Sentinel ErrInvalidInput)) = 400"
  by (simp add: sentinel_status_def)

lemma Login_Inr:
  assumes "users_ok s"
  shows "bo_svc_Login svc t email pw s = Inr (token, u)
    \<longleftrightarrow> t \<noteq> 0 \<and> email \<noteq> [] \<and> pw \<noteq> [] \<and> visible s t
      \<and> (\<exists>r \<in> set (users s). user_place r = (t, email) \<and> u = ur_user r \<and> us_IsActive u \<and> \<not> us_MustChangePassword u
          \<and> lb_compare (bs_libs svc) (ur_password_hash r) pw)
      \<and> GenerateToken (bs_libs svc) u (bs_jwtSecret svc) (bs_jwtTTL svc) (clock s) = Inr token"
proof (cases "t = 0 \<or> email = [] \<or> pw = []")
  case True
  then show ?thesis by (auto simp: bo_svc_Login_def)
next
  case False
  then have ne: "t \<noteq> 0" "email \<noteq> []" "pw \<noteq> []" by auto
  show ?thesis
  proof (cases "visible s t \<and> (t, email) \<in> user_place ` set (users s)")
    case True
    then obtain r where r: "r \<in> set (users s)" "user_place r = (t, email)" "visible s t" by auto
    have "x = r" if "x \<in> set (users s)" "user_place x = (t, email)" for x
      using distinct_key_eq [of user_place "users s" x r] that r assms by (simp add: users_ok_def)
    then have "(\<exists>x \<in> set (users s). user_place x = (t, email) \<and> Q x) \<longleftrightarrow> Q r" for Q
      using r(1,2) by metis
    note ex = this
    obtain g where g: "GenerateToken (bs_libs svc) (ur_user r) (bs_jwtSecret svc) (bs_jwtTTL svc) (clock s) = g" by simp
    show ?thesis
    proof (cases "u = ur_user r")
      case True
      show ?thesis unfolding Login_row [OF assms r ne] ex True g using r(3) ne by (cases g) simp_all
    next
      case False
      then show ?thesis unfolding Login_row [OF assms r ne] ex g by (cases g) auto
    qed
  next
    case False
    then have "\<not> (visible s t \<and> (\<exists>r \<in> set (users s). user_place r = (t, email) \<and> Q r))" for Q by force
    with Login_no_row [OF assms ne(1) False, of svc pw] show ?thesis by auto
  qed
qed

text \<open>C32. A login is answered with a token exactly when the session of the connection sees the tenant and there is
  a user of the tenant with the email who is active, need not change the password and whose hash matches;
  the token is for this user.\<close>

theorem login_decides:
  assumes "users_ok s"
  shows "bo_svc_Login svc t email pw s = Inr (token, u)
    \<longleftrightarrow> t \<noteq> 0 \<and> email \<noteq> [] \<and> pw \<noteq> [] \<and> visible s t
      \<and> (\<exists>r \<in> set (users s). user_place r = (t, email) \<and> u = ur_user r \<and> us_IsActive u \<and> \<not> us_MustChangePassword u
          \<and> lb_compare (bs_libs svc) (ur_password_hash r) pw)
      \<and> GenerateToken (bs_libs svc) u (bs_jwtSecret svc) (bs_jwtTTL svc) (clock s) = Inr token"
  by (rule Login_Inr [OF assms])

text \<open>The tenant is set for the transaction only, and there is none: a login over a connection whose session is
  not that of the tenant (a fresh one, or one that last served another tenant) is refused with 400,
  whatever the password.\<close>

theorem login_needs_session:
  assumes "users_ok s" "t \<noteq> 0" "\<not> visible s t"
  shows "\<exists>err. bo_svc_Login svc t email pw s = Inl err \<and> sentinel_status err = 400"
  using Login_no_row [of s t email svc pw] assms bad_request_status by auto

section \<open>Tokens\<close>

lemma roles_ascii: "ascii_text RoleAdmin" "ascii_text RoleMember"
  unfolding ascii_text_def RoleAdmin_def RoleMember_def by code_simp+

text \<open>C33. The token of a login passes the middleware of the backoffice until it expires, in every later state and
  whatever the connections of the pool are: the handler runs with the id, tenant and role that the user had
  when logging in in its context, after the tenant has been set on one connection of the pool, on the
  connection that the pool then hands out, which need not be that one. The user table is not consulted, so a
  deactivated user keeps access until then. Of the token library this uses \<open>jwt_law\<close>: a signed set of claims
  without \<open>nbf\<close> is accepted with the same secret until its \<open>exp\<close>.\<close>

theorem token_authenticates:
  assumes "bo_svc_Login svc t email pw s = Inr (token, u)" "users_ok s" "jwt_law (bs_libs svc)"
    and "unix_seconds (clock s') < unix_seconds (clock s + bs_jwtTTL svc)"
  shows "BackofficeAuth (bs_libs svc) (bs_jwtSecret svc) next bo_background (''Bearer '' @ token) s'
    = next \<lparr>bx_context = WithTenantID background t, bx_user_id = Some (us_ID u), bx_tenant_id = Some t, bx_role = Some (us_Role u)\<rparr>
        (snd (setRLSContext t s'))"
proof -
  let ?libs = "bs_libs svc"
  from assms(1) [unfolded Login_Inr [OF assms(2)]] obtain r where
    r: "r \<in> set (users s)" "user_place r = (t, email)" "u = ur_user r"
    and g: "GenerateToken ?libs u (bs_jwtSecret svc) (bs_jwtTTL svc) (clock s) = Inr token" by blast
  have t: "us_TenantID u = t" using r by (simp add: user_place_def)
  have role: "ascii_text (us_Role u)" using assms(2) r(1,3) roles_ascii by (auto simp: users_ok_def)
  define claims where "claims = token_claims ?libs u (bs_jwtTTL svc) (clock s)"
  have sign: "lb_sign ?libs (bs_jwtSecret svc) claims = Inr token"
    using g by (auto simp: GenerateToken_def claims_def split: if_splits sum.splits)
  have m: "map_of claims ''exp'' = Some (Claim_Number (unix_seconds (clock s + bs_jwtTTL svc)))"
    "map_of claims ''user_id'' = Some (Claim_Text (lb_uuid_string ?libs (us_ID u)))"
    "map_of claims ''tenant_id'' = Some (Claim_Text (lb_uuid_string ?libs t))"
    "map_of claims ''role'' = Some (Claim_Text (us_Role u))"
    by (simp_all add: claims_def token_claims_def t)
  have nbf: "''nbf'' \<notin> fst ` set claims" by (simp add: claims_def token_claims_def)
  note law = assms(3) [unfolded jwt_law_def]
  obtain claims' where p: "lb_parse ?libs (clock s') (hmac_keyfunc (bs_jwtSecret svc)) token = Inr claims'"
    and c: "\<And>k v. map_of claims k = Some (Claim_Text v) \<Longrightarrow> ascii_text v \<Longrightarrow> map_of claims' k = Some (Claim_Text v)"
    using law sign nbf m(1) assms(4) by blast
  have uuid: "ascii_text (lb_uuid_string ?libs x)" "lb_uuid_parse ?libs (lb_uuid_string ?libs x) = Some x" for x
    using law by auto
  have "claim_text claims' ''user_id'' = Some (lb_uuid_string ?libs (us_ID u))"
    "claim_text claims' ''tenant_id'' = Some (lb_uuid_string ?libs t)" "claim_text claims' ''role'' = Some (us_Role u)"
    by (simp_all add: claim_text_def c [OF m(2) uuid(1)] c [OF m(3) uuid(1)] c [OF m(4) role])
  moreover have "split_n2 (CHR '' '') (''Bearer'' @ CHR '' '' # token) = [''Bearer'', token]"
    by (rule split_n2_append) simp
  ultimately show ?thesis
    using p uuid(2)
    by (simp add: BackofficeAuth_def Let_def case_prod_beta setRLSContext_def bo_background_def WithBackofficeUserID_def
        WithBackofficeTenantID_def WithBackofficeRole_def)
qed

section \<open>Users with a temporary password\<close>

lemma in_update_where:
  "x \<in> set rs \<Longrightarrow> hit x \<Longrightarrow> f x \<in> set (update_where hit f rs)"
  "x \<in> set rs \<Longrightarrow> \<not> hit x \<Longrightarrow> x \<in> set (update_where hit f rs)"
  by (induction rs) auto

lemma exec_user_None:
  assumes "exec_user op uid f s = (None, s')"
  shows "s' = s\<lparr>users := update_where (\<lambda>r. visible s (tenant_of_user r) \<and> us_ID (ur_user r) = uid) f (users s)\<rparr>"
    "\<exists>r \<in> set (users s). visible s (tenant_of_user r) \<and> us_ID (ur_user r) = uid"
proof -
  obtain written rows where u: "update_rows s tenant_of_user (\<lambda>r. us_ID (ur_user r) = uid) f (\<lambda>_. None) (users s) = Inr (written, rows)"
    and s': "written \<noteq> []" "s' = s\<lparr>users := rows\<rparr>"
    using assms by (auto simp: exec_user_def split: sum.splits if_splits)
  show "s' = s\<lparr>users := update_where (\<lambda>r. visible s (tenant_of_user r) \<and> us_ID (ur_user r) = uid) f (users s)\<rparr>"
    using update_rows_Inr(1) [OF u] s'(2) by simp
  show "\<exists>r \<in> set (users s). visible s (tenant_of_user r) \<and> us_ID (ur_user r) = uid"
    using update_rows_Inr(2) [OF u] s'(1) by (auto simp: filter_empty_conv)
qed

lemma Create_Inr:
  assumes "user_repo_Create t email name h role s = (Inr u, s')"
  shows "t \<noteq> 0" "email \<noteq> []" "u = new_user t email name role s" "visible s t"
    "s' = (draw s)\<lparr>users := users s @ [\<lparr>ur_user = u, ur_password_hash = h\<rparr>]\<rparr>"
proof -
  have ins: "user_insert t email name h role s = (Inr u, s')" and "t \<noteq> 0" "email \<noteq> []"
    using assms by (auto simp: user_repo_Create_def split: if_splits sum.splits prod.splits)
  then show "t \<noteq> 0" "email \<noteq> []" by simp_all
  from ins show "u = new_user t email name role s" "visible s t"
    "s' = (draw s)\<lparr>users := users s @ [\<lparr>ur_user = u, ur_password_hash = h\<rparr>]\<rparr>"
    by (cases rule: user_insert_cases; simp)+
qed

text \<open>A user created without a password gets a generated one, which is neither stored in clear nor returned,
  and is marked to change it; logging in is the only way to a token and is refused while the mark is
  set, with 500 for the right password and 400 for any other.\<close>

theorem temporary_user_locked_out:
  assumes "bo_svc_CreateUser svc t email name [] role s = (Inr u, s')" "users_ok s" "pw \<noteq> []"
  shows "us_MustChangePassword u
    \<and> (\<exists>err r. bo_svc_Login svc t email pw s' = Inl err \<and> r \<in> set (users s') \<and> ur_user r = u\<lparr>us_UpdatedAt := db_now s\<rparr>
        \<and> sentinel_status err = (if lb_compare (bs_libs svc) (ur_password_hash r) pw then 500 else 400))"
  using assms(1)
proof (cases rule: CreateUser_course)
  case (temporary s2 h v s3)
  note c = Create_Inr [OF temporary(2)] and d = draws_fields [OF temporary(1)]
  let ?f = "\<lambda>r :: user_row. r\<lparr>ur_user := (ur_user r)\<lparr>us_MustChangePassword := True, us_UpdatedAt := db_now s3\<rparr>\<rparr>"
  have "exec_user ''update backoffice user must_change_password'' (us_ID v) ?f s3 = (None, s')"
    using temporary(4) by (auto simp: user_repo_UpdateMustChangePassword_def split: if_splits)
  note e = exec_user_None(1) [OF this]
  have "visible s3 t" using c(4) unfolding c(5) by (simp add: visible_def)
  have now: "db_now s3 = db_now s" using d(4) unfolding c(5) by (simp add: db_now_def)
  let ?row = "\<lparr>ur_user = v, ur_password_hash = h\<rparr>"
  have "?row \<in> set (users s3)" unfolding c(5) by simp
  moreover have "tenant_of_user ?row = t" "us_ID (ur_user ?row) = us_ID v" "user_place (?f ?row) = (t, email)" "us_IsActive v"
    by (simp_all add: c(3) new_user_def tenant_of_user_def user_place_def)
  ultimately have row: "?row \<in> set (users s3)" "visible s3 (tenant_of_user ?row) \<and> us_ID (ur_user ?row) = us_ID v"
      "user_place (?f ?row) = (t, email)" "us_IsActive (ur_user (?f ?row))"
    using \<open>visible s3 t\<close> by simp_all
  have "?f ?row \<in> set (users s')"
    using in_update_where(1) [of ?row "users s3" "\<lambda>r. visible s3 (tenant_of_user r) \<and> us_ID (ur_user r) = us_ID v" ?f] row(1,2)
    unfolding e by simp
  note row = this row(3,4)
  have ok: "users_ok s'"
    using users_change_CreateUser [of s svc t email name "[]" role] assms(1,2) by (simp add: users_change_def)
  have vis: "visible s' t" using \<open>visible s3 t\<close> unfolding e by (simp add: visible_def)
  have u: "u = v\<lparr>us_MustChangePassword := True\<rparr>" using temporary(5) by simp
  then have m: "us_MustChangePassword u" "ur_user (?f ?row) = u\<lparr>us_UpdatedAt := db_now s\<rparr>" by (simp_all add: now)
  let ?ok = "lb_compare (bs_libs svc) (ur_password_hash (?f ?row)) pw"
  let ?err = "if ?ok then Plain ''login: must_change_password: user must change password before accessing backoffice''
    else Wrap ''login'' (Sentinel ErrInvalidInput)"
  have "bo_svc_Login svc t email pw s' = Inl ?err"
    unfolding Login_row [OF ok row(1,2) vis c(1,2) assms(3)] using row(3) by simp
  moreover have "sentinel_status ?err = (if ?ok then 500 else 400)" by (simp add: sentinel_status_def)
  ultimately show ?thesis using m row(1) by (intro conjI exI [of _ ?err] exI [of _ "?f ?row"])
qed simp_all

end
