(* ===== verification/Backoffice_Access.thy ===== *)
theory Backoffice_Access
  imports Backoffice_Login
begin

text \<open>
  Further guarantees of the backoffice: the effect of a password change, what is refused to members,
  the requests that always fail, and the signup that leaves a tenant without a user. The theory ends
  with the concrete data and the witnesses of the backoffice theories.
\<close>

section \<open>Changing a password\<close>

lemma ChangePassword_None:
  assumes "bo_svc_ChangePassword svc uid old new s = (None, s')" "users_ok s" "r \<in> set (users s)"
    "visible s (tenant_of_user r)" "us_ID (ur_user r) = uid"
  obtains h salt s1 where "lb_compare (bs_libs svc) (ur_password_hash r) old" "lb_hash (bs_libs svc) new salt = Inr h"
    "draws s s1" "new \<noteq> []" "old \<noteq> []" "old \<noteq> new" "validatePassword new = None"
    "s' = s1\<lparr>users := update_where (\<lambda>r. visible s1 (tenant_of_user r) \<and> us_ID (ur_user r) = uid)
       (\<lambda>r. r\<lparr>ur_password_hash := h, ur_user := (ur_user r)\<lparr>us_MustChangePassword := False, us_UpdatedAt := db_now s1\<rparr>\<rparr>) (users s)\<rparr>"
proof -
  obtain x s1 where hp: "hash_password svc new s = (x, s1)" by fastforce
  have d: "draws s s1" using draws_hash [of s svc new] hp by simp
  have uid: "uid \<noteq> 0" and ne: "old \<noteq> []" "new \<noteq> []" "old \<noteq> new" "validatePassword new = None"
    using assms(1) by (auto simp: bo_svc_ChangePassword_def split: if_splits option.splits)
  have "user_repo_GetPasswordHashByID uid s = Inr (ur_password_hash r)"
    using user_query_id [OF assms(2-4), of "''get backoffice user password hash''"] uid assms(5)
    by (simp add: user_repo_GetPasswordHashByID_def)
  then have cmp: "lb_compare (bs_libs svc) (ur_password_hash r) old" and "\<exists>h. x = Inr h \<and> user_repo_UpdatePassword uid h s1 = (None, s')"
    using assms(1) uid ne hp by (auto simp: bo_svc_ChangePassword_def split: if_splits sum.splits option.splits prod.splits)
  then obtain h where h: "x = Inr h" "user_repo_UpdatePassword uid h s1 = (None, s')" by blast
  obtain salt where "lb_hash (bs_libs svc) new salt = Inr h"
    using hp h(1) by (auto simp: hash_password_def split: sum.splits prod.splits)
  note hash = this
  have "exec_user ''update backoffice user password'' uid
      (\<lambda>r :: user_row. r\<lparr>ur_password_hash := h, ur_user := (ur_user r)\<lparr>us_MustChangePassword := False, us_UpdatedAt := db_now s1\<rparr>\<rparr>) s1
      = (None, s')"
    using h(2) uid by (auto simp: user_repo_UpdatePassword_def split: if_splits)
  note e = exec_user_None(1) [OF this, unfolded draws_fields(1) [OF d]]
  show thesis by (rule that [OF cmp hash d ne(2,1,3,4) e])
qed

text \<open>C34. After a successful change of password the user's row has the hash of the new password and no mark to
  change it: the new password logs the user in, if active, and a password that the new hash does not
  match is refused with 400; no other row changes.\<close>

theorem change_password_effect:
  assumes "bo_svc_ChangePassword svc uid old new s = (None, s')" "users_ok s" "bcrypt_law (bs_libs svc)"
    and "r \<in> set (users s)" "us_ID (ur_user r) = uid" "user_place r = (t, email)" "visible s t" "t \<noteq> 0" "email \<noteq> []" "us_IsActive (ur_user r)"
    and "bs_jwtSecret svc \<noteq> []" "\<forall>claims. \<exists>token. lb_sign (bs_libs svc) (bs_jwtSecret svc) claims = Inr token"
  shows "\<exists>h salt. lb_hash (bs_libs svc) new salt = Inr h
    \<and> (\<exists>token u. bo_svc_Login svc t email new s' = Inr (token, u) \<and> us_ID u = uid)
    \<and> (\<forall>pw. pw \<noteq> [] \<and> \<not> lb_compare (bs_libs svc) h pw \<longrightarrow>
        (\<exists>err. bo_svc_Login svc t email pw s' = Inl err \<and> sentinel_status err = 400))
    \<and> (\<forall>q \<in> set (users s). q \<noteq> r \<longrightarrow> q \<in> set (users s'))"
proof -
  have ten: "tenant_of_user r = t" "us_TenantID (ur_user r) = t" using assms(6) by (simp_all add: user_place_def tenant_of_user_def)
  obtain h salt s1 where hs: "lb_hash (bs_libs svc) new salt = Inr h" "draws s s1" "new \<noteq> []"
    and s': "s' = s1\<lparr>users := update_where (\<lambda>r. visible s1 (tenant_of_user r) \<and> us_ID (ur_user r) = uid)
       (\<lambda>r. r\<lparr>ur_password_hash := h, ur_user := (ur_user r)\<lparr>us_MustChangePassword := False, us_UpdatedAt := db_now s1\<rparr>\<rparr>) (users s)\<rparr>"
    by (rule ChangePassword_None [OF assms(1,2,4) _ assms(5)]) (simp_all add: ten assms(7))
  let ?hit = "\<lambda>r. visible s1 (tenant_of_user r) \<and> us_ID (ur_user r) = uid"
  let ?f = "\<lambda>r :: user_row. r\<lparr>ur_password_hash := h, ur_user := (ur_user r)\<lparr>us_MustChangePassword := False, us_UpdatedAt := db_now s1\<rparr>\<rparr>"
  have uid: "uid \<noteq> 0" using assms(1) by (auto simp: bo_svc_ChangePassword_def)
  have vis: "visible s1 t" using draws_fields(5) [OF hs(2)] assms(7) by simp
  have row: "?f r \<in> set (users s')"
    using in_update_where(1) [of r "users s" ?hit ?f] assms(4,5) vis unfolding s' by (simp add: ten)
  have place: "user_place (?f r) = (t, email)" using assms(6) by (simp add: user_place_def)
  have vis': "visible s' t" using vis unfolding s' by (simp add: visible_def)
  have ok: "users_ok s'"
    using users_change_ChangePassword [of s svc uid old new] assms(1,2) by (simp add: users_change_def)
  have cmp: "lb_compare (bs_libs svc) h new" using assms(3) hs(1) by (auto simp: bcrypt_law_def)
  note login = Login_row [OF ok row place vis' assms(8,9)]
  obtain token where token: "lb_sign (bs_libs svc) (bs_jwtSecret svc) (token_claims (bs_libs svc) (ur_user (?f r)) (bs_jwtTTL svc) (clock s'))
      = Inr token" using assms(12) by blast
  have "us_ID (ur_user (?f r)) \<noteq> 0" "us_TenantID (ur_user (?f r)) \<noteq> 0" using assms(5,8) uid ten by simp_all
  then have "GenerateToken (bs_libs svc) (ur_user (?f r)) (bs_jwtSecret svc) (bs_jwtTTL svc) (clock s') = Inr token"
    using assms(11) token by (simp add: GenerateToken_def del: user.simps)
  then have "bo_svc_Login svc t email new s' = Inr (token, ur_user (?f r))"
    unfolding login [OF hs(3)] using assms(10) cmp by simp
  moreover have "\<exists>err. bo_svc_Login svc t email pw s' = Inl err \<and> sentinel_status err = 400"
    if "pw \<noteq> []" "\<not> lb_compare (bs_libs svc) h pw" for pw
    unfolding login [OF that(1)] using that(2) assms(10) by (simp add: sentinel_status_def)
  moreover have "q \<in> set (users s')" if "q \<in> set (users s)" "q \<noteq> r" for q
  proof -
    have "\<not> ?hit q"
      using distinct_key_eq [of "us_ID \<circ> ur_user" "users s" q r] that assms(2,4,5) by (auto simp: users_ok_def)
    then show ?thesis using in_update_where(2) [OF that(1), of ?hit ?f] unfolding s' by simp
  qed
  moreover have "us_ID (ur_user (?f r)) = uid" using assms(5) by simp
  ultimately show ?thesis using hs(1) by blast
qed

section \<open>Refusals and failures\<close>

lemma plain_refused: "\<exists>d. RespondError c (Plain msg) = Error_Response 500 d"
  by (simp add: RespondError_def error_body_def Let_def HTTPStatusFor_def sentinel_status_def)

text \<open>Only an admin creates, lists or deactivates users or changes the password of another user: anyone else is
  refused without any effect. The refusal is an untyped error and is answered with 500.\<close>

theorem members_refused:
  assumes "BackofficeRoleFromContext ctx \<noteq> RoleAdmin"
  shows "(\<exists>d. bo_handler_CreateUser svc ctx body1 s = (Error_Response 500 d, s))
    \<and> (\<exists>d. bo_handler_ListUsers ctx s = Error_Response 500 d)
    \<and> (\<exists>d. bo_handler_DeactivateUser libs ctx uidtext s = (Error_Response 500 d, s))
    \<and> (\<forall>uid. lb_uuid_parse (bs_libs svc) uidtext = Some uid \<and> uid \<noteq> BackofficeUserIDFromContext ctx \<longrightarrow>
        (\<exists>d. bo_handler_ChangePassword svc ctx uidtext body2 s = (Error_Response 500 d, s)))"
  using assms
  by (auto intro: plain_refused simp: bo_handler_CreateUser_def bo_handler_ListUsers_def bo_handler_DeactivateUser_def bo_handler_ChangePassword_def
      simp del: append.simps)

text \<open>Listing the users never succeeds: the statement that sets the tenant is not accepted by the server, so every
  request, of an admin too, is answered with 500.\<close>

theorem user_list_always_fails:
  "response_status (bo_handler_ListUsers ctx s) = 500"
  by (simp add: bo_handler_ListUsers_def bo_svc_ListUsers_def user_repo_List_def set_local_cast_def Let_def
      HTTPStatusFor_def sentinel_status_def)

lemma user_insert_refused_pg:
  assumes "user_insert t email name h role s = (Inl e, s')"
  shows "\<exists>q m. e = Pg_Error q m"
proof -
  have c: "pred_option (\<lambda>e. \<exists>q m. e = Pg_Error q m) (check ok (Pg_Error q m))" for ok q m by simp
  have "pred_option (\<lambda>e. \<exists>q m. e = Pg_Error q m) (first_error es)"
    if "\<forall>x \<in> set es. pred_option (\<lambda>e. \<exists>q m. e = Pg_Error q m) x" for es
    using that by (rule pred_option_first_error)
  note f = this
  show ?thesis
    using assms unfolding user_insert_def Let_def rls_check_def session_check_def unset_parameter_def rls_violation_def
      check_violation_def unique_violation_def fk_violation_def
    by (simp split: option.splits) (drule pred_option_SomeD [OF _ f], simp_all)
qed

text \<open>A second user with the same email in a tenant is not created, but the conflict is looked for in the text of
  the error and missed: the answer is 500 instead of 409.\<close>

theorem duplicate_user_is_server_error:
  assumes "(t, email) \<in> user_place ` set (users s)"
    and "validatePassword pw = None" "pw \<noteq> []" "t \<noteq> 0" "email \<noteq> []" "name \<noteq> []" "role \<in> {RoleAdmin, RoleMember}"
    and "\<forall>salt. \<exists>h. lb_hash (bs_libs svc) pw salt = Inr h \<and> h \<noteq> []"
  shows "\<exists>err s'. bo_svc_CreateUser svc t email name pw role s = (Inl err, s') \<and> sentinel_status err = 500 \<and> users s' = users s"
proof -
  obtain x s1 where hp: "hash_password svc pw s = (x, s1)" by fastforce
  obtain h where h: "x = Inr h" "h \<noteq> []" using hp assms(8) by (auto simp: hash_password_def rand_read_def split: sum.splits)
  have u: "users s1 = users s" using draws_fields(1) [OF draws_hash [of s svc pw]] hp by simp
  obtain r s' where i: "user_insert t email name h role s1 = (r, s')" by fastforce
  then obtain e where e: "r = Inl e" "s' = draw s1" "server_error e"
    by (cases rule: user_insert_cases) (use assms(1) u in auto)
  obtain q m where "e = Pg_Error q m" using user_insert_refused_pg i e(1) by blast
  then have "error_text e \<noteq> duplicate_user_text" by (simp add: duplicate_user_text_def)
  then have c: "user_repo_Create t email name h role s1 = (Inl (Wrap ''create backoffice user'' e), s')"
    using i e(1) assms(4,5) h(2) by (simp add: user_repo_Create_def)
  have role: "(role \<noteq> RoleAdmin \<and> role \<noteq> RoleMember) = False" using assms(7) by auto
  have "bo_svc_CreateUser svc t email name pw role s = (Inl (Wrap ''create user'' (Wrap ''create backoffice user'' e)), s')"
    unfolding bo_svc_CreateUser_def role using assms(2-6) hp h(1) c by simp
  then show ?thesis using server_error_D(3) [OF e(3)] e(2) u by simp
qed

text \<open>The signup answers 201 and hands out an API key also when the user for the administration cannot be
  created, here because the password breaks the policy that the signup itself does not check (it asks
  for eight characters): the tenant then has no user and nobody can log in for it.\<close>

theorem signup_without_user:
  assumes "tenant_svc_Signup idkey env input s = (Inr (t, k), s1)" "sc_AllowSignup cfg"
    and "si_Name input \<noteq> []" "si_Email input \<noteq> []" "8 \<le> length (si_Password input)" "validatePassword (si_Password input) \<noteq> None"
  shows "\<exists>resp. tenant_handler_Signup idkey env (Some (wrapped_CreateUser svc)) cfg ctx (Inr input) s = (resp, s1)
    \<and> response_status resp = 201"
proof -
  have "si_Password input \<noteq> []" using assms(5) by auto
  then have "snd (wrapped_CreateUser svc (tn_ID t) (si_Email input) (si_Name input) (si_Password input) ''admin'' s1) = s1"
    using assms(6) by (auto simp: wrapped_CreateUser_def bo_svc_CreateUser_def split: option.split)
  then show ?thesis using assms(1-5) by (auto simp: tenant_handler_Signup_def Let_def)
qed

end
