(* ===== verification/Backoffice_Samples.thy ===== *)
theory Backoffice_Samples
  imports Backoffice_Access Tenant_Keys
begin

text \<open>
  Concrete libraries that satisfy \<open>jwt_law\<close> and \<open>bcrypt_law\<close>, a concrete state, and the witnesses of the
  backoffice theories. A sample token is a text encoding of the secret and the text claims.
\<close>

section \<open>Sample libraries\<close>

definition enc_text :: "string \<Rightarrow> string" where
  "enc_text t = concat (map (\<lambda>c. [CHR ''c'', c]) t) @ ''e''"

fun dec_text :: "string \<Rightarrow> string \<times> string" where
  "dec_text (a # b # r) = (if a = CHR ''c'' then (case dec_text r of (t, q) \<Rightarrow> (b # t, q)) else ([], b # r))"
| "dec_text _ = ([], [])"

lemma dec_enc_text: "dec_text (enc_text t @ r) = (t, r)"
  by (induction t) (cases r, auto simp: enc_text_def)

definition text_claims :: "map_claims \<Rightarrow> (string \<times> string) list" where
  "text_claims cs = concat (map (\<lambda>(k, c). case c of Claim_Text v \<Rightarrow> [(k, v)] | _ \<Rightarrow> []) cs)"

definition enc_claims :: "(string \<times> string) list \<Rightarrow> string" where
  "enc_claims kvs = concat (map (\<lambda>(k, v). enc_text k @ enc_text v) kvs)"

fun dec_claims :: "nat \<Rightarrow> string \<Rightarrow> (string \<times> string) list" where
  "dec_claims 0 s = []"
| "dec_claims (Suc n) s =
     (if s = [] then []
      else case dec_text s of (k, r) \<Rightarrow> (case dec_text r of (v, q) \<Rightarrow> (k, v) # dec_claims n q))"

lemma enc_text_length: "enc_text t \<noteq> []" "0 < length (enc_text t)"
  by (simp_all add: enc_text_def)

lemma dec_enc_claims: "length (enc_claims kvs) \<le> n \<Longrightarrow> dec_claims n (enc_claims kvs) = kvs"
proof (induction kvs arbitrary: n)
  case Nil
  then show ?case by (cases n) (simp_all add: enc_claims_def)
next
  case (Cons kv kvs)
  obtain k v where kv: "kv = (k, v)" by fastforce
  have e: "enc_claims (kv # kvs) = enc_text k @ enc_text v @ enc_claims kvs" by (simp add: enc_claims_def kv)
  then obtain m where n: "n = Suc m" using Cons.prems enc_text_length(2) [of k] by (cases n) auto
  have "length (enc_claims kvs) \<le> m" using Cons.prems enc_text_length(2) [of k] unfolding e n length_append by linarith
  then show ?case using Cons.IH e n enc_text_length(1) [of k] by (simp add: dec_enc_text kv)
qed

lemma map_of_text_claims: "map_of cs k = Some (Claim_Text v) \<Longrightarrow> map_of (text_claims cs) k = Some v"
  by (induction cs) (auto simp: text_claims_def split: claim.splits if_splits)

definition sample_libs :: bo_libs where
  "sample_libs =
     \<lparr>lb_hash = (\<lambda>pw salt. if length pw \<le> 72 then Inr (''h'' @ pw) else Inl (Plain ''bcrypt: password length exceeds 72 bytes'')),
      lb_compare = (\<lambda>h pw. h = ''h'' @ pw),
      lb_sign = (\<lambda>secret cs. Inr (enc_text secret @ enc_claims (text_claims cs))),
      lb_parse = (\<lambda>now keyfunc token. case dec_text token of (secret, r) \<Rightarrow>
        (if keyfunc ''HS256'' = Inr secret then Inr (map (\<lambda>(k, v). (k, Claim_Text v)) (dec_claims (length r) r))
         else Inl (Plain ''token signature is invalid''))),
      lb_uuid_string = (\<lambda>u. replicate (unat u) (CHR ''x'')),
      lb_uuid_parse = (\<lambda>t. Some (of_nat (length t)))\<rparr>"

lemma map_of_Claim_Text: "map_of (map (\<lambda>(k, v). (k, Claim_Text v)) kvs) k = map_option Claim_Text (map_of kvs k)"
  by (induction kvs) auto

lemma sample_jwt_law: "jwt_law sample_libs"
proof -
  have "ascii_text (replicate n (CHR ''x''))" for n by (simp add: ascii_text_def list_all_iff)
  then show ?thesis
    by (auto simp: jwt_law_def sample_libs_def dec_enc_text dec_enc_claims hmac_keyfunc_def map_of_Claim_Text map_of_text_claims)
qed

lemma sample_bcrypt_law: "bcrypt_law sample_libs"
  by (simp add: bcrypt_law_def sample_libs_def split: if_split)

section \<open>A sample state\<close>

definition sample_svc :: bo_service where
  "sample_svc = \<lparr>bs_libs = sample_libs, bs_jwtSecret = ''s'', bs_jwtTTL = 86400000000000\<rparr>"

definition sample_user :: user_row where
  "sample_user = \<lparr>ur_user = \<lparr>us_ID = 5, us_TenantID = 7, us_Email = ''e'', us_Role = RoleAdmin, us_Name = ''n'',
     us_MustChangePassword = False, us_IsActive = True, us_CreatedAt = 0, us_UpdatedAt = 0\<rparr>, ur_password_hash = ''hAa1!Aa1!''\<rparr>"

definition bo_sys :: sys where
  "bo_sys = tenant_sample_sys\<lparr>session := Current_Tenant 7, tenants := [tenant_of 7 ''acme''], users := [sample_user]\<rparr>"

lemma bo_sys_ok: "users_ok bo_sys" "sample_user \<in> set (users bo_sys)" "visible bo_sys 7" "user_place sample_user = (7, ''e'')"
  "clock bo_sys = clock tenant_sample_sys"
  by (simp_all add: users_ok_def bo_sys_def sample_user_def tenant_of_user_def user_place_def visible_def tenant_of_def)

text \<open>A password of the policy.\<close>

lemma sample_passwords: "validatePassword ''Aa1!Aa1!'' = None" "validatePassword ''Bb2@Bb2@'' = None" "validatePassword ''abcdefgh'' \<noteq> None"
  by code_simp+

lemma exec_user_hit:
  assumes "r \<in> set (users s)" "us_ID (ur_user r) = uid" "visible s (tenant_of_user r)"
  shows "\<exists>s'. exec_user op uid f s = (None, s')"
proof -
  let ?w = "map f (filter (\<lambda>r. visible s (tenant_of_user r) \<and> us_ID (ur_user r) = uid) (users s))"
  have "session_check s = None" using visible_not_unset [OF assms(3)] by (simp add: session_check_None)
  moreover have "first_error (map (\<lambda>_. None) ?w) = None" by (simp add: first_error_None)
  moreover have "?w \<noteq> []" using assms by (auto simp: filter_empty_conv)
  ultimately show ?thesis by (simp add: exec_user_def update_rows_def Let_def del: map_is_Nil_conv)
qed

section \<open>Witnesses\<close>

theorem users_invariant_witness:
  "users_ok (snd (bo_svc_CreateUser sample_svc 7 ''b'' ''n'' ''Aa1!Aa1!'' RoleMember bo_sys))"
  using users_invariant [OF r_into_rtranclp [of "user_step sample_svc", OF user_step.create] bo_sys_ok(1)] by blast

theorem users_tenant_isolation_witness:
  "filter (\<lambda>r. tenant_of_user r = 7) (users (snd (bo_svc_DeactivateUser 5 (bo_sys\<lparr>session := Current_Tenant 8\<rparr>)))) = [sample_user]"
  using users_tenant_isolation [OF r_into_rtranclp [of "user_step sample_svc", OF user_step.deactivate [of sample_svc "bo_sys\<lparr>session := Current_Tenant 8\<rparr>" 5]], of 8 7]
  by (simp add: bo_sys_def sample_user_def tenant_of_user_def)

lemma sample_login: "\<exists>token. bo_svc_Login sample_svc 7 ''e'' ''Aa1!Aa1!'' bo_sys = Inr (token, ur_user sample_user)"
  unfolding Login_row [OF bo_sys_ok(1,2,4,3), of "''Aa1!Aa1!''", simplified]
  by (simp add: sample_user_def sample_svc_def sample_libs_def GenerateToken_def)

theorem login_decides_witness:
  "\<exists>token. bo_svc_Login sample_svc 7 ''e'' ''Aa1!Aa1!'' bo_sys = Inr (token, ur_user sample_user) \<and> us_IsActive (ur_user sample_user)"
  using sample_login login_decides [OF bo_sys_ok(1), of sample_svc 7 "''e''" "''Aa1!Aa1!''" _ "ur_user sample_user"] by blast

theorem login_needs_session_witness:
  "\<exists>err. bo_svc_Login sample_svc 7 ''e'' ''Aa1!Aa1!'' (bo_sys\<lparr>session := Unset\<rparr>) = Inl err \<and> sentinel_status err = 400"
proof -
  have "users_ok (bo_sys\<lparr>session := Unset\<rparr>)" using bo_sys_ok(1) by (simp add: users_ok_def)
  then show ?thesis by (rule login_needs_session) (simp_all add: visible_def)
qed

theorem token_authenticates_witness:
  "\<exists>token. fst (BackofficeAuth sample_libs ''s'' (\<lambda>ctx s. (RespondOK (bx_role ctx), s)) bo_background (''Bearer '' @ token)
     (snd (bo_svc_DeactivateUser 5 bo_sys))) = RespondOK (Some RoleAdmin)"
proof -
  obtain token where l: "bo_svc_Login sample_svc 7 ''e'' ''Aa1!Aa1!'' bo_sys = Inr (token, ur_user sample_user)"
    using sample_login by blast
  let ?s = "snd (bo_svc_DeactivateUser 5 bo_sys)"
  have c: "clock ?s = clock bo_sys"
    by (auto simp: bo_svc_DeactivateUser_def user_repo_Deactivate_def exec_user_def split: prod.split option.split sum.split)
  have "unix_seconds (clock ?s) < unix_seconds (clock bo_sys + bs_jwtTTL sample_svc)"
    unfolding c by (simp add: unix_seconds_def sample_svc_def)
  then have "fst (BackofficeAuth (bs_libs sample_svc) (bs_jwtSecret sample_svc) (\<lambda>ctx s. (RespondOK (bx_role ctx), s)) bo_background
      (''Bearer '' @ token) ?s) = RespondOK (Some RoleAdmin)"
    using token_authenticates [OF l bo_sys_ok(1), of ?s "\<lambda>ctx s. (RespondOK (bx_role ctx), s)"] sample_jwt_law
    by (simp add: sample_svc_def sample_user_def)
  then show ?thesis unfolding sample_svc_def by auto
qed

theorem change_password_effect_witness:
  "\<exists>s' token u. bo_svc_ChangePassword sample_svc 5 ''Aa1!Aa1!'' ''Bb2@Bb2@'' bo_sys = (None, s')
     \<and> bo_svc_Login sample_svc 7 ''e'' ''Bb2@Bb2@'' s' = Inr (token, u)"
proof -
  have id: "us_ID (ur_user sample_user) = 5" "us_IsActive (ur_user sample_user)" by (simp_all add: sample_user_def)
  have "user_query op (\<lambda>x. us_ID (ur_user x) = 5) bo_sys = Inr sample_user" for op
    using user_query_id [OF bo_sys_ok(1,2), of op] bo_sys_ok(3) by (simp add: id tenant_of_user_def sample_user_def)
  then have h: "user_repo_GetPasswordHashByID 5 bo_sys = Inr ''hAa1!Aa1!''"
    by (simp add: user_repo_GetPasswordHashByID_def sample_user_def)
  obtain s1 where hp: "hash_password sample_svc ''Bb2@Bb2@'' bo_sys = (Inr ''hBb2@Bb2@'', s1)"
    by (simp add: hash_password_def rand_read_def sample_svc_def sample_libs_def)
  note d = draws_fields [OF draws_hash [of bo_sys sample_svc "''Bb2@Bb2@''", unfolded hp snd_conv]]
  have v: "visible s1 (tenant_of_user sample_user)" using d(5) bo_sys_ok(3) by (simp add: tenant_of_user_def sample_user_def)
  have us: "users s1 = [sample_user]" using d(1) by (simp add: bo_sys_def)
  have "\<exists>s'. user_repo_UpdatePassword 5 ''hBb2@Bb2@'' s1 = (None, s')"
    unfolding user_repo_UpdatePassword_def using exec_user_hit [OF _ id(1) v] us by simp
  then obtain s' where "bo_svc_ChangePassword sample_svc 5 ''Aa1!Aa1!'' ''Bb2@Bb2@'' bo_sys = (None, s')"
    using h hp sample_passwords by (auto simp: bo_svc_ChangePassword_def sample_svc_def sample_libs_def)
  moreover from change_password_effect [OF this bo_sys_ok(1) _ bo_sys_ok(2) id(1) bo_sys_ok(4,3) _ _ id(2)] sample_bcrypt_law
  have "\<exists>token u. bo_svc_Login sample_svc 7 ''e'' ''Bb2@Bb2@'' s' = Inr (token, u)"
    by (auto simp: sample_svc_def sample_libs_def)
  ultimately show ?thesis by blast
qed

theorem members_refused_witness:
  "\<exists>d. bo_handler_CreateUser sample_svc (bo_background\<lparr>bx_role := Some RoleMember\<rparr>) None bo_sys = (Error_Response 500 d, bo_sys)"
proof -
  have "BackofficeRoleFromContext (bo_background\<lparr>bx_role := Some RoleMember\<rparr>) \<noteq> RoleAdmin"
    by (simp add: BackofficeRoleFromContext_def bo_background_def RoleAdmin_def RoleMember_def)
  from members_refused [OF this] show ?thesis by blast
qed

theorem duplicate_user_is_server_error_witness:
  "\<exists>err s'. bo_svc_CreateUser sample_svc 7 ''e'' ''n'' ''Aa1!Aa1!'' RoleMember bo_sys = (Inl err, s') \<and> sentinel_status err = 500"
proof -
  have "(7, ''e'') \<in> user_place ` set (users bo_sys)" using bo_sys_ok(2,4) by force
  from duplicate_user_is_server_error [OF this sample_passwords(1), of "''n''" RoleMember sample_svc] show ?thesis
    by (auto simp: sample_svc_def sample_libs_def)
qed

lemma sample_created_user:
  "\<exists>u s'. bo_svc_CreateUser sample_svc 7 ''b'' ''n'' [] RoleMember bo_sys = (Inr u, s')"
proof -
  obtain q s1 where g: "generateTemporaryPassword bo_sys = (q, s1)" by fastforce
  have "length q \<le> 72"
    using temporary_password_length [of bo_sys] g by simp
  then obtain s2 where hp: "hash_password sample_svc q s1 = (Inr (''h'' @ q), s2)"
    by (simp add: hash_password_def rand_read_def sample_svc_def sample_libs_def)
  have "draws bo_sys s2"
    using draws_trans [OF draws_temporary [of bo_sys, unfolded g snd_conv] draws_hash [of s1 sample_svc q, unfolded hp snd_conv]] .
  note d = draws_fields [OF this]
  obtain r s3 where i: "user_insert 7 ''b'' ''n'' (''h'' @ q) RoleMember s2 = (r, s3)" by fastforce
  have f: "visible s2 7" "users s2 = [sample_user]" "tenants s2 = [tenant_of 7 ''acme'']" "next_uuid s2 \<noteq> 5"
    using d bo_sys_ok(3) \<open>draws bo_sys s2\<close> by (auto simp: bo_sys_def draws_def next_uuid_def tenant_sample_sys_def)
  have "r = Inr (new_user 7 ''b'' ''n'' RoleMember s2)"
    and s3: "s3 = (draw s2)\<lparr>users := users s2 @ [\<lparr>ur_user = new_user 7 ''b'' ''n'' RoleMember s2, ur_password_hash = ''h'' @ q\<rparr>]\<rparr>"
    using i f by (auto simp: user_insert_def Let_def first_error_None rls_check_None [THEN iffD2] check_None check_def
        new_user_def user_place_def sample_user_def tenant_of_def)
  then have c: "user_repo_Create 7 ''b'' ''n'' (''h'' @ q) RoleMember s2 = (Inr (new_user 7 ''b'' ''n'' RoleMember s2), s3)"
    using i by (simp add: user_repo_Create_def)
  let ?u = "new_user 7 ''b'' ''n'' RoleMember s2"
  have v: "visible s3 7" using f(1) unfolding s3 by (simp add: visible_def)
  have id: "us_ID ?u \<noteq> 0" "tenant_of_user \<lparr>ur_user = ?u, ur_password_hash = h\<rparr> = 7" for h
    using \<open>draws bo_sys s2\<close> by (auto simp: new_user_def tenant_of_user_def bo_sys_def draws_def next_uuid_def tenant_sample_sys_def)
  have "\<lparr>ur_user = ?u, ur_password_hash = ''h'' @ q\<rparr> \<in> set (users s3)" unfolding s3 by simp
  from exec_user_hit [OF this, of "us_ID ?u"] have "\<exists>s4. user_repo_UpdateMustChangePassword (us_ID ?u) True s3 = (None, s4)"
    unfolding user_repo_UpdateMustChangePassword_def using id v by simp
  then show ?thesis
    using g hp c by (auto simp: bo_svc_CreateUser_def RoleAdmin_def RoleMember_def)
qed

theorem temporary_user_locked_out_witness:
  "\<exists>s' err. bo_svc_Login sample_svc 7 ''b'' ''x'' s' = Inl err \<and> sentinel_status err \<in> {400, 500}"
proof -
  obtain u s' where c: "bo_svc_CreateUser sample_svc 7 ''b'' ''n'' [] RoleMember bo_sys = (Inr u, s')"
    using sample_created_user by blast
  from temporary_user_locked_out [OF c bo_sys_ok(1), of "''x''"] show ?thesis by (auto split: if_splits)
qed

theorem signup_without_user_witness:
  "\<exists>resp s'. tenant_handler_Signup sample_idkey ''development'' (Some (wrapped_CreateUser sample_svc)) \<lparr>sc_AllowSignup = True, sc_SignupRequiresPassword = True\<rparr>
     background (Inr (acme\<lparr>si_Password := ''abcdefgh''\<rparr>)) tenant_sample_sys = (resp, s') \<and> response_status resp = 201"
proof -
  let ?in = "acme\<lparr>si_Password := ''abcdefgh''\<rparr>"
  have h: "validate_signup ?in = None" "tenants_ok tenant_sample_sys"
    "uuids tenant_sample_sys (drawn tenant_sample_sys + 1) \<notin> tn_ID ` set (tenants tenant_sample_sys)"
    "uuids tenant_sample_sys (drawn tenant_sample_sys + 2) \<notin> (ak_ID \<circ> kr_key) ` set (api_keys tenant_sample_sys)"
    "signup_slug ?in = ''acme-corp''"
    "''acme-corp'' \<notin> tn_Slug ` set (tenants tenant_sample_sys)"
    "Some (si_Email ?in) \<notin> tn_Email ` set (tenants tenant_sample_sys)" "si_Name ?in \<noteq> []" "si_Email ?in \<noteq> []"
    by code_simp+
  obtain t k s1 where "tenant_svc_Signup sample_idkey ''development'' ?in tenant_sample_sys = (Inr (t, k), s1)"
    using signup_outcome [OF h(1-4), of sample_idkey "''development''"] h(5-7)
    by (auto split: prod.splits sum.splits)
  note signup = this
  let ?cfg = "\<lparr>sc_AllowSignup = True, sc_SignupRequiresPassword = True\<rparr>"
  have "8 \<le> length (si_Password ?in)" "validatePassword (si_Password ?in) \<noteq> None" "sc_AllowSignup ?cfg"
    using sample_passwords(3) by simp_all
  from signup_without_user [OF signup this(3) h(8,9) this(1,2), of sample_svc background] show ?thesis by blast
qed

end
