(* ===== verification/Rate_Limit.thy ===== *)
theory Rate_Limit
  imports Backoffice_Service Go_Float
begin

text \<open>
  \<open>internal/middleware/rate_limit.go\<close> (token buckets per tenant) with the middlewares
  \<open>request_id.go\<close> and \<open>recovery.go\<close>, and the chains that \<open>newRouter\<close> of \<open>router.go\<close> builds from them and
  the authentication. Tokens are float64 numbers, every operation rounded (the code is compiled without
  fused multiply-add, as on amd64). Each method locks, so a method, or the part of \<open>Allow\<close> under one
  lock, is an atomic step; the two parts of \<open>Allow\<close> are separate definitions.
\<close>

section \<open>Token buckets (\<open>rate_limit.go\<close>)\<close>

record token_bucket =
  tb_maxTokens :: int64
  tb_refillRate :: rat
  tb_tokens :: rat
  tb_lastRefill :: gtime

definition NewTokenBucket :: "int64 \<Rightarrow> gtime \<Rightarrow> token_bucket" where
  "NewTokenBucket requestsPerMinute now =
     \<lparr>tb_maxTokens = requestsPerMinute,
      tb_refillRate = f64 (f64 (of_int (sint requestsPerMinute)) / (60 * 1000)),
      tb_tokens = f64 (of_int (sint requestsPerMinute)), tb_lastRefill = now\<rparr>"

definition float_min :: "rat \<Rightarrow> rat \<Rightarrow> rat" where
  "float_min a b = (if a < b then a else b)"

text \<open>\<open>Duration.Milliseconds\<close> of a time difference, which does not get near the bounds of a duration.\<close>

definition elapsed_ms :: "gtime \<Rightarrow> gtime \<Rightarrow> int" where
  "elapsed_ms earlier now = (if earlier \<le> now then (now - earlier) div 1000000 else - ((earlier - now) div 1000000))"

definition refill :: "gtime \<Rightarrow> token_bucket \<Rightarrow> token_bucket" where
  "refill now tb =
     (let elapsed = elapsed_ms (tb_lastRefill tb) now;
          tokensToAdd = f64 (tb_refillRate tb * f64 (of_int elapsed))
      in tb\<lparr>tb_lastRefill := now,
            tb_tokens := float_min (f64 (of_int (sint (tb_maxTokens tb)))) (f64 (tb_tokens tb + tokensToAdd))\<rparr>)"

definition Take :: "gtime \<Rightarrow> token_bucket \<Rightarrow> bool \<times> token_bucket" where
  "Take now tb =
     (let tb1 = refill now tb
      in if 1 \<le> tb_tokens tb1 then (True, tb1\<lparr>tb_tokens := f64 (tb_tokens tb1 - 1)\<rparr>) else (False, tb1))"

text \<open>The conversion of a float to an integer truncates.\<close>

definition bucket_GetRemaining :: "token_bucket \<Rightarrow> int64" where
  "bucket_GetRemaining tb =
     of_int (if 0 \<le> tb_tokens tb then \<lfloor>tb_tokens tb\<rfloor> else - \<lfloor>- tb_tokens tb\<rfloor>)"

section \<open>The limiter\<close>

record rate_limiter =
  rl_defaultLimit :: int64
  rl_buckets :: "uuid \<rightharpoonup> token_bucket"

definition NewRateLimiter :: "int64 \<Rightarrow> rate_limiter" where
  "NewRateLimiter defaultLimit = \<lparr>rl_defaultLimit = defaultLimit, rl_buckets = Map.empty\<rparr>"

text \<open>The part of \<open>Allow\<close> under the lock of the limiter, and the call of \<open>Take\<close> on the bucket found.\<close>

definition find_bucket :: "uuid \<Rightarrow> gtime \<Rightarrow> rate_limiter \<Rightarrow> rate_limiter" where
  "find_bucket tenantID now rl =
     (case rl_buckets rl tenantID of
        None \<Rightarrow> rl\<lparr>rl_buckets := (rl_buckets rl)(tenantID \<mapsto> NewTokenBucket (rl_defaultLimit rl) now)\<rparr>
      | Some bucket \<Rightarrow> rl)"

definition take_from :: "uuid \<Rightarrow> gtime \<Rightarrow> rate_limiter \<Rightarrow> bool \<times> rate_limiter" where
  "take_from tenantID now rl =
     (case rl_buckets rl tenantID of
        None \<Rightarrow> (False, rl)
      | Some bucket \<Rightarrow>
          (let (ok, bucket1) = Take now bucket in (ok, rl\<lparr>rl_buckets := (rl_buckets rl)(tenantID \<mapsto> bucket1)\<rparr>)))"

definition Allow :: "uuid \<Rightarrow> gtime \<Rightarrow> rate_limiter \<Rightarrow> bool \<times> rate_limiter" where
  "Allow tenantID now rl = take_from tenantID now (find_bucket tenantID now rl)"

definition limiter_GetRemaining :: "rate_limiter \<Rightarrow> uuid \<Rightarrow> int64" where
  "limiter_GetRemaining rl tenantID =
     (case rl_buckets rl tenantID of None \<Rightarrow> rl_defaultLimit rl | Some bucket \<Rightarrow> bucket_GetRemaining bucket)"

section \<open>Middlewares\<close>

text \<open>A handler maps a context and a state to a response and a state. The limiter lives beside the
  state; the middleware also returns the headers it sets.\<close>

type_synonym headers = "(string \<times> string) list"

definition rate_headers :: "int64 \<Rightarrow> headers" where
  "rate_headers remaining =
     [(''X-RateLimit-Limit'', ''100''), (''X-RateLimit-Remaining'', int_to_string (sint remaining)), (''X-RateLimit-Reset'', ''60'')]"

definition RateLimitMiddleware ::
  "(go_context \<Rightarrow> sys \<Rightarrow> 'a response \<times> sys) \<Rightarrow> go_context \<Rightarrow> sys \<Rightarrow> rate_limiter \<Rightarrow> ('a response \<times> sys) \<times> headers \<times> rate_limiter"
  where
  "RateLimitMiddleware next ctx s limiter =
     (let tenantID = TenantIDFromContext ctx
      in if tenantID = uuid_nil then (next ctx s, [], limiter)
         else let (ok, limiter1) = Allow tenantID (clock s) limiter
         in if \<not> ok
            then ((writeErrorResponse 429 ''rate_limit_exceeded'' ''too many requests'', s), rate_headers 0, limiter1)
            else (next ctx s, rate_headers (limiter_GetRemaining limiter1 tenantID), limiter1))"

definition RequestID :: "(uuid \<Rightarrow> string) \<Rightarrow> (go_context \<Rightarrow> sys \<Rightarrow> 'r) \<Rightarrow> go_context \<Rightarrow> sys \<Rightarrow> 'r" where
  "RequestID uuid_string next ctx s = next (WithRequestID ctx (''req_'' @ uuid_string (next_uuid s))) (draw s)"

text \<open>A panic of the handler is answered by \<open>Recovery\<close>.\<close>

definition recovered :: "'a response \<Rightarrow> 'a response" where
  "recovered r = (case r of Panicked \<Rightarrow> writeErrorResponse 500 ''internal_error'' ''internal server error'' | _ \<Rightarrow> r)"

definition Recovery ::
  "(go_context \<Rightarrow> sys \<Rightarrow> ('a response \<times> sys) \<times> 'x) \<Rightarrow> go_context \<Rightarrow> sys \<Rightarrow> ('a response \<times> sys) \<times> 'x" where
  "Recovery next ctx s = (let ((resp, s1), x) = next ctx s in ((recovered resp, s1), x))"

section \<open>Chains of the router (\<open>router.go\<close>)\<close>

text \<open>A request below \<open>/v1\<close>: the global middlewares, the limiter, then the group of routes: public, with an
  API key, or with a token of the backoffice.\<close>

definition v1_route ::
  "(uuid \<Rightarrow> string) \<Rightarrow> (go_context \<Rightarrow> sys \<Rightarrow> 'a response \<times> sys) \<Rightarrow> sys \<Rightarrow> rate_limiter
     \<Rightarrow> ('a response \<times> sys) \<times> headers \<times> rate_limiter" where
  "v1_route uuid_string routes s limiter =
     RequestID uuid_string (Recovery (\<lambda>ctx s. RateLimitMiddleware routes ctx s limiter)) background s"

definition api_key_group ::
  "idkey \<Rightarrow> string \<Rightarrow> (go_context \<Rightarrow> sys \<Rightarrow> 'a response \<times> sys) \<Rightarrow> go_context \<Rightarrow> sys \<Rightarrow> 'a response \<times> sys" where
  "api_key_group idkey authHeader handler ctx s = AuthMiddleware idkey handler ctx authHeader s"

definition backoffice_group ::
  "bo_libs \<Rightarrow> string \<Rightarrow> string \<Rightarrow> (bo_context \<Rightarrow> sys \<Rightarrow> 'a response \<times> sys) \<Rightarrow> go_context \<Rightarrow> sys \<Rightarrow> 'a response \<times> sys" where
  "backoffice_group libs jwtSecret authHeader handler ctx s =
     BackofficeAuth libs jwtSecret handler (bo_background\<lparr>bx_context := ctx\<rparr>) authHeader s"

section \<open>Runs\<close>

text \<open>The attempts on one bucket at the given times, and an interleaving of the atomic steps of calls of
  \<open>Allow\<close> on the limiter, with the outcomes.\<close>

fun takes :: "(gtime \<Rightarrow> 'b \<Rightarrow> bool \<times> 'b) \<Rightarrow> gtime list \<Rightarrow> 'b \<Rightarrow> bool list \<times> 'b" where
  "takes attempt [] b = ([], b)"
| "takes attempt (now # ts) b = (let (ok, b1) = attempt now b; (oks, b2) = takes attempt ts b1 in (ok # oks, b2))"

datatype limiter_step = Find_Bucket uuid gtime | Take_Token uuid gtime

fun step_time :: "limiter_step \<Rightarrow> gtime" where
  "step_time (Find_Bucket t now) = now"
| "step_time (Take_Token t now) = now"

fun limiter_run :: "limiter_step list \<Rightarrow> rate_limiter \<Rightarrow> (uuid \<times> bool) list \<times> rate_limiter" where
  "limiter_run [] rl = ([], rl)"
| "limiter_run (Find_Bucket t now # es) rl = limiter_run es (find_bucket t now rl)"
| "limiter_run (Take_Token t now # es) rl =
     (let (ok, rl1) = take_from t now rl; (oks, rl2) = limiter_run es rl1 in ((t, ok) # oks, rl2))"

end
