(* ===== verification/Rate_Limit_Rules.thy ===== *)
theory Rate_Limit_Rules
  imports Rate_Limit
begin

text \<open>
  What the rate limiter guarantees: a bound on the requests admitted in a minute for any interleaving of
  its steps, from a budget that every attempt respects up to the rounding of float64; that tenants do not
  influence each other; that quick attempts are never refilled; and that, as the router mounts it, the
  limiter never acts.
\<close>

declare of_int_sint [simp del]

section \<open>A budget for attempts\<close>

text \<open>What bounds the successes of a sequence of attempts: each success is paid from a level that grows with
  time at a rate, never exceeds a cap after an attempt, and is kept with some slack per attempt.\<close>

locale budget =
  fixes attempt :: "gtime \<Rightarrow> 'b \<Rightarrow> bool \<times> 'b"
    and wf :: "'b \<Rightarrow> bool" and level :: "'b \<Rightarrow> rat" and since :: "'b \<Rightarrow> gtime"
    and cap rate slack :: rat
  assumes level_nonneg: "wf b \<Longrightarrow> 0 \<le> level b"
    and keeps_wf: "wf b \<Longrightarrow> since b \<le> now \<Longrightarrow> wf (snd (attempt now b))"
    and since_attempt: "since (snd (attempt now b)) = now"
    and paid: "wf b \<Longrightarrow> since b \<le> now \<Longrightarrow>
      level (snd (attempt now b)) + of_bool (fst (attempt now b)) \<le> level b + rate * of_int (now - since b) + slack"
    and capped: "wf b \<Longrightarrow> since b \<le> now \<Longrightarrow>
      level (snd (attempt now b)) + of_bool (fst (attempt now b)) \<le> cap + slack"
begin

lemma takes_wf: "wf b \<Longrightarrow> sorted (since b # ts) \<Longrightarrow> wf (snd (takes attempt ts b))"
proof (induction ts arbitrary: b)
  case (Cons now ts)
  then show ?case using keeps_wf [of b now] since_attempt [of now b] by (simp add: case_prod_beta)
qed simp

lemma takes_Cons:
  "snd (takes attempt (now # ts) b) = snd (takes attempt ts (snd (attempt now b)))"
  "of_nat (count_list (fst (takes attempt (now # ts) b)) True)
     = of_bool (fst (attempt now b)) + (of_nat (count_list (fst (takes attempt ts (snd (attempt now b)))) True) :: rat)"
  by (simp_all add: case_prod_beta)

lemma spent:
  "wf b \<Longrightarrow> sorted (since b # ts) \<Longrightarrow>
     of_nat (count_list (fst (takes attempt ts b)) True) + level (snd (takes attempt ts b))
       \<le> level b + rate * of_int (last (since b # ts) - since b) + of_nat (length ts) * slack"
proof (induction ts arbitrary: b)
  case (Cons now ts)
  let ?b = "snd (attempt now b)"
  have b: "wf ?b" "since ?b = now" using Cons.prems by (simp_all add: keeps_wf since_attempt)
  have "of_nat (count_list (fst (takes attempt ts ?b)) True) + level (snd (takes attempt ts ?b))
      \<le> level ?b + rate * of_int (last (now # ts) - now) + of_nat (length ts) * slack"
    using Cons.IH [OF b(1)] Cons.prems(2) by (simp add: b(2))
  moreover have "level ?b + of_bool (fst (attempt now b)) \<le> level b + rate * of_int (now - since b) + slack"
    using paid Cons.prems by simp
  moreover have "rate * of_int (last (now # ts) - since b) = rate * of_int (last (now # ts) - now) + rate * of_int (now - since b)"
    by (simp add: algebra_simps)
  moreover have "of_nat (length (now # ts)) * slack = of_nat (length ts) * slack + slack" by (simp add: algebra_simps)
  moreover have l: "last (since b # now # ts) = last (now # ts)" by simp
  ultimately show ?case unfolding takes_Cons l by linarith
qed simp

text \<open>In a window, whatever happened before.\<close>

lemma window:
  assumes "wf b" "sorted (since b # ts)" "ts \<noteq> []"
  shows "of_nat (count_list (fst (takes attempt ts b)) True)
    \<le> cap + rate * of_int (last ts - hd ts) + of_nat (length ts) * slack"
proof -
  obtain now us where ts: "ts = now # us" using assms(3) by (cases ts) auto
  let ?b = "snd (attempt now b)"
  have b: "wf ?b" "since ?b = now" using assms by (simp_all add: ts keeps_wf since_attempt)
  have "of_nat (count_list (fst (takes attempt us ?b)) True) + level (snd (takes attempt us ?b))
      \<le> level ?b + rate * of_int (last (now # us) - now) + of_nat (length us) * slack"
    using spent [OF b(1), of us] assms(2) by (simp add: ts b(2))
  moreover have "0 \<le> level (snd (takes attempt us ?b))"
    using takes_wf [OF b(1), of us] assms(2) by (intro level_nonneg) (simp add: ts b(2))
  moreover have "level ?b + of_bool (fst (attempt now b)) \<le> cap + slack" using capped assms by (simp add: ts)
  moreover have "of_nat (length ts) * slack = of_nat (length us) * slack + slack" by (simp add: ts algebra_simps)
  ultimately show ?thesis unfolding ts takes_Cons list.sel by linarith
qed

end

section \<open>The bucket keeps the budget\<close>

definition bucket_ok :: "int64 \<Rightarrow> token_bucket \<Rightarrow> bool" where
  "bucket_ok n b \<longleftrightarrow> tb_maxTokens b = n \<and> tb_refillRate b = f64 (f64 (of_int (sint n)) / (60 * 1000))
     \<and> 0 \<le> tb_tokens b \<and> tb_tokens b \<le> of_int (sint n)"

text \<open>Limits for which the rounding errors are bounded by \<open>2^-28\<close> per attempt.\<close>

definition usual_limit :: "int64 \<Rightarrow> bool" where
  "usual_limit n \<longleftrightarrow> 1 \<le> sint n \<and> sint n \<le> 2 ^ 20"

definition limit_rate :: "int64 \<Rightarrow> rat" where
  "limit_rate n = of_int (sint n) / 60000000000"

lemma NewTokenBucket_ok:
  assumes "usual_limit n"
  shows "bucket_ok n (NewTokenBucket n now)" "tb_lastRefill (NewTokenBucket n now) = now"
proof -
  have n: "0 \<le> sint n" "\<bar>sint n\<bar> < 2 ^ 53" using assms by (simp_all add: usual_limit_def)
  have "(0 :: rat) \<le> of_int (sint n)" unfolding of_int_0_le_iff by (rule n(1))
  then show "bucket_ok n (NewTokenBucket n now)"
    unfolding bucket_ok_def NewTokenBucket_def token_bucket.simps f64_int [OF n(2)] by blast
qed (simp add: NewTokenBucket_def)

lemma elapsed_ms_bounds:
  "earlier \<le> now \<Longrightarrow> 0 \<le> elapsed_ms earlier now \<and> elapsed_ms earlier now * 1000000 \<le> now - earlier"
  unfolding elapsed_ms_def
  by (simp add: pos_imp_zdiv_nonneg_iff)

text \<open>The sum of the roundings in a refill after less than a minute.\<close>

lemma rounding_sum:
  fixes X R A F T N :: rat
  assumes "R \<le> X + X / 9007199254740992" "A \<le> R + R / 9007199254740992" "F \<le> (T + A) + (T + A) / 9007199254740992"
    and "0 \<le> X" "X \<le> N" "T \<le> N" "N \<le> 1048576"
  shows "F \<le> T + X + 1 / 1073741824"
proof -
  have "X / 9007199254740992 \<le> 1 / 8589934592" using assms(5,7) by linarith
  then have r: "R \<le> X + 1 / 8589934592" using assms(1) by linarith
  have "R / 9007199254740992 \<le> 1 / 4294967296" using r assms(5,7) by linarith
  from order.trans [OF assms(2) add_mono [OF r this]]
  have a: "A \<le> X + 1 / 8589934592 + 1 / 4294967296" .
  have "T + A \<le> 4194304" using a assms(5-7) by linarith
  then have "(T + A) / 9007199254740992 \<le> 1 / 2147483648" by simp
  moreover have "T + A \<le> T + (X + 1 / 8589934592 + 1 / 4294967296)" using a by (rule add_left_mono)
  ultimately have "F \<le> T + (X + 1 / 8589934592 + 1 / 4294967296) + 1 / 2147483648"
    using order.trans [OF assms(3) add_mono] by blast
  then show ?thesis by simp
qed

lemma refill_rounding:
  assumes "0 \<le> N" "N \<le> 2 ^ 20" "0 \<le> T" "T \<le> N" "0 \<le> e" "e < 60000"
  shows "f64 (T + f64 (f64 (N / 60000) * of_int e)) \<le> T + N / 60000 * of_int e + 1 / 2 ^ 30"
proof -
  let ?Q = "N / 60000 :: rat" and ?X = "N / 60000 * of_int e :: rat"
  have X: "0 \<le> ?X" "?X \<le> N" using assms by (auto simp: field_simps intro: mult_left_mono order.trans)
  have "f64 ?Q * of_int e \<le> (?Q + ?Q / 2 ^ 53) * of_int e"
    using assms f64_le [of ?Q] by (intro mult_right_mono) simp_all
  then have "f64 ?Q * of_int e \<le> ?X + ?X / 2 ^ 53" by (simp add: distrib_right)
  moreover have "0 \<le> f64 ?Q * of_int e" using assms f64_nonneg [of ?Q] by simp
  moreover have "f64 (f64 ?Q * of_int e) \<le> f64 ?Q * of_int e + f64 ?Q * of_int e / 2 ^ 53"
    using calculation(2) by (rule f64_le)
  moreover have "0 \<le> T + f64 (f64 ?Q * of_int e)" using assms(3) f64_nonneg [OF calculation(2)] by simp
  note f64_le [OF this]
  ultimately show ?thesis using X assms(2,4) by (simp add: rounding_sum del: divide_const_simps)
qed

lemma refill_paid:
  assumes "usual_limit n" "bucket_ok n b" "tb_lastRefill b \<le> now"
  defines "b1 \<equiv> refill now b"
  shows "0 \<le> tb_tokens b1" "tb_tokens b1 \<le> of_int (sint n)"
    "tb_tokens b1 \<le> tb_tokens b + limit_rate n * of_int (now - tb_lastRefill b) + 1 / 2 ^ 30"
    "tb_maxTokens b1 = n" "tb_refillRate b1 = f64 (f64 (of_int (sint n)) / (60 * 1000))" "tb_lastRefill b1 = now"
proof -
  let ?N = "of_int (sint n) :: rat" and ?T = "tb_tokens b"
  define e where "e = elapsed_ms (tb_lastRefill b) now"
  have n: "0 \<le> sint n" "sint n \<le> 2 ^ 20" "\<bar>sint n\<bar> < 2 ^ 53" using assms(1) by (simp_all add: usual_limit_def)
  have N: "0 \<le> ?N" "?N \<le> 2 ^ 20" using n(1,2) by (simp_all add: of_int_le_iff [of _ "2 ^ 20", simplified])
  have b: "tb_maxTokens b = n" "tb_refillRate b = f64 (?N / 60000)" "0 \<le> ?T" "?T \<le> ?N"
    using assms(2) by (simp_all add: bucket_ok_def f64_int [OF n(3)])
  have e: "0 \<le> e" "e * 1000000 \<le> now - tb_lastRefill b"
    using elapsed_ms_bounds [OF assms(3)] by (simp_all add: e_def)
  let ?A = "f64 (f64 (?N / 60000) * f64 (of_int e))"
  have t: "tb_tokens b1 = float_min ?N (f64 (?T + ?A))"
    by (simp add: b1_def refill_def Let_def b(1,2) f64_int [OF n(3)] e_def)
  have A: "0 \<le> ?A" using N e(1) by (intro f64_nonneg mult_nonneg_nonneg) simp_all
  show "0 \<le> tb_tokens b1" using N(1) f64_nonneg [of "?T + ?A"] A b(3) by (simp add: t float_min_def)
  show "tb_tokens b1 \<le> ?N" by (simp add: t float_min_def)
  have "of_int (e * 1000000) \<le> (of_int (now - tb_lastRefill b) :: rat)" using e(2) by (simp only: of_int_le_iff)
  then have "?N / 60000000000 * (of_int e * 1000000) \<le> ?N / 60000000000 * of_int (now - tb_lastRefill b)"
    using N(1) by (intro mult_left_mono) simp_all
  then have g: "?N / 60000 * of_int e \<le> limit_rate n * of_int (now - tb_lastRefill b)" by (simp add: limit_rate_def)
  show "tb_tokens b1 \<le> ?T + limit_rate n * of_int (now - tb_lastRefill b) + 1 / 2 ^ 30"
  proof (cases "e < 60000")
    case True
    then have "f64 (of_int e) = of_int e" using e(1) by (intro f64_int) simp
    moreover have "tb_tokens b1 \<le> f64 (?T + ?A)" by (simp add: t float_min_def)
    ultimately show ?thesis using refill_rounding [OF N b(3,4) e(1) True] g by simp
  next
    case False
    then have "(60000 :: rat) \<le> of_int e" by simp
    then have "?N / 60000 * 60000 \<le> ?N / 60000 * of_int e" using N(1) by (intro mult_left_mono) simp_all
    then have "?N \<le> ?N / 60000 * of_int e" by simp
    moreover have "(0 :: rat) \<le> 1 / 2 ^ 30" by simp
    ultimately show ?thesis using g b(3) \<open>tb_tokens b1 \<le> ?N\<close> by linarith
  qed
qed (simp_all add: b1_def refill_def Let_def assms(2) [unfolded bucket_ok_def])

lemma Take_keeps:
  assumes "usual_limit n" "bucket_ok n b" "tb_lastRefill b \<le> now"
  defines "y \<equiv> tb_tokens (refill now b)"
  shows "bucket_ok n (snd (Take now b))" "tb_tokens (snd (Take now b)) + of_bool (fst (Take now b)) \<le> y + 1 / 2 ^ 33"
proof -
  note r = refill_paid [OF assms(1-3)]
  have "(of_int (sint n) :: rat) \<le> of_int (2 ^ 20)" using assms(1) by (simp only: of_int_le_iff usual_limit_def)
  then have N: "y \<le> 2 ^ 20" using r(2) by (simp add: y_def)
  have "0 \<le> f64 (y - 1)" "f64 (y - 1) \<le> (y - 1) + 1 / 2 ^ 33" "f64 (y - 1) \<le> y" if "1 \<le> y"
  proof -
    show "0 \<le> f64 (y - 1)" using that by (intro f64_nonneg) simp
    have "(y - 1) / 2 ^ 53 \<le> 1 / 2 ^ 33" using N by simp
    then show *: "f64 (y - 1) \<le> (y - 1) + 1 / 2 ^ 33" using f64_le [of "y - 1"] that by linarith
    have "(1 :: rat) / 2 ^ 33 \<le> 1" by simp
    with * show "f64 (y - 1) \<le> y" by linarith
  qed
  note f = this
  have T: "Take now b = (if 1 \<le> y then (True, (refill now b)\<lparr>tb_tokens := f64 (y - 1)\<rparr>) else (False, refill now b))"
    by (simp add: Take_def Let_def y_def)
  show "bucket_ok n (snd (Take now b))"
    using r(1,2,4,5) f by (auto simp: T bucket_ok_def y_def)
  show "tb_tokens (snd (Take now b)) + of_bool (fst (Take now b)) \<le> y + 1 / 2 ^ 33"
  proof (cases "1 \<le> y")
    case True
    then have "f64 (y - 1) + 1 \<le> y + 1 / 2 ^ 33" using f(2) by linarith
    then show ?thesis using True by (simp add: T)
  qed (simp add: T y_def)
qed

lemma Take_since: "tb_lastRefill (snd (Take now b)) = now"
  by (simp add: Take_def refill_def Let_def)

lemma slack_sum: "(1 :: rat) / 2 ^ 30 + 1 / 2 ^ 33 \<le> 1 / 2 ^ 28" "(1 :: rat) / 2 ^ 33 \<le> 1 / 2 ^ 28"
  by simp_all

interpretation bucket: budget Take "\<lambda>b. usual_limit n \<and> bucket_ok n b" tb_tokens tb_lastRefill
    "of_int (sint n)" "limit_rate n" "1 / 2 ^ 28" for n
proof
  fix b now
  assume wf: "usual_limit n \<and> bucket_ok n b" and le: "tb_lastRefill b \<le> now"
  then have a: "usual_limit n" "bucket_ok n b" by simp_all
  note r = refill_paid [OF a le] and t = Take_keeps [OF a le]
  show "usual_limit n \<and> bucket_ok n (snd (Take now b))" using a t(1) by simp
  show "tb_tokens (snd (Take now b)) + of_bool (fst (Take now b))
      \<le> tb_tokens b + limit_rate n * of_int (now - tb_lastRefill b) + 1 / 2 ^ 28"
    using order.trans [OF t(2) add_right_mono [OF r(3)]] slack_sum(1) by linarith
  show "tb_tokens (snd (Take now b)) + of_bool (fst (Take now b)) \<le> of_int (sint n) + 1 / 2 ^ 28"
    using order.trans [OF t(2) add_right_mono [OF r(2)]] slack_sum(2) by linarith
qed (simp_all add: bucket_ok_def Take_since)

section \<open>Runs of the limiter\<close>

text \<open>The times at which a tenant's bucket is asked, and its outcomes.\<close>

definition asked :: "uuid \<Rightarrow> limiter_step list \<Rightarrow> gtime list" where
  "asked t es = concat (map (\<lambda>e. case e of Take_Token u now \<Rightarrow> if u = t then [now] else [] | Find_Bucket u now \<Rightarrow> []) es)"

definition outcomes :: "uuid \<Rightarrow> (uuid \<times> bool) list \<Rightarrow> bool list" where
  "outcomes t os = map snd (filter (\<lambda>p. fst p = t) os)"

lemma asked_simps [simp]:
  "asked t [] = []" "asked t (Find_Bucket u now # es) = asked t es"
  "asked t (Take_Token u now # es) = (if u = t then now # asked t es else asked t es)"
  by (simp_all add: asked_def)

lemma outcomes_simps [simp]:
  "outcomes t [] = []" "outcomes t ((u, ok) # os) = (if u = t then ok # outcomes t os else outcomes t os)"
  by (simp_all add: outcomes_def)

lemma set_asked: "set (asked t es) \<subseteq> step_time ` set es"
  by (induction es rule: rev_induct) (auto simp: asked_def split: limiter_step.splits)

lemma sorted_asked: "sorted (map step_time es) \<Longrightarrow> sorted (asked t es)"
proof (induction es)
  case (Cons e es)
  then show ?case using set_asked [of t es] by (cases e) auto
qed simp

text \<open>A bucket is found by its tenant and changed by its tenant's attempts only.\<close>

lemma find_bucket_other: "u \<noteq> t \<Longrightarrow> rl_buckets (find_bucket u now rl) t = rl_buckets rl t"
  by (simp add: find_bucket_def split: option.split)

lemma find_bucket_same: "rl_buckets rl t = Some b \<Longrightarrow> find_bucket t now rl = rl"
  by (simp add: find_bucket_def)

lemma take_from_other: "u \<noteq> t \<Longrightarrow> rl_buckets (snd (take_from u now rl)) t = rl_buckets rl t"
  by (simp add: take_from_def Let_def case_prod_beta split: option.split)

lemma run_bucket:
  "rl_buckets rl t = Some b \<Longrightarrow>
     outcomes t (fst (limiter_run es rl)) = fst (takes Take (asked t es) b)
   \<and> rl_buckets (snd (limiter_run es rl)) t = Some (snd (takes Take (asked t es) b))"
proof (induction es arbitrary: rl b)
  case (Cons e es)
  show ?case
  proof (cases e)
    case (Find_Bucket u now)
    then show ?thesis using Cons find_bucket_other [of u t now rl] find_bucket_same [of rl t b now]
      by (cases "u = t") simp_all
  next
    case (Take_Token u now)
    show ?thesis
    proof (cases "u = t")
      case True
      then show ?thesis
        using Cons.prems Cons.IH [of "rl\<lparr>rl_buckets := (rl_buckets rl)(t \<mapsto> snd (Take now b))\<rparr>" "snd (Take now b)"]
        by (simp add: Take_Token take_from_def Let_def case_prod_beta)
    next
      case False
      then show ?thesis
        using Cons.IH [of "snd (take_from u now rl)" b] Cons.prems by (simp add: Take_Token case_prod_beta take_from_other)
    qed
  qed
qed simp

definition limiter_ok :: "int64 \<Rightarrow> gtime \<Rightarrow> rate_limiter \<Rightarrow> bool" where
  "limiter_ok n now rl \<longleftrightarrow> rl_defaultLimit rl = n
     \<and> (\<forall>t b. rl_buckets rl t = Some b \<longrightarrow> bucket_ok n b \<and> tb_lastRefill b \<le> now)"

lemma limiter_ok_mono: "limiter_ok n now rl \<Longrightarrow> now \<le> later \<Longrightarrow> limiter_ok n later rl"
  by (fastforce simp: limiter_ok_def)

lemma find_bucket_ok:
  "usual_limit n \<Longrightarrow> limiter_ok n now rl \<Longrightarrow> limiter_ok n now (find_bucket t now rl)"
  using NewTokenBucket_ok [of n now] by (auto simp: limiter_ok_def find_bucket_def split: option.split)

lemma take_from_ok:
  assumes "usual_limit n" "limiter_ok n now rl"
  shows "limiter_ok n now (snd (take_from t now rl))"
proof (cases "rl_buckets rl t")
  case (Some b)
  then have "bucket_ok n b" "tb_lastRefill b \<le> now" using assms(2) by (auto simp: limiter_ok_def)
  from Take_keeps(1) [OF assms(1) this] show ?thesis
    using assms(2) Take_since [of now b] by (auto simp: limiter_ok_def take_from_def Let_def case_prod_beta Some)
qed (use assms in \<open>simp add: take_from_def\<close>)

lemma limiter_run_ok:
  "usual_limit n \<Longrightarrow> limiter_ok n now rl \<Longrightarrow> sorted (now # map step_time es) \<Longrightarrow>
     limiter_ok n (last (now # map step_time es)) (snd (limiter_run es rl))"
proof (induction es arbitrary: now rl)
  case (Cons e es)
  have ok: "limiter_ok n (step_time e) rl" using limiter_ok_mono [OF Cons.prems(2)] Cons.prems(3) by simp
  have s: "sorted (step_time e # map step_time es)" using Cons.prems(3) by simp
  show ?case
  proof (cases e)
    case (Find_Bucket t u)
    then show ?thesis using Cons.IH [OF Cons.prems(1) _ s, of "find_bucket t u rl"] find_bucket_ok [OF Cons.prems(1), of u rl t] ok by simp
  next
    case (Take_Token t u)
    then show ?thesis using Cons.IH [OF Cons.prems(1) _ s, of "snd (take_from t u rl)"] take_from_ok [OF Cons.prems(1), of u rl t] ok
      by (simp add: case_prod_beta)
  qed
qed simp

text \<open>The successes of one bucket in a minute.\<close>

lemma bucket_minute:
  assumes "usual_limit n" "bucket_ok n b" "sorted (tb_lastRefill b # ts)" "\<forall>now \<in> set ts. start \<le> now \<and> now \<le> start + 60000000000"
    and "length ts \<le> 2 ^ 27"
  shows "count_list (fst (takes Take ts b)) True \<le> 2 * nat (sint n)"
proof (cases "ts = []")
  case False
  have n: "0 \<le> sint n" using assms(1) by (simp add: usual_limit_def)
  have "last ts - hd ts \<le> 60000000000" using assms(4) False by (smt (verit) hd_in_set last_in_set)
  then have "of_int (last ts - hd ts) \<le> (60000000000 :: rat)" by (metis of_int_le_numeral_iff)
  moreover have "(0 :: rat) \<le> limit_rate n" using n by (simp add: limit_rate_def)
  ultimately have "limit_rate n * of_int (last ts - hd ts) \<le> limit_rate n * 60000000000" by (intro mult_left_mono)
  then have "limit_rate n * of_int (last ts - hd ts) \<le> of_int (sint n)" by (simp add: limit_rate_def)
  moreover have "(of_nat (length ts) :: rat) \<le> of_nat (2 ^ 27)" using assms(5) by (simp only: of_nat_le_iff)
  then have "of_nat (length ts) * (1 / 2 ^ 28) \<le> (1/2 :: rat)" by simp
  moreover have "of_nat (count_list (fst (takes Take ts b)) True)
      \<le> of_int (sint n) + limit_rate n * of_int (last ts - hd ts) + of_nat (length ts) * (1 / 2 ^ 28)"
    using bucket.window [of n b ts] assms(1-3) False by simp
  ultimately have "(of_int (int (count_list (fst (takes Take ts b)) True)) :: rat) < of_int (2 * sint n + 1)" by simp
  then have "int (count_list (fst (takes Take ts b)) True) < 2 * sint n + 1" unfolding of_int_less_iff .
  then show ?thesis by linarith
qed simp

lemma sorted_bounds: "sorted (now # ts) \<Longrightarrow> now' \<le> now \<Longrightarrow> sorted (now' # ts)"
  by auto

text \<open>The tenant's bucket exists already, is made in the window, or is never asked.\<close>

lemma limiter_window:
  assumes "usual_limit n"
  shows "limiter_ok n now rl \<Longrightarrow> sorted (now # map step_time es) \<Longrightarrow> \<forall>e \<in> set es. start \<le> step_time e \<and> step_time e \<le> start + 60000000000 \<Longrightarrow>
     length (asked t es) \<le> 2 ^ 27 \<Longrightarrow> count_list (outcomes t (fst (limiter_run es rl))) True \<le> 2 * nat (sint n)"
proof (induction es arbitrary: now rl)
  case (Cons e es)
  note prems = Cons.prems
  show ?case
  proof (cases "rl_buckets rl t")
    case (Some b)
    have b: "bucket_ok n b" "tb_lastRefill b \<le> now" using prems(1) Some by (auto simp: limiter_ok_def)
    have a: "set (asked t (e # es)) \<subseteq> step_time ` set (e # es)" by (rule set_asked)
    have "sorted (asked t (e # es))" using prems(2) by (intro sorted_asked) simp
    moreover have "\<forall>x \<in> set (asked t (e # es)). tb_lastRefill b \<le> x" using a b(2) prems(2) by fastforce
    ultimately have "sorted (tb_lastRefill b # asked t (e # es))" by simp
    moreover have "\<forall>x \<in> set (asked t (e # es)). start \<le> x \<and> x \<le> start + 60000000000" using a prems(3) by blast
    ultimately show ?thesis
      using bucket_minute [OF assms b(1) _ _ prems(4)] run_bucket [OF Some, of "e # es"] by metis
  next
    case None
    have s: "sorted (step_time e # map step_time es)" "now \<le> step_time e" using prems(2) by simp_all
    note ok = limiter_ok_mono [OF prems(1) s(2)]
    show ?thesis
    proof (cases e)
      case (Find_Bucket u x)
      then have "limiter_ok n (step_time e) (find_bucket u x rl)" using find_bucket_ok [OF assms] ok by simp
      from Cons.IH [OF this s(1)] show ?thesis using prems(3,4) Find_Bucket by simp
    next
      case (Take_Token u x)
      have "limiter_ok n (step_time e) (snd (take_from u x rl))" using take_from_ok [OF assms] ok Take_Token by simp
      note IH = Cons.IH [OF this s(1)]
      have "fst (take_from u x rl) = False" if "u = t" using that None by (simp add: take_from_def)
      then show ?thesis using IH prems(3,4) Take_Token by (auto simp: case_prod_beta)
    qed
  qed
qed simp

section \<open>Properties\<close>

text \<open>C36. Within any minute, at most twice the limit of a tenant's requests are admitted, whatever the requests
  before and those of other tenants in between, however the steps of concurrent requests interleave, and with
  all roundings: for limits up to \<open>2^20\<close> and up to \<open>2^27\<close> attempts of the tenant in the minute.\<close>

theorem admitted_per_minute:
  assumes "usual_limit n" "sorted (map step_time (before @ during))"
    and "\<forall>e \<in> set during. start \<le> step_time e \<and> step_time e \<le> start + 60000000000" "length (asked t during) \<le> 2 ^ 27"
  shows "count_list (outcomes t (fst (limiter_run during (snd (limiter_run before (NewRateLimiter n)))))) True \<le> 2 * nat (sint n)"
proof -
  let ?es = "before @ during"
  obtain now where now: "\<forall>e \<in> set ?es. now \<le> step_time e"
    using finite_set [of "map step_time ?es"] by (metis Min_le finite_imageI finite_set image_eqI)
  then have s: "sorted (now # map step_time before)" using assms(2) by (auto simp: sorted_append)
  have ok: "limiter_ok n now (NewRateLimiter n)" by (simp add: limiter_ok_def NewRateLimiter_def)
  let ?later = "last (now # map step_time before)"
  have "?later \<le> step_time e" if "e \<in> set during" for e
    using assms(2) now that by (auto simp: sorted_append last_map)
  then have "sorted (?later # map step_time during)" using assms(2) by (auto simp: sorted_append)
  from limiter_window [OF assms(1) limiter_run_ok [OF assms(1) ok s] this assms(3,4)] show ?thesis .
qed

fun step_tenant :: "limiter_step \<Rightarrow> uuid" where
  "step_tenant (Find_Bucket t now) = t"
| "step_tenant (Take_Token t now) = t"

lemma run_without:
  "\<forall>e \<in> set es. step_tenant e \<noteq> t \<Longrightarrow>
     outcomes t (fst (limiter_run (es @ fs) rl)) = outcomes t (fst (limiter_run fs (snd (limiter_run es rl))))
   \<and> rl_buckets (snd (limiter_run es rl)) t = rl_buckets rl t
   \<and> rl_defaultLimit (snd (limiter_run es rl)) = rl_defaultLimit rl"
proof (induction es arbitrary: rl)
  case (Cons e es)
  have "rl_defaultLimit (snd (take_from u now rl)) = rl_defaultLimit rl" "rl_defaultLimit (find_bucket u now rl) = rl_defaultLimit rl" for u now
    by (simp_all add: take_from_def find_bucket_def Let_def case_prod_beta split: option.split)
  then show ?case using Cons find_bucket_other take_from_other by (cases e) (simp_all add: case_prod_beta)
qed simp

text \<open>Tenants do not share tokens: from the moment a tenant's bucket is made, what its attempts get is what a bucket
  of its own would give them, whatever the other tenants do in between.\<close>

theorem tenant_has_own_bucket:
  assumes "\<forall>e \<in> set es. step_tenant e \<noteq> t"
  shows "outcomes t (fst (limiter_run (es @ Find_Bucket t now # fs) (NewRateLimiter n)))
    = fst (takes Take (asked t fs) (NewTokenBucket n now))"
proof -
  let ?rl = "snd (limiter_run es (NewRateLimiter n))"
  note w = run_without [OF assms, of "Find_Bucket t now # fs" "NewRateLimiter n"]
  then have "rl_buckets (find_bucket t now ?rl) t = Some (NewTokenBucket n now)"
    by (simp add: find_bucket_def NewRateLimiter_def)
  from run_bucket [OF this, of fs] w show ?thesis by simp
qed

section \<open>Attempts in quick succession\<close>

text \<open>A counter that is never refilled.\<close>

fun counter_take :: "nat \<Rightarrow> bool \<times> nat" where
  "counter_take 0 = (False, 0)"
| "counter_take (Suc c) = (True, c)"

definition holds_count :: "int64 \<Rightarrow> token_bucket \<Rightarrow> nat \<Rightarrow> bool" where
  "holds_count n b c \<longleftrightarrow> tb_maxTokens b = n \<and> tb_tokens b = of_nat c \<and> int c \<le> sint n \<and> sint n < 2 ^ 53"

lemma Take_quick:
  assumes "holds_count n b c" "tb_lastRefill b \<le> now" "now - tb_lastRefill b < 1000000"
  shows "fst (Take now b) = fst (counter_take c)" "holds_count n (snd (Take now b)) (snd (counter_take c))"
proof -
  note h = assms(1) [unfolded holds_count_def]
  have e: "elapsed_ms (tb_lastRefill b) now = 0" using assms(2,3) by (simp add: elapsed_ms_def)
  have N: "f64 (of_int (sint n)) = of_int (sint n)" using h by (intro f64_int) simp
  have i: "f64 (of_nat k) = of_nat k" if "k \<le> c" for k using f64_int [of "int k"] that h by simp
  have "(of_nat c :: rat) \<le> of_int (sint n)" using h by (metis of_int_le_iff of_int_of_nat_eq)
  then have r: "tb_tokens (refill now b) = of_nat c" "tb_maxTokens (refill now b) = n"
    using h N i [of c] f64_0 by (simp_all add: refill_def Let_def e float_min_def)
  show "fst (Take now b) = fst (counter_take c)"
    using r by (cases c) (simp_all add: Take_def Let_def)
  show "holds_count n (snd (Take now b)) (snd (counter_take c))"
    using r h i by (cases c) (simp_all add: Take_def Let_def holds_count_def)
qed

lemma takes_quick:
  "holds_count n b c \<Longrightarrow> successively (\<lambda>x y. x \<le> y \<and> y - x < 1000000) (tb_lastRefill b # ts) \<Longrightarrow>
     fst (takes Take ts b) = fst (takes (\<lambda>_. counter_take) ts c)"
proof (induction ts arbitrary: b c)
  case (Cons now ts)
  note q = Take_quick [OF Cons.prems(1), of now]
  show ?case using Cons.IH [OF q(2)] Cons.prems(2) q(1) by (simp add: case_prod_beta Take_since)
qed simp

lemma counter_takes: "fst (takes (\<lambda>_. counter_take) ts c) = map (\<lambda>i. i < c) [0..<length ts]"
proof (induction ts arbitrary: c)
  case (Cons now ts)
  have "map (\<lambda>i. i < c) [0..<Suc (length ts)] = (0 < c) # map (\<lambda>i. i < c - 1) [0..<length ts]"
    by (cases c) (simp_all add: upt_conv_Cons map_Suc_upt [symmetric] comp_def del: upt_Suc)
  then show ?case using Cons.IH by (cases c) (simp_all add: case_prod_beta)
qed simp

text \<open>C37. A bucket that is asked at least once in every millisecond behaves as a counter that is never refilled: the
  elapsed time is cut to whole milliseconds, and the fraction is lost since every attempt, also a refused
  one, moves the time of the last refill. After as many admissions as the limit the tenant is refused for
  as long as it keeps asking.\<close>

theorem quick_attempts_never_refilled:
  assumes "0 \<le> sint n" "sint n < 2 ^ 53"
    and "successively (\<lambda>x y. x \<le> y \<and> y - x < 1000000) (start # ts)"
  shows "fst (takes Take ts (NewTokenBucket n start)) = fst (takes (\<lambda>_. counter_take) ts (nat (sint n)))
    \<and> fst (takes Take ts (NewTokenBucket n start)) = map (\<lambda>i. i < nat (sint n)) [0..<length ts]"
proof -
  have N: "f64 (of_int (sint n)) = of_int (sint n)" using assms(1,2) by (intro f64_int) simp
  have "tb_tokens (NewTokenBucket n start) = of_nat (nat (sint n))"
    unfolding NewTokenBucket_def token_bucket.simps N using assms(1) by (metis int_nat_eq of_int_of_nat_eq)
  then have h: "holds_count n (NewTokenBucket n start) (nat (sint n))"
    using assms(1,2) by (simp add: holds_count_def) (simp add: NewTokenBucket_def)
  have "tb_lastRefill (NewTokenBucket n start) = start" by (simp add: NewTokenBucket_def)
  then have "fst (takes Take ts (NewTokenBucket n start)) = fst (takes (\<lambda>_. counter_take) ts (nat (sint n)))"
    using takes_quick [OF h, of ts] assms(3) by simp
  then show ?thesis by (simp add: counter_takes)
qed

section \<open>The limiter in the router\<close>

text \<open>C35. The router mounts the limiter before the authentication, where no tenant is known yet, so it does nothing: every
  request below \<open>/v1\<close>, with an API key or a token, is answered as if there were no limiter, which stays as it is.\<close>

theorem mounted_limiter_never_acts:
  "v1_route uuid_string (api_key_group idkey authHeader handler) s limiter
     = (let (resp, s1) = AuthMiddleware idkey handler (WithRequestID background (''req_'' @ uuid_string (next_uuid s))) authHeader (draw s)
        in ((recovered resp, s1), [], limiter))
   \<and> v1_route uuid_string (backoffice_group libs jwtSecret authHeader bo_handler) s limiter
     = (let (resp, s1) = BackofficeAuth libs jwtSecret bo_handler
              (bo_background\<lparr>bx_context := WithRequestID background (''req_'' @ uuid_string (next_uuid s))\<rparr>) authHeader (draw s)
        in ((recovered resp, s1), [], limiter))"
  by (simp add: v1_route_def RequestID_def Recovery_def RateLimitMiddleware_def api_key_group_def backoffice_group_def
      uuid_nil_def case_prod_beta Let_def)

section \<open>Witnesses\<close>

theorem admitted_per_minute_witness:
  "count_list (outcomes 7 (fst (limiter_run [Find_Bucket 7 0, Take_Token 7 0, Take_Token 7 1]
     (snd (limiter_run [Find_Bucket 8 0, Take_Token 8 0] (NewRateLimiter 1)))))) True \<le> 2 * nat (sint (1 :: int64))"
  by (rule admitted_per_minute [of _ _ _ 0]) (simp_all add: usual_limit_def)

theorem tenant_has_own_bucket_witness:
  "outcomes 7 (fst (limiter_run ([Find_Bucket 8 0, Take_Token 8 0] @ Find_Bucket 7 1 # [Take_Token 7 2]) (NewRateLimiter 1)))
     = fst (takes Take [2] (NewTokenBucket 1 1))"
  using tenant_has_own_bucket [of "[Find_Bucket 8 0, Take_Token 8 0]" 7 1 "[Take_Token 7 2]" 1] by simp

theorem quick_attempts_never_refilled_witness:
  "fst (takes Take [0, 900000, 1800000] (NewTokenBucket 2 0)) = [True, True, False]"
  by (rule quick_attempts_never_refilled [of 2 0 "[0, 900000, 1800000]", THEN conjunct2, THEN trans]) simp_all

end
