(* ===== verification/Go_Duration.thy ===== *)
theory Go_Duration
  imports Json_Map Go_Float
begin

text \<open>
  Parsing of settings as Go's standard library does it: \<open>strconv.Atoi\<close>, \<open>strconv.ParseBool\<close>,
  \<open>hex.DecodeString\<close> and \<open>time.ParseDuration\<close> with its unsigned 64-bit arithmetic and its float64 for
  fractions. \<open>None\<close> stands for an error; durations are in nanoseconds.
\<close>

section \<open>Integers, booleans, hexadecimal\<close>

definition atoi :: "string \<Rightarrow> int64 option" where
  "atoi s =
     (let sign = starts (CHR ''-'') s \<or> starts (CHR ''+'') s;
          d = (if sign then tl s else s);
          v = (if starts (CHR ''-'') s then - digits_value d else digits_value d)
      in if d \<noteq> [] \<and> list_all is_digit09 d \<and> - (2 ^ 63) \<le> v \<and> v < 2 ^ 63 then Some (word_of_int v) else None)"

definition parse_bool :: "string \<Rightarrow> bool option" where
  "parse_bool s =
     (if s \<in> {''1'', ''t'', ''T'', ''true'', ''TRUE'', ''True''} then Some True
      else if s \<in> {''0'', ''f'', ''F'', ''false'', ''FALSE'', ''False''} then Some False
      else None)"

fun hex_decode :: "string \<Rightarrow> string option" where
  "hex_decode [] = Some []"
| "hex_decode [c] = None"
| "hex_decode (a # b # cs) =
     (case (hex_value a, hex_value b, hex_decode cs) of
        (Some x, Some y, Some t) \<Rightarrow> Some (char_of (16 * x + y) # t)
      | _ \<Rightarrow> None)"

section \<open>Durations\<close>

definition leading_int :: "string \<Rightarrow> (int \<times> string) option" where
  "leading_int s =
     (let v = digits_value (takeWhile is_digit09 s) in if 2 ^ 63 < v then None else Some (v, dropWhile is_digit09 s))"

text \<open>The digits of a fraction and their scale; digits beyond 64 bits are ignored.\<close>

fun fraction_digits :: "string \<Rightarrow> int \<times> int \<Rightarrow> int \<times> int" where
  "fraction_digits [] (x, scale) = (x, scale)"
| "fraction_digits (c # cs) (x, scale) =
     (if (2 ^ 63 - 1) div 10 < x then (x, scale)
      else let y = 10 * x + digit_value c
           in if 2 ^ 63 < y then (x, scale) else fraction_digits cs (y, 10 * scale))"

definition duration_unit :: "string \<Rightarrow> int option" where
  "duration_unit =
     map_of [(''ns'', 1), (''us'', 1000), ([CHR 0xC2, CHR 0xB5] @ ''s'', 1000), ([CHR 0xCE, CHR 0xBC] @ ''s'', 1000),
             (''ms'', 1000000), (''s'', 1000000000), (''m'', 60000000000), (''h'', 3600000000000)]"

definition is_unit_char :: "char \<Rightarrow> bool" where
  "is_unit_char c \<longleftrightarrow> \<not> is_digit09 c \<and> c \<noteq> CHR ''.''"

text \<open>A number with a unit at the head of a text, in nanoseconds, and what follows it.\<close>

definition duration_term :: "string \<Rightarrow> (int \<times> string) option" where
  "duration_term s =
     (if is_unit_char (hd s) then None
      else case leading_int s of
        None \<Rightarrow> None
      | Some (v, r) \<Rightarrow>
          (let digits = (if starts (CHR ''.'') r then takeWhile is_digit09 (tl r) else []);
               q = (if starts (CHR ''.'') r then dropWhile is_digit09 (tl r) else r);
               (f, scale) = fraction_digits digits (0, 1);
               u = takeWhile is_unit_char q
           in if r = s \<and> digits = [] then None
              else case duration_unit u of
                None \<Rightarrow> None
              | Some unit \<Rightarrow>
                  (if 2 ^ 63 div unit < v then None
                   else let w = v * unit
                              + (if 0 < f then \<lfloor>f64 (f64 (of_int f) * f64 (f64 (of_int unit) / f64 (of_int scale)))\<rfloor> else 0)
                        in if 2 ^ 63 < w then None else Some (w, dropWhile is_unit_char q))))"

lemma duration_term_shorter: "s \<noteq> [] \<Longrightarrow> duration_term s = Some (v, r) \<Longrightarrow> length r < length s"
proof -
  assume s: "s \<noteq> []" and t: "duration_term s = Some (v, r)"
  let ?r = "dropWhile is_digit09 s"
  let ?q = "if starts (CHR ''.'') ?r then dropWhile is_digit09 (tl ?r) else ?r"
  have r: "r = dropWhile is_unit_char ?q" and u: "takeWhile is_unit_char ?q \<noteq> []"
    using t by (auto simp: duration_term_def leading_int_def duration_unit_def Let_def split: if_splits option.splits prod.splits)
  have "length (dropWhile is_unit_char ?q) + length (takeWhile is_unit_char ?q) = length ?q"
    by (metis add.commute length_append takeWhile_dropWhile_id)
  moreover have "length ?q \<le> length ?r" using length_dropWhile_le [of is_digit09 "tl ?r"] by auto
  moreover have "length ?r \<le> length s" by (rule length_dropWhile_le)
  moreover have "0 < length (takeWhile is_unit_char ?q)" using u by simp
  ultimately show ?thesis unfolding r by linarith
qed

text \<open>The sum of the terms, in unsigned 64-bit arithmetic.\<close>

function duration_terms :: "int \<Rightarrow> string \<Rightarrow> int option" where
  "duration_terms d s =
     (if s = [] then Some d
      else case duration_term s of
        None \<Rightarrow> None
      | Some (v, r) \<Rightarrow>
          (let e = (d + v) mod 2 ^ 64 in if 2 ^ 63 < e then None else duration_terms e r))"
  by pat_completeness auto
termination
  by (relation "measure (length \<circ> snd)") (auto simp: duration_term_shorter)

declare duration_terms.simps [simp del]

definition parse_duration :: "string \<Rightarrow> int option" where
  "parse_duration s =
     (let neg = starts (CHR ''-'') s;
          t = (if neg \<or> starts (CHR ''+'') s then tl s else s)
      in if t = ''0'' then Some 0
         else if t = [] then None
         else case duration_terms 0 t of
           None \<Rightarrow> None
         | Some d \<Rightarrow> (if neg then Some (- d) else if 2 ^ 63 - 1 < d then None else Some d))"

lemma hex_decode_length: "hex_decode s = Some t \<Longrightarrow> length s = 2 * length t"
  by (induction s arbitrary: t rule: hex_decode.induct) (auto split: option.splits)

end
