(* ===== verification/Configuration.thy ===== *)
theory Configuration
  imports Go_Duration Backoffice_Service Credential_Rules
begin

text \<open>
  \<open>internal/config/config.go\<close>: the configuration of the process from the environment, an optional \<open>.env\<close>
  file and an optional \<open>billax_config.yml\<close>. The parsers of \<open>.env\<close> and YAML files are parameters: \<open>os_dotenv\<close> is
  the content of the \<open>.env\<close> file, whose variables do not replace those of the environment, and \<open>os_yaml\<close>
  gives the two members under \<open>auth\<close> of a text, \<open>None\<close> for an absent one. A file is \<open>None\<close> if it does not exist.
\<close>

section \<open>Structs\<close>

record go_config =
  cf_DatabaseURL :: string
  cf_AppEnv :: string
  cf_AppVersion :: string
  cf_Port :: int64
  cf_LogLevel :: string
  cf_RateLimitDefault :: int64
  cf_WebhookDeliveryTimeout :: int
  cf_WebhookMaxRetries :: int64
  cf_ProvidersConfigPath :: string
  cf_MigrationsPath :: string
  cf_BillaxConfigPath :: string
  cf_MetricsEnabled :: bool
  cf_MetricsPort :: int64
  cf_CredentialsEncryptionKey :: string
  cf_LifecycleJobInterval :: int
  cf_PastDueGracePeriodDays :: int64
  cf_BackofficeJWTSecret :: string
  cf_BackofficeJWTTTL :: int
  cf_BootstrapTenantName :: string
  cf_BootstrapTenantEmail :: string
  cf_BootstrapAdminPassword :: string
  cf_BootstrapTenantSlug :: string
  cf_AllowSignup :: bool
  cf_SignupRequiresPassword :: bool

record os_state =
  os_env :: "string \<Rightarrow> string option"
  os_dotenv :: "string \<Rightarrow> string option"
  os_file :: "string \<Rightarrow> (gerror + string) option"
  os_yaml :: "string \<Rightarrow> gerror + bool option \<times> bool option"

section \<open>Reading the environment\<close>

definition Getenv :: "(string \<Rightarrow> string option) \<Rightarrow> string \<Rightarrow> string" where
  "Getenv env key = (case env key of Some v \<Rightarrow> v | None \<Rightarrow> [])"

definition getEnv :: "(string \<Rightarrow> string option) \<Rightarrow> string \<Rightarrow> string \<Rightarrow> string" where
  "getEnv env key defaultValue = (case env key of Some v \<Rightarrow> v | None \<Rightarrow> defaultValue)"

text \<open>A value that does not parse counts as absent.\<close>

definition parsed_env :: "(string \<Rightarrow> 'a option) \<Rightarrow> (string \<Rightarrow> string option) \<Rightarrow> string \<Rightarrow> 'a \<Rightarrow> 'a" where
  "parsed_env parse env key defaultValue =
     (case env key of
        Some v \<Rightarrow> (case parse v of Some x \<Rightarrow> x | None \<Rightarrow> defaultValue)
      | None \<Rightarrow> defaultValue)"

definition getEnvInt :: "(string \<Rightarrow> string option) \<Rightarrow> string \<Rightarrow> int64 \<Rightarrow> int64" where
  "getEnvInt = parsed_env atoi"

definition getEnvDuration :: "(string \<Rightarrow> string option) \<Rightarrow> string \<Rightarrow> int \<Rightarrow> int" where
  "getEnvDuration = parsed_env parse_duration"

definition getEnvBool :: "(string \<Rightarrow> string option) \<Rightarrow> string \<Rightarrow> bool \<Rightarrow> bool" where
  "getEnvBool = parsed_env parse_bool"

text \<open>\<open>godotenv.Load\<close> is called in development only.\<close>

definition with_dotenv :: "os_state \<Rightarrow> string \<Rightarrow> string option" where
  "with_dotenv os =
     (if Getenv (os_env os) ''APP_ENV'' \<in> {[], ''development''} then os_dotenv os ++ os_env os else os_env os)"

definition second :: int where "second = 1000000000"

definition env_config :: "(string \<Rightarrow> string option) \<Rightarrow> go_config" where
  "env_config env =
     \<lparr>cf_DatabaseURL = Getenv env ''DATABASE_URL'', cf_AppEnv = getEnv env ''APP_ENV'' ''development'', cf_AppVersion = [],
      cf_Port = getEnvInt env ''PORT'' 8080, cf_LogLevel = getEnv env ''LOG_LEVEL'' ''info'',
      cf_RateLimitDefault = getEnvInt env ''RATE_LIMIT_DEFAULT'' 100,
      cf_WebhookDeliveryTimeout = getEnvDuration env ''WEBHOOK_DELIVERY_TIMEOUT'' (10 * second),
      cf_WebhookMaxRetries = getEnvInt env ''WEBHOOK_MAX_RETRIES'' 5,
      cf_ProvidersConfigPath = getEnv env ''PROVIDERS_CONFIG_PATH'' ''providers.yml'',
      cf_MigrationsPath = getEnv env ''MIGRATIONS_PATH'' ''migrations'',
      cf_BillaxConfigPath = getEnv env ''BILLAX_CONFIG_PATH'' ''billax_config.yml'',
      cf_MetricsEnabled = getEnvBool env ''METRICS_ENABLED'' True, cf_MetricsPort = getEnvInt env ''METRICS_PORT'' 9090,
      cf_CredentialsEncryptionKey = [],
      cf_LifecycleJobInterval = getEnvDuration env ''LIFECYCLE_JOB_INTERVAL'' (5 * 60 * second),
      cf_PastDueGracePeriodDays = getEnvInt env ''PAST_DUE_GRACE_PERIOD_DAYS'' 7,
      cf_BackofficeJWTSecret = getEnv env ''BACKOFFICE_JWT_SECRET'' [],
      cf_BackofficeJWTTTL = getEnvDuration env ''BACKOFFICE_JWT_TTL'' (24 * 3600 * second),
      cf_BootstrapTenantName = Getenv env ''BOOTSTRAP_TENANT_NAME'', cf_BootstrapTenantEmail = Getenv env ''BOOTSTRAP_TENANT_EMAIL'',
      cf_BootstrapAdminPassword = Getenv env ''BOOTSTRAP_ADMIN_PASSWORD'', cf_BootstrapTenantSlug = Getenv env ''BOOTSTRAP_TENANT_SLUG'',
      cf_AllowSignup = True, cf_SignupRequiresPassword = True\<rparr>"

section \<open>\<open>Load\<close>\<close>

text \<open>The switches of \<open>billax_config.yml\<close>: a member that the file leaves out has the zero value of Go.\<close>

definition billax_switches :: "os_state \<Rightarrow> go_config \<Rightarrow> gerror + go_config" where
  "billax_switches os cfg =
     (let path = cf_BillaxConfigPath cfg
      in case os_file os path of
        None \<Rightarrow> Inr cfg
      | Some (Inl err) \<Rightarrow> Inl (Wrap (''failed to read '' @ path) err)
      | Some (Inr data) \<Rightarrow>
          (case os_yaml os data of
             Inl err \<Rightarrow> Inl (Wrap (''failed to parse '' @ path) err)
           | Inr (allow, requires) \<Rightarrow>
               Inr (cfg\<lparr>cf_AllowSignup := (case allow of Some b \<Rightarrow> b | None \<Rightarrow> False),
                        cf_SignupRequiresPassword := (case requires of Some b \<Rightarrow> b | None \<Rightarrow> False)\<rparr>)))"

definition encryption_key :: "string \<Rightarrow> gerror + string" where
  "encryption_key hexKey =
     (if hexKey = [] then Inr []
      else case hex_decode hexKey of
        None \<Rightarrow> Inl (Wrap ''CREDENTIALS_ENCRYPTION_KEY must be valid hex'' (Plain ''encoding/hex''))
      | Some key \<Rightarrow>
          (if length key \<noteq> 32
           then Inl (Plain (''CREDENTIALS_ENCRYPTION_KEY must be 64 hex chars (32 bytes), got ''
                            @ nat_to_string (length hexKey) @ '' chars''))
           else Inr key))"

definition dev_jwt_secret :: string where
  "dev_jwt_secret = ''dev-jwt-secret-change-in-production''"

definition Load :: "os_state \<Rightarrow> gerror + go_config" where
  "Load os =
     (let env = with_dotenv os
      in case billax_switches os (env_config env) of
        Inl err \<Rightarrow> Inl err
      | Inr cfg \<Rightarrow>
          (case encryption_key (Getenv env ''CREDENTIALS_ENCRYPTION_KEY'') of
             Inl err \<Rightarrow> Inl err
           | Inr key \<Rightarrow>
               (let cfg1 = cfg\<lparr>cf_CredentialsEncryptionKey := key\<rparr>
                in if cf_DatabaseURL cfg1 = [] then Inl (Plain ''DATABASE_URL is required'')
                   else if cf_AppEnv cfg1 = ''production'' \<and> length (cf_CredentialsEncryptionKey cfg1) = 0
                   then Inl (Plain ''CREDENTIALS_ENCRYPTION_KEY is required in production'')
                   else if cf_BackofficeJWTSecret cfg1 = []
                   then (if cf_AppEnv cfg1 = ''production''
                         then Inl (Plain ''BACKOFFICE_JWT_SECRET is required in production'')
                         else Inr (cfg1\<lparr>cf_BackofficeJWTSecret := dev_jwt_secret\<rparr>))
                   else Inr cfg1)))"

section \<open>What a configuration promises\<close>

lemma billax_switches_Inr:
  assumes "billax_switches os cfg = Inr cfg'"
  shows "cfg' = cfg\<lparr>cf_AllowSignup := cf_AllowSignup cfg', cf_SignupRequiresPassword := cf_SignupRequiresPassword cfg'\<rparr>"
  using assms by (auto simp: billax_switches_def Let_def split: option.splits sum.splits)

lemma encryption_key_Inr: "encryption_key h = Inr key \<Longrightarrow> key = [] \<and> h = [] \<or> length key = 32 \<and> hex_decode h = Some key"
  by (auto simp: encryption_key_def split: if_splits option.splits)

lemma ex_two_results:
  "(\<exists>c k. a = Inr c \<and> b = Inr k \<and> Q \<and> (R \<longrightarrow> k \<noteq> [] \<and> S)) \<longleftrightarrow> is_ok a \<and> is_ok b \<and> Q \<and> (R \<longrightarrow> b \<noteq> Inr [] \<and> S)"
  by (cases a; cases b) (auto simp: is_ok_def)

lemma billax_switches_fields:
  assumes "billax_switches os cfg = Inr cfg'"
  shows "cf_DatabaseURL cfg' = cf_DatabaseURL cfg" "cf_AppEnv cfg' = cf_AppEnv cfg" "cf_BackofficeJWTSecret cfg' = cf_BackofficeJWTSecret cfg"
  by (subst billax_switches_Inr [OF assms], simp)+

text \<open>Loading succeeds exactly if the switches and the key do and three conditions hold.\<close>

lemma Load_Inr:
  fixes os
  defines "env \<equiv> with_dotenv os"
  shows "Load os = Inr cfg \<longleftrightarrow>
    (\<exists>c key. billax_switches os (env_config env) = Inr c \<and> encryption_key (Getenv env ''CREDENTIALS_ENCRYPTION_KEY'') = Inr key
       \<and> Getenv env ''DATABASE_URL'' \<noteq> []
       \<and> (getEnv env ''APP_ENV'' ''development'' = ''production'' \<longrightarrow> key \<noteq> [] \<and> getEnv env ''BACKOFFICE_JWT_SECRET'' [] \<noteq> [])
       \<and> cfg = (let c' = c\<lparr>cf_CredentialsEncryptionKey := key\<rparr>
                in if getEnv env ''BACKOFFICE_JWT_SECRET'' [] = [] then c'\<lparr>cf_BackofficeJWTSecret := dev_jwt_secret\<rparr> else c'))"
proof (cases "billax_switches os (env_config env)")
  case (Inr c)
  note f = billax_switches_fields [OF Inr]
  have fields: "cf_DatabaseURL c = Getenv env ''DATABASE_URL''" "cf_AppEnv c = getEnv env ''APP_ENV'' ''development''"
    "cf_BackofficeJWTSecret c = getEnv env ''BACKOFFICE_JWT_SECRET'' []"
    unfolding f by (simp_all add: env_config_def)
  show ?thesis
  proof (cases "encryption_key (Getenv env ''CREDENTIALS_ENCRYPTION_KEY'')")
    case k: (Inr key)
    have sel: "cf_DatabaseURL (c\<lparr>cf_CredentialsEncryptionKey := key\<rparr>) = cf_DatabaseURL c" "cf_AppEnv (c\<lparr>cf_CredentialsEncryptionKey := key\<rparr>) = cf_AppEnv c"
      "cf_BackofficeJWTSecret (c\<lparr>cf_CredentialsEncryptionKey := key\<rparr>) = cf_BackofficeJWTSecret c"
      "cf_CredentialsEncryptionKey (c\<lparr>cf_CredentialsEncryptionKey := key\<rparr>) = key" by simp_all
    show ?thesis
      unfolding Load_def Let_def env_def [symmetric] Inr k sum.case sel fields
      by (simp only: sum.inject ex_simps simp_thms length_0_conv split: if_split) auto
  qed (simp add: Load_def Let_def env_def [symmetric] Inr)
qed (simp add: Load_def Let_def env_def [symmetric])

text \<open>C38. A configuration that loads is usable: it has a database, no key or one of 32 bytes, and a secret for tokens;
  in production the key is the decoded one of the environment, and the secret is the value that the environment
  or the \<open>.env\<close> file sets, whatever that is (the code does not fall back to its own default, but it does not
  refuse that text either).\<close>

theorem loaded_config_valid:
  assumes "Load os = Inr cfg"
  shows "cf_DatabaseURL cfg \<noteq> [] \<and> length (cf_CredentialsEncryptionKey cfg) \<in> {0, 32} \<and> cf_BackofficeJWTSecret cfg \<noteq> []
    \<and> (cf_AppEnv cfg = ''production'' \<longrightarrow>
        length (cf_CredentialsEncryptionKey cfg) = 32
      \<and> hex_decode (Getenv (with_dotenv os) ''CREDENTIALS_ENCRYPTION_KEY'') = Some (cf_CredentialsEncryptionKey cfg)
      \<and> with_dotenv os ''BACKOFFICE_JWT_SECRET'' = Some (cf_BackofficeJWTSecret cfg))"
proof -
  let ?env = "with_dotenv os"
  obtain c key where c: "billax_switches os (env_config ?env) = Inr c" "encryption_key (Getenv ?env ''CREDENTIALS_ENCRYPTION_KEY'') = Inr key"
      "Getenv ?env ''DATABASE_URL'' \<noteq> []"
    and prod: "getEnv ?env ''APP_ENV'' ''development'' = ''production'' \<longrightarrow> key \<noteq> [] \<and> getEnv ?env ''BACKOFFICE_JWT_SECRET'' [] \<noteq> []"
    and cfg: "cfg = (let c' = c\<lparr>cf_CredentialsEncryptionKey := key\<rparr>
      in if getEnv ?env ''BACKOFFICE_JWT_SECRET'' [] = [] then c'\<lparr>cf_BackofficeJWTSecret := dev_jwt_secret\<rparr> else c')"
    using assms unfolding Load_Inr by blast
  note f = billax_switches_fields [OF c(1)] and key = encryption_key_Inr [OF c(2)]
  have "getEnv ?env ''BACKOFFICE_JWT_SECRET'' [] \<noteq> [] \<longrightarrow>
      ?env ''BACKOFFICE_JWT_SECRET'' = Some (getEnv ?env ''BACKOFFICE_JWT_SECRET'' [])"
    by (auto simp: getEnv_def split: option.splits)
  then show ?thesis using c(3) prod key f by (auto simp: cfg Let_def dev_jwt_secret_def env_config_def)
qed

text \<open>Which settings are accepted: the database and the key must be right and the switches file, if there is one,
  readable; in production a key and a secret are needed. Nothing else makes loading fail: any other setting
  that does not parse is replaced by its default.\<close>

theorem config_accepted:
  "(\<exists>cfg. Load os = Inr cfg)
     \<longleftrightarrow> Getenv (with_dotenv os) ''DATABASE_URL'' \<noteq> []
      \<and> (case os_file os (getEnv (with_dotenv os) ''BILLAX_CONFIG_PATH'' ''billax_config.yml'') of
           None \<Rightarrow> True | Some (Inl err) \<Rightarrow> False | Some (Inr data) \<Rightarrow> is_ok (os_yaml os data))
      \<and> (let h = Getenv (with_dotenv os) ''CREDENTIALS_ENCRYPTION_KEY''
         in h = [] \<and> getEnv (with_dotenv os) ''APP_ENV'' ''development'' \<noteq> ''production'' \<or> length h = 64 \<and> hex_decode h \<noteq> None)
      \<and> (getEnv (with_dotenv os) ''APP_ENV'' ''development'' = ''production'' \<longrightarrow> getEnv (with_dotenv os) ''BACKOFFICE_JWT_SECRET'' [] \<noteq> [])"
proof -
  let ?env = "with_dotenv os"
  let ?cfg = "env_config ?env" and ?h = "Getenv ?env ''CREDENTIALS_ENCRYPTION_KEY''"
  have path: "cf_BillaxConfigPath ?cfg = getEnv ?env ''BILLAX_CONFIG_PATH'' ''billax_config.yml''" by (simp add: env_config_def)
  have sw: "is_ok (billax_switches os ?cfg) \<longleftrightarrow> (case os_file os (getEnv ?env ''BILLAX_CONFIG_PATH'' ''billax_config.yml'') of
      None \<Rightarrow> True | Some (Inl err) \<Rightarrow> False | Some (Inr data) \<Rightarrow> is_ok (os_yaml os data))"
    by (simp add: billax_switches_def Let_def path is_ok_def split: option.split sum.split)
  have key: "is_ok (encryption_key ?h) \<longleftrightarrow> ?h = [] \<or> length ?h = 64 \<and> hex_decode ?h \<noteq> None"
    by (auto simp: encryption_key_def is_ok_def split: option.split dest: hex_decode_length)
  have nil: "encryption_key ?h = Inr k \<Longrightarrow> k = [] \<longleftrightarrow> ?h = []" for k
    using encryption_key_Inr [of ?h k] by auto
  have "(\<exists>cfg. Load os = Inr cfg) \<longleftrightarrow> (\<exists>c key. billax_switches os ?cfg = Inr c \<and> encryption_key ?h = Inr key \<and> Getenv ?env ''DATABASE_URL'' \<noteq> []
      \<and> (getEnv ?env ''APP_ENV'' ''development'' = ''production'' \<longrightarrow> key \<noteq> [] \<and> getEnv ?env ''BACKOFFICE_JWT_SECRET'' [] \<noteq> []))"
    unfolding Load_Inr by blast
  also have "\<dots> \<longleftrightarrow> is_ok (billax_switches os ?cfg) \<and> is_ok (encryption_key ?h) \<and> Getenv ?env ''DATABASE_URL'' \<noteq> []
      \<and> (getEnv ?env ''APP_ENV'' ''development'' = ''production'' \<longrightarrow> ?h \<noteq> [] \<and> getEnv ?env ''BACKOFFICE_JWT_SECRET'' [] \<noteq> [])"
    unfolding ex_two_results using nil by (cases "encryption_key ?h") (simp_all add: is_ok_def)
  finally have load: "(\<exists>cfg. Load os = Inr cfg) \<longleftrightarrow> \<dots>" .
  have "length ?h = 64 \<Longrightarrow> ?h \<noteq> []" by auto
  then show ?thesis unfolding load sw key Let_def by blast
qed

lemma loaded_config_key:
  assumes "Load os = Inr cfg" "cf_AppEnv cfg = ''production''"
  shows "length (cf_CredentialsEncryptionKey cfg) = 32" "with_dotenv os ''BACKOFFICE_JWT_SECRET'' = Some (cf_BackofficeJWTSecret cfg)"
proof -
  let ?env = "with_dotenv os"
  obtain c key where c: "billax_switches os (env_config ?env) = Inr c" "encryption_key (Getenv ?env ''CREDENTIALS_ENCRYPTION_KEY'') = Inr key"
    and prod: "getEnv ?env ''APP_ENV'' ''development'' = ''production'' \<longrightarrow> key \<noteq> [] \<and> getEnv ?env ''BACKOFFICE_JWT_SECRET'' [] \<noteq> []"
    and cfg: "cfg = (let c' = c\<lparr>cf_CredentialsEncryptionKey := key\<rparr>
      in if getEnv ?env ''BACKOFFICE_JWT_SECRET'' [] = [] then c'\<lparr>cf_BackofficeJWTSecret := dev_jwt_secret\<rparr> else c')"
    using assms(1) unfolding Load_Inr by blast
  have "cf_AppEnv cfg = cf_AppEnv c" "cf_CredentialsEncryptionKey cfg = key" by (simp_all add: cfg Let_def)
  moreover have "cf_AppEnv c = getEnv ?env ''APP_ENV'' ''development''" using billax_switches_fields(2) [OF c(1)] by (simp add: env_config_def)
  ultimately show "length (cf_CredentialsEncryptionKey cfg) = 32" and
    "with_dotenv os ''BACKOFFICE_JWT_SECRET'' = Some (cf_BackofficeJWTSecret cfg)"
    using assms(2) prod encryption_key_Inr [OF c(2)] billax_switches_fields(3) [OF c(1)]
    by (auto simp: cfg Let_def env_config_def getEnv_def split: option.splits)
qed

text \<open>The configuration of a provider is stored sealed when there is a 32-byte key: the column \<open>config\<close> decodes to a
  single member, which opens with the key to the JSON of what was set.\<close>

lemma stored_sealed:
  assumes "cred_svc_SetProviderConfig encKey a t p c s = (None, s')" "jsonb_ok s" "length encKey = 32"
  shows "\<exists>r \<in> set (credentials s'). credential_place r = (t, p) \<and> cd_webhook_secret r = Some (at_key c ''webhook_secret'')
    \<and> (\<exists>w e. json_unmarshal_map (cd_config r) = Some w \<and> map_of w = [''_enc'' \<mapsto> e] \<and> Decrypt e encKey = Inr (json_marshal_map c))"
proof -
  obtain j s1 where h: "stored_config encKey c s = (Inr j, s1)" "credentials_upsert t p j (at_key c ''webhook_secret'') s1 = (None, s')"
    using SetProviderConfig_None [OF assms(1)] by blast
  obtain e where e: "j = json_marshal_map [(''_enc'', e)]" "jsonb s1 = jsonb s" "Decrypt e encKey = Inr (json_marshal_map c)" "ascii e"
    by (rule stored_config_cases [of encKey c s]) (use h(1) assms(3) in auto)
  have "ascii_map [(''_enc'', e)]" using e(4) by (simp add: ascii_map_def ascii_def byte_of_def)
  then obtain w where w: "json_unmarshal_map j = Some w" "map_of w = map_of [(''_enc'', e)]"
    using json_map_round_trip e(1) by force
  obtain r where r: "r \<in> set (credentials s')" "credential_place r = (t, p)" "jsonb s j = Some (cd_config r)"
    "cd_webhook_secret r = Some (at_key c ''webhook_secret'')"
    using upsert_row [OF h(2)] e(2) by metis
  obtain w' where "json_unmarshal_map (cd_config r) = Some w'" "map_of w' = [''_enc'' \<mapsto> e]"
    using assms(2) w r(3) unfolding jsonb_ok_def by fastforce
  then show ?thesis using r(1,2,4) e(3) by blast
qed

text \<open>C39. With a configuration that loads in production, what a successful request leaves in the column \<open>config\<close> of the
  row of tenant and provider is a JSON object with a single member, which opens with the configured key to the
  JSON of all that was set. The webhook secret is, besides being sealed with the rest, also kept as it is in a
  column of its own. Of the database this assumes that a JSON object of texts that it accepts keeps its members.\<close>

theorem production_credentials_sealed:
  assumes "Load os = Inr cfg" "cf_AppEnv cfg = ''production''"
    and "cred_svc_SetProviderConfig (cf_CredentialsEncryptionKey cfg) a t p c s = (None, s')" "jsonb_ok s"
  shows "\<exists>r \<in> set (credentials s'). credential_place r = (t, p) \<and> cd_webhook_secret r = Some (at_key c ''webhook_secret'')
    \<and> (\<exists>w e. json_unmarshal_map (cd_config r) = Some w \<and> map_of w = [''_enc'' \<mapsto> e]
         \<and> Decrypt e (cf_CredentialsEncryptionKey cfg) = Inr (json_marshal_map c))"
  by (rule stored_sealed [OF assms(3,4) loaded_config_key(1) [OF assms(1,2)]])

section \<open>Witnesses\<close>

text \<open>A production environment without a switches file.\<close>

definition sample_os :: os_state where
  "sample_os =
     \<lparr>os_env = map_of [(''APP_ENV'', ''production''), (''DATABASE_URL'', ''postgres''), (''BACKOFFICE_JWT_SECRET'', ''secret''),
        (''CREDENTIALS_ENCRYPTION_KEY'', concat (replicate 32 ''0a'')), (''PORT'', ''http''), (''BACKOFFICE_JWT_TTL'', ''1h'')],
      os_dotenv = Map.empty, os_file = (\<lambda>_. None), os_yaml = (\<lambda>_. Inl (Plain ''yaml''))\<rparr>"

lemma sample_os_loads: "\<exists>cfg. Load sample_os = Inr cfg \<and> cf_AppEnv cfg = ''production''"
proof -
  have "(case Load sample_os of Inr cfg \<Rightarrow> cf_AppEnv cfg = ''production'' \<and> cf_Port cfg = 8080 | Inl _ \<Rightarrow> False)" by code_simp
  then show ?thesis by (auto split: sum.splits)
qed

theorem loaded_config_valid_witness:
  "\<exists>cfg. Load sample_os = Inr cfg \<and> length (cf_CredentialsEncryptionKey cfg) = 32"
  using sample_os_loads loaded_config_valid [of sample_os] by blast

theorem config_accepted_witness:
  "\<nexists>cfg. Load (sample_os\<lparr>os_env := (os_env sample_os)(''BACKOFFICE_JWT_SECRET'' := None)\<rparr>) = Inr cfg"
proof -
  let ?os = "sample_os\<lparr>os_env := (os_env sample_os)(''BACKOFFICE_JWT_SECRET'' := None)\<rparr>"
  have "getEnv (with_dotenv ?os) ''APP_ENV'' ''development'' = ''production''" "getEnv (with_dotenv ?os) ''BACKOFFICE_JWT_SECRET'' [] = []"
    by (simp_all add: sample_os_def with_dotenv_def Getenv_def getEnv_def)
  then show ?thesis unfolding config_accepted by blast
qed

theorem production_credentials_sealed_witness:
  "\<exists>cfg s'. Load sample_os = Inr cfg
     \<and> cred_svc_SetProviderConfig (cf_CredentialsEncryptionKey cfg) lenient_adapter 7 ''mercadopago'' mp_config cred_sample_sys = (None, s')
     \<and> (\<exists>r \<in> set (credentials s'). \<exists>w e. json_unmarshal_map (cd_config r) = Some w \<and> map_of w = [''_enc'' \<mapsto> e])"
proof -
  obtain cfg where cfg: "Load sample_os = Inr cfg" "cf_AppEnv cfg = ''production''" using sample_os_loads by blast
  obtain s' where s': "cred_svc_SetProviderConfig (cf_CredentialsEncryptionKey cfg) lenient_adapter 7 ''mercadopago'' mp_config cred_sample_sys = (None, s')"
    using sample_set_ok by blast
  show ?thesis using production_credentials_sealed [OF cfg s' sample_creds_ok(2)] cfg(1) s' by blast
qed

end
