(* ===== verification/Process.thy ===== *)
theory Process
  imports Configuration Subscription
begin

text \<open>
  The process around the handlers: the migration runner (\<open>db/migrate.go\<close>), the capabilities file
  (\<open>provider/capabilities.go\<close>), the start of \<open>cmd/payd/main.go\<close> up to the server, the poller of the
  subscription gauges, and the metrics middleware (\<open>middleware/metrics.go\<close>) with the response writer that
  notes the status, beside that of \<open>middleware/logger.go\<close>. The migration library, the connection pool and the YAML
  parser are parameters.
\<close>

section \<open>Migrations (\<open>db/migrate.go\<close>)\<close>

datatype up_result = Up_Done | Up_NoChange | Up_Failed gerror
datatype version_result = Version nat bool | Nil_Version | Version_Failed gerror

text \<open>What opening a source for a database gives: the result of \<open>Up\<close> and the version afterwards.\<close>

type_synonym migrate_new = "string \<Rightarrow> string \<Rightarrow> gerror + up_result \<times> version_result"

definition run_pending :: "up_result \<times> version_result \<Rightarrow> gerror option" where
  "run_pending m =
     (case fst m of
        Up_Failed err \<Rightarrow> Some (Wrap ''migration failed'' err)
      | _ \<Rightarrow>
          (case snd m of
             Version_Failed err \<Rightarrow> Some (Wrap ''failed to read migration version'' err)
           | Version version dirty \<Rightarrow>
               (if dirty
                then Some (Plain (''migration state is dirty (version '' @ nat_to_string version @ ''), manual intervention required''))
                else None)
           | Nil_Version \<Rightarrow> None))"

fun try_sources :: "migrate_new \<Rightarrow> string \<Rightarrow> string list \<Rightarrow> gerror option \<Rightarrow> gerror option" where
  "try_sources new databaseURL [] none = none"
| "try_sources new databaseURL (candidate # cs) none =
     (case new (''file://'' @ candidate) databaseURL of
        Inl err \<Rightarrow> try_sources new databaseURL cs none
      | Inr m \<Rightarrow> run_pending m)"

definition migration_candidates :: "string \<Rightarrow> string list" where
  "migration_candidates path = [path, ''/app/'' @ path, ''./'' @ path]"

definition RunMigrations :: "migrate_new \<Rightarrow> string \<Rightarrow> string \<Rightarrow> gerror option" where
  "RunMigrations new databaseURL migrationsPath =
     (if databaseURL = [] then Some (Plain ''database URL is required'')
      else let path = (if migrationsPath = [] then ''migrations'' else migrationsPath)
      in if hd path \<noteq> CHR ''/'' \<and> hd path \<noteq> CHR 0x5C
      then try_sources new databaseURL (migration_candidates path)
             (Some (Plain (''migrations not found in any of the expected locations: ['' @ join '' '' (migration_candidates path) @ '']'')))
      else case new (''file://'' @ path) databaseURL of
        Inl err \<Rightarrow> Some (Wrap (''failed to create migrator (source: file://'' @ path @ '')'') err)
      | Inr m \<Rightarrow> run_pending m)"

section \<open>Capabilities file (\<open>provider/capabilities.go\<close>)\<close>

definition LoadCapabilitiesFile ::
  "(string \<Rightarrow> (gerror + string) option) \<Rightarrow> (string \<Rightarrow> gerror + (string \<times> capabilities) list) \<Rightarrow> string
     \<Rightarrow> gerror + (string \<times> capabilities) list" where
  "LoadCapabilitiesFile file yaml path =
     (case file path of
        None \<Rightarrow> Inr []
      | Some (Inl err) \<Rightarrow> Inl (Wrap (''reading capabilities file '' @ path) err)
      | Some (Inr data) \<Rightarrow>
          (case yaml data of
             Inl err \<Rightarrow> Inl (Wrap (''parsing capabilities file '' @ path) err)
           | Inr cfg \<Rightarrow> Inr cfg))"

section \<open>Connection pool (\<open>db/db.go\<close>)\<close>

text \<open>Parsing the URL, making the pool, and a ping, each of which may fail.\<close>

record pgxpool =
  px_ParseConfig :: "string \<Rightarrow> gerror option"
  px_NewWithConfig :: "string \<Rightarrow> gerror option"
  px_Ping :: "string \<Rightarrow> gerror option"

definition NewPool :: "pgxpool \<Rightarrow> string \<Rightarrow> gerror option" where
  "NewPool px databaseURL =
     (case px_ParseConfig px databaseURL of
        Some err \<Rightarrow> Some (Wrap ''failed to parse database URL'' err)
      | None \<Rightarrow>
     (case px_NewWithConfig px databaseURL of
        Some err \<Rightarrow> Some (Wrap ''failed to create connection pool'' err)
      | None \<Rightarrow>
     (case px_Ping px databaseURL of
        Some err \<Rightarrow> Some (Wrap ''failed to ping database'' err)
      | None \<Rightarrow> None)))"

section \<open>Start of the process (\<open>cmd/payd/main.go\<close>)\<close>

record process_env =
  pe_os :: os_state
  pe_version :: string
  pe_migrate :: migrate_new
  pe_pool :: pgxpool
  pe_caps_yaml :: "string \<Rightarrow> gerror + (string \<times> capabilities) list"
  pe_idkey :: idkey
  pe_libs :: bo_libs

definition backoffice_service :: "bo_libs \<Rightarrow> go_config \<Rightarrow> bo_service" where
  "backoffice_service libs cfg =
     \<lparr>bs_libs = libs, bs_jwtSecret = cf_BackofficeJWTSecret cfg, bs_jwtTTL = cf_BackofficeJWTTTL cfg\<rparr>"

definition bootstrap_settings :: "go_config \<Rightarrow> bootstrap_config" where
  "bootstrap_settings cfg =
     \<lparr>bc_TenantName = cf_BootstrapTenantName cfg, bc_TenantEmail = cf_BootstrapTenantEmail cfg,
      bc_TenantSlug = cf_BootstrapTenantSlug cfg, bc_AdminPassword = cf_BootstrapAdminPassword cfg\<rparr>"

text \<open>The steps before the server listens; each but the bootstrap ends the process when it fails. The state is what the
  start leaves in the database, also when it fails.\<close>

definition start_up :: "process_env \<Rightarrow> sys \<Rightarrow> (gerror + go_config \<times> (string \<times> capabilities) list) \<times> sys" where
  "start_up pe s =
     (case Load (pe_os pe) of
        Inl err \<Rightarrow> (Inl err, s)
      | Inr cfg0 \<Rightarrow>
     (let cfg = cfg0\<lparr>cf_AppVersion := pe_version pe\<rparr>
      in case RunMigrations (pe_migrate pe) (cf_DatabaseURL cfg) (cf_MigrationsPath cfg) of
        Some err \<Rightarrow> (Inl err, s)
      | None \<Rightarrow>
     (case NewPool (pe_pool pe) (cf_DatabaseURL cfg) of
        Some err \<Rightarrow> (Inl err, s)
      | None \<Rightarrow>
     (let s1 = bootstrapTenant (pe_idkey pe) (cf_AppEnv cfg) (backoffice_service (pe_libs pe) cfg) (bootstrap_settings cfg) s
      in case LoadCapabilitiesFile (os_file (pe_os pe)) (pe_caps_yaml pe) (cf_ProvidersConfigPath cfg) of
        Inl err \<Rightarrow> (Inl err, s1)
      | Inr yamlCaps \<Rightarrow> (Inr (cfg, yamlCaps), s1)))))"

section \<open>Poller of the subscription gauges (\<open>cmd/payd/main.go\<close>)\<close>

definition known_statuses :: "string list" where
  "known_statuses = [''trialing'', ''active'', ''past_due'', ''canceled'', ''expired'']"

definition poll_gauges :: "sys \<Rightarrow> (string \<rightharpoonup> nat) \<Rightarrow> (string \<rightharpoonup> nat)" where
  "poll_gauges s gauges =
     (case sub_repo_CountByStatus s of
        Inl err \<Rightarrow> gauges
      | Inr counts \<Rightarrow> gauges ++ map_of (map (\<lambda>st. (st, 0)) known_statuses) ++ map_of counts)"

text \<open>The loop, on the states it finds at its ticks until it is stopped.\<close>

fun poller :: "sys list \<Rightarrow> (string \<rightharpoonup> nat) \<Rightarrow> (string \<rightharpoonup> nat)" where
  "poller [] gauges = gauges"
| "poller (s # ticks) gauges = poller ticks (poll_gauges s gauges)"

section \<open>Response writers (\<open>middleware/metrics.go\<close>, \<open>middleware/logger.go\<close>)\<close>

text \<open>What reaches the writer below.\<close>

datatype write_call = Write_Header nat | Write_Body string

record metrics_writer =
  mw_statusCode :: nat
  mw_written :: bool
  mw_out :: "write_call list"

definition newMetricsResponseWriter :: metrics_writer where
  "newMetricsResponseWriter = \<lparr>mw_statusCode = 200, mw_written = False, mw_out = []\<rparr>"

definition metrics_WriteHeader :: "nat \<Rightarrow> metrics_writer \<Rightarrow> metrics_writer" where
  "metrics_WriteHeader code rw =
     (if \<not> mw_written rw
      then rw\<lparr>mw_statusCode := code, mw_written := True, mw_out := mw_out rw @ [Write_Header code]\<rparr> else rw)"

definition metrics_Write :: "string \<Rightarrow> metrics_writer \<Rightarrow> metrics_writer" where
  "metrics_Write b rw =
     (let rw1 = (if \<not> mw_written rw then metrics_WriteHeader 200 rw else rw) in rw1\<lparr>mw_out := mw_out rw1 @ [Write_Body b]\<rparr>)"

fun metrics_call :: "write_call \<Rightarrow> metrics_writer \<Rightarrow> metrics_writer" where
  "metrics_call (Write_Header code) rw = metrics_WriteHeader code rw"
| "metrics_call (Write_Body b) rw = metrics_Write b rw"

record log_writer =
  lw_statusCode :: nat
  lw_out :: "write_call list"

definition log_WriteHeader :: "nat \<Rightarrow> log_writer \<Rightarrow> log_writer" where
  "log_WriteHeader code w = w\<lparr>lw_statusCode := code, lw_out := lw_out w @ [Write_Header code]\<rparr>"

text \<open>The embedded writer's \<open>Write\<close> is inherited.\<close>

fun log_call :: "write_call \<Rightarrow> log_writer \<Rightarrow> log_writer" where
  "log_call (Write_Header code) w = log_WriteHeader code w"
| "log_call (Write_Body b) w = w\<lparr>lw_out := lw_out w @ [Write_Body b]\<rparr>"

text \<open>\<open>net/http\<close>: the status sent is that of the first header, 200 if a body comes first or nothing at all.\<close>

fun sent_status :: "write_call list \<Rightarrow> nat" where
  "sent_status [] = 200"
| "sent_status (Write_Header code # cs) = code"
| "sent_status (Write_Body b # cs) = 200"

text \<open>The counters; a request is the calls its handler makes.\<close>

record http_metrics =
  hm_inFlight :: int
  hm_total :: "string \<times> string \<times> string \<Rightarrow> nat"

definition MetricsMiddleware :: "string \<Rightarrow> string option \<Rightarrow> write_call list \<Rightarrow> http_metrics \<Rightarrow> write_call list \<times> http_metrics" where
  "MetricsMiddleware verb pattern calls m =
     (let m1 = m\<lparr>hm_inFlight := hm_inFlight m + 1\<rparr>;
          rw = fold metrics_call calls newMetricsResponseWriter;
          path = (case pattern of Some p \<Rightarrow> (if p \<noteq> [] then p else ''unknown'') | None \<Rightarrow> ''unknown'');
          key = (verb, path, nat_to_string (mw_statusCode rw));
          m2 = m1\<lparr>hm_total := (hm_total m1)(key := hm_total m1 key + 1)\<rparr>
      in (mw_out rw, m2\<lparr>hm_inFlight := hm_inFlight m2 - 1\<rparr>))"

section \<open>Starting\<close>

definition migration_places :: "string \<Rightarrow> string list" where
  "migration_places migrationsPath =
     (let path = (if migrationsPath = [] then ''migrations'' else migrationsPath)
      in if hd path \<noteq> CHR ''/'' \<and> hd path \<noteq> CHR 0x5C then migration_candidates path else [path])"

lemma try_sources_find:
  "try_sources new url cs none =
     (case find (\<lambda>c. is_ok (new (''file://'' @ c) url)) cs of
        None \<Rightarrow> none
      | Some c \<Rightarrow> (case new (''file://'' @ c) url of Inl err \<Rightarrow> none | Inr m \<Rightarrow> run_pending m))"
  by (induction cs) (auto simp: is_ok_def split: sum.split)

text \<open>The migrations succeed exactly if the first place that can be opened (the path itself, or for a relative path
  also below \<open>/app\<close>) is migrated without an error and is not left dirty; later places are not tried.\<close>

theorem migrations_decide:
  "RunMigrations new url p = None
     \<longleftrightarrow> url \<noteq> [] \<and> (\<exists>c m. find (\<lambda>c. is_ok (new (''file://'' @ c) url)) (migration_places p) = Some c
          \<and> new (''file://'' @ c) url = Inr m \<and> (\<forall>err. fst m \<noteq> Up_Failed err)
          \<and> (snd m = Nil_Version \<or> (\<exists>v. snd m = Version v False)))"
proof -
  have clean: "run_pending m = None \<longleftrightarrow> (\<forall>err. fst m \<noteq> Up_Failed err) \<and> (snd m = Nil_Version \<or> (\<exists>v. snd m = Version v False))" for m
    by (cases "fst m"; cases "snd m") (auto simp: run_pending_def)
  let ?first = "find (\<lambda>c. is_ok (new (''file://'' @ c) url)) (migration_places p)"
  have "RunMigrations new url p = None \<longleftrightarrow> url \<noteq> [] \<and> (\<exists>c m. ?first = Some c \<and> new (''file://'' @ c) url = Inr m \<and> run_pending m = None)"
    unfolding RunMigrations_def migration_places_def Let_def try_sources_find
    by (auto simp: is_ok_def split: option.splits sum.splits)
  then show ?thesis unfolding clean .
qed

text \<open>A process that starts has a valid configuration and migrated its database; a bootstrap that fails does not keep
  it from starting. In production it has a key of 32 bytes, and the secret of its tokens is the configured one.\<close>

theorem started_process:
  assumes "start_up pe s = (Inr (cfg, yamlCaps), s1)"
  shows "RunMigrations (pe_migrate pe) (cf_DatabaseURL cfg) (cf_MigrationsPath cfg) = None \<and> NewPool (pe_pool pe) (cf_DatabaseURL cfg) = None
    \<and> cf_DatabaseURL cfg \<noteq> [] \<and> cf_AppVersion cfg = pe_version pe
    \<and> (cf_AppEnv cfg = ''production'' \<longrightarrow> length (cf_CredentialsEncryptionKey cfg) = 32
        \<and> with_dotenv (pe_os pe) ''BACKOFFICE_JWT_SECRET'' = Some (bs_jwtSecret (backoffice_service (pe_libs pe) cfg)))
    \<and> s1 = bootstrapTenant (pe_idkey pe) (cf_AppEnv cfg) (backoffice_service (pe_libs pe) cfg) (bootstrap_settings cfg) s"
proof -
  obtain cfg0 where l: "Load (pe_os pe) = Inr cfg0" and c: "cfg = cfg0\<lparr>cf_AppVersion := pe_version pe\<rparr>"
    and r: "RunMigrations (pe_migrate pe) (cf_DatabaseURL cfg) (cf_MigrationsPath cfg) = None" "NewPool (pe_pool pe) (cf_DatabaseURL cfg) = None"
      "s1 = bootstrapTenant (pe_idkey pe) (cf_AppEnv cfg) (backoffice_service (pe_libs pe) cfg) (bootstrap_settings cfg) s"
    using assms by (auto simp: start_up_def Let_def split: sum.splits option.splits)
  have f: "cf_BackofficeJWTSecret cfg = cf_BackofficeJWTSecret cfg0" "cf_AppEnv cfg = cf_AppEnv cfg0" "cf_CredentialsEncryptionKey cfg = cf_CredentialsEncryptionKey cfg0" "cf_AppVersion cfg = pe_version pe"
    by (simp_all add: c)
  have "cf_DatabaseURL cfg \<noteq> []" using r(1) by (auto simp: RunMigrations_def)
  then show ?thesis using r f loaded_config_key [OF l] by (simp add: backoffice_service_def)
qed

section \<open>Gauges\<close>

lemma poll_counts:
  assumes "session s \<noteq> Unset" "st \<in> set known_statuses"
  shows "poll_gauges s g st = Some (length (filter (\<lambda>r. visible s (row_tenant r) \<and> sub_Status (sr_sub r) = st) (subscriptions s)))"
proof -
  let ?sts = "map (sub_Status \<circ> sr_sub) (filter (\<lambda>r. visible s (row_tenant r)) (subscriptions s))"
  have n: "count_list ?sts st = length (filter (\<lambda>r. visible s (row_tenant r) \<and> sub_Status (sr_sub r) = st) (subscriptions s))"
    by (simp add: count_list_eq_length_filter filter_map comp_def conj_commute eq_commute [of st])
  have c: "sub_repo_CountByStatus s = Inr (map (\<lambda>st. (st, count_list ?sts st)) (remdups ?sts))"
    using assms(1) by (simp add: sub_repo_CountByStatus_def session_check_None [THEN iffD2] Let_def)
  have "map_of (map (\<lambda>st. (st, count_list ?sts st)) (remdups ?sts)) st = (if st \<in> set ?sts then Some (count_list ?sts st) else None)"
    by (simp add: map_of_map_restrict)
  moreover have "map_of (map (\<lambda>st. (st, 0 :: nat)) known_statuses) st = Some 0" using assms(2) by (simp add: map_of_map_restrict)
  moreover have "st \<notin> set ?sts \<Longrightarrow> count_list ?sts st = 0" by (simp add: count_list_0_iff)
  ultimately show ?thesis unfolding poll_gauges_def c by (simp add: map_add_def n del: set_map)
qed

lemma poller_append: "poller (ts @ us) g = poller us (poller ts g)"
  by (induction ts arbitrary: g) auto

text \<open>After a tick the gauge of each status is the number of subscriptions with it that the session of the
  connection sees: all of them for a role that bypasses row-level security, one tenant's otherwise. On
  connections without a tenant the gauges never change.\<close>

theorem gauges_after_poll:
  assumes "st \<in> set known_statuses"
  shows "(session s \<noteq> Unset \<longrightarrow> poller (ticks @ [s]) g st
       = Some (length (filter (\<lambda>r. (session s = Bypass \<or> session s = Current_Tenant (row_tenant r)) \<and> sub_Status (sr_sub r) = st) (subscriptions s))))
    \<and> ((\<forall>s \<in> set ticks. session s = Unset) \<longrightarrow> poller ticks g = g)"
proof (intro conjI impI)
  assume "session s \<noteq> Unset"
  moreover have "visible s t \<longleftrightarrow> session s = Bypass \<or> session s = Current_Tenant t" for t
    by (cases "session s") (auto simp: visible_def)
  ultimately show "poller (ticks @ [s]) g st = Some (length (filter (\<lambda>r. (session s = Bypass \<or> session s = Current_Tenant (row_tenant r))
      \<and> sub_Status (sr_sub r) = st) (subscriptions s)))"
    using poll_counts [of s st] assms by (simp add: poller_append)
next
  assume "\<forall>s \<in> set ticks. session s = Unset"
  then show "poller ticks g = g"
  proof (induction ticks)
    case (Cons s ticks)
    then have "poll_gauges s g = g" by (simp add: poll_gauges_def sub_repo_CountByStatus_def session_check_def)
    then show ?case using Cons by simp
  qed simp
qed

section \<open>Recorded statuses\<close>

lemma metrics_calls:
  "mw_written rw \<Longrightarrow> mw_statusCode (fold metrics_call calls rw) = mw_statusCode rw
     \<and> (\<exists>out. mw_out (fold metrics_call calls rw) = mw_out rw @ out \<and> (\<forall>c \<in> set out. \<exists>b. c = Write_Body b))"
proof (induction calls arbitrary: rw)
  case (Cons c calls)
  show ?case using Cons.IH [of "metrics_call c rw"] Cons.prems
    by (cases c) (auto simp: metrics_WriteHeader_def metrics_Write_def)
qed simp

text \<open>The metrics count a request under the status that its client gets, whatever the handler writes, and the number
  of requests in flight is as before; the writer of the logger notes the last header instead, so a second
  one, which the client never sees, is what is logged.\<close>

theorem counted_status_is_sent:
  "snd (MetricsMiddleware verb (Some p) calls m)
     = m\<lparr>hm_total := (hm_total m)((verb, if p = [] then ''unknown'' else p, nat_to_string (sent_status calls)) :=
          hm_total m (verb, if p = [] then ''unknown'' else p, nat_to_string (sent_status calls)) + 1)\<rparr>
   \<and> sent_status (fst (MetricsMiddleware verb (Some p) calls m)) = sent_status calls
   \<and> lw_statusCode (fold log_call (calls @ [Write_Header code]) lw) = code"
proof -
  have "mw_statusCode (fold metrics_call calls newMetricsResponseWriter) = sent_status calls
      \<and> sent_status (mw_out (fold metrics_call calls newMetricsResponseWriter)) = sent_status calls"
  proof (cases calls)
    case (Cons c cs)
    show ?thesis using metrics_calls [of "metrics_call c newMetricsResponseWriter" cs] Cons
      by (cases c) (auto simp: metrics_WriteHeader_def metrics_Write_def newMetricsResponseWriter_def)
  qed (simp add: newMetricsResponseWriter_def)
  then show ?thesis by (simp add: MetricsMiddleware_def Let_def log_WriteHeader_def)
qed

section \<open>Witnesses\<close>

definition sample_process :: process_env where
  "sample_process =
     \<lparr>pe_os = sample_os, pe_version = ''1.0'',
      pe_migrate = (\<lambda>source url. if source = ''file:///app/migrations'' then Inr (Up_NoChange, Version 9 False) else Inl (Plain ''open'')),
      pe_pool = \<lparr>px_ParseConfig = (\<lambda>_. None), px_NewWithConfig = (\<lambda>_. None), px_Ping = (\<lambda>_. None)\<rparr>, pe_caps_yaml = (\<lambda>_. Inr []), pe_idkey = (\<lambda>_ _ _ _ _ _. []),
      pe_libs = \<lparr>lb_hash = (\<lambda>pw salt. Inr pw), lb_compare = (=), lb_sign = (\<lambda>_ _. Inl (Plain ''sign'')),
        lb_parse = (\<lambda>_ _ _. Inl (Plain ''parse'')), lb_uuid_string = (\<lambda>_. []), lb_uuid_parse = (\<lambda>_. None)\<rparr>\<rparr>"

theorem migrations_decide_witness:
  "RunMigrations (pe_migrate sample_process) ''url'' [] = None"
  unfolding migrations_decide by (simp add: sample_process_def migration_places_def migration_candidates_def is_ok_def Let_def)

theorem started_process_witness:
  "\<exists>cfg caps s1. start_up sample_process cred_sample_sys = (Inr (cfg, caps), s1) \<and> length (cf_CredentialsEncryptionKey cfg) = 32"
proof -
  have "(case fst (start_up sample_process cred_sample_sys) of Inr (cfg, caps) \<Rightarrow> cf_AppEnv cfg = ''production'' | Inl e \<Rightarrow> False)"
    by code_simp
  then obtain cfg caps s1 where "start_up sample_process cred_sample_sys = (Inr (cfg, caps), s1)" "cf_AppEnv cfg = ''production''"
    by (cases "start_up sample_process cred_sample_sys") (auto split: sum.splits)
  then show ?thesis using started_process by blast
qed

theorem gauges_after_poll_witness:
  "poller [cred_sample_sys\<lparr>session := Unset\<rparr>] Map.empty = Map.empty
     \<and> poller [cred_sample_sys\<lparr>session := Bypass\<rparr>] Map.empty ''active'' \<noteq> None"
  using gauges_after_poll [of "''active''" "cred_sample_sys\<lparr>session := Bypass\<rparr>" "[cred_sample_sys\<lparr>session := Unset\<rparr>]" Map.empty]
    gauges_after_poll [of "''active''" "cred_sample_sys\<lparr>session := Bypass\<rparr>" "[]" Map.empty]
  by (simp add: known_statuses_def)

end
