(* ===== verification/Ui.thy ===== *)
theory Ui
  imports Go_Strings
begin

text \<open>
  \<open>cmd/payd/ui.go\<close>: the files of the backoffice interface. \<open>filepath.Clean\<close>, \<open>Join\<close> and \<open>Abs\<close> are those of a
  Unix system; the file system is a parameter. Of \<open>http.FileServer\<close> the model has what the handler reaches:
  a path of a file that exists, answered with its content, or with the redirect of \<open>index.html\<close>; headers of
  the request that ask for a range or for a newer version are ignored.
\<close>

section \<open>Paths (\<open>path/filepath\<close>)\<close>

text \<open>One element of a path, after those kept so far.\<close>

definition clean_step :: "bool \<Rightarrow> string list \<Rightarrow> string \<Rightarrow> string list" where
  "clean_step rooted kept e =
     (if e = [] \<or> e = ''.'' then kept
      else if e = ''..'' then
        (if kept \<noteq> [] \<and> last kept \<noteq> ''..'' then butlast kept else if rooted then kept else kept @ [''..''])
      else kept @ [e])"

definition is_rooted :: "string \<Rightarrow> bool" where
  "is_rooted path \<longleftrightarrow> path \<noteq> [] \<and> hd path = CHR ''/''"

definition clean_elements :: "string \<Rightarrow> string list" where
  "clean_elements path = foldl (clean_step (is_rooted path)) [] (go_split (CHR ''/'') path)"

definition Clean :: "string \<Rightarrow> string" where
  "Clean path =
     (let es = clean_elements path
      in if is_rooted path then CHR ''/'' # join ''/'' es else if es = [] then ''.'' else join ''/'' es)"

fun path_join :: "string list \<Rightarrow> string" where
  "path_join [] = []"
| "path_join (e # es) = (if e \<noteq> [] then Clean (join ''/'' (e # es)) else path_join es)"

text \<open>\<open>filepath.Abs\<close>, whose error the handler drops: the path is then empty.\<close>

definition path_abs :: "string option \<Rightarrow> string \<Rightarrow> string" where
  "path_abs cwd path =
     (if is_rooted path then Clean path
      else case cwd of None \<Rightarrow> [] | Some d \<Rightarrow> path_join [d, path])"

section \<open>Handler\<close>

text \<open>\<open>os.Stat\<close> tells whether a path exists and is a directory; \<open>os.Open\<close> gives the content, or the status with
  which \<open>net/http\<close> answers the error.\<close>

record file_system =
  fs_stat :: "string \<Rightarrow> bool option"
  fs_open :: "string \<Rightarrow> nat + string"
  fs_cwd :: "string option"

datatype ui_response =
    Ui_File string
  | Ui_Index string
  | Ui_Redirect nat string
  | Ui_Error nat

definition dist_candidates :: "string list" where
  "dist_candidates = [''./ui/dist'', ''../ui/dist'', ''/app/ui/dist'']"

definition find_dist :: "file_system \<Rightarrow> string option" where
  "find_dist fs = find (\<lambda>c. fs_stat fs c = Some True) dist_candidates"

definition isAPIPath :: "string \<Rightarrow> bool" where
  "isAPIPath path \<longleftrightarrow> prefix ''/v1'' path \<or> prefix ''/webhooks'' path"

definition has_suffix :: "string \<Rightarrow> string \<Rightarrow> bool" where
  "has_suffix s t \<longleftrightarrow> suffix t s"

definition trim_prefix :: "string \<Rightarrow> string \<Rightarrow> string" where
  "trim_prefix s p = (if prefix p s then drop (length p) s else s)"

text \<open>\<open>http.FileServer(http.Dir(distPath))\<close> on a path that begins with a slash and names a file.\<close>

definition file_server :: "file_system \<Rightarrow> string \<Rightarrow> string \<Rightarrow> ui_response" where
  "file_server fs dist urlPath =
     (if has_suffix urlPath ''/index.html'' then Ui_Redirect 301 ''./''
      else case fs_open fs (path_join [dist, Clean urlPath]) of Inl status \<Rightarrow> Ui_Error status | Inr content \<Rightarrow> Ui_File content)"

definition ui_file_path :: "string \<Rightarrow> string" where
  "ui_file_path urlPath =
     (let filePath = (if prefix ''/backoffice'' urlPath then trim_prefix urlPath ''/backoffice'' else urlPath);
          filePath = (if filePath = [] then ''/'' else filePath);
          filePath = Clean filePath
      in trim_prefix filePath ''/'')"

definition ui_handler :: "file_system \<Rightarrow> string \<Rightarrow> string \<Rightarrow> ui_response" where
  "ui_handler fs distPath urlPath =
     (let filePath = ui_file_path urlPath;
          fullPath = path_join [distPath, filePath];
          absDistPath = path_abs (fs_cwd fs) distPath;
          absFullPath = path_abs (fs_cwd fs) fullPath
      in if \<not> prefix absDistPath absFullPath then Ui_Error 403
         else if fs_stat fs fullPath = Some False then file_server fs distPath (CHR ''/'' # filePath)
         else if \<not> isAPIPath urlPath
         then (case fs_open fs (path_join [distPath, ''index.html'']) of
                 Inl status \<Rightarrow> Ui_Error 404
               | Inr content \<Rightarrow> Ui_Index content)
         else Ui_Error 404)"

definition serveUI :: "file_system \<Rightarrow> string \<Rightarrow> ui_response" where
  "serveUI fs urlPath = (case find_dist fs of None \<Rightarrow> Ui_Error 404 | Some distPath \<Rightarrow> ui_handler fs distPath urlPath)"

section \<open>Elements of a path\<close>

text \<open>An element that stays as it is.\<close>

definition plain_element :: "string \<Rightarrow> bool" where
  "plain_element e \<longleftrightarrow> e \<notin> {[], ''.'', ''..''} \<and> CHR ''/'' \<notin> set e"

text \<open>The path that descends from a directory.\<close>

definition below :: "string \<Rightarrow> string list \<Rightarrow> string" where
  "below dir es = dir @ concat (map (\<lambda>e. CHR ''/'' # e) es)"

lemma below_simps [simp]: "below dir [] = dir" "below dir (e # es) = below (dir @ CHR ''/'' # e) es"
  by (simp_all add: below_def)

lemma prefix_below: "prefix dir (below dir es)"
  by (simp add: below_def)

lemma go_split_append_any: "go_split c (s @ c # t) = go_split c s @ go_split c t"
proof (induction s)
  case (Cons a s)
  then show ?case by (cases "go_split c s") (auto split: list.split)
qed simp

lemma go_split_parts: "p \<in> set (go_split c s) \<Longrightarrow> c \<notin> set p"
proof (induction s arbitrary: p)
  case (Cons a s)
  then show ?case by (cases "go_split c s") (auto split: if_splits)
qed simp

lemma go_split_below:
  "\<forall>e \<in> set es. plain_element e \<Longrightarrow> go_split (CHR ''/'') (below dir es) = go_split (CHR ''/'') dir @ es"
  by (induction es arbitrary: dir) (simp_all add: go_split_append_any go_split_no_sep plain_element_def)

lemma fold_plain: "\<forall>e \<in> set es. plain_element e \<Longrightarrow> foldl (clean_step r) kept es = kept @ es"
  by (induction es arbitrary: kept) (auto simp: clean_step_def plain_element_def)

lemma rooted_below: "is_rooted dir \<Longrightarrow> is_rooted (below dir es)" "dir \<noteq> [] \<Longrightarrow> is_rooted (below dir es) = is_rooted dir"
  by (auto simp: is_rooted_def below_def)

lemma clean_below:
  assumes "\<forall>e \<in> set es. plain_element e" "dir \<noteq> []"
  shows "clean_elements (below dir es) = clean_elements dir @ es"
  using assms by (simp add: clean_elements_def go_split_below fold_plain rooted_below)

lemma join_below: "d # ds \<noteq> [] \<Longrightarrow> join ''/'' ((d # ds) @ es) = below (join ''/'' (d # ds)) es"
proof (induction ds arbitrary: d)
  case Nil
  show ?case
  proof (induction es arbitrary: d)
    case (Cons e es)
    have "below (d @ CHR ''/'' # e) es = d @ CHR ''/'' # below e es" by (simp add: below_def)
    with Cons show ?case by (cases es) simp_all
  qed simp
next
  case (Cons d' ds)
  then show ?case by (simp add: below_def)
qed

text \<open>Cleaning a rooted path keeps plain elements only.\<close>

lemma fold_rooted:
  assumes "\<forall>e \<in> set kept. plain_element e" "\<forall>e \<in> set es. CHR ''/'' \<notin> set e"
  shows "\<forall>e \<in> set (foldl (clean_step True) kept es). plain_element e"
  using assms
proof (induction es arbitrary: kept)
  case (Cons e es)
  have "\<forall>x \<in> set (clean_step True kept e). plain_element x"
    using Cons.prems by (auto simp: clean_step_def plain_element_def dest: in_set_butlastD)
  then show ?case using Cons by simp
qed simp

lemma clean_rooted: "is_rooted path \<Longrightarrow> \<forall>e \<in> set (clean_elements path). plain_element e"
proof -
  assume r: "is_rooted path"
  have "\<forall>e \<in> set (go_split (CHR ''/'') path). CHR ''/'' \<notin> set e" using go_split_parts by blast
  then show ?thesis using fold_rooted [of "[]"] by (simp add: clean_elements_def r)
qed

lemma Clean_below:
  assumes "\<forall>e \<in> set es. plain_element e" "clean_elements dir \<noteq> []" "dir \<noteq> []"
  shows "Clean (below dir es) = below (Clean dir) es"
proof -
  obtain d ds where ds: "clean_elements dir = d # ds" using assms(2) by (cases "clean_elements dir") auto
  note j = join_below [of d ds es, folded ds, simplified]
  have b: "CHR ''/'' # below x es = below (CHR ''/'' # x) es" for x by (simp add: below_def)
  show ?thesis
    using assms j by (simp add: Clean_def Let_def clean_below rooted_below(2) b)
qed

lemma join_cons_below: "dir @ CHR ''/'' # join ''/'' (e # es) = below dir (e # es)"
  by (induction es arbitrary: dir e) (auto simp: below_def)

text \<open>Joining a directory with plain elements.\<close>

lemma path_join_below:
  assumes "\<forall>e \<in> set es. plain_element e" "clean_elements dir \<noteq> []" "dir \<noteq> []"
  shows "path_join [dir, join ''/'' es] = below (Clean dir) es"
proof (cases es)
  case Nil
  have "clean_elements (dir @ ''/'') = clean_elements dir" "is_rooted (dir @ ''/'') = is_rooted dir"
    using assms(3) by (simp_all add: clean_elements_def go_split_append_any [of _ dir "[]", simplified] is_rooted_def clean_step_def)
  then show ?thesis using Nil assms(3) by (simp add: Clean_def)
next
  case (Cons e es')
  then show ?thesis using assms Clean_below [OF assms] join_cons_below [of dir e es'] by simp
qed

lemma clean_rooted_join: "\<forall>e \<in> set es. plain_element e \<Longrightarrow> Clean (CHR ''/'' # join ''/'' es) = CHR ''/'' # join ''/'' es"
proof -
  assume es: "\<forall>e \<in> set es. plain_element e"
  have "clean_elements (CHR ''/'' # join ''/'' es) = es"
  proof (cases es)
    case Nil
    show ?thesis unfolding Nil by code_simp
  next
    case (Cons e es')
    have "CHR ''/'' # join ''/'' es = below [] es" using join_cons_below [of "[]" e es'] Cons by simp
    then show ?thesis using es by (simp add: clean_elements_def go_split_below fold_plain clean_step_def)
  qed
  then show ?thesis by (simp add: Clean_def is_rooted_def)
qed

lemma path_join_slash: "dir \<noteq> [] \<Longrightarrow> path_join [dir, CHR ''/'' # x] = path_join [dir, x]"
proof -
  assume d: "dir \<noteq> []"
  have "clean_elements (dir @ CHR ''/'' # CHR ''/'' # x) = clean_elements (dir @ CHR ''/'' # x)"
    using d by (simp add: clean_elements_def is_rooted_def go_split_append_any go_split_append_any [of _ "[]", simplified] clean_step_def del: go_split.simps)
      (simp add: clean_step_def)
  then show ?thesis using d by (simp add: Clean_def is_rooted_def)
qed

section \<open>The candidates\<close>

lemma dist_facts:
  assumes "dist \<in> set dist_candidates"
  shows "dist \<noteq> []" "clean_elements dist \<noteq> []" "Clean dist \<noteq> []" "is_rooted (Clean dist) = is_rooted dist"
    "is_rooted dist \<Longrightarrow> Clean (Clean dist) = Clean dist \<and> clean_elements (Clean dist) \<noteq> []"
proof -
  have "list_all (\<lambda>d. d \<noteq> [] \<and> clean_elements d \<noteq> [] \<and> Clean d \<noteq> [] \<and> is_rooted (Clean d) = is_rooted d
      \<and> (is_rooted d \<longrightarrow> Clean (Clean d) = Clean d \<and> clean_elements (Clean d) \<noteq> [])) dist_candidates"
    by code_simp
  then have "dist \<noteq> [] \<and> clean_elements dist \<noteq> [] \<and> Clean dist \<noteq> [] \<and> is_rooted (Clean dist) = is_rooted dist
      \<and> (is_rooted dist \<longrightarrow> Clean (Clean dist) = Clean dist \<and> clean_elements (Clean dist) \<noteq> [])"
    using assms unfolding list_all_iff by (rule bspec)
  then show "dist \<noteq> []" "clean_elements dist \<noteq> []" "Clean dist \<noteq> []" "is_rooted (Clean dist) = is_rooted dist"
    "is_rooted dist \<Longrightarrow> Clean (Clean dist) = Clean dist \<and> clean_elements (Clean dist) \<noteq> []"
    by blast+
qed

lemma dist_relative:
  assumes "dist \<in> set dist_candidates" "\<not> is_rooted dist" "is_rooted d"
  shows "clean_elements (d @ CHR ''/'' # Clean dist) = clean_elements (d @ CHR ''/'' # dist)"
    "clean_elements (d @ CHR ''/'' # dist) \<noteq> []"
proof -
  have docker: "is_rooted ''/app/ui/dist''" by code_simp
  have "dist = ''./ui/dist'' \<or> dist = ''../ui/dist'' \<or> dist = ''/app/ui/dist''"
    using assms(1) unfolding dist_candidates_def list.set by (elim insertE emptyE) (simp_all only: disj_commute simp_thms)
  then have d: "dist = ''./ui/dist'' \<or> dist = ''../ui/dist''"
    using docker assms(2) by (elim disjE) (simp_all only: simp_thms)
  have c: "Clean ''./ui/dist'' = ''ui/dist''" "Clean ''../ui/dist'' = ''../ui/dist''" by code_simp+
  have r: "is_rooted (d @ CHR ''/'' # x)" for x using assms(3) by (simp add: is_rooted_def)
  have s: "go_split (CHR ''/'') ''./ui/dist'' = [''.'', ''ui'', ''dist'']" "go_split (CHR ''/'') ''../ui/dist'' = [''..'', ''ui'', ''dist'']"
    "go_split (CHR ''/'') ''ui/dist'' = [''ui'', ''dist'']" by code_simp+
  show "clean_elements (d @ CHR ''/'' # Clean dist) = clean_elements (d @ CHR ''/'' # dist)"
    using d by (elim disjE) (simp_all add: c clean_elements_def r go_split_append_any s clean_step_def del: go_split.simps)
  show "clean_elements (d @ CHR ''/'' # dist) \<noteq> []"
    using d by (elim disjE) (simp_all add: clean_elements_def r go_split_append_any s clean_step_def del: go_split.simps)
qed

text \<open>The guard of the handler holds for every path below the directory.\<close>

lemma within_dist:
  assumes "dist \<in> set dist_candidates" "\<forall>e \<in> set es. plain_element e" "\<forall>d. cwd = Some d \<longrightarrow> is_rooted d"
  shows "prefix (path_abs cwd dist) (path_abs cwd (below (Clean dist) es))"
proof (cases "is_rooted dist")
  case True
  then show ?thesis
    using dist_facts [OF assms(1)] assms(2) by (simp add: path_abs_def rooted_below Clean_below prefix_below)
next
  case False
  show ?thesis
  proof (cases cwd)
    case None
    then show ?thesis using False dist_facts [OF assms(1)] by (simp add: path_abs_def rooted_below)
  next
    case (Some d)
    then have d: "is_rooted d" "d \<noteq> []" using assms(3) by (auto simp: is_rooted_def)
    have r: "is_rooted (d @ CHR ''/'' # x)" for x using d by (simp add: is_rooted_def)
    have "d @ CHR ''/'' # below (Clean dist) es = below (d @ CHR ''/'' # Clean dist) es" by (simp add: below_def)
    moreover have "Clean (below (d @ CHR ''/'' # Clean dist) es) = below (Clean (d @ CHR ''/'' # Clean dist)) es"
      using assms(2) dist_relative [OF assms(1) False d(1)] by (intro Clean_below) simp_all
    moreover have "Clean (d @ CHR ''/'' # Clean dist) = Clean (d @ CHR ''/'' # dist)"
      using dist_relative [OF assms(1) False d(1)] by (simp add: Clean_def r)
    ultimately show ?thesis
      using False Some d dist_facts [OF assms(1)] by (simp add: path_abs_def rooted_below prefix_below)
  qed
qed

lemma ui_file_path_elements:
  "\<forall>e \<in> set (clean_elements (CHR ''/'' # rest)). plain_element e"
  "ui_file_path (''/backoffice/'' @ rest) = join ''/'' (clean_elements (CHR ''/'' # rest))"
proof -
  have "is_rooted (CHR ''/'' # rest)" by (simp add: is_rooted_def)
  then show "\<forall>e \<in> set (clean_elements (CHR ''/'' # rest)). plain_element e" by (rule clean_rooted)
  show "ui_file_path (''/backoffice/'' @ rest) = join ''/'' (clean_elements (CHR ''/'' # rest))"
    by (simp add: ui_file_path_def trim_prefix_def Clean_def is_rooted_def Let_def)
qed

text \<open>C40. A request for \<open>/backoffice/\<close> followed by any text is about the file of the interface's directory that
  this text names when its elements are resolved from that directory (empty ones and \<open>.\<close> dropped, \<open>..\<close> taking the
  one before away, and nothing at the top), so that only plain elements are left: no path leaves the directory.
  If that is a file it is what is served (but a redirect for an \<open>index.html\<close>); for every other path it is the
  index page of the directory, so none is refused.\<close>

theorem ui_serves_within_dist:
  fixes rest :: string
  assumes "find_dist fs = Some dist" "\<forall>d. fs_cwd fs = Some d \<longrightarrow> is_rooted d"
  defines "es \<equiv> clean_elements (CHR ''/'' # rest)"
  shows "(\<forall>e \<in> set es. plain_element e)
    \<and> serveUI fs (''/backoffice/'' @ rest)
       = (if fs_stat fs (below (Clean dist) es) = Some False
          then if suffix ''/index.html'' (below [] es) then Ui_Redirect 301 ''./''
               else case fs_open fs (below (Clean dist) es) of Inl status \<Rightarrow> Ui_Error status | Inr content \<Rightarrow> Ui_File content
          else case fs_open fs (below (Clean dist) [''index.html'']) of Inl status \<Rightarrow> Ui_Error 404 | Inr content \<Rightarrow> Ui_Index content)"
proof -
  have dist: "dist \<in> set dist_candidates" using assms(1) by (auto simp: find_dist_def dest: find_SomeD)
  note facts = dist_facts [OF dist]
  note es = ui_file_path_elements [of rest, folded es_def]
  note full = path_join_below [OF es(1) facts(2,1)]
  have index: "path_join [dist, ''index.html''] = below (Clean dist) [''index.html'']"
    using path_join_below [of "[''index.html'']", OF _ facts(2,1)] by (simp add: plain_element_def)
  have api: "\<not> isAPIPath (''/backoffice/'' @ rest)" by (simp add: isAPIPath_def)
  have rel: "CHR ''/'' # join ''/'' es = (if es = [] then ''/'' else below [] es)"
    using join_cons_below [of "[]"] by (cases es) simp_all
  have "file_server fs dist (CHR ''/'' # join ''/'' es)
      = (if suffix ''/index.html'' (below [] es) then Ui_Redirect 301 ''./''
         else case fs_open fs (below (Clean dist) es) of Inl status \<Rightarrow> Ui_Error status | Inr content \<Rightarrow> Ui_File content)"
  proof -
    have "suffix ''/index.html'' (CHR ''/'' # join ''/'' es) = suffix ''/index.html'' (below [] es)"
      unfolding rel by (auto simp: suffix_def)
    moreover have "path_join [dist, Clean (CHR ''/'' # join ''/'' es)] = below (Clean dist) es"
      by (simp only: clean_rooted_join [OF es(1)] path_join_slash [OF facts(1)] full)
    ultimately show ?thesis by (simp add: file_server_def has_suffix_def)
  qed
  moreover have "prefix (path_abs (fs_cwd fs) dist) (path_abs (fs_cwd fs) (below (Clean dist) es))"
    by (rule within_dist [OF dist es(1) assms(2)])
  ultimately have "serveUI fs (''/backoffice/'' @ rest)
       = (if fs_stat fs (below (Clean dist) es) = Some False
          then if suffix ''/index.html'' (below [] es) then Ui_Redirect 301 ''./''
               else case fs_open fs (below (Clean dist) es) of Inl status \<Rightarrow> Ui_Error status | Inr content \<Rightarrow> Ui_File content
          else case fs_open fs (below (Clean dist) [''index.html'']) of Inl status \<Rightarrow> Ui_Error 404 | Inr content \<Rightarrow> Ui_Index content)"
    unfolding serveUI_def assms(1) option.case ui_handler_def Let_def es(2) full index if_not_P [OF api] using api by simp
  then show ?thesis using es(1) by blast
qed

definition sample_fs :: file_system where
  "sample_fs =
     \<lparr>fs_stat = (\<lambda>p. if p = ''/app/ui/dist'' then Some True else if p = ''/app/ui/dist/app.js'' then Some False else None),
      fs_open = (\<lambda>p. if p = ''/app/ui/dist/app.js'' then Inr ''script'' else if p = ''/app/ui/dist/index.html'' then Inr ''page'' else Inl 404),
      fs_cwd = Some ''/app''\<rparr>"

theorem ui_serves_within_dist_witness:
  "serveUI sample_fs (''/backoffice/'' @ ''x/../../../app.js'') = Ui_File ''script''
   \<and> serveUI sample_fs (''/backoffice/'' @ ''plans/7'') = Ui_Index ''page''"
proof -
  have "find_dist sample_fs = Some ''/app/ui/dist''" by code_simp
  moreover have "\<forall>d. fs_cwd sample_fs = Some d \<longrightarrow> is_rooted d" by (simp add: sample_fs_def is_rooted_def)
  ultimately have ui: "serveUI sample_fs (''/backoffice/'' @ rest) = (let es = clean_elements (CHR ''/'' # rest)
       in if fs_stat sample_fs (below (Clean ''/app/ui/dist'') es) = Some False
          then if suffix ''/index.html'' (below [] es) then Ui_Redirect 301 ''./''
               else case fs_open sample_fs (below (Clean ''/app/ui/dist'') es) of Inl status \<Rightarrow> Ui_Error status | Inr content \<Rightarrow> Ui_File content
          else case fs_open sample_fs (below (Clean ''/app/ui/dist'') [''index.html'']) of Inl status \<Rightarrow> Ui_Error 404 | Inr content \<Rightarrow> Ui_Index content)" for rest
    using ui_serves_within_dist [of sample_fs "''/app/ui/dist''" rest] by (simp only: Let_def)
  have e: "clean_elements (CHR ''/'' # ''x/../../../app.js'') = [''app.js'']" "clean_elements (CHR ''/'' # ''plans/7'') = [''plans'', ''7'']"
    "below (Clean ''/app/ui/dist'') [''app.js''] = ''/app/ui/dist/app.js''"
    "below (Clean ''/app/ui/dist'') [''plans'', ''7''] = ''/app/ui/dist/plans/7''"
    "below (Clean ''/app/ui/dist'') [''index.html''] = ''/app/ui/dist/index.html''"
    "suffix ''/index.html'' (below [] [''app.js'']) = False"
    "fs_stat sample_fs ''/app/ui/dist/app.js'' = Some False" "fs_stat sample_fs ''/app/ui/dist/plans/7'' = None"
    "fs_open sample_fs ''/app/ui/dist/app.js'' = Inr ''script''" "fs_open sample_fs ''/app/ui/dist/index.html'' = Inr ''page''"
    by code_simp+
  show ?thesis unfolding ui Let_def e by simp
qed

end
