(* ===== verification/Routes.thy ===== *)
theory Routes
  imports Process Rate_Limit Webhook Subscription_Service Backoffice_Service Ui
begin

text \<open>
  The router: the route tables of the handlers (\<open>RegisterRoutes\<close> and its kin), their mounting by
  \<open>middleware/router.go\<close> and \<open>cmd/payd/main.go\<close>, and \<open>serve\<close>, which takes a request through the middlewares
  to its handler. Which entry of the table a method and a path reach is decided by the library chi, a parameter;
  so are the decoding of JSON bodies into structs and, as elsewhere, the libraries of the backoffice and the
  adapter of the providers. The metrics middleware, which changes no response, is in \<open>Process\<close>.
\<close>

section \<open>Requests\<close>

text \<open>Headers by the names the handlers ask for (the library ignores their case), empty when missing; the values of a
  query parameter; the body, \<open>None\<close> when reading it fails.\<close>

record http_request =
  hq_method :: string
  hq_path :: string
  hq_header :: "string \<Rightarrow> string"
  hq_query :: "string \<Rightarrow> string list"
  hq_body :: "string option"

definition query_get :: "http_request \<Rightarrow> string \<Rightarrow> string" where
  "query_get r k = (case hq_query r k of [] \<Rightarrow> [] | v # vs \<Rightarrow> v)"

definition auth_header :: "http_request \<Rightarrow> string" where
  "auth_header r = hq_header r ''Authorization''"

text \<open>\<open>json.NewDecoder(r.Body).Decode\<close> into the structs of the handlers.\<close>

record decoders =
  dc_signup :: "string option \<Rightarrow> gerror + signup_input"
  dc_create_key :: "string option \<Rightarrow> gerror + create_key_input"
  dc_default_provider :: "string option \<Rightarrow> gerror + string"
  dc_config :: "string option \<Rightarrow> gerror + config"
  dc_plan :: "string option \<Rightarrow> gerror + create_plan_input"
  dc_plan_patch :: "string option \<Rightarrow> gerror + update_plan_input"
  dc_payment :: "string option \<Rightarrow> gerror + create_payment_input"
  dc_subscription :: "string option \<Rightarrow> gerror + create_subscription_input"
  dc_raw :: "string option \<Rightarrow> gerror + raw_object"
  dc_cancel :: "string option \<Rightarrow> gerror + bool"
  dc_check_email :: "string option \<Rightarrow> string option"
  dc_login :: "string option \<Rightarrow> login_request option"
  dc_profile :: "string option \<Rightarrow> string option"
  dc_create_user :: "string option \<Rightarrow> create_user_request option"
  dc_change_password :: "string option \<Rightarrow> change_password_request option"

text \<open>What the handlers encode.\<close>

datatype body =
    B_Text string
  | B_Fields "(string \<times> string) list"
  | B_Signup signup_response
  | B_New_Key plaintext_key
  | B_Keys "api_key list"
  | B_Tenant tenant
  | B_Providers "string list"
  | B_Provider_Status "string \<times> bool"
  | B_Plan plan
  | B_Plans list_plans_result
  | B_Payment payment
  | B_Payments list_payments_result
  | B_Payment_List "payment list"
  | B_Subscription subscription
  | B_Subscriptions list_subscriptions_result
  | B_Check_Email check_email_response
  | B_Login login_response
  | B_User user
  | B_Users "user list"
  | B_Empty unit
  | B_Ui ui_response

section \<open>The tables of the handlers\<close>

datatype endpoint =
    Health | Me
  | Signup | Create_Key | List_Keys | Revoke_Key | Set_Default_Provider
  | Webhook_Post
  | Set_Credentials | List_Providers | Provider_Status | Delete_Credentials
  | Plan_List | Plan_Create | Plan_By_ID | Plan_By_Slug | Plan_Update | Plan_Delete
  | Payment_List | Payment_Create | Payment_By_Subscription
  | Sub_List | Sub_Create | Sub_Get | Sub_Update | Sub_Cancel
  | Check_Email | Login | Bo_Me | Bo_Update | Bo_Create_User | Bo_List_Users | Bo_Deactivate | Bo_Password
  | Ui_Redirect_Root | Ui_Files

text \<open>An entry of a router: a handler for a method and a pattern, or a mounted subrouter, which answers the paths
  below its pattern that it has no handler for.\<close>

datatype entry = Handle string string endpoint | Mounted string

text \<open>\<open>r.Route(prefix, ..)\<close>.\<close>

fun under :: "string \<Rightarrow> entry \<Rightarrow> entry" where
  "under p (Handle verb pattern h) = Handle verb (p @ pattern) h"
| "under p (Mounted pattern) = Mounted (p @ pattern)"

definition chi_Route :: "string \<Rightarrow> entry list \<Rightarrow> entry list" where
  "chi_Route p es = Mounted (p @ ''/*'') # map (under p) es"

definition tenant_RegisterRoutes :: "entry list" where
  "tenant_RegisterRoutes = [Handle ''POST'' ''/signup'' Signup]"

definition tenant_RegisterAuthRoutes :: "entry list" where
  "tenant_RegisterAuthRoutes =
     [Handle ''POST'' ''/keys'' Create_Key, Handle ''GET'' ''/keys'' List_Keys, Handle ''DELETE'' ''/keys/{keyID}'' Revoke_Key,
      Handle ''POST'' ''/config/default-provider'' Set_Default_Provider]"

definition webhook_RegisterRoutes :: "entry list" where
  "webhook_RegisterRoutes = [Handle ''POST'' ''/webhooks/{webhookSecret}'' Webhook_Post]"

definition cred_RegisterRoutes :: "entry list" where
  "cred_RegisterRoutes =
     [Handle ''POST'' ''/provider-credentials/{provider}'' Set_Credentials, Handle ''GET'' ''/provider-credentials'' List_Providers,
      Handle ''GET'' ''/provider-credentials/{provider}'' Provider_Status,
      Handle ''DELETE'' ''/provider-credentials/{provider}'' Delete_Credentials]"

definition plan_RegisterRoutes :: "entry list" where
  "plan_RegisterRoutes = chi_Route ''/plans''
     [Handle ''GET'' ''/'' Plan_List, Handle ''POST'' ''/'' Plan_Create, Handle ''GET'' ''/{planID}'' Plan_By_ID,
      Handle ''GET'' ''/slug/{slug}'' Plan_By_Slug, Handle ''PATCH'' ''/{planID}'' Plan_Update,
      Handle ''DELETE'' ''/{planID}'' Plan_Delete]"

definition payment_RegisterRoutes :: "entry list" where
  "payment_RegisterRoutes =
     [Handle ''GET'' ''/payments'' Payment_List,
      Handle ''POST'' ''/subscriptions/{subscriptionKey}/payments'' Payment_Create,
      Handle ''GET'' ''/subscriptions/{subscriptionKey}/payments'' Payment_By_Subscription]"

definition sub_RegisterRoutes :: "entry list" where
  "sub_RegisterRoutes = chi_Route ''/subscriptions''
     [Handle ''GET'' ''/'' Sub_List, Handle ''POST'' ''/'' Sub_Create, Handle ''GET'' ''/{subscriptionKey}'' Sub_Get,
      Handle ''PATCH'' ''/{subscriptionKey}'' Sub_Update, Handle ''POST'' ''/{subscriptionKey}/cancel'' Sub_Cancel]"

definition bo_RegisterPublicRoutes :: "entry list" where
  "bo_RegisterPublicRoutes =
     [Handle ''POST'' ''/backoffice/check-email'' Check_Email, Handle ''POST'' ''/backoffice/login'' Login]"

definition bo_RegisterAuthRoutes :: "entry list" where
  "bo_RegisterAuthRoutes =
     [Handle ''GET'' ''/backoffice/me'' Bo_Me, Handle ''PATCH'' ''/backoffice/me'' Bo_Update,
      Handle ''POST'' ''/backoffice/users'' Bo_Create_User, Handle ''GET'' ''/backoffice/users'' Bo_List_Users,
      Handle ''DELETE'' ''/backoffice/users/{id}'' Bo_Deactivate, Handle ''PATCH'' ''/backoffice/users/{id}/password'' Bo_Password]"

section \<open>The router (\<open>middleware/router.go\<close>, \<open>cmd/payd/main.go\<close>)\<close>

text \<open>What stands between the router and the handlers of a group: nothing, the limiter of \<open>/v1\<close>, or also one of
  the two authentications.\<close>

datatype guard = Open | Public | Api_Key | Backoffice_Token

type_synonym route_table = "(guard \<times> entry) list"

definition public_routes :: "entry list" where
  "public_routes = tenant_RegisterRoutes @ webhook_RegisterRoutes @ bo_RegisterPublicRoutes"

definition domain_routes :: "entry list" where
  "domain_routes =
     cred_RegisterRoutes @ plan_RegisterRoutes @ payment_RegisterRoutes @ sub_RegisterRoutes @ tenant_RegisterAuthRoutes"

definition newRouter :: "string \<Rightarrow> route_table" where
  "newRouter backofficeJWTSecret =
     [(Open, Handle ''GET'' ''/health'' Health), (Public, Mounted ''/v1/*'')]
     @ map (\<lambda>e. (Public, under ''/v1'' e)) public_routes
     @ (Api_Key, Handle ''GET'' ''/v1/me'' Me)
     # map (\<lambda>e. (Api_Key, under ''/v1'' e)) domain_routes
     @ (if backofficeJWTSecret \<noteq> [] then map (\<lambda>e. (Backoffice_Token, under ''/v1'' e)) bo_RegisterAuthRoutes else [])"

definition main_router :: "go_config \<Rightarrow> route_table" where
  "main_router cfg =
     newRouter (cf_BackofficeJWTSecret cfg)
     @ [(Open, Handle ''GET'' ''/backoffice'' Ui_Redirect_Root), (Open, Handle ''GET'' ''/backoffice/'' Ui_Files),
        (Open, Handle ''GET'' ''/backoffice/*'' Ui_Files)]"

text \<open>What chi makes of a method and a path: the entry it reaches with the URL parameters (for a mounted router with
  the status of its own answer), or the answer of the root router.\<close>

datatype chi_outcome = Reached nat "string \<Rightarrow> string" | Fell_Through nat nat | No_Route nat

type_synonym chi = "entry list \<Rightarrow> string \<Rightarrow> string \<Rightarrow> chi_outcome"

text \<open>chi runs registered handlers, each for its own method.\<close>

definition chi_law :: "chi \<Rightarrow> bool" where
  "chi_law chi \<longleftrightarrow> (\<forall>es verb path.
     case chi es verb path of
       Reached i ps \<Rightarrow> i < length es \<and> (\<exists>p h. es ! i = Handle verb p h)
     | Fell_Through i st \<Rightarrow> i < length es \<and> (\<exists>p. es ! i = Mounted p)
     | No_Route st \<Rightarrow> True)"

section \<open>The program\<close>

text \<open>What \<open>main\<close> builds before it listens.\<close>

record program =
  pg_cfg :: go_config
  pg_idkey :: idkey
  pg_libs :: bo_libs
  pg_adapter :: adapter
  pg_decoders :: decoders
  pg_files :: file_system
  pg_chi :: chi

definition pg_backoffice :: "program \<Rightarrow> bo_service" where
  "pg_backoffice pg = backoffice_service (pg_libs pg) (pg_cfg pg)"

definition signup_switches :: "go_config \<Rightarrow> signup_config" where
  "signup_switches cfg = \<lparr>sc_AllowSignup = cf_AllowSignup cfg, sc_SignupRequiresPassword = cf_SignupRequiresPassword cfg\<rparr>"

definition reply :: "('a \<Rightarrow> body) \<Rightarrow> 'a response \<times> sys \<Rightarrow> body response \<times> sys" where
  "reply enc p = (map_response enc (fst p), snd p)"

fun ui_status :: "ui_response \<Rightarrow> nat" where
  "ui_status (Ui_File c) = 200"
| "ui_status (Ui_Index c) = 200"
| "ui_status (Ui_Redirect st l) = st"
| "ui_status (Ui_Error st) = st"

definition health_text :: "string \<Rightarrow> string" where
  "health_text version =
     ''{'' @ quoted ''status'' @ '':'' @ quoted ''ok'' @ '','' @ quoted ''version'' @ '':'' @ quoted version @ ''}''"

definition me_text :: "string \<Rightarrow> string" where
  "me_text tenant = ''{'' @ quoted ''tenant_id'' @ '':'' @ quoted tenant @ ''}''"

text \<open>The handler of an endpoint, with what it takes from the request; \<open>ps\<close> are the URL parameters. The context
  has the tenant if an authentication put it there, and the user if that was the backoffice's.\<close>

fun run_handler ::
  "program \<Rightarrow> http_request \<Rightarrow> (string \<Rightarrow> string) \<Rightarrow> endpoint \<Rightarrow> bo_context \<Rightarrow> sys \<Rightarrow> body response \<times> sys" where
  "run_handler pg r ps Health bx s = (Response 200 (B_Text (health_text (cf_AppVersion (pg_cfg pg)))), s)"
| "run_handler pg r ps Me bx s =
     (Response 200 (B_Text (me_text (lb_uuid_string (pg_libs pg) (TenantIDFromContext (bx_context bx))))), s)"
| "run_handler pg r ps Signup bx s =
     reply B_Signup (tenant_handler_Signup (pg_idkey pg) (cf_AppEnv (pg_cfg pg)) (Some (wrapped_CreateUser (pg_backoffice pg)))
       (signup_switches (pg_cfg pg)) (bx_context bx) (dc_signup (pg_decoders pg) (hq_body r)) s)"
| "run_handler pg r ps Create_Key bx s =
     reply B_New_Key (tenant_handler_CreateKey (pg_idkey pg) (cf_AppEnv (pg_cfg pg)) (bx_context bx)
       (dc_create_key (pg_decoders pg) (hq_body r)) s)"
| "run_handler pg r ps List_Keys bx s = reply B_Keys (tenant_handler_ListKeys (bx_context bx) s, s)"
| "run_handler pg r ps Revoke_Key bx s =
     reply B_Empty (tenant_handler_RevokeKey (lb_uuid_parse (pg_libs pg)) (bx_context bx) (ps ''keyID'') s)"
| "run_handler pg r ps Set_Default_Provider bx s =
     reply B_Tenant (tenant_handler_SetDefaultProvider (bx_context bx) (dc_default_provider (pg_decoders pg) (hq_body r)) s)"
| "run_handler pg r ps Webhook_Post bx s =
     reply B_Fields (webhook_HandleWebhook (cf_CredentialsEncryptionKey (pg_cfg pg)) (pg_adapter pg) (bx_context bx)
       (ps ''webhookSecret'') (hq_body r) (hq_header r ''X-Signature'') (hq_header r ''X-Request-ID'') s, s)"
| "run_handler pg r ps Set_Credentials bx s =
     reply B_Fields (cred_handler_Set (cf_CredentialsEncryptionKey (pg_cfg pg)) (pg_adapter pg) (bx_context bx)
       (ps ''provider'') (dc_config (pg_decoders pg) (hq_body r)) s)"
| "run_handler pg r ps List_Providers bx s =
     reply B_Providers (cred_handler_ListProviders (cf_CredentialsEncryptionKey (pg_cfg pg)) (bx_context bx) s, s)"
| "run_handler pg r ps Provider_Status bx s =
     reply B_Provider_Status
       (cred_handler_GetProviderStatus (cf_CredentialsEncryptionKey (pg_cfg pg)) (bx_context bx) (ps ''provider'') s, s)"
| "run_handler pg r ps Delete_Credentials bx s = reply B_Empty (cred_handler_Delete (bx_context bx) (ps ''provider'') s)"
| "run_handler pg r ps Plan_List bx s =
     reply B_Plans (plan_handler_List (lb_uuid_parse (pg_libs pg)) (lb_uuid_string (pg_libs pg)) (bx_context bx)
       (query_get r ''limit'') (query_get r ''cursor'') (query_get r ''is_active'') s, s)"
| "run_handler pg r ps Plan_Create bx s =
     reply B_Plan (plan_handler_CreateOrGet (bx_context bx) (dc_plan (pg_decoders pg) (hq_body r)) s)"
| "run_handler pg r ps Plan_By_ID bx s =
     reply B_Plan (plan_handler_GetByID (lb_uuid_parse (pg_libs pg)) (bx_context bx) (ps ''planID'') s, s)"
| "run_handler pg r ps Plan_By_Slug bx s = reply B_Plan (plan_handler_GetBySlug (bx_context bx) (ps ''slug'') s, s)"
| "run_handler pg r ps Plan_Update bx s =
     reply B_Plan (plan_handler_Update (lb_uuid_parse (pg_libs pg)) (bx_context bx) (ps ''planID'')
       (dc_plan_patch (pg_decoders pg) (hq_body r)) s)"
| "run_handler pg r ps Plan_Delete bx s =
     reply B_Empty (plan_handler_Delete (lb_uuid_parse (pg_libs pg)) (bx_context bx) (ps ''planID'') s)"
| "run_handler pg r ps Payment_List bx s =
     reply B_Payments (pay_handler_List (lb_uuid_parse (pg_libs pg)) (lb_uuid_string (pg_libs pg)) (bx_context bx)
       (query_get r ''provider'') (query_get r ''cursor'') s, s)"
| "run_handler pg r ps Payment_Create bx s =
     reply B_Payment (pay_handler_CreatePayment (cred_svc_GetProviderConfig (cf_CredentialsEncryptionKey (pg_cfg pg)))
       (pg_adapter pg) (bx_context bx) (ps ''subscriptionKey'') (hq_header r ''Idempotency-Key'')
       (dc_payment (pg_decoders pg) (hq_body r)) s)"
| "run_handler pg r ps Payment_By_Subscription bx s =
     reply B_Payment_List (pay_handler_ListBySubscription (lb_uuid_parse (pg_libs pg)) (bx_context bx)
       (ps ''subscriptionKey'') (query_get r ''limit'') s, s)"
| "run_handler pg r ps Sub_List bx s =
     reply B_Subscriptions (sub_handler_List (lb_uuid_parse (pg_libs pg)) (lb_uuid_string (pg_libs pg)) (bx_context bx)
       (hq_query r ''status'') (hq_query r ''tag'') (query_get r ''cursor'') s, s)"
| "run_handler pg r ps Sub_Create bx s =
     reply B_Subscription (sub_handler_Create (pg_adapter pg) (Some tenant_repo_GetByID) (bx_context bx)
       (hq_header r ''Idempotency-Key'') (dc_subscription (pg_decoders pg) (hq_body r)) s)"
| "run_handler pg r ps Sub_Get bx s =
     reply B_Subscription (sub_handler_GetByKey (lb_uuid_parse (pg_libs pg)) (bx_context bx) (ps ''subscriptionKey'') s, s)"
| "run_handler pg r ps Sub_Update bx s =
     reply B_Subscription (sub_handler_Update (lb_uuid_parse (pg_libs pg)) (pg_adapter pg) (bx_context bx)
       (ps ''subscriptionKey'') (dc_raw (pg_decoders pg) (hq_body r)) s)"
| "run_handler pg r ps Sub_Cancel bx s =
     reply B_Subscription (sub_handler_Cancel (lb_uuid_parse (pg_libs pg)) (bx_context bx) (ps ''subscriptionKey'')
       (dc_cancel (pg_decoders pg) (hq_body r)) s)"
| "run_handler pg r ps Check_Email bx s =
     reply B_Check_Email (bo_handler_CheckEmail bx (dc_check_email (pg_decoders pg) (hq_body r)) s, s)"
| "run_handler pg r ps Login bx s =
     reply B_Login (bo_handler_Login (pg_backoffice pg) bx (dc_login (pg_decoders pg) (hq_body r)) s, s)"
| "run_handler pg r ps Bo_Me bx s = reply B_User (bo_handler_Me bx s, s)"
| "run_handler pg r ps Bo_Update bx s =
     reply B_User (bo_handler_UpdateProfile bx (dc_profile (pg_decoders pg) (hq_body r)) s)"
| "run_handler pg r ps Bo_Create_User bx s =
     reply B_User (bo_handler_CreateUser (pg_backoffice pg) bx (dc_create_user (pg_decoders pg) (hq_body r)) s)"
| "run_handler pg r ps Bo_List_Users bx s = reply B_Users (bo_handler_ListUsers bx s, s)"
| "run_handler pg r ps Bo_Deactivate bx s =
     reply B_Empty (bo_handler_DeactivateUser (pg_libs pg) bx (ps ''id'') s)"
| "run_handler pg r ps Bo_Password bx s =
     reply B_Empty (bo_handler_ChangePassword (pg_backoffice pg) bx (ps ''id'')
       (dc_change_password (pg_decoders pg) (hq_body r)) s)"
| "run_handler pg r ps Ui_Redirect_Root bx s = (Response 301 (B_Ui (Ui_Redirect 301 ''/backoffice/'')), s)"
| "run_handler pg r ps Ui_Files bx s =
     (let u = serveUI (pg_files pg) (hq_path r) in (Response (ui_status u) (B_Ui u), s))"

text \<open>The answer of a router to a path or a method without a handler.\<close>

definition no_handler :: "nat \<Rightarrow> bo_context \<Rightarrow> sys \<Rightarrow> body response \<times> sys" where
  "no_handler status bx s = (Response status (B_Text (if status = 404 then ''404 page not found'' else [])), s)"

definition in_context :: "go_context \<Rightarrow> bo_context" where
  "in_context ctx = bo_background\<lparr>bx_context := ctx\<rparr>"

text \<open>The middlewares in front of a handler.\<close>

definition guarded ::
  "program \<Rightarrow> http_request \<Rightarrow> guard \<Rightarrow> (bo_context \<Rightarrow> sys \<Rightarrow> body response \<times> sys) \<Rightarrow> sys \<Rightarrow> rate_limiter
     \<Rightarrow> (body response \<times> sys) \<times> headers \<times> rate_limiter" where
  "guarded pg r g h s limiter =
     (let uuid_string = lb_uuid_string (pg_libs pg)
      in case g of
           Open \<Rightarrow> RequestID uuid_string (Recovery (\<lambda>ctx s. (h (in_context ctx) s, [], limiter))) background s
         | Public \<Rightarrow> v1_route uuid_string (\<lambda>ctx. h (in_context ctx)) s limiter
         | Api_Key \<Rightarrow>
             v1_route uuid_string (api_key_group (pg_idkey pg) (auth_header r) (\<lambda>ctx. h (in_context ctx))) s limiter
         | Backoffice_Token \<Rightarrow>
             v1_route uuid_string
               (backoffice_group (pg_libs pg) (cf_BackofficeJWTSecret (pg_cfg pg)) (auth_header r) h) s limiter)"

definition serve ::
  "program \<Rightarrow> http_request \<Rightarrow> sys \<Rightarrow> rate_limiter \<Rightarrow> (body response \<times> sys) \<times> headers \<times> rate_limiter" where
  "serve pg r s limiter =
     (let table = main_router (pg_cfg pg)
      in case pg_chi pg (map snd table) (hq_method r) (hq_path r) of
           No_Route status \<Rightarrow> guarded pg r Open (no_handler status) s limiter
         | Fell_Through i status \<Rightarrow> guarded pg r (fst (table ! i)) (no_handler status) s limiter
         | Reached i ps \<Rightarrow>
             (case table ! i of
                (g, Handle verb pattern h) \<Rightarrow> guarded pg r g (run_handler pg r ps h) s limiter
              | (g, Mounted pattern) \<Rightarrow> guarded pg r g (no_handler 404) s limiter))"

end
