(* ===== verification/Tenant_View.thy ===== *)
theory Tenant_View
  imports Credential_Rules Subscription_Rules Backoffice_Rules Tenant_Keys
begin

text \<open>
  The part of the database that belongs to a tenant, and what the handlers that run for a tenant leave as it
  is: every other tenant's part. One lemma per handler that writes; the theory \<open>Routes_Rules\<close> puts them
  together for the whole interface.
\<close>

section \<open>Views\<close>

record tenant_view =
  tv_tenants :: "tenant list"
  tv_plans :: "plan list"
  tv_subscriptions :: "sub_row list"
  tv_payments :: "payment list"
  tv_api_keys :: "api_key_row list"
  tv_credentials :: "credential_row list"
  tv_users :: "user_row list"

definition key_tenant :: "api_key_row \<Rightarrow> uuid" where
  "key_tenant r = ak_TenantID (kr_key r)"

definition view :: "uuid \<Rightarrow> sys \<Rightarrow> tenant_view" where
  "view u s =
     \<lparr>tv_tenants = filter (\<lambda>r. tn_ID r = u) (tenants s), tv_plans = filter (\<lambda>r. plan_TenantID r = u) (plans s),
      tv_subscriptions = filter (\<lambda>r. row_tenant r = u) (subscriptions s), tv_payments = filter (\<lambda>r. pay_TenantID r = u) (payments s),
      tv_api_keys = filter (\<lambda>r. key_tenant r = u) (api_keys s), tv_credentials = filter (\<lambda>r. cd_TenantID r = u) (credentials s),
      tv_users = filter (\<lambda>r. tenant_of_user r = u) (users s)\<rparr>"

lemma view_draw [simp]: "view u (draw s) = view u s"
  by (simp add: view_def)

lemma view_other_fields [simp]:
  "view u (s\<lparr>session := x\<rparr>) = view u s" "view u (s\<lparr>random_pos := n\<rparr>) = view u s" "view u (s\<lparr>drawn := n\<rparr>) = view u s"
  "view u (s\<lparr>acquired := n\<rparr>) = view u s" "view u (snd (setRLSContext t s)) = view u s"
  by (simp_all add: view_def)

text \<open>The pool of connections, which only the middlewares touch.\<close>

definition pool :: "sys \<Rightarrow> session \<times> session list \<times> (nat \<Rightarrow> nat)" where
  "pool s = (session s, idle s, choices s)"

lemma pool_simps [simp]:
  "pool (draw s) = pool s" "pool (s\<lparr>random_pos := n\<rparr>) = pool s" "pool (s\<lparr>drawn := n\<rparr>) = pool s"
  "pool (s\<lparr>tenants := ts\<rparr>) = pool s" "pool (s\<lparr>plans := ps\<rparr>) = pool s" "pool (s\<lparr>subscriptions := rs\<rparr>) = pool s"
  "pool (s\<lparr>payments := ys\<rparr>) = pool s" "pool (s\<lparr>api_keys := ks\<rparr>) = pool s" "pool (s\<lparr>credentials := cs\<rparr>) = pool s"
  "pool (s\<lparr>users := us\<rparr>) = pool s" "pool (s\<lparr>charges := qs\<rparr>) = pool s"
  by (simp_all add: pool_def)

lemma pool_charge [simp]: "pool (snd (adapter_CreateCharge adp n req s)) = pool s"
  by (simp add: adapter_CreateCharge_def Let_def split: sum.split)

lemma pool_session: "pool s' = pool s \<Longrightarrow> session s' = session s"
  by (simp add: pool_def)

lemma view_tables:
  "filter (\<lambda>r. tn_ID r = u) ts = filter (\<lambda>r. tn_ID r = u) (tenants s) \<Longrightarrow> view u (s\<lparr>tenants := ts\<rparr>) = view u s"
  "filter (\<lambda>r. plan_TenantID r = u) ps = filter (\<lambda>r. plan_TenantID r = u) (plans s) \<Longrightarrow> view u (s\<lparr>plans := ps\<rparr>) = view u s"
  "filter (\<lambda>r. row_tenant r = u) rs = filter (\<lambda>r. row_tenant r = u) (subscriptions s) \<Longrightarrow> view u (s\<lparr>subscriptions := rs\<rparr>) = view u s"
  "filter (\<lambda>r. pay_TenantID r = u) ys = filter (\<lambda>r. pay_TenantID r = u) (payments s) \<Longrightarrow> view u (s\<lparr>payments := ys\<rparr>) = view u s"
  "filter (\<lambda>r. key_tenant r = u) ks = filter (\<lambda>r. key_tenant r = u) (api_keys s) \<Longrightarrow> view u (s\<lparr>api_keys := ks\<rparr>) = view u s"
  "filter (\<lambda>r. cd_TenantID r = u) cs = filter (\<lambda>r. cd_TenantID r = u) (credentials s) \<Longrightarrow> view u (s\<lparr>credentials := cs\<rparr>) = view u s"
  "filter (\<lambda>r. tenant_of_user r = u) us = filter (\<lambda>r. tenant_of_user r = u) (users s) \<Longrightarrow> view u (s\<lparr>users := us\<rparr>) = view u s"
  by (simp_all add: view_def)

text \<open>The same with the tables of a state that has drawn an id.\<close>

lemmas view_drawn = view_tables [of _ _ "draw _", unfolded view_draw]

lemma filter_narrower: "filter (\<lambda>r. P r \<noteq> t) xs = filter (\<lambda>r. P r \<noteq> t) ys \<Longrightarrow> u \<noteq> t
    \<Longrightarrow> filter (\<lambda>r. P r = u) xs = filter (\<lambda>r. P r = u) ys"
proof -
  assume "filter (\<lambda>r. P r \<noteq> t) xs = filter (\<lambda>r. P r \<noteq> t) ys" "u \<noteq> t"
  moreover have "filter (\<lambda>r. P r = u) zs = filter (\<lambda>r. P r = u) (filter (\<lambda>r. P r \<noteq> t) zs)" if "u \<noteq> t" for zs
    using that by (induction zs) auto
  ultimately show ?thesis by metis
qed

text \<open>An operation for tenant \<open>t\<close>: it keeps the views of all others, and the connections.\<close>

definition only_for :: "uuid \<Rightarrow> sys \<Rightarrow> sys \<Rightarrow> bool" where
  "only_for t s s' \<longleftrightarrow> pool s' = pool s \<and> (\<forall>u. u \<noteq> t \<longrightarrow> view u s' = view u s)"

lemma only_forI: "pool s' = pool s \<Longrightarrow> (\<And>u. u \<noteq> t \<Longrightarrow> view u s' = view u s) \<Longrightarrow> only_for t s s'"
  by (simp add: only_for_def)

lemma only_for_simps [simp]:
  "only_for t s s" "only_for t s (draw s)" "only_for t s (s\<lparr>random_pos := n\<rparr>)"
  by (simp_all add: only_for_def)

lemma only_for_trans: "only_for t s s' \<Longrightarrow> only_for t s' s'' \<Longrightarrow> only_for t s s''"
  by (simp add: only_for_def)

lemma visible_tenant: "session s = Current_Tenant t \<Longrightarrow> visible s u \<longleftrightarrow> u = t"
  by (auto simp: visible_def)

section \<open>Plans\<close>

lemma plan_insert_only_for:
  assumes "session s = Current_Tenant t"
  shows "only_for t s (snd (plan_insert tid input s))"
proof (rule only_forI)
  show "pool (snd (plan_insert tid input s)) = pool s"
    by (simp add: plan_insert_def Let_def split: option.split)
next
  fix u assume u: "u \<noteq> t"
  note vis = visible_tenant [OF assms]
  let ?up = "update_where (\<lambda>q. plan_slug_key q = (t, cp_Slug input)) (\<lambda>q. q\<lparr>plan_UpdatedAt := db_now s\<rparr>) (plans s)"
  have "filter (\<lambda>r. plan_TenantID r = u) ?up = filter (\<lambda>r. plan_TenantID r = u) (plans s)"
    using u by (intro filter_update_where) (auto simp: plan_slug_key_def)
  then have up: "view u ((draw s)\<lparr>plans := ?up\<rparr>) = view u s"
    "plan_TenantID p = t \<Longrightarrow> view u ((draw s)\<lparr>plans := plans s @ [p]\<rparr>) = view u s" for p
    using u by (simp_all add: view_def)
  show "view u (snd (plan_insert tid input s)) = view u s"
  proof (cases "tid = t")
    case True
    have k: "plan_slug_key (plan_row i t input now) = (t, cp_Slug input)" "plan_TenantID (plan_row i t input now) = t" for i now
      by (simp_all add: plan_row_def plan_slug_key_def)
    show ?thesis unfolding True plan_insert_def Let_def k by (auto simp: up k split: option.split)
  next
    case False
    then have "rls_check s ''plans'' tid \<noteq> None" by (simp add: rls_check_None vis)
    then obtain e where "rls_check s ''plans'' tid = Some e" by auto
    then show ?thesis by (simp add: plan_insert_def Let_def split: option.split)
  qed
qed

lemma plan_ops_only_for:
  assumes "session s = Current_Tenant t"
  shows "only_for t s (snd (plan_svc_CreateOrGet ctx input s))" "only_for t s (snd (plan_svc_Update pid patch s))"
    "only_for t s (snd (plan_svc_Delete pid s))"
proof -
  note vis = visible_tenant [OF assms]
  show "only_for t s (snd (plan_svc_CreateOrGet ctx input s))"
    using plan_insert_only_for [OF assms]
    by (auto simp: plan_svc_CreateOrGet_def plan_repo_Upsert_def Let_def case_prod_beta split: option.split sum.split)
  have upd: "only_for t s (s\<lparr>plans := ps\<rparr>)"
    if "update_rows s plan_TenantID P f c (plans s) = Inr (w, ps)" "\<And>p. plan_TenantID (f p) = plan_TenantID p" for P f c w ps
    unfolding update_rows_Inr(1) [OF that(1)]
    by (intro only_forI view_tables filter_update_where) (simp_all add: vis that(2))
  show "only_for t s (snd (plan_svc_Update pid patch s))"
    by (auto simp: plan_svc_Update_def plan_repo_Update_def split: option.split sum.split list.split intro!: upd
        simp: plan_patch_def Let_def)
  show "only_for t s (snd (plan_svc_Delete pid s))"
    by (auto simp: plan_svc_Delete_def plan_repo_Delete_def split: sum.split intro!: upd)
qed

section \<open>Payments\<close>

lemma payment_only_for:
  assumes "session s = Current_Tenant t"
  shows "only_for t s (snd (pay_svc_CreatePayment adp ctx input s))"
proof -
  obtain r s' where c: "pay_svc_CreatePayment adp ctx input s = (r, s')" by fastforce
  have view_charge: "view u (snd (adapter_CreateCharge adp n req s)) = view u s" for u n req
    by (simp add: view_def)
  from c have "only_for t s s'"
  proof (cases rule: pay_svc_CreatePayment_cases)
    case (provider e)
    then show ?thesis using view_charge [of _ "ci_ProviderName input" "payment_charge_request input"]
        pool_charge [of adp "ci_ProviderName input" "payment_charge_request input" s] by (simp add: only_for_def)
  next
    case (charged res s1 q)
    have s1: "s1 = snd (adapter_CreateCharge adp (ci_ProviderName input) (payment_charge_request input) s)"
      using charged(3) by simp
    have v1: "view u s1 = view u s" "pool s1 = pool s" for u unfolding s1 by (simp_all add: view_charge)
    from charged(4) have "only_for t s1 s'"
    proof (cases rule: pay_repo_Create_cases)
      case (created row response)
      have "pay_TenantID row = t"
        using created(3,5) visible_tenant [of s1 t] pool_session [OF v1(2)] assms by simp
      then show ?thesis unfolding created(2) by (intro only_forI) (simp_all add: view_def)
    qed (auto simp: only_for_def)
    then show ?thesis by (simp add: only_for_def v1)
  qed simp
  then show ?thesis by (simp add: c)
qed

section \<open>Subscriptions\<close>

lemma sub_write_only_for:
  assumes "session s = Current_Tenant t"
  shows "only_for t s (snd (sub_svc_Update adp sid patch s))" "only_for t s (snd (sub_svc_Cancel key b s))"
proof -
  have w: "only_for t s (snd (update_sub msg f sid s))" if "keeps_fixed f" for msg f sid
  proof -
    obtain q s' where c: "update_sub msg f sid s = (q, s')" by fastforce
    then show ?thesis
    proof (cases rule: update_sub_cases)
      case (written r)
      then show ?thesis
        unfolding c by (auto intro!: only_forI view_tables filter_narrower [of row_tenant t] table_others [OF that assms])
    qed (simp add: c)
  qed
  have "only_for t s (snd (sub_repo_Update sid input s))" "only_for t s (snd (sub_repo_Cancel sid b s))" for sid input b
    by (simp_all add: sub_repo_Update_def sub_repo_Cancel_def w split: sum.split)
  then show "only_for t s (snd (sub_svc_Update adp sid patch s))" "only_for t s (snd (sub_svc_Cancel key b s))"
    using snd_sub_svc_Update [of adp sid patch s] snd_sub_svc_Cancel [of key b s] by auto
qed

lemma sub_create_only_for:
  assumes "session s = Current_Tenant t"
  shows "only_for t s (snd (sub_svc_Create adp ctx input s))"
proof -
  have c: "only_for t s1 (snd (sub_repo_Create sub k s1))" if "session s1 = Current_Tenant t" for sub k s1
  proof -
    obtain q s' where c: "sub_repo_Create sub k s1 = (q, s')" by fastforce
    then show ?thesis
    proof (cases rule: sub_repo_Create_cases)
      case (created r meta)
      have "row_tenant r = t" using created(2,4) visible_tenant [OF that] by (simp add: row_tenant_def)
      then show ?thesis unfolding c created(3) by (intro only_forI) (simp_all add: view_def)
    qed (auto simp: c only_for_def)
  qed
  have d: "session (draw s) = Current_Tenant t" using assms by simp
  show ?thesis
    using only_for_trans [OF only_for_simps(2) c [OF d]]
    by (auto simp: sub_svc_Create_def Let_def case_prod_beta split: sum.split option.split)
qed

section \<open>Credentials\<close>

lemma cred_ops_only_for:
  assumes "session s = Current_Tenant t"
  shows "only_for t s (snd (cred_svc_SetProviderConfig encKey a tid p c s))" "only_for t s (snd (cred_svc_DeleteProviderConfig tid p s))"
proof -
  have up: "only_for t s1 (snd (credentials_upsert tid p j w s1))" if "session s1 = Current_Tenant t" for j w s1
  proof -
    obtain r s2 where c: "credentials_upsert tid p j w s1 = (r, s2)" by fastforce
    then show ?thesis
    proof (cases rule: credentials_upsert_cases)
      case (updated doc)
      have "tid = t" using updated(3) visible_tenant [OF that] by simp
      then show ?thesis unfolding c snd_conv updated(7)
        by (intro only_forI view_drawn) (auto intro!: filter_update_where simp: credential_place_def)
    next
      case (inserted doc)
      have "tid = t" using inserted(3) visible_tenant [OF that] by simp
      then show ?thesis unfolding c snd_conv inserted(9) by (intro only_forI view_drawn) simp_all
    qed (auto simp: c only_for_def)
  qed
  from cred_svc_Set_snd [of encKey a tid p c s]
  show "only_for t s (snd (cred_svc_SetProviderConfig encKey a tid p c s))"
  proof (elim disjE exE conjE)
    fix j s1
    assume st: "stored_config encKey c s = (Inr j, s1)"
      and z: "snd (cred_svc_SetProviderConfig encKey a tid p c s) = snd (credentials_upsert tid p j (at_key c ''webhook_secret'') s1)"
    have "session s1 = Current_Tenant t" "only_for t s s1" using stored_config_frame [OF st] assms by auto
    then show ?thesis unfolding z by (auto intro: only_for_trans up)
  qed simp
  show "only_for t s (snd (cred_svc_DeleteProviderConfig tid p s))"
    using cred_svc_Delete_snd [of tid p s]
  proof
    assume d: "snd (cred_svc_DeleteProviderConfig tid p s)
      = s\<lparr>credentials := filter (\<lambda>r. \<not> (visible s (cd_TenantID r) \<and> credential_place r = (tid, p))) (credentials s)\<rparr>"
    show ?thesis unfolding d
      by (intro only_forI view_tables(6) filter_weaker) (simp_all add: visible_tenant [OF assms])
  qed simp
qed

section \<open>API keys and tenants\<close>

text \<open>These tables are not under row-level security: the statements name the tenant themselves.\<close>

lemma key_ops_only_for:
  "only_for t s (snd (tenant_svc_CreateKey idkey env t input s))" "only_for t s (snd (tenant_svc_RevokeKey t i s))"
  "only_for t s (snd (tenant_svc_SetDefaultProvider t p s))"
proof -
  obtain r s' where c: "tenant_svc_CreateKey idkey env t input s = (r, s')" by fastforce
  then have "only_for t s s'"
  proof (cases rule: tenant_svc_CreateKey_cases)
    case (created pk p)
    then show ?thesis by (intro only_forI) (simp_all add: view_def key_tenant_def new_key_simps)
  qed (auto simp: only_for_def view_def)
  then show "only_for t s (snd (tenant_svc_CreateKey idkey env t input s))" by (simp add: c)
  show "only_for t s (snd (tenant_svc_RevokeKey t i s))"
    by (auto simp: tenant_svc_RevokeKey_def tenant_repo_RevokeAPIKey_def Let_def intro!: only_forI view_tables filter_update_where)
      (simp_all add: key_tenant_def revoke_row_def)
  show "only_for t s (snd (tenant_svc_SetDefaultProvider t p s))"
    by (auto simp: tenant_svc_SetDefaultProvider_def tenant_repo_UpdateDefaultProvider_def Let_def
        split: option.split sum.split intro!: only_forI view_tables filter_update_where)
qed

section \<open>Users\<close>

lemma draws_only_for: "draws s s' \<Longrightarrow> only_for t s s'"
  by (auto simp: draws_def)

lemma exec_user_only_for:
  assumes "\<And>r. tenant_of_user (f r) = tenant_of_user r"
    and "\<And>r. r \<in> set (users s) \<Longrightarrow> visible s (tenant_of_user r) \<Longrightarrow> us_ID (ur_user r) = uid \<Longrightarrow> tenant_of_user r = t"
  shows "only_for t s (snd (exec_user op uid f s))"
proof (cases "update_rows s tenant_of_user (\<lambda>r. us_ID (ur_user r) = uid) f (\<lambda>_. None) (users s)")
  case (Inr p)
  obtain w rows where p: "p = (w, rows)" by fastforce
  let ?hit = "\<lambda>r. visible s (tenant_of_user r) \<and> us_ID (ur_user r) = uid"
  have rows: "rows = update_where (\<lambda>r. ?hit r \<and> tenant_of_user r = t) f (users s)"
    unfolding update_rows_Inr(1) [OF Inr [unfolded p]] by (rule update_where_cong) (use assms(2) in auto)
  have "only_for t s (s\<lparr>users := rows\<rparr>)"
    unfolding rows by (intro only_forI view_tables filter_update_where) (simp_all add: assms(1))
  then show ?thesis using Inr p by (simp add: exec_user_def)
qed (simp add: exec_user_def)

lemma user_updates_only_for:
  assumes "session s = Current_Tenant t"
  shows "only_for t s (snd (user_repo_UpdatePassword uid h s))" "only_for t s (snd (user_repo_UpdateMustChangePassword uid v s))"
    "only_for t s (snd (user_repo_UpdateName uid name s))" "only_for t s (snd (user_repo_Deactivate uid s))"
  unfolding user_repo_UpdatePassword_def user_repo_UpdateMustChangePassword_def user_repo_UpdateName_def user_repo_Deactivate_def
  by (auto intro!: exec_user_only_for simp: tenant_of_user_def visible_tenant [OF assms])

text \<open>A new user belongs to the tenant that is named, whatever the session: the mark of a temporary password
  is put on the new row alone, as its id is new.\<close>

lemma CreateUser_only_for: "only_for t s (snd (bo_svc_CreateUser svc t email name pw role s))"
proof -
  have ins: "only_for t s2 s3 \<and> (\<forall>u. q = Inr u \<longrightarrow> (\<forall>r \<in> set (users s3). us_ID (ur_user r) = us_ID u \<longrightarrow> tenant_of_user r = t))"
    if "user_repo_Create t email name h role s2 = (q, s3)" for s2 s3 h q
  proof -
    obtain q1 s1 where i: "user_insert t email name h role s2 = (q1, s1)" by fastforce
    have s3: "s3 = s2 \<and> (\<forall>u. q \<noteq> Inr u) \<or> s3 = s1 \<and> (\<forall>u. q = Inr u \<longrightarrow> q1 = Inr u)"
      using that i by (auto simp: user_repo_Create_def split: if_splits sum.splits)
    from i have "only_for t s2 s1 \<and> (\<forall>u. q1 = Inr u \<longrightarrow> (\<forall>r \<in> set (users s1). us_ID (ur_user r) = us_ID u \<longrightarrow> tenant_of_user r = t))"
    proof (cases rule: user_insert_cases)
      case inserted
      let ?row = "\<lparr>ur_user = new_user t email name role s2, ur_password_hash = h\<rparr>"
      have row: "tenant_of_user ?row = t" "us_ID (new_user t email name role s2) = next_uuid s2"
        by (simp_all add: tenant_of_user_def new_user_def)
      have "only_for t s2 s1" unfolding inserted(2) by (intro only_forI view_drawn) (simp_all add: row)
      then show ?thesis using inserted(1,5) row unfolding inserted(2) by (auto simp: image_iff)
    qed auto
    with s3 show ?thesis by auto
  qed
  have must: "only_for t s3 (snd (user_repo_UpdateMustChangePassword uid v s3))"
    if "\<forall>r \<in> set (users s3). us_ID (ur_user r) = uid \<longrightarrow> tenant_of_user r = t" for uid v s3
    unfolding user_repo_UpdateMustChangePassword_def using that
    by (auto intro!: exec_user_only_for simp: tenant_of_user_def)
  obtain r s' where c: "bo_svc_CreateUser svc t email name pw role s = (r, s')" by fastforce
  from c have "only_for t s s'"
  proof (cases rule: CreateUser_course)
    case (early err)
    then show ?thesis by (simp add: draws_only_for)
  next
    case (refused s2 h err)
    then show ?thesis using only_for_trans [OF draws_only_for [OF refused(1)]] ins by blast
  next
    case (plain s2 h u)
    then show ?thesis using only_for_trans [OF draws_only_for [OF plain(1)]] ins by blast
  next
    case (temporary s2 h u s3)
    have "only_for t s s3" using only_for_trans [OF draws_only_for [OF temporary(1)]] ins [OF temporary(2)] by blast
    moreover have "only_for t s3 s'" using must [of s3 "us_ID u" True] ins [OF temporary(2)] temporary(4) by simp
    ultimately show ?thesis by (rule only_for_trans)
  next
    case (unmarked s2 h u s3 err)
    have "only_for t s s3" using only_for_trans [OF draws_only_for [OF unmarked(1)]] ins [OF unmarked(2)] by blast
    moreover have "only_for t s3 s'" using must [of s3 "us_ID u" True] ins [OF unmarked(2)] unmarked(4) by simp
    ultimately show ?thesis by (rule only_for_trans)
  qed
  then show ?thesis by (simp add: c)
qed

lemma user_ops_only_for:
  assumes "session s = Current_Tenant t"
  shows "only_for t s (snd (bo_svc_UpdateProfile uid name s))" "only_for t s (snd (bo_svc_DeactivateUser uid s))"
    "only_for t s (snd (bo_svc_ChangePassword svc uid old new s))"
proof -
  note upd = user_updates_only_for [OF assms]
  show "only_for t s (snd (bo_svc_UpdateProfile uid name s))"
    using upd(3) [of uid name] by (auto simp: bo_svc_UpdateProfile_def split: option.split sum.split prod.split)
  show "only_for t s (snd (bo_svc_DeactivateUser uid s))"
    using upd(4) [of uid] by (auto simp: bo_svc_DeactivateUser_def split: option.split prod.split)
  obtain h s1 where h: "hash_password svc new s = (h, s1)" by fastforce
  have d: "draws s s1" using draws_hash [of s svc new] h by simp
  have "session s1 = Current_Tenant t" using draws_fields(3) [OF d] assms by simp
  then have "only_for t s (snd (user_repo_UpdatePassword uid x s1))" for x
    by (rule only_for_trans [OF draws_only_for [OF d] user_updates_only_for(1)])
  then show "only_for t s (snd (bo_svc_ChangePassword svc uid old new s))"
    using draws_only_for [OF d] by (simp add: bo_svc_ChangePassword_def h case_prod_beta split: option.split sum.split)
qed

section \<open>Signup\<close>

text \<open>A signup adds a tenant with an id that no tenant has, its first key and perhaps its first user.\<close>

lemma Create_tenant_views:
  assumes "tenant_repo_Create t s = (r, s')" "tn_Email t = Some e" "u \<in> tn_ID ` set (tenants s)"
  shows "view u s' = view u s \<and> pool s' = pool s \<and> (\<forall>t'. r = Inr t' \<longrightarrow> tn_ID t' \<noteq> u)"
  using assms(1,2)
proof (cases rule: tenant_repo_Create_cases)
  case created
  have u: "next_uuid s \<noteq> u" using created(3) assms(3) by auto
  have "view u s' = view u s"
    unfolding created(2) by (rule view_drawn(1)) (simp add: new_tenant_simps u)
  then show ?thesis using u by (simp add: created(1,2) new_tenant_simps)
qed simp_all

lemma Signup_views:
  assumes "u \<in> tn_ID ` set (tenants s)"
  shows "view u (snd (tenant_svc_Signup idkey env input s)) = view u s
    \<and> pool (snd (tenant_svc_Signup idkey env input s)) = pool s
    \<and> (\<forall>t k. fst (tenant_svc_Signup idkey env input s) = Inr (t, k) \<longrightarrow> tn_ID t \<noteq> u)"
proof (cases "validate_signup input")
  case None
  let ?slug = "if si_Slug input = [] then generateSlugFromName (si_Name input) else si_Slug input"
  let ?t = "\<lparr>tn_ID = next_uuid s, tn_Name = si_Name input, tn_Slug = ?slug, tn_Email = Some (si_Email input),
     tn_IsActive = True, tn_DefaultProviderName = [], tn_CreatedAt = 0, tn_UpdatedAt = 0\<rparr>"
  let ?k = "\<lparr>ck_Description = ''Initial key'', ck_ExpiresAt = None\<rparr>"
  obtain r s1 where c: "tenant_repo_Create ?t (draw s) = (r, s1)" by fastforce
  have email: "tn_Email ?t = Some (si_Email input)" by simp
  have "view u s1 = view u s \<and> pool s1 = pool s \<and> (\<forall>t'. r = Inr t' \<longrightarrow> tn_ID t' \<noteq> u)"
    using Create_tenant_views [OF c email] assms by simp
  moreover have "view u (snd (tenant_svc_CreateKey idkey env i ?k s1)) = view u s1
      \<and> pool (snd (tenant_svc_CreateKey idkey env i ?k s1)) = pool s1" if "i \<noteq> u" for i
    using key_ops_only_for(1) [of i s1 idkey env ?k] that by (simp add: only_for_def)
  ultimately have v: "view u s1 = view u s" "pool s1 = pool s" "\<And>t'. r = Inr t' \<Longrightarrow> tn_ID t' \<noteq> u
      \<and> view u (snd (tenant_svc_CreateKey idkey env (tn_ID t') ?k s1)) = view u s
      \<and> pool (snd (tenant_svc_CreateKey idkey env (tn_ID t') ?k s1)) = pool s" by auto
  show ?thesis
  proof (cases r)
    case (Inl e)
    then show ?thesis using None c v(1,2) by (simp add: tenant_svc_Signup_def Let_def)
  next
    case (Inr t')
    obtain q s2 where k: "tenant_svc_CreateKey idkey env (tn_ID t') ?k s1 = (q, s2)" by fastforce
    show ?thesis using None c v(3) [OF Inr] Inr k by (cases q) (simp_all add: tenant_svc_Signup_def Let_def)
  qed
qed (simp add: tenant_svc_Signup_def)

end
