(* ===== verification/Routes_Rules.thy ===== *)
theory Routes_Rules
  imports Routes Tenant_View Backoffice_Samples
begin

text \<open>
  What the interface as a whole guarantees, from the router down to the tables: what the two authentications let
  through, which guard each handler is behind, and that a request leaves the data of every tenant alone whose
  credentials it does not carry, whatever handler it reaches.
\<close>

section \<open>Credentials of a request\<close>

text \<open>The key row with which the API key middleware lets a header through, and the user, tenant and role of a
  token that the middleware of the backoffice accepts.\<close>

definition bearer :: "string \<Rightarrow> string option" where
  "bearer authHeader = (if prefix ''Bearer '' authHeader then Some (drop 7 authHeader) else None)"

definition presented_key :: "idkey \<Rightarrow> string \<Rightarrow> sys \<Rightarrow> api_key_row option" where
  "presented_key idkey authHeader s =
     (case bearer authHeader of
        None \<Rightarrow> None
      | Some token \<Rightarrow>
          (if 12 \<le> length token
           then case active_key (take 12 token) s of
                  None \<Rightarrow> None
                | Some r \<Rightarrow>
                    (if unexpired (clock s) (kr_key r) \<and> kr_key_hash r = tenant_key_hash idkey token (take 12 token)
                     then Some r else None)
           else None))"

definition token_tenant :: "bo_libs \<Rightarrow> map_claims \<Rightarrow> uuid option" where
  "token_tenant libs claims = Option.bind (claim_text claims ''tenant_id'') (lb_uuid_parse libs)"

definition presented_token :: "bo_libs \<Rightarrow> string \<Rightarrow> string \<Rightarrow> sys \<Rightarrow> (uuid \<times> uuid \<times> string) option" where
  "presented_token libs jwtSecret authHeader s =
     (case bearer authHeader of
        None \<Rightarrow> None
      | Some token \<Rightarrow>
          (case lb_parse libs (clock s) (hmac_keyfunc jwtSecret) token of
             Inl err \<Rightarrow> None
           | Inr claims \<Rightarrow>
               (case (Option.bind (claim_text claims ''user_id'') (lb_uuid_parse libs), token_tenant libs claims, claim_text claims ''role'') of
                  (Some userID, Some tenantID, Some role) \<Rightarrow> Some (userID, tenantID, role)
                | _ \<Rightarrow> None)))"

lemma bearer_Some: "bearer h = Some token \<longleftrightarrow> h = ''Bearer '' @ token"
  by (auto simp: bearer_def prefix_def)

text \<open>The two middlewares, by these functions.\<close>

lemma Auth_presented:
  "presented_key idkey h s = Some r \<Longrightarrow> AuthMiddleware idkey next ctx h s
     = next (WithTenantID ctx (ak_TenantID (kr_key r))) (snd (setRLSContext (ak_TenantID (kr_key r)) s))"
  "presented_key idkey h s = None \<Longrightarrow> \<exists>code msg. AuthMiddleware idkey next ctx h s = (writeErrorResponse 401 code msg, s)"
proof -
  assume "presented_key idkey h s = Some r"
  then obtain token where t: "h = ''Bearer '' @ token" "12 \<le> length token" "active_key (take 12 token) s = Some r"
      "unexpired (clock s) (kr_key r)" "kr_key_hash r = tenant_key_hash idkey token (take 12 token)"
    by (auto simp: presented_key_def bearer_Some split: option.splits if_splits)
  show "AuthMiddleware idkey next ctx h s
     = next (WithTenantID ctx (ak_TenantID (kr_key r))) (snd (setRLSContext (ak_TenantID (kr_key r)) s))"
    unfolding t(1) Auth_bearer [OF t(2)] using t(3-5) by simp
next
  assume none: "presented_key idkey h s = None"
  show "\<exists>code msg. AuthMiddleware idkey next ctx h s = (writeErrorResponse 401 code msg, s)"
  proof (cases "\<exists>token. h = ''Bearer '' @ token \<and> 12 \<le> length token")
    case True
    then obtain token where t: "h = ''Bearer '' @ token" "12 \<le> length token" by blast
    have "bearer h = Some token" using t(1) by (simp add: bearer_Some)
    then show ?thesis using none t(2) unfolding t(1) Auth_bearer [OF t(2)]
      by (auto simp: presented_key_def split: option.split if_splits)
  qed (rule Auth_not_bearer, blast)
qed

lemma split_bearer:
  "length (split_n2 (CHR '' '') h) = 2 \<and> split_n2 (CHR '' '') h ! 0 = ''Bearer'' \<longleftrightarrow> bearer h \<noteq> None"
  "bearer h = Some token \<Longrightarrow> split_n2 (CHR '' '') h ! 1 = token"
proof -
  have split: "split_n2 (CHR '' '') (''Bearer '' @ token) = [''Bearer'', token]" for token
    using split_n2_append [of "CHR '' ''" "''Bearer''" token] by simp
  have "split_n2 (CHR '' '') (''Bearer '' @ token) ! 1 = token" by (subst split) simp
  then show "bearer h = Some token \<Longrightarrow> split_n2 (CHR '' '') h ! 1 = token" by (simp only: bearer_Some)
  have fwd: "bearer h = Some token' \<Longrightarrow> split_n2 (CHR '' '') h = [''Bearer'', token']" for token'
    by (simp only: bearer_Some split)
  have "bearer h \<noteq> None" if "length (split_n2 (CHR '' '') h) = 2" "split_n2 (CHR '' '') h ! 0 = ''Bearer''"
  proof -
    have h: "CHR '' '' \<in> set h" "takeWhile (\<lambda>c. c \<noteq> CHR '' '') h = ''Bearer''"
      using that by (auto simp: split_n2_def split: if_splits)
    then have "dropWhile (\<lambda>c. c \<noteq> CHR '' '') h \<noteq> []" by (auto simp: dropWhile_eq_Nil_conv)
    then have "dropWhile (\<lambda>c. c \<noteq> CHR '' '') h = CHR '' '' # tl (dropWhile (\<lambda>c. c \<noteq> CHR '' '') h)"
      using hd_dropWhile [of "\<lambda>c. c \<noteq> CHR '' ''" h] by (cases "dropWhile (\<lambda>c. c \<noteq> CHR '' '') h") auto
    then have "h = ''Bearer '' @ tl (dropWhile (\<lambda>c. c \<noteq> CHR '' '') h)"
      using takeWhile_dropWhile_id [of "\<lambda>c. c \<noteq> CHR '' ''" h] h(2) by simp
    then show ?thesis using bearer_Some by auto
  qed
  then show "length (split_n2 (CHR '' '') h) = 2 \<and> split_n2 (CHR '' '') h ! 0 = ''Bearer'' \<longleftrightarrow> bearer h \<noteq> None"
    using fwd by auto
qed

definition token_context :: "uuid \<Rightarrow> uuid \<Rightarrow> string \<Rightarrow> bo_context \<Rightarrow> bo_context" where
  "token_context userID tenantID role bx =
     bx\<lparr>bx_user_id := Some userID, bx_tenant_id := Some tenantID, bx_role := Some role, bx_context := WithTenantID (bx_context bx) tenantID\<rparr>"

lemma BackofficeAuth_presented:
  "presented_token libs jwtSecret h s = Some (uid, t, role) \<Longrightarrow> BackofficeAuth libs jwtSecret next bx h s
     = next (token_context uid t role bx) (snd (setRLSContext t s))"
  "presented_token libs jwtSecret h s = None
     \<Longrightarrow> \<exists>code msg. BackofficeAuth libs jwtSecret next bx h s = (writeErrorResponse 401 code msg, s)"
proof -
  have empty: "bearer [] = None" by (simp add: bearer_def)
  have bad: "bearer h = None \<Longrightarrow> h = [] \<or> length (split_n2 (CHR '' '') h) \<noteq> 2 \<or> split_n2 (CHR '' '') h ! 0 \<noteq> ''Bearer''"
    using split_bearer(1) [of h] by auto
  have good: "bearer h = Some token \<Longrightarrow> h \<noteq> [] \<and> length (split_n2 (CHR '' '') h) = 2 \<and> split_n2 (CHR '' '') h ! 0 = ''Bearer''" for token
    using split_bearer(1) [of h] empty by auto
  show "BackofficeAuth libs jwtSecret next bx h s = next (token_context uid t role bx) (snd (setRLSContext t s))"
    if some: "presented_token libs jwtSecret h s = Some (uid, t, role)"
  proof -
    obtain token claims where c1: "bearer h = Some token" "lb_parse libs (clock s) (hmac_keyfunc jwtSecret) token = Inr claims"
      using some by (auto simp: presented_token_def split: option.splits sum.splits)
    have c2: "Option.bind (claim_text claims ''user_id'') (lb_uuid_parse libs) = Some uid" "token_tenant libs claims = Some t"
      "claim_text claims ''role'' = Some role"
      using some c1 by (simp_all add: presented_token_def split: option.splits)
    obtain ut tt where c: "bearer h = Some token" "lb_parse libs (clock s) (hmac_keyfunc jwtSecret) token = Inr claims"
      "claim_text claims ''user_id'' = Some ut" "lb_uuid_parse libs ut = Some uid" "claim_text claims ''tenant_id'' = Some tt"
      "lb_uuid_parse libs tt = Some t" "claim_text claims ''role'' = Some role"
      using c1 c2 by (auto simp: token_tenant_def bind_eq_Some_conv)
    show ?thesis
      using good [OF c(1)] split_bearer(2) [OF c(1)] c(2-7)
      by (simp add: BackofficeAuth_def Let_def case_prod_beta setRLSContext_def token_context_def WithBackofficeRole_def
          WithBackofficeTenantID_def WithBackofficeUserID_def)
  qed
  show "\<exists>code msg. BackofficeAuth libs jwtSecret next bx h s = (writeErrorResponse 401 code msg, s)"
    if none: "presented_token libs jwtSecret h s = None"
  proof (cases "bearer h")
    case None
    then show ?thesis using bad by (auto simp: BackofficeAuth_def Let_def)
  next
    case (Some token)
    note b = good [OF Some] split_bearer(2) [OF Some]
    show ?thesis
      using none b Some
      by (auto simp: BackofficeAuth_def Let_def invalid_token_def presented_token_def token_tenant_def split: sum.splits option.splits)
  qed
qed

section \<open>The middlewares in front\<close>

definition request_context :: "program \<Rightarrow> sys \<Rightarrow> go_context" where
  "request_context pg s = WithRequestID background (''req_'' @ lb_uuid_string (pg_libs pg) (next_uuid s))"

lemma request_context_tenant [simp]: "TenantIDFromContext (request_context pg s) = 0"
  by (simp add: request_context_def)

lemma guarded_eq:
  "guarded pg r g h s limiter =
     (let ctx = request_context pg s;
          (resp, s1) = (case g of
             Api_Key \<Rightarrow> AuthMiddleware (pg_idkey pg) (\<lambda>ctx. h (in_context ctx)) ctx (auth_header r) (draw s)
           | Backoffice_Token \<Rightarrow>
               BackofficeAuth (pg_libs pg) (cf_BackofficeJWTSecret (pg_cfg pg)) h (in_context ctx) (auth_header r) (draw s)
           | _ \<Rightarrow> h (in_context ctx) (draw s))
      in ((recovered resp, s1), [], limiter))"
proof -
  have rl: "TenantIDFromContext ctx = 0 \<Longrightarrow> RateLimitMiddleware routes ctx s' limiter = (routes ctx s', [], limiter)"
    for routes :: "go_context \<Rightarrow> sys \<Rightarrow> body response \<times> sys" and s' ctx
    by (simp add: RateLimitMiddleware_def)
  show ?thesis
    unfolding guarded_def Let_def
    by (cases g)
      (simp_all add: v1_route_def RequestID_def Recovery_def request_context_def rl api_key_group_def
        backoffice_group_def in_context_def case_prod_beta)
qed

section \<open>Handlers\<close>

lemma reply_snd [simp]: "snd (reply enc p) = snd p"
  by (simp add: reply_def)

text \<open>A handler that runs for a tenant keeps the views of all other tenants.\<close>

lemma run_handler_only_for:
  assumes "session s = Current_Tenant t" "TenantIDFromContext (bx_context bx) = t" "BackofficeTenantIDFromContext bx \<in> {0, t}"
    and "h \<noteq> Signup"
  shows "only_for t s (snd (run_handler pg r ps h bx s))"
proof -
  note [simp] = assms(2)
  note plan = plan_ops_only_for [OF assms(1)]
  note sub = sub_write_only_for [OF assms(1)] sub_create_only_for [OF assms(1)]
  note user = user_ops_only_for [OF assms(1)]
  show ?thesis
  proof (cases h)
    case Create_Key
    then show ?thesis using key_ops_only_for(1)
      by (auto simp: tenant_handler_CreateKey_def Let_def case_prod_beta split: sum.split)
  next
    case Revoke_Key
    then show ?thesis using key_ops_only_for(2)
      by (auto simp: tenant_handler_RevokeKey_def Let_def case_prod_beta split: sum.split option.split)
  next
    case Set_Default_Provider
    then show ?thesis using key_ops_only_for(3)
      by (auto simp: tenant_handler_SetDefaultProvider_def Let_def case_prod_beta split: sum.split)
  next
    case Set_Credentials
    then show ?thesis using cred_ops_only_for(1) [OF assms(1)]
      by (auto simp: cred_handler_Set_def case_prod_beta split: sum.split option.split)
  next
    case Delete_Credentials
    then show ?thesis using cred_ops_only_for(2) [OF assms(1)]
      by (auto simp: cred_handler_Delete_def case_prod_beta split: option.split)
  next
    case Plan_Create
    then show ?thesis using plan(1) by (auto simp: plan_handler_CreateOrGet_def case_prod_beta split: sum.split)
  next
    case Plan_Update
    then show ?thesis using plan(2) by (auto simp: plan_handler_Update_def case_prod_beta split: sum.split)
  next
    case Plan_Delete
    then show ?thesis using plan(3) by (auto simp: plan_handler_Delete_def case_prod_beta split: sum.split)
  next
    case Payment_Create
    then show ?thesis using payment_only_for [OF assms(1)]
      by (auto simp: pay_handler_CreatePayment_def Let_def case_prod_beta split: sum.split)
  next
    case Sub_Create
    then show ?thesis using sub(3) by (auto simp: sub_handler_Create_def Let_def case_prod_beta split: sum.split)
  next
    case Sub_Update
    then show ?thesis using sub(1) by (auto simp: sub_handler_Update_def case_prod_beta split: sum.split)
  next
    case Sub_Cancel
    then show ?thesis using sub(2) by (auto simp: sub_handler_Cancel_def Let_def case_prod_beta split: sum.split)
  next
    case Bo_Update
    then show ?thesis using user(1) by (auto simp: bo_handler_UpdateProfile_def Let_def case_prod_beta split: sum.split option.split)
  next
    case Bo_Create_User
    then show ?thesis using assms(3) CreateUser_only_for
      by (auto simp: bo_handler_CreateUser_def Let_def case_prod_beta split: sum.split option.split)
  next
    case Bo_Deactivate
    then show ?thesis using user(2) by (auto simp: bo_handler_DeactivateUser_def case_prod_beta split: option.split)
  next
    case Bo_Password
    then show ?thesis using user(3) by (auto simp: bo_handler_ChangePassword_def case_prod_beta split: option.split)
  qed (use assms(4) in \<open>simp_all add: Let_def\<close>)
qed

text \<open>The handlers without authentication change nothing but by a signup, which keeps the view of every tenant there is.\<close>

lemma signup_handler_views:
  assumes "u \<in> tn_ID ` set (tenants s)"
  shows "view u (snd (tenant_handler_Signup idkey env (Some (wrapped_CreateUser svc)) cfg ctx body s)) = view u s
    \<and> pool (snd (tenant_handler_Signup idkey env (Some (wrapped_CreateUser svc)) cfg ctx body s)) = pool s"
proof -
  have "view u (snd (wrapped_CreateUser svc i email name pw role s1)) = view u s1
      \<and> pool (snd (wrapped_CreateUser svc i email name pw role s1)) = pool s1" if "i \<noteq> u" for i email name pw role s1
    using CreateUser_only_for [of i s1 svc email name pw role] that by (simp add: only_for_def wrapped_CreateUser_def)
  moreover have "view u s1 = view u s" "pool s1 = pool s" "q = Inr (t, k) \<Longrightarrow> tn_ID t \<noteq> u"
    if "tenant_svc_Signup idkey env input s = (q, s1)" for input q s1 t k
    using Signup_views [OF assms, of idkey env input] that by auto
  ultimately show ?thesis
    by (auto simp: tenant_handler_Signup_def Let_def split: sum.split prod.split)
qed

definition open_endpoints :: "endpoint list" where
  "open_endpoints = [Health, Signup, Webhook_Post, Check_Email, Login, Ui_Redirect_Root, Ui_Files]"

lemma open_handler:
  assumes "h \<in> set open_endpoints" "u \<in> tn_ID ` set (tenants s)"
  shows "view u (snd (run_handler pg r ps h bx s)) = view u s \<and> pool (snd (run_handler pg r ps h bx s)) = pool s"
  using assms(1) signup_handler_views [OF assms(2)] by (auto simp: Let_def open_endpoints_def)

section \<open>The route table\<close>

text \<open>What an entry of the table is reached through: the handlers without authentication are the open ones.\<close>

definition guard_fits :: "guard \<times> entry \<Rightarrow> bool" where
  "guard_fits e = (case e of (g, Handle verb pattern h) \<Rightarrow> (g = Open \<or> g = Public) = (h \<in> set open_endpoints) | (g, Mounted p) \<Rightarrow> True)"

lemma router_guards: "list_all guard_fits (main_router cfg)"
proof -
  have pub: "list_all guard_fits (map (\<lambda>e. (Public, under ''/v1'' e)) public_routes)"
    and dom: "list_all guard_fits (map (\<lambda>e. (Api_Key, under ''/v1'' e)) domain_routes)"
    and bo: "list_all guard_fits (map (\<lambda>e. (Backoffice_Token, under ''/v1'' e)) bo_RegisterAuthRoutes)"
    and rest: "list_all guard_fits [(Open, Handle ''GET'' ''/health'' Health), (Public, Mounted ''/v1/*''), (Api_Key, Handle ''GET'' ''/v1/me'' Me),
        (Open, Handle ''GET'' ''/backoffice'' Ui_Redirect_Root), (Open, Handle ''GET'' ''/backoffice/'' Ui_Files),
        (Open, Handle ''GET'' ''/backoffice/*'' Ui_Files)]"
    by code_simp+
  then show ?thesis unfolding main_router_def newRouter_def by simp
qed

section \<open>Whose data a request touches\<close>

text \<open>A request without credentials of tenant \<open>u\<close>: what it presents as a bearer token has the hash of none of the
  tenant's keys, and is no token of the backoffice that names the tenant.\<close>

definition lacks_credentials :: "program \<Rightarrow> uuid \<Rightarrow> tenant_view \<Rightarrow> http_request \<Rightarrow> bool" where
  "lacks_credentials pg u v r \<longleftrightarrow>
     (\<forall>token. bearer (auth_header r) = Some token \<longrightarrow>
        (\<forall>k \<in> set (tv_api_keys v). kr_key_hash k \<noteq> tenant_key_hash (pg_idkey pg) token (take 12 token))
        \<and> (\<forall>now claims. lb_parse (pg_libs pg) now (hmac_keyfunc (cf_BackofficeJWTSecret (pg_cfg pg))) token = Inr claims
              \<longrightarrow> token_tenant (pg_libs pg) claims \<noteq> Some u))"

lemma lacks_key:
  assumes "lacks_credentials pg u (view u s) r" "presented_key (pg_idkey pg) (auth_header r) (draw s) = Some k"
  shows "ak_TenantID (kr_key k) \<noteq> u"
proof
  assume u: "ak_TenantID (kr_key k) = u"
  obtain token where t: "bearer (auth_header r) = Some token" "active_key (take 12 token) (draw s) = Some k"
      "kr_key_hash k = tenant_key_hash (pg_idkey pg) token (take 12 token)"
    using assms(2) by (auto simp: presented_key_def split: option.splits if_splits)
  have "k \<in> set (tv_api_keys (view u s))"
    using t(2) u by (auto simp: active_key_def view_def key_tenant_def dest: find_SomeD)
  then show False using assms(1) t(1,3) by (auto simp: lacks_credentials_def)
qed

lemma lacks_token:
  assumes "lacks_credentials pg u v r"
    and "presented_token (pg_libs pg) (cf_BackofficeJWTSecret (pg_cfg pg)) (auth_header r) s = Some (uid, t, role)"
  shows "t \<noteq> u"
  using assms by (auto simp: presented_token_def lacks_credentials_def split: option.splits sum.splits)

text \<open>The connections under which tenants are kept apart: none bypasses row-level security, and the pool always hands
  out the one used last, so that the handler gets the connection that the middleware has set.\<close>

definition secure :: "sys \<Rightarrow> bool" where
  "secure s \<longleftrightarrow> session s \<noteq> Bypass \<and> one_connection s"

lemma secure_pool: "pool s' = pool s \<Longrightarrow> secure s' = secure s"
  by (simp add: pool_def secure_def one_connection_def)

lemma secure_draw [simp]: "secure (draw s) = secure s"
  by (rule secure_pool) simp

lemma setRLS_secure:
  assumes "secure s"
  shows "session (snd (setRLSContext t s)) = Current_Tenant t" "secure (snd (setRLSContext t s))"
  using assms setRLS_one_connection [of s t] by (simp_all add: secure_def one_connection_def)

lemma guarded_keeps:
  assumes "secure s" "u \<in> tn_ID ` set (tenants s)" "lacks_credentials pg u (view u s) r"
    and free: "\<And>bx s'. g = Open \<or> g = Public \<Longrightarrow> u \<in> tn_ID ` set (tenants s') \<Longrightarrow>
        view u (snd (f bx s')) = view u s' \<and> pool (snd (f bx s')) = pool s'"
    and own: "\<And>t bx s'. g = Api_Key \<or> g = Backoffice_Token \<Longrightarrow> session s' = Current_Tenant t \<Longrightarrow>
        TenantIDFromContext (bx_context bx) = t \<Longrightarrow> BackofficeTenantIDFromContext bx \<in> {0, t} \<Longrightarrow> only_for t s' (snd (f bx s'))"
  shows "view u (snd (fst (guarded pg r g f s limiter))) = view u s \<and> secure (snd (fst (guarded pg r g f s limiter)))"
proof -
  have nb: "secure (draw s)" using assms(1) by simp
  have own': "view u (snd (f bx (snd (setRLSContext t (draw s))))) = view u s \<and> secure (snd (f bx (snd (setRLSContext t (draw s)))))"
    if "g = Api_Key \<or> g = Backoffice_Token" "TenantIDFromContext (bx_context bx) = t" "BackofficeTenantIDFromContext bx \<in> {0, t}" "t \<noteq> u"
    for t bx
  proof -
    let ?s = "snd (setRLSContext t (draw s))"
    have o: "only_for t ?s (snd (f bx ?s))"
      using own [OF that(1) setRLS_secure(1) [OF nb] that(2,3)] .
    then have "view u (snd (f bx ?s)) = view u ?s" "pool (snd (f bx ?s)) = pool ?s"
      using that(4) by (simp_all add: only_for_def)
    then show ?thesis using setRLS_secure(2) [OF nb] secure_pool [of "snd (f bx ?s)" ?s] by simp
  qed
  have free': "view u (snd (f bx (draw s))) = view u s \<and> secure (snd (f bx (draw s)))" if "g = Open \<or> g = Public" for bx
    using free [OF that, of "draw s" bx] assms(2) nb secure_pool [of "snd (f bx (draw s))" "draw s"] by simp
  show ?thesis
  proof (cases g)
    case Api_Key
    show ?thesis
    proof (cases "presented_key (pg_idkey pg) (auth_header r) (draw s)")
      case None
      from Auth_presented(2) [OF None, of "\<lambda>ctx. f (in_context ctx)" "request_context pg s"]
      show ?thesis using Api_Key assms(1) by (auto simp: guarded_eq Let_def)
    next
      case (Some k)
      let ?t = "ak_TenantID (kr_key k)" and ?bx = "in_context (WithTenantID (request_context pg s) (ak_TenantID (kr_key k)))"
      have "view u (snd (f ?bx (snd (setRLSContext ?t (draw s))))) = view u s \<and> secure (snd (f ?bx (snd (setRLSContext ?t (draw s)))))"
        using Api_Key lacks_key [OF assms(3) Some]
        by (intro own') (simp_all add: in_context_def bo_background_def BackofficeTenantIDFromContext_def)
      then show ?thesis
        using Api_Key by (simp add: guarded_eq Let_def case_prod_beta Auth_presented(1) [OF Some])
    qed
  next
    case Backoffice_Token
    show ?thesis
    proof (cases "presented_token (pg_libs pg) (cf_BackofficeJWTSecret (pg_cfg pg)) (auth_header r) (draw s)")
      case None
      from BackofficeAuth_presented(2) [OF None, of f "in_context (request_context pg s)"]
      show ?thesis using Backoffice_Token assms(1) by (auto simp: guarded_eq Let_def)
    next
      case (Some p)
      obtain uid t role where p: "p = (uid, t, role)" by (cases p)
      note tok = Some [unfolded p]
      let ?bx = "token_context uid t role (in_context (request_context pg s))"
      have "view u (snd (f ?bx (snd (setRLSContext t (draw s))))) = view u s \<and> secure (snd (f ?bx (snd (setRLSContext t (draw s)))))"
        using Backoffice_Token lacks_token [OF assms(3) tok]
        by (intro own') (simp_all add: token_context_def in_context_def bo_background_def BackofficeTenantIDFromContext_def)
      then show ?thesis
        using Backoffice_Token by (simp add: guarded_eq Let_def case_prod_beta BackofficeAuth_presented(1) [OF tok])
    qed
  qed (use free' assms(1,2) in \<open>auto simp: guarded_eq Let_def case_prod_beta\<close>)
qed

lemma chi_law_Reached:
  assumes "chi_law chi" "chi es verb path = Reached i ps"
  shows "i < length es \<and> (\<exists>p h. es ! i = Handle verb p h)"
  using assms(1) [unfolded chi_law_def, rule_format, of es verb path] assms(2) by simp

lemma chi_law_Fell_Through:
  assumes "chi_law chi" "chi es verb path = Fell_Through i st"
  shows "i < length es \<and> (\<exists>p. es ! i = Mounted p)"
  using assms(1) [unfolded chi_law_def, rule_format, of es verb path] assms(2) by simp

lemma no_handler_snd [simp]: "snd (no_handler st bx s) = s"
  by (simp add: no_handler_def)

lemma serve_keeps:
  assumes "chi_law (pg_chi pg)" "secure s" "u \<in> tn_ID ` set (tenants s)" "lacks_credentials pg u (view u s) r"
  shows "view u (snd (fst (serve pg r s limiter))) = view u s \<and> secure (snd (fst (serve pg r s limiter)))"
proof -
  let ?table = "main_router (pg_cfg pg)"
  have none: "view u (snd (fst (guarded pg r g (no_handler st) s limiter))) = view u s
      \<and> secure (snd (fst (guarded pg r g (no_handler st) s limiter)))" for g st
    using assms(2-4) by (rule guarded_keeps) simp_all
  show ?thesis
  proof (cases "pg_chi pg (map snd ?table) (hq_method r) (hq_path r)")
    case (Reached i ps)
    have "i < length ?table" using chi_law_Reached [OF assms(1) Reached] by simp
    then have fits: "guard_fits (?table ! i)" using router_guards by (simp add: list_all_length)
    obtain g e where ge: "?table ! i = (g, e)" by fastforce
    show ?thesis
    proof (cases e)
      case (Handle verb p h)
      have g: "(g = Open \<or> g = Public) = (h \<in> set open_endpoints)" using fits by (simp add: ge Handle guard_fits_def)
      have "h \<noteq> Signup" if "g = Api_Key \<or> g = Backoffice_Token" using that g by (auto simp: open_endpoints_def)
      then have "view u (snd (fst (guarded pg r g (run_handler pg r ps h) s limiter))) = view u s
          \<and> secure (snd (fst (guarded pg r g (run_handler pg r ps h) s limiter)))"
        using g by (intro guarded_keeps [OF assms(2-4)] open_handler run_handler_only_for) simp_all
      then show ?thesis by (simp add: serve_def Let_def Reached ge Handle)
    qed (simp add: serve_def Let_def Reached ge none)
  qed (simp_all add: serve_def Let_def none)
qed

lemma view_tenant: "u \<in> tn_ID ` set (tenants s) \<longleftrightarrow> tv_tenants (view u s) \<noteq> []"
  by (auto simp: view_def filter_empty_conv)

end
