(* ===== verification/Interface_Rules.thy ===== *)
theory Interface_Rules
  imports Routes_Rules
begin

text \<open>
  What a request is answered: which handler runs and for whom, that reading shows a tenant its own data only,
  and that the key of a signup opens the interface for the new tenant.
\<close>

section \<open>Dispatch\<close>

definition answer :: "body response \<times> sys \<Rightarrow> body response \<times> sys" where
  "answer p = (recovered (fst p), snd p)"

text \<open>What a handler finds behind an authentication: the tenant was set on one connection of the pool, and the pool
  has handed out a connection again, that one or another.\<close>

definition as_tenant :: "uuid \<Rightarrow> sys \<Rightarrow> sys" where
  "as_tenant t s = snd (setRLSContext t s)"

lemma view_as_tenant [simp]: "view u (as_tenant t s) = view u s"
  by (simp add: as_tenant_def)

lemma as_tenant_session:
  "pool s1 = pool s2 \<Longrightarrow> acquired s1 = acquired s2 \<Longrightarrow> session (as_tenant t s1) = session (as_tenant t s2)"
  by (simp add: as_tenant_def setRLSContext_def acquire_def pool_def Let_def split: nat.split)

lemma presented_draw [simp]:
  "presented_key idkey h (draw s) = presented_key idkey h s" "presented_token libs secret h (draw s) = presented_token libs secret h s"
  unfolding presented_key_def active_key_def presented_token_def sys_draw_simps by (rule refl)+

lemma recovered_error [simp]: "recovered (writeErrorResponse st code msg) = writeErrorResponse st code msg"
  by (simp add: recovered_def writeErrorResponse_def)

lemma guarded_cases:
  "g = Open \<or> g = Public \<Longrightarrow> fst (guarded pg r g f s limiter) = answer (f (in_context (request_context pg s)) (draw s))"
  "presented_key (pg_idkey pg) (auth_header r) s = Some k \<Longrightarrow> fst (guarded pg r Api_Key f s limiter)
     = answer (f (in_context (WithTenantID (request_context pg s) (ak_TenantID (kr_key k)))) (as_tenant (ak_TenantID (kr_key k)) (draw s)))"
  "presented_key (pg_idkey pg) (auth_header r) s = None \<Longrightarrow>
     \<exists>code msg. fst (guarded pg r Api_Key f s limiter) = (writeErrorResponse 401 code msg, draw s)"
  "presented_token (pg_libs pg) (cf_BackofficeJWTSecret (pg_cfg pg)) (auth_header r) s = Some (uid, t, role) \<Longrightarrow>
     fst (guarded pg r Backoffice_Token f s limiter)
       = answer (f (token_context uid t role (in_context (request_context pg s))) (as_tenant t (draw s)))"
  "presented_token (pg_libs pg) (cf_BackofficeJWTSecret (pg_cfg pg)) (auth_header r) s = None \<Longrightarrow>
     \<exists>code msg. fst (guarded pg r Backoffice_Token f s limiter) = (writeErrorResponse 401 code msg, draw s)"
proof -
  show "fst (guarded pg r g f s limiter) = answer (f (in_context (request_context pg s)) (draw s))" if "g = Open \<or> g = Public"
    using that by (auto simp: guarded_eq Let_def case_prod_beta answer_def)
  show "fst (guarded pg r Api_Key f s limiter)
     = answer (f (in_context (WithTenantID (request_context pg s) (ak_TenantID (kr_key k)))) (as_tenant (ak_TenantID (kr_key k)) (draw s)))"
    if "presented_key (pg_idkey pg) (auth_header r) s = Some k"
    using Auth_presented(1) [of "pg_idkey pg" "auth_header r" "draw s" k "\<lambda>ctx. f (in_context ctx)" "request_context pg s"] that
    by (simp add: guarded_eq Let_def case_prod_beta answer_def as_tenant_def)
  show "\<exists>code msg. fst (guarded pg r Api_Key f s limiter) = (writeErrorResponse 401 code msg, draw s)"
    if none: "presented_key (pg_idkey pg) (auth_header r) s = None"
  proof -
    obtain code msg where "AuthMiddleware (pg_idkey pg) (\<lambda>ctx. f (in_context ctx)) (request_context pg s) (auth_header r) (draw s)
        = (writeErrorResponse 401 code msg, draw s)"
      using Auth_presented(2) [of "pg_idkey pg" "auth_header r" "draw s" "\<lambda>ctx. f (in_context ctx)" "request_context pg s"] none by auto
    then show ?thesis by (intro exI [of _ code] exI [of _ msg]) (simp add: guarded_eq Let_def)
  qed
  show "fst (guarded pg r Backoffice_Token f s limiter)
       = answer (f (token_context uid t role (in_context (request_context pg s))) (as_tenant t (draw s)))"
    if "presented_token (pg_libs pg) (cf_BackofficeJWTSecret (pg_cfg pg)) (auth_header r) s = Some (uid, t, role)"
    using BackofficeAuth_presented(1) [of "pg_libs pg" "cf_BackofficeJWTSecret (pg_cfg pg)" "auth_header r" "draw s" uid t role f
        "in_context (request_context pg s)"] that
    by (simp add: guarded_eq Let_def case_prod_beta answer_def as_tenant_def)
  show "\<exists>code msg. fst (guarded pg r Backoffice_Token f s limiter) = (writeErrorResponse 401 code msg, draw s)"
    if none: "presented_token (pg_libs pg) (cf_BackofficeJWTSecret (pg_cfg pg)) (auth_header r) s = None"
  proof -
    obtain code msg where "BackofficeAuth (pg_libs pg) (cf_BackofficeJWTSecret (pg_cfg pg)) f (in_context (request_context pg s))
        (auth_header r) (draw s) = (writeErrorResponse 401 code msg, draw s)"
      using BackofficeAuth_presented(2) [of "pg_libs pg" "cf_BackofficeJWTSecret (pg_cfg pg)" "auth_header r" "draw s" f
          "in_context (request_context pg s)"] none by auto
    then show ?thesis by (intro exI [of _ code] exI [of _ msg]) (simp add: guarded_eq Let_def)
  qed
qed

text \<open>The handler that a request reaches, with what it is reached through.\<close>

definition reaches :: "program \<Rightarrow> http_request \<Rightarrow> guard \<Rightarrow> endpoint \<Rightarrow> (string \<Rightarrow> string) \<Rightarrow> bool" where
  "reaches pg r g h ps \<longleftrightarrow>
     (\<exists>i verb pattern. pg_chi pg (map snd (main_router (pg_cfg pg))) (hq_method r) (hq_path r) = Reached i ps
        \<and> i < length (main_router (pg_cfg pg)) \<and> main_router (pg_cfg pg) ! i = (g, Handle verb pattern h))"

lemma serve_reached: "reaches pg r g h ps \<Longrightarrow> serve pg r s limiter = guarded pg r g (run_handler pg r ps h) s limiter"
  by (auto simp: reaches_def serve_def Let_def)

lemma reaches_guard: "reaches pg r g h ps \<Longrightarrow> (g = Open \<or> g = Public) = (h \<in> set open_endpoints)"
  using router_guards [of "pg_cfg pg"] by (fastforce simp: reaches_def list_all_length guard_fits_def)

text \<open>C5. Every handler but those of health, signup, webhooks, login and the interface's files is behind one of the two
  authentications. Without a presented key (the first active key of the table with the 12-character prefix of the bearer token has
  not expired and has the token's hash; another active key with the same prefix that stands before it in the table hides a valid
  one) or without a valid token of the backoffice, the request is answered with 401 and changes no table. With it the handler runs
  with the tenant of the key or token in its context, after that tenant was set on one connection of the pool, on
  the connection that the pool hands out next, which need not be that one.\<close>

theorem protected_handlers:
  assumes "reaches pg r g h ps" "h \<notin> set open_endpoints"
  shows "g = Api_Key \<and>
      (case presented_key (pg_idkey pg) (auth_header r) s of
         None \<Rightarrow> \<exists>code msg. fst (serve pg r s limiter) = (writeErrorResponse 401 code msg, draw s)
       | Some k \<Rightarrow> fst (serve pg r s limiter)
           = answer (run_handler pg r ps h (in_context (WithTenantID (request_context pg s) (ak_TenantID (kr_key k))))
               (as_tenant (ak_TenantID (kr_key k)) (draw s))))
    \<or> g = Backoffice_Token \<and>
      (case presented_token (pg_libs pg) (cf_BackofficeJWTSecret (pg_cfg pg)) (auth_header r) s of
         None \<Rightarrow> \<exists>code msg. fst (serve pg r s limiter) = (writeErrorResponse 401 code msg, draw s)
       | Some (uid, t, role) \<Rightarrow> fst (serve pg r s limiter)
           = answer (run_handler pg r ps h (token_context uid t role (in_context (request_context pg s))) (as_tenant t (draw s))))"
proof -
  have "g = Api_Key \<or> g = Backoffice_Token" using reaches_guard [OF assms(1)] assms(2) by (cases g) auto
  then show ?thesis
    unfolding serve_reached [OF assms(1)]
    by (auto simp: guarded_cases(2,4) split: option.split intro: guarded_cases(3,5))
qed

section \<open>Reading\<close>

text \<open>The handlers with an API key that only read, and whose statements name the tenant. (Those of \<open>GET /plans/{id}\<close>,
  \<open>GET /subscriptions/{key}\<close> and the payments of a subscription do not: they leave it to row-level security.)\<close>

definition reading_endpoints :: "endpoint list" where
  "reading_endpoints = [Me, List_Keys, List_Providers, Provider_Status, Plan_List, Plan_By_Slug, Payment_List, Sub_List]"

lemma find_filter: "find P (filter Q xs) = find (\<lambda>x. Q x \<and> P x) xs"
  by (induction xs) auto

text \<open>A statement whose condition names the tenant reads the rows of that tenant only, on any connection.\<close>

lemma named_rows:
  assumes "session s1 = session s2" "filter (\<lambda>r. ten r = t) rows1 = filter (\<lambda>r. ten r = t) rows2" "\<And>r. P r \<Longrightarrow> ten r = t"
  shows query_row_own: "query_row s1 ten P rows1 = query_row s2 ten P rows2"
    and filter_own: "filter (\<lambda>r. visible s1 (ten r) \<and> P r) rows1 = filter (\<lambda>r. visible s2 (ten r) \<and> P r) rows2"
    and page_own: "page n key (\<lambda>r. visible s1 (ten r) \<and> P r) rows1 = page n key (\<lambda>r. visible s2 (ten r) \<and> P r) rows2"
proof -
  have v: "visible s1 = visible s2" by (rule ext) (simp add: visible_def assms(1))
  have n: "(\<lambda>r. ten r = t \<and> (visible s2 (ten r) \<and> P r)) = (\<lambda>r. visible s2 (ten r) \<and> P r)" using assms(3) by auto
  have "find (\<lambda>r. visible s2 (ten r) \<and> P r) (filter (\<lambda>r. ten r = t) rows1)
      = find (\<lambda>r. visible s2 (ten r) \<and> P r) (filter (\<lambda>r. ten r = t) rows2)" by (simp only: assms(2))
  then show "query_row s1 ten P rows1 = query_row s2 ten P rows2"
    by (simp only: query_row_def session_check_def assms(1) v find_filter n)
  have "filter (\<lambda>r. visible s2 (ten r) \<and> P r) (filter (\<lambda>r. ten r = t) rows1)
      = filter (\<lambda>r. visible s2 (ten r) \<and> P r) (filter (\<lambda>r. ten r = t) rows2)" by (simp only: assms(2))
  then show f: "filter (\<lambda>r. visible s1 (ten r) \<and> P r) rows1 = filter (\<lambda>r. visible s2 (ten r) \<and> P r) rows2"
    by (simp only: v filter_filter conj_commute [of _ "_ = t"] n)
  show "page n key (\<lambda>r. visible s1 (ten r) \<and> P r) rows1 = page n key (\<lambda>r. visible s2 (ten r) \<and> P r) rows2"
    by (simp only: page_def f)
qed

lemma view_eqD:
  assumes "view t s1 = view t s2"
  shows "filter (\<lambda>r. tn_ID r = t) (tenants s1) = filter (\<lambda>r. tn_ID r = t) (tenants s2)"
    "filter (\<lambda>r. plan_TenantID r = t) (plans s1) = filter (\<lambda>r. plan_TenantID r = t) (plans s2)"
    "filter (\<lambda>r. row_tenant r = t) (subscriptions s1) = filter (\<lambda>r. row_tenant r = t) (subscriptions s2)"
    "filter (\<lambda>r. pay_TenantID r = t) (payments s1) = filter (\<lambda>r. pay_TenantID r = t) (payments s2)"
    "filter (\<lambda>r. key_tenant r = t) (api_keys s1) = filter (\<lambda>r. key_tenant r = t) (api_keys s2)"
    "filter (\<lambda>r. cd_TenantID r = t) (credentials s1) = filter (\<lambda>r. cd_TenantID r = t) (credentials s2)"
    "filter (\<lambda>r. tenant_of_user r = t) (users s1) = filter (\<lambda>r. tenant_of_user r = t) (users s2)"
  using assms by (simp_all add: view_def)

lemma own_keys: "filter (\<lambda>k. ak_TenantID k = t \<and> ak_IsActive k) (map kr_key ks)
    = filter ak_IsActive (map kr_key (filter (\<lambda>r. key_tenant r = t) ks))"
  by (induction ks) (auto simp: key_tenant_def)

lemma reading_own:
  assumes "session s1 = session s2" "view t s1 = view t s2"
    and t: "TenantIDFromContext (bx_context bx) = t" and "h \<in> set reading_endpoints"
  shows "fst (run_handler pg r ps h bx s1) = fst (run_handler pg r ps h bx s2)"
proof -
  note own = view_eqD [OF assms(2)]
  have sc: "session_check s1 = session_check s2" using assms(1) by (simp add: session_check_def)
  have keys: "tenant_handler_ListKeys (bx_context bx) s1 = tenant_handler_ListKeys (bx_context bx) s2"
    by (simp add: tenant_handler_ListKeys_def tenant_svc_ListKeys_def tenant_repo_ListAPIKeys_def own_keys own t)
  have "query_row s1 cd_TenantID (\<lambda>r. credential_place r = (t, p)) (credentials s1)
      = query_row s2 cd_TenantID (\<lambda>r. credential_place r = (t, p)) (credentials s2)" for p
    by (rule query_row_own [OF assms(1) own(6)]) (simp add: credential_place_def)
  then have cget: "cred_repo_Get e t p s1 = cred_repo_Get e t p s2" for e p by (simp add: cred_repo_Get_def)
  have "filter (\<lambda>r. visible s1 (cd_TenantID r) \<and> cd_TenantID r = t) (credentials s1)
      = filter (\<lambda>r. visible s2 (cd_TenantID r) \<and> cd_TenantID r = t) (credentials s2)"
    by (rule filter_own [OF assms(1) own(6)])
  then have clist: "cred_repo_List e t s1 = cred_repo_List e t s2" for e by (simp only: cred_repo_List_def sc)
  have "query_row s1 plan_TenantID (\<lambda>p. plan_TenantID p = t \<and> plan_Slug p = sl) (plans s1)
      = query_row s2 plan_TenantID (\<lambda>p. plan_TenantID p = t \<and> plan_Slug p = sl) (plans s2)" for sl
    by (rule query_row_own [OF assms(1) own(2)]) simp
  then have slug: "plan_repo_GetBySlug t sl s1 = plan_repo_GetBySlug t sl s2" for sl by (simp add: plan_repo_GetBySlug_def)
  have plist_page: "page n plan_order (\<lambda>p. visible s1 (plan_TenantID p) \<and> plan_list_filter t i c p) (plans s1)
      = page n plan_order (\<lambda>p. visible s2 (plan_TenantID p) \<and> plan_list_filter t i c p) (plans s2)" for n i c
    by (rule page_own [OF assms(1) own(2)]) (simp add: plan_list_filter_def)
  have plist: "plan_repo_List up us t inp s1 = plan_repo_List up us t inp s2" for up us inp
    unfolding plan_repo_List_def sc plist_page by (rule refl)
  have pay_page: "page n payment_order (\<lambda>p. visible s1 (pay_TenantID p) \<and> payment_list_filter t i c p) (payments s1)
      = page n payment_order (\<lambda>p. visible s2 (pay_TenantID p) \<and> payment_list_filter t i c p) (payments s2)" for n i c
    by (rule page_own [OF assms(1) own(4)]) (simp add: payment_list_filter_def)
  have pay: "pay_repo_List up us t inp s1 = pay_repo_List up us t inp s2" for up us inp
    unfolding pay_repo_List_def sc pay_page by (rule refl)
  have sub_page: "page n sub_order (\<lambda>r. visible s1 (row_tenant r) \<and> sub_list_filter t i c (sr_sub r)) (subscriptions s1)
      = page n sub_order (\<lambda>r. visible s2 (row_tenant r) \<and> sub_list_filter t i c (sr_sub r)) (subscriptions s2)" for n i c
    by (rule page_own [OF assms(1) own(3)]) (simp add: sub_list_filter_def row_tenant_def)
  have sub: "sub_repo_List up us t inp s1 = sub_repo_List up us t inp s2" for up us inp
    unfolding sub_repo_List_def sc sub_page by (rule refl)
  let ?cx = "bx_context bx"
  have handlers: "plan_handler_List up us ?cx l c a s1 = plan_handler_List up us ?cx l c a s2"
    "plan_handler_GetBySlug ?cx i s1 = plan_handler_GetBySlug ?cx i s2"
    "pay_handler_List up us ?cx l c s1 = pay_handler_List up us ?cx l c s2"
    "sub_handler_List up us ?cx sts tags c s1 = sub_handler_List up us ?cx sts tags c s2"
    "cred_handler_GetProviderStatus e ?cx p s1 = cred_handler_GetProviderStatus e ?cx p s2"
    "cred_handler_ListProviders e ?cx s1 = cred_handler_ListProviders e ?cx s2"
    for up us l c a i sts tags e p
    unfolding plan_handler_List_def plan_svc_List_def plan_handler_GetBySlug_def
      plan_svc_GetBySlug_def pay_handler_List_def pay_svc_List_def sub_handler_List_def sub_svc_List_def
      cred_handler_GetProviderStatus_def cred_svc_GetProviderConfig_def cred_handler_ListProviders_def cred_svc_ListProviders_def
      Let_def t cget slug plist pay sub clist
    by (rule refl)+
  show ?thesis
    using assms(4) unfolding reading_endpoints_def by (auto simp: reply_def keys handlers)
qed

text \<open>C6. What a request to one of the handlers whose statements name the tenant is answered (\<open>/me\<close>, the keys, the configured
  providers, the lists of plans, payments and subscriptions, a plan by its slug) depends on the data of the tenant of its API key and on
  nothing else in the database: two databases that agree on that tenant give the same answer, whatever other tenants
  have in them. This holds on every connection, one of the database's owner or set to another tenant included, as long as both
  requests run on connections in the same state (and, as errors carry it, get the same request id). It is not
  claimed of \<open>GET /plans/{id}\<close>, \<open>GET /subscriptions/{key}\<close> and the payments of a subscription, whose statements leave
  the tenant to row-level security.\<close>

theorem reading_shows_own_data:
  assumes "reaches pg r g h ps" "h \<in> set reading_endpoints" "g = Api_Key"
    and "presented_key (pg_idkey pg) (auth_header r) s1 = Some k1" "presented_key (pg_idkey pg) (auth_header r) s2 = Some k2"
    and "ak_TenantID (kr_key k1) = t" "ak_TenantID (kr_key k2) = t" "view t s1 = view t s2"
    and "pool s1 = pool s2" "acquired s1 = acquired s2" "next_uuid s1 = next_uuid s2"
  shows "fst (fst (serve pg r s1 limiter1)) = fst (fst (serve pg r s2 limiter2))"
proof -
  have ctx: "request_context pg s1 = request_context pg s2" using assms(11) by (simp add: request_context_def)
  have "fst (run_handler pg r ps h (in_context (WithTenantID (request_context pg s2) t)) (as_tenant t (draw s1)))
      = fst (run_handler pg r ps h (in_context (WithTenantID (request_context pg s2) t)) (as_tenant t (draw s2)))"
    by (rule reading_own [OF as_tenant_session _ _ assms(2)]) (use assms(8-10) in \<open>simp_all add: in_context_def\<close>)
  then show ?thesis
    unfolding serve_reached [OF assms(1)] assms(3) guarded_cases(2) [OF assms(4)] guarded_cases(2) [OF assms(5)] assms(6,7) ctx
    by (simp add: answer_def)
qed

section \<open>Connections set to another tenant\<close>

text \<open>What the code gives up by setting the tenant on one connection and running the handler on another: when the pool
  hands out an idle connection on which another tenant was last set, a change of a plan by its id, with whatever
  API key, changes a plan of that other tenant.\<close>

theorem stale_connection_crosses_tenants:
  assumes "reaches pg r Api_Key Plan_Update ps" "presented_key (pg_idkey pg) (auth_header r) s = Some k"
    and "choices s (acquired s) = Suc n" "n < length (idle s)" "idle s ! n = Current_Tenant u"
    and "parse_id (lb_uuid_parse (pg_libs pg)) (ps ''planID'') = Inr pid"
    and "dc_plan_patch (pg_decoders pg) (hq_body r) = Inr patch" "validateUpdateInput patch = None"
    and "filter (\<lambda>q. plan_ID q = pid) (plans s) = [p]" "plan_TenantID p = u" "plan_constraints (plan_patch (db_now s) patch p) = None"
  shows "fst (fst (serve pg r s limiter)) = Response 200 (B_Plan (plan_patch (db_now s) patch p))
    \<and> plans (snd (fst (serve pg r s limiter)))
       = update_where (\<lambda>q. plan_TenantID q = u \<and> plan_ID q = pid) (plan_patch (db_now s) patch) (plans s)"
proof -
  let ?s = "as_tenant (ak_TenantID (kr_key k)) (draw s)"
  have c: "session ?s = Current_Tenant u" using assms(3-5) by (simp add: as_tenant_def setRLSContext_def acquire_def)
  have f: "clock ?s = clock s" "plans ?s = plans s" by (simp_all add: as_tenant_def)
  have vis: "visible ?s t \<longleftrightarrow> t = u" for t using c by (simp add: visible_tenant)
  have sc: "session_check ?s = None" using c by (simp add: session_check_def)
  have hit: "filter (\<lambda>q. plan_TenantID q = u \<and> plan_ID q = pid) (plans s) = [p]"
  proof -
    have "filter (\<lambda>q. plan_TenantID q = u \<and> plan_ID q = pid) (plans s) = filter (\<lambda>q. plan_TenantID q = u) (filter (\<lambda>q. plan_ID q = pid) (plans s))"
      by (simp add: conj_commute)
    then show ?thesis using assms(9,10) by simp
  qed
  have now: "db_now ?s = db_now s" by (simp add: db_now_def f)
  have "plan_svc_Update pid patch ?s = (Inr (plan_patch (db_now s) patch p),
      ?s\<lparr>plans := update_where (\<lambda>q. plan_TenantID q = u \<and> plan_ID q = pid) (plan_patch (db_now s) patch) (plans s)\<rparr>)"
    using assms(11) by (simp add: plan_svc_Update_def assms(8) plan_repo_Update_def update_rows_def sc vis f hit now Let_def)
  then show ?thesis
    unfolding serve_reached [OF assms(1)] guarded_cases(2) [OF assms(2)]
    by (simp add: reply_def plan_handler_Update_def assms(6,7) RespondOK_def answer_def recovered_def)
qed

section \<open>From a signup to the first request\<close>

lemma exec_user_keys [simp]: "api_keys (snd (exec_user op uid f s)) = api_keys s" "clock (snd (exec_user op uid f s)) = clock s"
  "tenants (snd (exec_user op uid f s)) = tenants s"
  by (simp_all add: exec_user_def split: sum.split prod.split)

lemma CreateUser_keys:
  "api_keys (snd (bo_svc_CreateUser svc t email name pw role s)) = api_keys s
   \<and> clock (snd (bo_svc_CreateUser svc t email name pw role s)) = clock s
   \<and> tenants (snd (bo_svc_CreateUser svc t email name pw role s)) = tenants s"
proof -
  have d: "api_keys s2 = api_keys s1 \<and> clock s2 = clock s1 \<and> tenants s2 = tenants s1" if "draws s1 s2" for s1 s2
    using that by (auto simp: draws_def)
  have c: "api_keys (snd (user_repo_Create t email name h role s2)) = api_keys s2
      \<and> clock (snd (user_repo_Create t email name h role s2)) = clock s2 \<and> tenants (snd (user_repo_Create t email name h role s2)) = tenants s2" for h s2
    by (auto simp: user_repo_Create_def user_insert_def Let_def split: option.split)
  have m: "api_keys (snd (user_repo_UpdateMustChangePassword uid v s3)) = api_keys s3
      \<and> clock (snd (user_repo_UpdateMustChangePassword uid v s3)) = clock s3 \<and> tenants (snd (user_repo_UpdateMustChangePassword uid v s3)) = tenants s3" for uid v s3
    by (simp add: user_repo_UpdateMustChangePassword_def)
  obtain r s' where k: "bo_svc_CreateUser svc t email name pw role s = (r, s')" by fastforce
  then have "api_keys s' = api_keys s \<and> clock s' = clock s \<and> tenants s' = tenants s"
  proof (cases rule: CreateUser_course)
    case (early err)
    then show ?thesis using d by blast
  next
    case (refused s2 h err)
    then show ?thesis using d [OF refused(1)] c [of h s2] by simp
  next
    case (plain s2 h u)
    then show ?thesis using d [OF plain(1)] c [of h s2] by simp
  next
    case (temporary s2 h u s3)
    then show ?thesis using d [OF temporary(1)] c [of h s2] m [of "us_ID u" True s3] by simp
  next
    case (unmarked s2 h u s3 err)
    then show ?thesis using d [OF unmarked(1)] c [of h s2] m [of "us_ID u" True s3] by simp
  qed
  then show ?thesis using k by simp
qed

text \<open>A successful signup: a tenant with a new id, and an active key for it in the table.\<close>

lemma Signup_Inr:
  assumes "tenant_svc_Signup idkey env input s = (Inr (t, pk), s1)"
  shows "tn_ID t \<notin> tn_ID ` set (tenants s) \<and> t \<in> set (tenants s1) \<and> clock s1 = clock s \<and> 12 \<le> length (pk_Key pk)
    \<and> api_keys s1 = api_keys s @ [\<lparr>kr_key = pk_APIKey pk, kr_key_hash = tenant_key_hash idkey (pk_Key pk) (take 12 (pk_Key pk))\<rparr>]
    \<and> ak_TenantID (pk_APIKey pk) = tn_ID t \<and> ak_KeyPrefix (pk_APIKey pk) = take 12 (pk_Key pk)
    \<and> ak_IsActive (pk_APIKey pk) \<and> ak_ExpiresAt (pk_APIKey pk) = None"
proof -
  let ?t = "\<lparr>tn_ID = next_uuid s, tn_Name = si_Name input, tn_Slug = (if si_Slug input = [] then generateSlugFromName (si_Name input) else si_Slug input),
     tn_Email = Some (si_Email input), tn_IsActive = True, tn_DefaultProviderName = [], tn_CreatedAt = 0, tn_UpdatedAt = 0\<rparr>"
  let ?k = "\<lparr>ck_Description = ''Initial key'', ck_ExpiresAt = None\<rparr>"
  obtain q s0 where c: "tenant_repo_Create ?t (draw s) = (q, s0)" by fastforce
  have v: "validate_signup input = None" using assms by (auto simp: tenant_svc_Signup_def split: option.splits)
  then have q: "q = Inr t" and k: "tenant_svc_CreateKey idkey env (tn_ID t) ?k s0 = (Inr pk, s1)"
    using assms c by (auto simp: tenant_svc_Signup_def Let_def split: sum.splits prod.splits)
  have email: "tn_Email ?t = Some (si_Email input)" by simp
  from c email have t: "tn_ID t \<notin> tn_ID ` set (tenants s) \<and> t \<in> set (tenants s0) \<and> clock s0 = clock s \<and> api_keys s0 = api_keys s"
  proof (cases rule: tenant_repo_Create_cases)
    case created
    then show ?thesis using q by (simp add: new_tenant_simps)
  qed (use q in simp_all)
  from k show ?thesis
  proof (cases rule: tenant_svc_CreateKey_cases)
    case (created pk' p)
    then show ?thesis using t by (auto simp: new_key_def)
  qed simp_all
qed

lemma signup_handler_created:
  assumes "tenant_handler_Signup idkey env (Some (wrapped_CreateUser svc)) cfg ctx body s = (Response st sg, s')"
  shows "\<exists>input s1. tenant_svc_Signup idkey env input s = (Inr (sg_Tenant sg, sg_APIKey sg), s1)
    \<and> api_keys s' = api_keys s1 \<and> clock s' = clock s1 \<and> tenants s' = tenants s1"
proof -
  have err: "RespondError ctx e \<noteq> Response st sg" for e by (simp add: RespondError_def split: prod.split)
  obtain input where body: "body = Inr input" using assms err by (cases body) (auto simp: tenant_handler_Signup_def split: if_splits)
  obtain q s1 where su: "tenant_svc_Signup idkey env input s = (q, s1)" by fastforce
  show ?thesis
  proof (cases q)
    case (Inl e)
    then show ?thesis using assms err su by (simp add: tenant_handler_Signup_def body split: if_splits)
  next
    case (Inr p)
    then have "q = Inr (sg_Tenant sg, sg_APIKey sg)"
        "s' = (if si_Password input \<noteq> [] then snd (bo_svc_CreateUser svc (tn_ID (fst p)) (si_Email input) (si_Name input) (si_Password input) ''admin'' s1) else s1)"
      using assms err su
      by (auto simp: tenant_handler_Signup_def body Let_def RespondCreated_def wrapped_CreateUser_def split: if_splits prod.splits)
    then show ?thesis using su CreateUser_keys by (intro exI [of _ input] exI [of _ s1]) simp
  qed
qed

text \<open>C7. After a successful signup the key in its answer opens the interface: every request to a handler with an API key that
  presents it runs that handler for the new tenant, whose id no tenant had before, as long as the key's
  12-character prefix is not that of another active key.\<close>

theorem signup_key_opens_interface:
  assumes "reaches pg r g Signup ps" "serve pg r s limiter = ((Response 201 (B_Signup sg), s'), hs, limiter')"
    and "\<forall>k \<in> set (api_keys s). ak_KeyPrefix (kr_key k) = take 12 (pk_Key (sg_APIKey sg)) \<longrightarrow> \<not> ak_IsActive (kr_key k)"
    and "auth_header r2 = ''Bearer '' @ pk_Key (sg_APIKey sg)" "reaches pg r2 Api_Key h ps2"
  shows "tn_ID (sg_Tenant sg) \<notin> tn_ID ` set (tenants s) \<and> sg_Tenant sg \<in> set (tenants s')
    \<and> fst (serve pg r2 s' limiter2)
        = answer (run_handler pg r2 ps2 h (in_context (WithTenantID (request_context pg s') (tn_ID (sg_Tenant sg))))
            (as_tenant (tn_ID (sg_Tenant sg)) (draw s')))"
proof -
  have g: "g = Open \<or> g = Public" using reaches_guard [OF assms(1)] by (simp add: open_endpoints_def)
  obtain resp s0 where h: "tenant_handler_Signup (pg_idkey pg) (cf_AppEnv (pg_cfg pg)) (Some (wrapped_CreateUser (pg_backoffice pg)))
       (signup_switches (pg_cfg pg)) (bx_context (in_context (request_context pg s))) (dc_signup (pg_decoders pg) (hq_body r)) (draw s) = (resp, s0)"
    by fastforce
  have "answer (map_response B_Signup resp, s0) = (Response 201 (B_Signup sg), s')"
    using guarded_cases(1) [OF g, of pg r "run_handler pg r ps Signup" s limiter] assms(2) h
    by (simp add: serve_reached [OF assms(1)] reply_def)
  then have r: "resp = Response 201 sg" "s0 = s'"
    by (auto simp: answer_def recovered_def writeErrorResponse_def split: response.splits) (cases resp; simp)+
  obtain input s1 where su: "tenant_svc_Signup (pg_idkey pg) (cf_AppEnv (pg_cfg pg)) input (draw s) = (Inr (sg_Tenant sg, sg_APIKey sg), s1)"
    "api_keys s' = api_keys s1" "clock s' = clock s1" "tenants s' = tenants s1"
    using signup_handler_created [OF h [unfolded r]] by blast
  note new = Signup_Inr [OF su(1)]
  let ?key = "pk_Key (sg_APIKey sg)"
  let ?row = "\<lparr>kr_key = pk_APIKey (sg_APIKey sg), kr_key_hash = tenant_key_hash (pg_idkey pg) ?key (take 12 ?key)\<rparr>"
  have "find (\<lambda>r. ak_KeyPrefix (kr_key r) = take 12 ?key \<and> ak_IsActive (kr_key r)) (api_keys s) = None"
    using assms(3) by (auto simp: find_None_iff_all)
  then have "active_key (take 12 ?key) s' = Some ?row"
    using new by (simp add: active_key_def su(2) find_append)
  then have "presented_key (pg_idkey pg) (auth_header r2) s' = Some ?row"
    using new by (simp add: presented_key_def bearer_Some [THEN iffD2, OF assms(4)] unexpired_def)
  from guarded_cases(2) [OF this, of "run_handler pg r2 ps2 h" limiter2] show ?thesis
    using new su(4) by (simp add: serve_reached [OF assms(5)])
qed

end
