(* ===== verification/Server.thy ===== *)
theory Server
  imports Routes Lifecycle Mercadopago
begin

text \<open>
  The whole of \<open>cmd/payd/main.go\<close>: what \<open>main\<close> builds from the configuration, and a process as the sequence of what
  happens to it between its start and a signal: requests, ticks of the two background loops, connections
  that come and go in the pool, and time. A request and a tick are each one transition of the state: requests are
  served one after the other.
\<close>

section \<open>Settings of the servers\<close>

datatype log_level = LevelDebug | LevelInfo | LevelWarn | LevelError

datatype log_format = Json_Format | Text_Format

definition initLogger :: "string \<Rightarrow> string \<Rightarrow> log_level \<times> log_format" where
  "initLogger level appEnv =
     ((if level = ''debug'' then LevelDebug else if level = ''warn'' then LevelWarn
       else if level = ''error'' then LevelError else LevelInfo),
      (if appEnv = ''production'' then Json_Format else Text_Format))"

definition join_host_port :: "string \<Rightarrow> string \<Rightarrow> string" where
  "join_host_port host port =
     (if CHR '':'' \<in> set host \<or> CHR 0x25 \<in> set host then ''['' @ host @ '']:'' @ port else host @ '':'' @ port)"

definition app_addr :: "go_config \<Rightarrow> string" where
  "app_addr cfg = join_host_port [] (int_to_string (sint (cf_Port cfg)))"

definition metrics_addr :: "go_config \<Rightarrow> string option" where
  "metrics_addr cfg =
     (if cf_MetricsEnabled cfg then Some (join_host_port [] (int_to_string (sint (cf_MetricsPort cfg)))) else None)"

section \<open>Wiring\<close>

text \<open>What the process finds around it: besides the environment of its start the network of the connector, the
  decoders and the router of the libraries, the files of the interface, and the columns of the listing
  functions of the database.\<close>

record server_env =
  se_process :: process_env
  se_net :: "nat \<Rightarrow> mp_network"
  se_decoders :: decoders
  se_files :: file_system
  se_chi :: chi
  se_schema :: lifecycle_schema

text \<open>\<open>Register\<close> panics on a name that is taken, which in an empty registry none is.\<close>

definition build_program :: "server_env \<Rightarrow> go_config \<Rightarrow> (string \<times> capabilities) list \<Rightarrow> program" where
  "build_program se cfg yamlCaps =
     (let registry = (case Register [] (mp_provider (se_net se)) of Some r \<Rightarrow> r | None \<Rightarrow> [])
      in \<lparr>pg_cfg = cfg, pg_idkey = pe_idkey (se_process se), pg_libs = pe_libs (se_process se),
          pg_adapter = \<lparr>ad_registry = registry, ad_yamlCaps = yamlCaps\<rparr>, pg_decoders = se_decoders se,
          pg_files = se_files se, pg_chi = se_chi se\<rparr>)"

definition build_runner :: "server_env \<Rightarrow> program \<Rightarrow> lifecycle_runner" where
  "build_runner se pg =
     \<lparr>lr_schema = se_schema se, lr_paySvc = pay_svc_CreatePayment (pg_adapter pg),
      lr_credSvc = cred_svc_GetProviderConfig (cf_CredentialsEncryptionKey (pg_cfg pg)),
      lr_uuid_string = lb_uuid_string (pg_libs pg), lr_graceDays = cf_PastDueGracePeriodDays (pg_cfg pg)\<rparr>"

section \<open>A run\<close>

text \<open>\<open>Pooled\<close>: the next statement runs on a connection in that session state, one the pool had idle or one it has just
  opened in the place of the last. (Within a request the pool chooses after the middleware's statement.)\<close>

datatype happening =
    Time_Is gtime
  | Pooled session
  | Request http_request
  | Gauges_Tick
  | Lifecycle_Tick

record process_state =
  ps_sys :: sys
  ps_limiter :: rate_limiter
  ps_gauges :: "string \<rightharpoonup> nat"
  ps_answers :: "body response list"

fun happen :: "server_env \<Rightarrow> program \<Rightarrow> happening \<Rightarrow> process_state \<Rightarrow> process_state" where
  "happen se pg (Time_Is t) p = p\<lparr>ps_sys := (ps_sys p)\<lparr>clock := t\<rparr>\<rparr>"
| "happen se pg (Pooled c) p = p\<lparr>ps_sys := (ps_sys p)\<lparr>session := c\<rparr>\<rparr>"
| "happen se pg (Request r) p =
     (let ((resp, s1), hs, limiter1) = serve pg r (ps_sys p) (ps_limiter p)
      in p\<lparr>ps_sys := s1, ps_limiter := limiter1, ps_answers := ps_answers p @ [resp]\<rparr>)"
| "happen se pg Gauges_Tick p = p\<lparr>ps_gauges := poll_gauges (ps_sys p) (ps_gauges p)\<rparr>"
| "happen se pg Lifecycle_Tick p = p\<lparr>ps_sys := runAllJobs (build_runner se pg) background (ps_sys p)\<rparr>"

fun run_process :: "server_env \<Rightarrow> program \<Rightarrow> happening list \<Rightarrow> process_state \<Rightarrow> process_state" where
  "run_process se pg [] p = p"
| "run_process se pg (h # hs) p = run_process se pg hs (happen se pg h p)"

text \<open>How the process ends: a start that fails exits with status 1; the ticker of the lifecycle runner panics on an
  interval that is not positive; after a signal the server is shut down, which may fail. With the ending come the
  answers to all requests and what is in the database.\<close>

datatype ending = Exit nat | Crashed

definition main_process :: "server_env \<Rightarrow> happening list \<Rightarrow> gerror option \<Rightarrow> sys \<Rightarrow> ending \<times> body response list \<times> sys" where
  "main_process se hs shutdown_err s =
     (case start_up (se_process se) s of
        (Inl err, s1) \<Rightarrow> (Exit 1, [], s1)
      | (Inr (cfg, yamlCaps), s1) \<Rightarrow>
          (let pg = build_program se cfg yamlCaps
           in if cf_LifecycleJobInterval cfg \<le> 0 then (Crashed, [], s1)
              else let p = run_process se pg hs
                     \<lparr>ps_sys = s1, ps_limiter = NewRateLimiter (cf_RateLimitDefault cfg), ps_gauges = Map.empty, ps_answers = []\<rparr>
                   in (Exit (if shutdown_err = None then 0 else 1), ps_answers p, ps_sys p)))"

end
