(* ===== verification/Server_Rules.thy ===== *)
theory Server_Rules
  imports Server Routes_Rules
begin

text \<open>
  The life of a process as a whole: the constraints of all tables hold at any time, and nothing is removed from the
  tables but credentials. An operation is classified by the tables it writes; the lemmas of the components then
  give what it keeps.
\<close>

section \<open>The tables\<close>

definition tables :: "sys \<Rightarrow> tenant_view" where
  "tables s =
     \<lparr>tv_tenants = tenants s, tv_plans = plans s, tv_subscriptions = subscriptions s, tv_payments = payments s,
      tv_api_keys = api_keys s, tv_credentials = credentials s, tv_users = users s\<rparr>"

text \<open>The constraints of \<open>payments\<close>.\<close>

definition payments_ok :: "sys \<Rightarrow> bool" where
  "payments_ok s \<longleftrightarrow> distinct (map pay_ID (payments s)) \<and> distinct (map payment_key (payments s))
     \<and> (\<forall>p \<in> set (payments s). pay_Status p \<in> set payment_statuses \<and> pay_SubscriptionID p \<in> (sub_ID \<circ> sr_sub) ` set (subscriptions s))"

definition db_ok :: "sys \<Rightarrow> bool" where
  "db_ok s \<longleftrightarrow> tenants_ok s \<and> plans_ok s \<and> subs_ok s \<and> payments_ok s \<and> creds_ok s \<and> users_ok s"

text \<open>What stays of the tables: every row of a tenant, key, plan, subscription or user with the columns that no
  statement writes, and every payment as it is.\<close>

definition history_kept :: "sys \<Rightarrow> sys \<Rightarrow> bool" where
  "history_kept s s' \<longleftrightarrow>
     prefix (map tenant_identity (tenants s)) (map tenant_identity (tenants s'))
     \<and> prefix (map key_identity (api_keys s)) (map key_identity (api_keys s'))
     \<and> prefix (map plan_terms (plans s)) (map plan_terms (plans s'))
     \<and> prefix (map sub_fixed (subscriptions s)) (map sub_fixed (subscriptions s'))
     \<and> prefix (payments s) (payments s')
     \<and> prefix (map user_identity (users s)) (map user_identity (users s'))"

definition evolves :: "sys \<Rightarrow> sys \<Rightarrow> bool" where
  "evolves s s' \<longleftrightarrow> (db_ok s \<longrightarrow> db_ok s') \<and> history_kept s s'"

lemma evolves_trans: "evolves s s' \<Longrightarrow> evolves s' s'' \<Longrightarrow> evolves s s''"
  unfolding evolves_def history_kept_def by (meson prefix_order.trans)

lemma tables_fields:
  "tables s' = tables s \<longleftrightarrow> tenants s' = tenants s \<and> plans s' = plans s \<and> subscriptions s' = subscriptions s
     \<and> payments s' = payments s \<and> api_keys s' = api_keys s \<and> credentials s' = credentials s \<and> users s' = users s"
  by (auto simp: tables_def)

lemmas oks = tenants_ok_def plans_ok_def subs_ok_def payments_ok_def creds_ok_def users_ok_def

lemma evolves_same:
  assumes "tables s' = tables s"
  shows "evolves s s'"
proof -
  have f: "tenants s' = tenants s" "plans s' = plans s" "subscriptions s' = subscriptions s" "payments s' = payments s"
    "api_keys s' = api_keys s" "credentials s' = credentials s" "users s' = users s"
    using assms by (simp_all add: tables_fields)
  show ?thesis
    unfolding evolves_def db_ok_def history_kept_def oks f by (rule conjI, rule impI, assumption) (intro conjI prefix_order.refl)
qed

lemma tables_other_fields [simp]:
  "tables (draw s) = tables s" "tables (s\<lparr>session := x\<rparr>) = tables s" "tables (s\<lparr>clock := t\<rparr>) = tables s"
  "tables (s\<lparr>random_pos := n\<rparr>) = tables s"
  by (simp_all add: tables_def)

section \<open>Writes of one table\<close>

lemma keys_prefix:
  assumes "prefix (map f xs) (map f ys)" "\<And>x y. f x = f y \<Longrightarrow> g x = g y"
  shows "g ` set xs \<subseteq> g ` set ys"
proof
  fix i assume "i \<in> g ` set xs"
  then obtain x where x: "x \<in> set xs" "i = g x" by blast
  then have "f x \<in> set (map f ys)" using set_mono_prefix [OF assms(1)] by auto
  then obtain y where y: "y \<in> set ys" "f x = f y" by auto
  show "i \<in> g ` set ys" using x(2) y(1) assms(2) [OF y(2)] by blast
qed

lemma tenant_ids_prefix:
  "prefix (map tenant_identity ts) (map tenant_identity us) \<Longrightarrow> tn_ID ` set ts \<subseteq> tn_ID ` set us"
  by (erule keys_prefix) (simp add: tenant_identity_def)

lemma plan_ids_prefix: "prefix (map plan_terms ps) (map plan_terms qs) \<Longrightarrow> plan_ID ` set ps \<subseteq> plan_ID ` set qs"
  by (erule keys_prefix) (drule plan_terms_eqD, blast)

lemma sub_ids_prefix:
  "prefix (map sub_fixed rs) (map sub_fixed qs) \<Longrightarrow> (sub_ID \<circ> sr_sub) ` set rs \<subseteq> (sub_ID \<circ> sr_sub) ` set qs"
  by (erule keys_prefix) (simp add: sub_fixed_def)

lemma evolves_plans:
  assumes "tables s' = (tables s)\<lparr>tv_plans := plans s'\<rparr>" "plan_step s s'"
  shows "evolves s s'"
proof -
  have f: "tenants s' = tenants s" "subscriptions s' = subscriptions s" "payments s' = payments s" "api_keys s' = api_keys s"
    "credentials s' = credentials s" "users s' = users s"
    using assms(1) by (auto simp: tables_def)
  note terms = plan_step_terms [OF assms(2)]
  have "sub_change s s'" by (rule change_none) (use f plan_ids_prefix [OF terms] in simp_all)
  then have "subs_ok s \<longrightarrow> subs_ok s'" using sub_change_ok by blast
  then show ?thesis
    using plan_step_ok [OF assms(2)] terms
    unfolding evolves_def db_ok_def history_kept_def tenants_ok_def payments_ok_def creds_ok_def users_ok_def f by simp
qed

lemma evolves_subs:
  assumes "tables s' = (tables s)\<lparr>tv_subscriptions := subscriptions s'\<rparr>" "sub_step\<^sup>*\<^sup>* s s'"
  shows "evolves s s'"
proof -
  have f: "tenants s' = tenants s" "plans s' = plans s" "payments s' = payments s" "api_keys s' = api_keys s"
    "credentials s' = credentials s" "users s' = users s"
    using assms(1) by (auto simp: tables_def)
  note fixed = sub_changes_fixed [OF sub_steps_changes [OF assms(2)]]
  have "payments_ok s \<longrightarrow> payments_ok s'" using sub_ids_prefix [OF fixed] by (auto simp: payments_ok_def f)
  moreover have "plans_ok s' = plans_ok s" by (simp add: plans_ok_def f)
  ultimately show ?thesis
    using sub_steps_ok [OF assms(2)] fixed
    unfolding evolves_def db_ok_def history_kept_def tenants_ok_def creds_ok_def users_ok_def f by simp
qed

lemma evolves_creds:
  assumes "tables s' = (tables s)\<lparr>tv_credentials := credentials s'\<rparr>" "creds_ok s \<Longrightarrow> creds_ok s'"
  shows "evolves s s'"
proof -
  have f: "tenants s' = tenants s" "plans s' = plans s" "payments s' = payments s" "api_keys s' = api_keys s"
    "subscriptions s' = subscriptions s" "users s' = users s"
    using assms(1) by (auto simp: tables_def)
  have "subs_ok s' = subs_ok s" "plans_ok s' = plans_ok s" by (simp_all add: subs_ok_def plans_ok_def f cong: option.case_cong)
  then show ?thesis
    using assms(2) unfolding evolves_def db_ok_def history_kept_def tenants_ok_def payments_ok_def users_ok_def f by simp
qed

lemma evolves_users:
  assumes "tables s' = (tables s)\<lparr>tv_users := users s'\<rparr>" "users_change s s'"
  shows "evolves s s'"
proof -
  have f: "tenants s' = tenants s" "plans s' = plans s" "payments s' = payments s" "api_keys s' = api_keys s"
    "subscriptions s' = subscriptions s" "credentials s' = credentials s"
    using assms(1) by (auto simp: tables_def)
  have "subs_ok s' = subs_ok s" "plans_ok s' = plans_ok s" by (simp_all add: subs_ok_def plans_ok_def f cong: option.case_cong)
  then show ?thesis
    using assms(2) unfolding evolves_def db_ok_def history_kept_def tenants_ok_def payments_ok_def creds_ok_def users_change_def f by simp
qed

lemma evolves_tenants:
  assumes "tables s' = (tables s)\<lparr>tv_tenants := tenants s', tv_api_keys := api_keys s'\<rparr>" "keeps env s s'"
  shows "evolves s s'"
proof -
  have f: "plans s' = plans s" "payments s' = payments s" "subscriptions s' = subscriptions s" "credentials s' = credentials s"
    "users s' = users s"
    using assms(1) by (auto simp: tables_def)
  have k: "prefix (map tenant_identity (tenants s)) (map tenant_identity (tenants s'))"
    "prefix (map key_identity (api_keys s)) (map key_identity (api_keys s'))" "tenants_ok s \<longrightarrow> tenants_ok s'"
    using assms(2) by (simp_all add: keeps_def grows_def table_identities_def)
  note ids = tenant_ids_prefix [OF k(1)]
  have "sub_change s s'" by (rule change_none) (use f ids in simp_all)
  then have "subs_ok s \<longrightarrow> subs_ok s'" using sub_change_ok by blast
  moreover have "plans_ok s \<longrightarrow> plans_ok s'" "creds_ok s \<longrightarrow> creds_ok s'" "users_ok s \<longrightarrow> users_ok s'"
    using ids by (auto simp: plans_ok_def creds_ok_def users_ok_def f)
  moreover have "payments_ok s' = payments_ok s" by (simp add: payments_ok_def f)
  ultimately show ?thesis using k unfolding evolves_def db_ok_def history_kept_def f by simp
qed

section \<open>Operations\<close>

subsection \<open>Plans\<close>

lemma plan_ops_evolve:
  "evolves s (snd (plan_svc_CreateOrGet ctx input s))" "evolves s (snd (plan_svc_Update pid patch s))" "evolves s (snd (plan_svc_Delete pid s))"
proof -
  have ins: "tables (snd (plan_insert t i s)) = (tables s)\<lparr>tv_plans := plans (snd (plan_insert t i s))\<rparr>" for t i
  proof -
    obtain r s' where c: "plan_insert t i s = (r, s')" by fastforce
    then show ?thesis by (cases rule: plan_insert_cases) (auto simp: c tables_def)
  qed
  have "tables (snd (plan_svc_CreateOrGet ctx input s)) = (tables s)\<lparr>tv_plans := plans (snd (plan_svc_CreateOrGet ctx input s))\<rparr>"
    using snd_plan_svc_CreateOrGet [of ctx input s] ins by (auto simp: tables_def)
  then show "evolves s (snd (plan_svc_CreateOrGet ctx input s))" by (rule evolves_plans [OF _ step_create])
  have "tables (snd (plan_svc_Update pid patch s)) = (tables s)\<lparr>tv_plans := plans (snd (plan_svc_Update pid patch s))\<rparr>"
    using snd_plan_svc_Update [of pid patch s] by (auto simp: tables_def)
  then show "evolves s (snd (plan_svc_Update pid patch s))" by (rule evolves_plans [OF _ step_update])
  have "tables (snd (plan_svc_Delete pid s)) = (tables s)\<lparr>tv_plans := plans (snd (plan_svc_Delete pid s))\<rparr>"
    using snd_plan_svc_Delete [of pid s] by (auto simp: tables_def)
  then show "evolves s (snd (plan_svc_Delete pid s))" by (rule evolves_plans [OF _ step_delete])
qed

subsection \<open>Subscriptions\<close>

lemma sub_ops_evolve:
  "evolves s (snd (sub_svc_Create adp ctx input s))" "evolves s (snd (sub_svc_Update adp sid patch s))"
  "evolves s (snd (sub_svc_Cancel key b s))" "evolves s (snd (sub_repo_UpdateStatus sid st s))"
  "evolves s (snd (sub_repo_AdvancePeriod sid t1 t2 s))"
proof -
  have up: "tables (snd (update_sub msg f i s)) = (tables s)\<lparr>tv_subscriptions := subscriptions (snd (update_sub msg f i s))\<rparr>" for msg f i
  proof -
    obtain q s' where c: "update_sub msg f i s = (q, s')" by fastforce
    then show ?thesis by (cases rule: update_sub_cases) (auto simp: c tables_def)
  qed
  have ex: "tables (snd (exec_sub msg f i s)) = (tables s)\<lparr>tv_subscriptions := subscriptions (snd (exec_sub msg f i s))\<rparr>" for msg f i
  proof -
    obtain q s' where c: "exec_sub msg f i s = (q, s')" by fastforce
    then show ?thesis by (cases rule: exec_sub_cases) (auto simp: c tables_def)
  qed
  have cr: "tables (snd (sub_repo_Create sub k s)) = (tables s)\<lparr>tv_subscriptions := subscriptions (snd (sub_repo_Create sub k s))\<rparr>" for sub k s
  proof -
    obtain q s' where c: "sub_repo_Create sub k s = (q, s')" by fastforce
    then show ?thesis by (cases rule: sub_repo_Create_cases) (auto simp: c tables_def)
  qed
  have "tables (snd (sub_svc_Create adp ctx input s)) = (tables s)\<lparr>tv_subscriptions := subscriptions (snd (sub_svc_Create adp ctx input s))\<rparr>"
    using snd_sub_svc_Create [of adp ctx input s] cr [of _ _ "draw s"] by (auto simp: tables_def)
  then show "evolves s (snd (sub_svc_Create adp ctx input s))" by (rule evolves_subs [OF _ r_into_rtranclp [of sub_step, OF sub_step_create]])
  have "tables (snd (sub_repo_Update sid i s)) = (tables s)\<lparr>tv_subscriptions := subscriptions (snd (sub_repo_Update sid i s))\<rparr>"
      "tables (snd (sub_repo_Cancel j b s)) = (tables s)\<lparr>tv_subscriptions := subscriptions (snd (sub_repo_Cancel j b s))\<rparr>" for i j
    by (simp_all add: sub_repo_Update_def sub_repo_Cancel_def up split: sum.split) (auto simp: tables_def)
  then have "tables (snd (sub_svc_Update adp sid patch s)) = (tables s)\<lparr>tv_subscriptions := subscriptions (snd (sub_svc_Update adp sid patch s))\<rparr>"
    "tables (snd (sub_svc_Cancel key b s)) = (tables s)\<lparr>tv_subscriptions := subscriptions (snd (sub_svc_Cancel key b s))\<rparr>"
    using snd_sub_svc_Update [of adp sid patch s] snd_sub_svc_Cancel [of key b s] by (auto simp: tables_def)
  then show "evolves s (snd (sub_svc_Update adp sid patch s))" "evolves s (snd (sub_svc_Cancel key b s))"
    by (auto intro!: evolves_subs r_into_rtranclp sub_step_update sub_step_cancel)
  show "evolves s (snd (sub_repo_UpdateStatus sid st s))" "evolves s (snd (sub_repo_AdvancePeriod sid t1 t2 s))"
    by (rule evolves_subs; (rule r_into_rtranclp, rule sub_step_status sub_step_advance)?;
        simp add: sub_repo_UpdateStatus_def sub_repo_AdvancePeriod_def ex)+
qed

subsection \<open>Payments\<close>

lemma payment_evolves: "evolves s (snd (pay_svc_CreatePayment adp ctx input s))"
proof -
  obtain r s' where c: "pay_svc_CreatePayment adp ctx input s = (r, s')" by fastforce
  have ch: "tables (snd (adapter_CreateCharge adp n req s)) = tables s" for n req by (simp add: tables_fields)
  from c have "evolves s s'"
  proof (cases rule: pay_svc_CreatePayment_cases)
    case (provider e)
    then show ?thesis using ch [of "ci_ProviderName input" "payment_charge_request input"] by (intro evolves_same) simp
  next
    case (charged res s1 q)
    have t: "tables (draw s1) = tables s" using ch [of "ci_ProviderName input" "payment_charge_request input"] charged(3) by simp
    from charged(4) show ?thesis
    proof (cases rule: pay_repo_Create_cases)
      case (created row response)
      note f = t [unfolded tables_fields]
      have row: "pay_Status row \<in> set payment_statuses" "payment_key row \<notin> payment_key ` set (payments s)"
        "pay_ID row \<notin> pay_ID ` set (payments s)" "pay_SubscriptionID row \<in> (sub_ID \<circ> sr_sub) ` set (subscriptions s)"
        using created(3-8) f by (auto simp: payment_by_key_def find_None_iff_all payment_row_def payment_key_def)
      have s': "tables s' = (tables s)\<lparr>tv_payments := payments s @ [row]\<rparr>" using f created(2) by (simp add: tables_def)
      then have g: "tenants s' = tenants s" "plans s' = plans s" "payments s' = payments s @ [row]" "api_keys s' = api_keys s"
        "subscriptions s' = subscriptions s" "credentials s' = credentials s" "users s' = users s"
        by (auto simp: tables_def)
      have "payments_ok s \<longrightarrow> payments_ok s'" using row by (auto simp: payments_ok_def g)
      moreover have "subs_ok s' = subs_ok s" "plans_ok s' = plans_ok s" by (simp_all add: subs_ok_def plans_ok_def g cong: option.case_cong)
      ultimately show ?thesis
        unfolding evolves_def db_ok_def history_kept_def tenants_ok_def creds_ok_def users_ok_def g by simp
    qed (use t in \<open>auto intro: evolves_same\<close>)
  qed (auto intro: evolves_same)
  then show ?thesis by (simp add: c)
qed

subsection \<open>Credentials\<close>

lemma cred_ops_evolve:
  "evolves s (snd (cred_svc_SetProviderConfig encKey a t p c s))" "evolves s (snd (cred_svc_DeleteProviderConfig t p s))"
proof -
  have up: "evolves s1 (snd (credentials_upsert t p j w s1))" for j w s1
  proof (rule evolves_creds)
    obtain r s' where c: "credentials_upsert t p j w s1 = (r, s')" by fastforce
    from c show "tables (snd (credentials_upsert t p j w s1)) = (tables s1)\<lparr>tv_credentials := credentials (snd (credentials_upsert t p j w s1))\<rparr>"
      by (cases rule: credentials_upsert_cases) (auto simp: c tables_def)
    show "creds_ok (snd (credentials_upsert t p j w s1))" if "creds_ok s1" using creds_ok_upsert [OF c that] c by simp
  qed
  from cred_svc_Set_snd [of encKey a t p c s] show "evolves s (snd (cred_svc_SetProviderConfig encKey a t p c s))"
  proof (elim disjE exE conjE)
    fix j s1
    assume st: "stored_config encKey c s = (Inr j, s1)"
      and z: "snd (cred_svc_SetProviderConfig encKey a t p c s) = snd (credentials_upsert t p j (at_key c ''webhook_secret'') s1)"
    have "evolves s s1" using stored_config_frame [OF st] by (auto intro: evolves_same)
    then show ?thesis unfolding z by (rule evolves_trans [OF _ up])
  qed (simp add: evolves_same)
  show "evolves s (snd (cred_svc_DeleteProviderConfig t p s))"
  proof (rule evolves_creds)
    show "tables (snd (cred_svc_DeleteProviderConfig t p s)) = (tables s)\<lparr>tv_credentials := credentials (snd (cred_svc_DeleteProviderConfig t p s))\<rparr>"
      using cred_svc_Delete_snd [of t p s] by (auto simp: tables_def)
    show "creds_ok (snd (cred_svc_DeleteProviderConfig t p s))" if "creds_ok s"
      using cred_svc_Delete_snd [of t p s] that
      by (auto simp: creds_ok_def distinct_map_filter distinct_filter_filter simp del: filter_filter)
  qed
qed

subsection \<open>Tenants and keys\<close>

lemma CreateKey_evolves: "evolves s (snd (tenant_svc_CreateKey idkey env t input s))"
proof (rule evolves_tenants [OF _ keeps_CreateKey])
  obtain r s' where c: "tenant_svc_CreateKey idkey env t input s = (r, s')" by fastforce
  then show "tables (snd (tenant_svc_CreateKey idkey env t input s)) = (tables s)
      \<lparr>tv_tenants := tenants (snd (tenant_svc_CreateKey idkey env t input s)), tv_api_keys := api_keys (snd (tenant_svc_CreateKey idkey env t input s))\<rparr>"
    by (cases rule: tenant_svc_CreateKey_cases) (auto simp: c tables_def)
qed

lemma Create_tenant_evolves:
  assumes "tn_Email t = Some e"
  shows "evolves s (snd (tenant_repo_Create t s))"
proof (rule evolves_tenants [OF _ keeps_Create [OF assms]])
  obtain r s' where c: "tenant_repo_Create t s = (r, s')" by fastforce
  then show "tables (snd (tenant_repo_Create t s)) = (tables s)
      \<lparr>tv_tenants := tenants (snd (tenant_repo_Create t s)), tv_api_keys := api_keys (snd (tenant_repo_Create t s))\<rparr>"
    using assms by (cases rule: tenant_repo_Create_cases) (auto simp: c tables_def)
qed

lemma tenant_ops_evolve:
  "evolves s (snd (tenant_svc_RevokeKey t i s))" "evolves s (snd (tenant_svc_SetDefaultProvider t p s))"
  "evolves s (snd (tenant_svc_Signup idkey env input s))"
proof -
  show "evolves s (snd (tenant_svc_RevokeKey t i s))"
    by (rule evolves_tenants [OF _ keeps_Revoke]) (simp add: tenant_svc_RevokeKey_def tenant_repo_RevokeAPIKey_def Let_def tables_def)
  show "evolves s (snd (tenant_svc_SetDefaultProvider t p s))"
    by (rule evolves_tenants [OF _ keeps_SetDefaultProvider])
      (simp add: tenant_svc_SetDefaultProvider_def tenant_repo_UpdateDefaultProvider_def Let_def tables_def split: option.split sum.split)
  have d: "evolves s (draw s)" by (rule evolves_same) simp
  have c: "evolves s (snd (tenant_repo_Create t (draw s)))" if "tn_Email t = Some e" for t e
    by (rule evolves_trans [OF d Create_tenant_evolves [OF that]])
  from Signup_snd [of idkey env input s] show "evolves s (snd (tenant_svc_Signup idkey env input s))"
  proof (elim disjE exE conjE)
    fix t s1 i k
    assume "tn_Email t = Some (si_Email input)" "s1 = snd (tenant_repo_Create t (draw s))"
      and z: "snd (tenant_svc_Signup idkey env input s) = snd (tenant_svc_CreateKey idkey env i k s1)"
    then have "evolves s s1" using c by simp
    then show ?thesis unfolding z by (rule evolves_trans [OF _ CreateKey_evolves])
  qed (simp_all add: evolves_same c)
qed

subsection \<open>Users\<close>

lemma users_only:
  "draws s s' \<Longrightarrow> tables s' = tables s" "tables (snd (exec_user op uid f s)) = (tables s)\<lparr>tv_users := users (snd (exec_user op uid f s))\<rparr>"
  by (auto simp: draws_def tables_def exec_user_def split: sum.split prod.split)

lemma users_none: "tables s = (tables s)\<lparr>tv_users := users s\<rparr>"
  by (simp add: tables_def)

lemma user_updates_evolve:
  "evolves s (snd (user_repo_UpdatePassword uid h s))" "evolves s (snd (user_repo_UpdateMustChangePassword uid v s))"
  "evolves s (snd (user_repo_UpdateName uid name s))" "evolves s (snd (user_repo_Deactivate uid s))"
  using users_only(2)
  by (auto intro!: evolves_users users_change_updates)
    (simp_all add: user_repo_UpdatePassword_def user_repo_UpdateMustChangePassword_def user_repo_UpdateName_def user_repo_Deactivate_def
      users_none [symmetric])

lemma CreateUser_evolves: "evolves s (snd (bo_svc_CreateUser svc t email name pw role s))"
proof (rule evolves_users [OF _ users_change_CreateUser])
  have ins: "tables (snd (user_repo_Create t email name h role s2)) = (tables s2)\<lparr>tv_users := users (snd (user_repo_Create t email name h role s2))\<rparr>" for h s2
    by (auto simp: user_repo_Create_def user_insert_def Let_def tables_def split: option.split)
  have must: "tables (snd (user_repo_UpdateMustChangePassword uid v s3)) = (tables s3)\<lparr>tv_users := users (snd (user_repo_UpdateMustChangePassword uid v s3))\<rparr>" for uid v s3
    by (simp add: user_repo_UpdateMustChangePassword_def users_only(2) users_none [symmetric])
  obtain r s' where k: "bo_svc_CreateUser svc t email name pw role s = (r, s')" by fastforce
  then have "tables s' = (tables s)\<lparr>tv_users := users s'\<rparr>"
  proof (cases rule: CreateUser_course)
    case (early err)
    have "users s' = users s" by (rule draws_fields(1) [OF early(2)])
    then show ?thesis using users_only(1) [OF early(2)] by (simp add: tables_def)
  next
    case (refused s2 h err)
    then show ?thesis using ins [of h s2] users_only(1) [OF refused(1)] by simp
  next
    case (plain s2 h u)
    then show ?thesis using ins [of h s2] users_only(1) [OF plain(1)] by simp
  next
    case (temporary s2 h u s3)
    then show ?thesis using ins [of h s2] must [of "us_ID u" True s3] users_only(1) [OF temporary(1)] by simp
  next
    case (unmarked s2 h u s3 err)
    then show ?thesis using ins [of h s2] must [of "us_ID u" True s3] users_only(1) [OF unmarked(1)] by simp
  qed
  then show "tables (snd (bo_svc_CreateUser svc t email name pw role s)) = (tables s)\<lparr>tv_users := users (snd (bo_svc_CreateUser svc t email name pw role s))\<rparr>"
    by (simp add: k)
qed

lemma user_ops_evolve:
  "evolves s (snd (bo_svc_UpdateProfile uid name s))" "evolves s (snd (bo_svc_DeactivateUser uid s))"
  "evolves s (snd (bo_svc_ChangePassword svc uid old new s))"
proof -
  have same: "evolves s s" by (rule evolves_same) simp
  note upd = user_updates_evolve
  show "evolves s (snd (bo_svc_UpdateProfile uid name s))"
    using upd(3) [of s uid name] same by (auto simp: bo_svc_UpdateProfile_def split: option.split sum.split prod.split)
  show "evolves s (snd (bo_svc_DeactivateUser uid s))"
    using upd(4) [of s uid] same by (auto simp: bo_svc_DeactivateUser_def split: option.split prod.split)
  obtain h s1 where h: "hash_password svc new s = (h, s1)" by fastforce
  have "evolves s s1" using draws_hash [of s svc new] h users_only(1) by (intro evolves_same) simp
  then show "evolves s (snd (bo_svc_ChangePassword svc uid old new s))"
    using same evolves_trans [OF _ upd(1)] by (simp add: bo_svc_ChangePassword_def h case_prod_beta split: option.split sum.split)
qed

section \<open>Requests\<close>

lemma evolves_refl [simp]: "evolves s s"
  by (rule evolves_same) simp

lemma handler_evolves: "evolves s (snd (run_handler pg r ps h bx s))"
proof (cases h)
  case Signup
  have "evolves s s1" if "tenant_svc_Signup idkey env input s = (q, s1)" for idkey env input q s1
    using tenant_ops_evolve(3) [of s idkey env input] that by simp
  then show ?thesis
    unfolding Signup
    by (auto simp: tenant_handler_Signup_def wrapped_CreateUser_def Let_def split: sum.split prod.split
        intro: evolves_trans [OF _ CreateUser_evolves])
next
  case Create_Key
  then show ?thesis using CreateKey_evolves
    by (auto simp: tenant_handler_CreateKey_def Let_def case_prod_beta split: sum.split)
next
  case Revoke_Key
  then show ?thesis using tenant_ops_evolve(1)
    by (auto simp: tenant_handler_RevokeKey_def Let_def case_prod_beta split: sum.split option.split)
next
  case Set_Default_Provider
  then show ?thesis using tenant_ops_evolve(2)
    by (auto simp: tenant_handler_SetDefaultProvider_def Let_def case_prod_beta split: sum.split)
next
  case Set_Credentials
  then show ?thesis using cred_ops_evolve(1)
    by (auto simp: cred_handler_Set_def case_prod_beta split: sum.split option.split)
next
  case Delete_Credentials
  then show ?thesis using cred_ops_evolve(2) by (auto simp: cred_handler_Delete_def case_prod_beta split: option.split)
next
  case Plan_Create
  then show ?thesis using plan_ops_evolve(1) by (auto simp: plan_handler_CreateOrGet_def case_prod_beta split: sum.split)
next
  case Plan_Update
  then show ?thesis using plan_ops_evolve(2) by (auto simp: plan_handler_Update_def case_prod_beta split: sum.split)
next
  case Plan_Delete
  then show ?thesis using plan_ops_evolve(3) by (auto simp: plan_handler_Delete_def case_prod_beta split: sum.split)
next
  case Payment_Create
  then show ?thesis using payment_evolves
    by (auto simp: pay_handler_CreatePayment_def Let_def case_prod_beta split: sum.split)
next
  case Sub_Create
  then show ?thesis using sub_ops_evolve(1) by (auto simp: sub_handler_Create_def Let_def case_prod_beta split: sum.split)
next
  case Sub_Update
  then show ?thesis using sub_ops_evolve(2) by (auto simp: sub_handler_Update_def case_prod_beta split: sum.split)
next
  case Sub_Cancel
  then show ?thesis using sub_ops_evolve(3) by (auto simp: sub_handler_Cancel_def Let_def case_prod_beta split: sum.split)
next
  case Bo_Update
  then show ?thesis using user_ops_evolve(1) by (auto simp: bo_handler_UpdateProfile_def Let_def case_prod_beta split: sum.split option.split)
next
  case Bo_Create_User
  then show ?thesis using CreateUser_evolves
    by (auto simp: bo_handler_CreateUser_def Let_def case_prod_beta split: sum.split option.split)
next
  case Bo_Deactivate
  then show ?thesis using user_ops_evolve(2) by (auto simp: bo_handler_DeactivateUser_def case_prod_beta split: option.split)
next
  case Bo_Password
  then show ?thesis using user_ops_evolve(3) by (auto simp: bo_handler_ChangePassword_def case_prod_beta split: option.split)
qed (simp_all add: Let_def)

lemma setRLS_tables [simp]: "tables (snd (setRLSContext t s)) = tables s"
  by (simp add: tables_def)

lemma guarded_evolves:
  assumes "\<And>bx s. evolves s (snd (f bx s))"
  shows "evolves s (snd (fst (guarded pg r g f s limiter)))"
proof -
  have d: "evolves s1 (snd (f bx s2))" if "tables s2 = tables s1" for bx s1 s2
    by (rule evolves_trans [OF evolves_same [OF that] assms])
  show ?thesis
  proof (cases g)
    case Api_Key
    show ?thesis
    proof (cases "presented_key (pg_idkey pg) (auth_header r) (draw s)")
      case None
      from Auth_presented(2) [OF None, of "\<lambda>ctx. f (in_context ctx)" "request_context pg s"]
      show ?thesis using Api_Key by (auto simp: guarded_eq Let_def intro: evolves_same)
    next
      case (Some k)
      then show ?thesis using Api_Key by (simp add: guarded_eq Let_def case_prod_beta Auth_presented(1) [OF Some] d)
    qed
  next
    case Backoffice_Token
    show ?thesis
    proof (cases "presented_token (pg_libs pg) (cf_BackofficeJWTSecret (pg_cfg pg)) (auth_header r) (draw s)")
      case None
      from BackofficeAuth_presented(2) [OF None, of f "in_context (request_context pg s)"]
      show ?thesis using Backoffice_Token by (auto simp: guarded_eq Let_def intro: evolves_same)
    next
      case (Some p)
      obtain uid t role where p: "p = (uid, t, role)" by (cases p)
      show ?thesis
        using Backoffice_Token by (simp add: guarded_eq Let_def case_prod_beta BackofficeAuth_presented(1) [OF Some [unfolded p]] d)
    qed
  qed (simp_all add: guarded_eq Let_def case_prod_beta d)
qed

lemma serve_evolves: "evolves s (snd (fst (serve pg r s limiter)))"
  unfolding serve_def Let_def
  by (auto split: chi_outcome.split prod.split entry.split intro!: guarded_evolves handler_evolves)

section \<open>Background and start\<close>

lemma renew_evolves: "lr_paySvc rn = pay_svc_CreatePayment adp \<Longrightarrow> evolves s (snd (renewSubscription rn ctx sub s))"
  by (erule billing.renew_cases [of rn adp ctx sub s])
    (auto intro: sub_ops_evolve(4,5) evolves_trans [OF payment_evolves])

lemma renew_all_evolves: "lr_paySvc rn = pay_svc_CreatePayment adp \<Longrightarrow> evolves s (renew_all rn ctx subs s)"
  by (induction subs arbitrary: s) (auto intro: evolves_trans [OF renew_evolves])

lemma set_statuses_evolves: "evolves s (set_statuses st subs s)"
  by (induction subs arbitrary: s) (auto intro: evolves_trans [OF sub_ops_evolve(4)])

lemma jobs_evolve: "lr_paySvc rn = pay_svc_CreatePayment adp \<Longrightarrow> evolves s (runAllJobs rn ctx s)"
proof -
  assume p: "lr_paySvc rn = pay_svc_CreatePayment adp"
  have "evolves s (snd (RunRenewals rn ctx s))" "evolves t (snd (RunTrialExpiry rn t))" "evolves t (snd (RunPastDueExpiry rn g t))" for s t g
    by (simp_all add: RunRenewals_def RunTrialExpiry_def RunPastDueExpiry_def renew_all_evolves [OF p] set_statuses_evolves split: sum.split)
  then show ?thesis unfolding runAllJobs_def Let_def by (meson evolves_trans)
qed

lemma bootstrap_evolves: "evolves s (bootstrapTenant idkey env svc cfg s)"
proof -
  have "evolves s s1" if "tenant_svc_Signup idkey env input s = (q, s1)" for input q s1
    using tenant_ops_evolve(3) [of s idkey env input] that by simp
  then show ?thesis
    by (auto simp: bootstrapTenant_def Let_def split: prod.split sum.split option.split
        intro: evolves_trans [OF _ CreateUser_evolves])
qed

lemma start_evolves: "evolves s (snd (start_up pe s))"
  by (auto simp: start_up_def Let_def bootstrap_evolves split: sum.split option.split)

lemma happen_evolves: "evolves (ps_sys p) (ps_sys (happen se pg h p))"
proof (cases h)
  case (Request r)
  then show ?thesis using serve_evolves [of "ps_sys p" pg r "ps_limiter p"] by (simp add: Let_def case_prod_beta)
next
  case Lifecycle_Tick
  have "lr_paySvc (build_runner se pg) = pay_svc_CreatePayment (pg_adapter pg)" by (simp add: build_runner_def)
  then show ?thesis unfolding Lifecycle_Tick by (simp add: jobs_evolve)
qed (auto intro: evolves_same)

lemma run_evolves: "evolves (ps_sys p) (ps_sys (run_process se pg hs p))"
  by (induction hs arbitrary: p) (auto intro: evolves_trans [OF happen_evolves])

text \<open>C3. From its start to its end, whether the start fails or a signal ends it, whatever requests come in which order,
  however the ticks of the background loops fall between them, which connections the pool hands out and what the
  provider and the other libraries answer: if the constraints of all tables hold in the database at first, they
  hold at the end, every payment is still there unchanged, and no tenant, key, plan, subscription or user has
  been removed or has changed in the columns that identify it.\<close>

theorem process_keeps_database:
  assumes "main_process se hs err s = (e, answers, s')" "db_ok s"
  shows "db_ok s' \<and> history_kept s s'"
proof -
  obtain q s1 where st: "start_up (se_process se) s = (q, s1)" by fastforce
  then have start: "evolves s s1" using start_evolves [of s "se_process se"] by simp
  have "evolves s1 s'"
  proof (cases q)
    case (Inl err)
    then show ?thesis using assms(1) st by (simp add: main_process_def evolves_same)
  next
    case (Inr p)
    obtain cfg caps where p: "p = (cfg, caps)" by (cases p)
    show ?thesis
      using assms(1) st Inr run_evolves [of "\<lparr>ps_sys = s1, ps_limiter = NewRateLimiter (cf_RateLimitDefault cfg), ps_gauges = Map.empty, ps_answers = []\<rparr>"
          se "build_program se cfg caps" hs]
      by (auto simp: main_process_def Let_def p evolves_same split: if_splits)
  qed
  from evolves_trans [OF start this] show ?thesis using assms(2) by (simp add: evolves_def)
qed

section \<open>Other tenants\<close>

text \<open>With the listing functions of the repository's migrations the jobs change nothing.\<close>

lemma jobs_idle: "lr_schema rn = migration_009 \<Longrightarrow> runAllJobs rn ctx s = s"
proof -
  assume m: "lr_schema rn = migration_009"
  have "\<not> set (renewal_columns selected_columns) \<subseteq> set (renewal_columns migration_009)"
    "\<not> set (trial_columns selected_columns) \<subseteq> set (trial_columns migration_009)"
    "\<not> set (expiry_columns selected_columns) \<subseteq> set (expiry_columns migration_009)"
    by code_simp+
  then show ?thesis
    by (auto simp: runAllJobs_def Let_def RunRenewals_def RunTrialExpiry_def RunPastDueExpiry_def m sub_repo_ListDueForRenewal_def
        sub_repo_ListExpiredTrials_def sub_repo_ListPastDuePendingExpiry_def select_columns_None [symmetric] split: option.split)
qed

text \<open>Nothing of a tenant: a request carries no credentials of it, a connection does not bypass row-level security.\<close>

fun strange :: "program \<Rightarrow> uuid \<Rightarrow> tenant_view \<Rightarrow> happening \<Rightarrow> bool" where
  "strange pg u v (Request r) = lacks_credentials pg u v r"
| "strange pg u v (Pooled c) = (c \<noteq> Bypass)"
| "strange pg u v h = True"

lemma happen_keeps:
  assumes "chi_law (pg_chi pg)" "se_schema se = migration_009" "secure (ps_sys p)" "u \<in> tn_ID ` set (tenants (ps_sys p))"
    and "strange pg u (view u (ps_sys p)) h"
  shows "view u (ps_sys (happen se pg h p)) = view u (ps_sys p) \<and> secure (ps_sys (happen se pg h p))"
proof (cases h)
  case (Time_Is t)
  then show ?thesis using assms(3) by (simp add: view_def secure_def one_connection_def)
next
  case (Pooled c)
  then show ?thesis using assms(3,5) by (simp add: secure_def one_connection_def)
next
  case (Request r)
  then show ?thesis using serve_keeps [OF assms(1,3,4), of r "ps_limiter p"] assms(5) by (simp add: Let_def case_prod_beta)
next
  case Lifecycle_Tick
  have "lr_schema (build_runner se pg) = migration_009" using assms(2) by (simp add: build_runner_def)
  then show ?thesis using Lifecycle_Tick assms(3) jobs_idle by simp
qed (use assms(3,5) in simp_all)

text \<open>C4. On a pool that always hands out the connection used last (for one because it has a single connection), of a role
  that does not bypass row-level security, and with the listing functions of the repository's migrations: whatever
  requests arrive, one after the other, in any order and at any path, and whatever else happens while the process
  runs, the plans, subscriptions, payments, credentials, API keys, users and the record of a tenant stay as they are
  as long as no request carries an API key of the tenant or a backoffice token that names it. (The first condition
  is needed: a handler that gets another connection than the one the middleware has set acts for the tenant that
  was last set there, as \<open>stale_connection_crosses_tenants\<close> shows.)\<close>

theorem strangers_change_nothing:
  assumes "chi_law (pg_chi pg)" "se_schema se = migration_009" "u \<in> tn_ID ` set (tenants (ps_sys p))"
    and "session (ps_sys p) \<noteq> Bypass" "one_connection (ps_sys p)"
    and "\<forall>h \<in> set hs. strange pg u (view u (ps_sys p)) h"
  shows "view u (ps_sys (run_process se pg hs p)) = view u (ps_sys p)"
proof -
  have "secure (ps_sys p)" using assms(4,5) by (simp add: secure_def)
  then show ?thesis using assms(3,6)
  proof (induction hs arbitrary: p)
    case (Cons h hs)
    let ?q = "happen se pg h p"
    have v: "view u (ps_sys ?q) = view u (ps_sys p)" "secure (ps_sys ?q)"
      using happen_keeps [OF assms(1,2) Cons.prems(1,2), of h] Cons.prems(3) by simp_all
    moreover have "u \<in> tn_ID ` set (tenants (ps_sys ?q))" using Cons.prems(2) v(1) by (simp add: view_tenant)
    ultimately have "view u (ps_sys (run_process se pg hs ?q)) = view u (ps_sys ?q)"
      using Cons.prems by (intro Cons.IH) simp_all
    then show ?case using v(1) by simp
  qed simp
qed

end
