(* ===== verification/Interface_Samples.thy ===== *)
theory Interface_Samples
  imports Interface_Rules Server_Rules Webhook
begin

text \<open>
  A concrete program, with a router that matches the patterns segment by segment, a concrete database of two
  tenants, and the witnesses of \<open>Interface_Rules\<close> and \<open>Server_Rules\<close>.
\<close>

section \<open>A router\<close>

text \<open>The URL parameters with which the segments of a path match those of a pattern; a final \<open>*\<close> takes the rest.\<close>

fun match_segments :: "string list \<Rightarrow> string list \<Rightarrow> (string \<times> string) list option" where
  "match_segments [] [] = Some []"
| "match_segments (p # ps) (q # qs) =
     (if p = ''*'' then Some [(p, join ''/'' (q # qs))]
      else if p \<noteq> [] \<and> hd p = CHR 0x7B then map_option (Cons (butlast (tl p), q)) (match_segments ps qs)
      else if p = q then match_segments ps qs else None)"
| "match_segments _ _ = None"

fun entry_match :: "string \<Rightarrow> string \<Rightarrow> entry \<Rightarrow> (string \<times> string) list option" where
  "entry_match verb path (Handle v pattern h) =
     (if v = verb then match_segments (go_split (CHR ''/'') pattern) (go_split (CHR ''/'') path) else None)"
| "entry_match verb path (Mounted pattern) = None"

fun first_match :: "string \<Rightarrow> string \<Rightarrow> nat \<Rightarrow> entry list \<Rightarrow> chi_outcome" where
  "first_match verb path i [] = No_Route 404"
| "first_match verb path i (e # es) =
     (case entry_match verb path e of
        None \<Rightarrow> first_match verb path (Suc i) es
      | Some kvs \<Rightarrow> Reached i (\<lambda>k. case map_of kvs k of None \<Rightarrow> [] | Some v \<Rightarrow> v))"

definition sample_chi :: chi where
  "sample_chi es verb path = first_match verb path 0 es"

lemma entry_match_Handle: "entry_match verb path e = Some kvs \<Longrightarrow> \<exists>p h. e = Handle verb p h"
  by (cases e) (auto split: if_splits)

lemma first_match_outcome:
  "case first_match verb path n es of
     Reached i ps \<Rightarrow> n \<le> i \<and> i < n + length es \<and> (\<exists>p h. es ! (i - n) = Handle verb p h)
   | Fell_Through i st \<Rightarrow> False
   | No_Route st \<Rightarrow> True"
proof (induction es arbitrary: n)
  case (Cons e es)
  show ?case
  proof (cases "entry_match verb path e")
    case None
    have nth: "Suc n \<le> i \<Longrightarrow> (e # es) ! (i - n) = es ! (i - Suc n)" for i by (simp add: nth_Cons')
    show ?thesis using Cons [of "Suc n"] None nth by (auto split: chi_outcome.splits)
  next
    case (Some kvs)
    then show ?thesis using entry_match_Handle by simp
  qed
qed simp

lemma sample_chi_law: "chi_law sample_chi"
proof -
  have "case sample_chi es verb path of
       Reached i ps \<Rightarrow> i < length es \<and> (\<exists>p h. es ! i = Handle verb p h)
     | Fell_Through i st \<Rightarrow> i < length es \<and> (\<exists>p. es ! i = Mounted p)
     | No_Route st \<Rightarrow> True" for es verb path
    using first_match_outcome [where n = 0 and es = es and verb = verb and path = path] by (simp add: sample_chi_def split: chi_outcome.splits)
  then show ?thesis unfolding chi_law_def by blast
qed

section \<open>A program and a database\<close>

definition sample_config :: go_config where
  "sample_config =
     \<lparr>cf_DatabaseURL = ''postgres'', cf_AppEnv = ''development'', cf_AppVersion = ''1.0'', cf_Port = 8080, cf_LogLevel = ''info'',
      cf_RateLimitDefault = 100, cf_WebhookDeliveryTimeout = 30, cf_WebhookMaxRetries = 3, cf_ProvidersConfigPath = [],
      cf_MigrationsPath = [], cf_BillaxConfigPath = [], cf_MetricsEnabled = False, cf_MetricsPort = 9090,
      cf_CredentialsEncryptionKey = [], cf_LifecycleJobInterval = 3600, cf_PastDueGracePeriodDays = 7,
      cf_BackofficeJWTSecret = ''s'', cf_BackofficeJWTTTL = 86400000000000, cf_BootstrapTenantName = [],
      cf_BootstrapTenantEmail = [], cf_BootstrapAdminPassword = [], cf_BootstrapTenantSlug = [], cf_AllowSignup = True,
      cf_SignupRequiresPassword = False\<rparr>"

definition sample_decoders :: decoders where
  "sample_decoders =
     (let eof = Plain ''EOF''
      in \<lparr>dc_signup = (\<lambda>b. Inr acme), dc_create_key = (\<lambda>b. Inr no_expiry), dc_default_provider = (\<lambda>b. Inl eof), dc_config = (\<lambda>b. Inl eof),
          dc_plan = (\<lambda>b. Inr sample_plan_input), dc_plan_patch = (\<lambda>b. Inl eof), dc_payment = (\<lambda>b. Inl eof),
          dc_subscription = (\<lambda>b. Inl eof), dc_raw = (\<lambda>b. Inl eof), dc_cancel = (\<lambda>b. Inl eof),
          dc_check_email = (\<lambda>b. b), dc_login = (\<lambda>b. None), dc_profile = (\<lambda>b. b), dc_create_user = (\<lambda>b. None),
          dc_change_password = (\<lambda>b. None)\<rparr>)"

text \<open>Keys derived from the whole key text.\<close>

definition text_idkey :: idkey where
  "text_idkey pw salt t m th len = pw"

definition sample_program :: program where
  "sample_program =
     \<lparr>pg_cfg = sample_config, pg_idkey = text_idkey, pg_libs = sample_libs, pg_adapter = sample_adapter,
      pg_decoders = sample_decoders, pg_files = sample_fs, pg_chi = sample_chi\<rparr>"

definition sample_request :: "string \<Rightarrow> string \<Rightarrow> string \<Rightarrow> http_request" where
  "sample_request verb path authHeader =
     \<lparr>hq_method = verb, hq_path = path, hq_header = (\<lambda>h. if h = ''Authorization'' then authHeader else []), hq_query = (\<lambda>k. []),
      hq_body = Some []\<rparr>"

lemma sample_request_simps [simp]: "hq_method (sample_request verb path h) = verb" "hq_path (sample_request verb path h) = path"
  "auth_header (sample_request verb path h) = h"
  by (simp_all add: sample_request_def auth_header_def)

definition key_of_7 :: string where "key_of_7 = ''payd_test_7xyz''"
definition key_of_8 :: string where "key_of_8 = ''payd_test_8xyz''"

definition iface_sys :: sys where
  "iface_sys = tenant_sample_sys\<lparr>api_keys :=
     [\<lparr>kr_key = new_key 7 (take 12 key_of_7) no_expiry tenant_sample_sys, kr_key_hash = tenant_key_hash text_idkey key_of_7 (take 12 key_of_7)\<rparr>,
      \<lparr>kr_key = new_key 8 (take 12 key_of_8) no_expiry tenant_sample_sys, kr_key_hash = tenant_key_hash text_idkey key_of_8 (take 12 key_of_8)\<rparr>]\<rparr>"

text \<open>The same with a plan of tenant 8.\<close>

definition iface_sys8 :: sys where
  "iface_sys8 = iface_sys\<lparr>plans := [sample_plan\<lparr>plan_TenantID := 8\<rparr>]\<rparr>"

text \<open>The handlers of some requests.\<close>

definition reached_entry :: "string \<Rightarrow> string \<Rightarrow> (guard \<times> entry) option" where
  "reached_entry verb path =
     (case sample_chi (map snd (main_router sample_config)) verb path of
        Reached i ps \<Rightarrow> if i < length (main_router sample_config) then Some (main_router sample_config ! i) else None
      | _ \<Rightarrow> None)"

lemma reached_entry_reaches:
  "reached_entry verb path = Some (g, Handle v p h) \<Longrightarrow> \<exists>ps. \<forall>authHeader. reaches sample_program (sample_request verb path authHeader) g h ps"
  by (auto simp: reached_entry_def reaches_def sample_program_def split: chi_outcome.splits if_splits)

lemma sample_reached:
  "reached_entry ''GET'' ''/v1/keys'' = Some (Api_Key, Handle ''GET'' ''/v1/keys'' List_Keys)"
  "reached_entry ''GET'' ''/v1/me'' = Some (Api_Key, Handle ''GET'' ''/v1/me'' Me)"
  "reached_entry ''GET'' ''/v1/plans/slug/pro'' = Some (Api_Key, Handle ''GET'' ''/v1/plans/slug/{slug}'' Plan_By_Slug)"
  "reached_entry ''POST'' ''/v1/signup'' = Some (Public, Handle ''POST'' ''/v1/signup'' Signup)"
  by code_simp+

lemma text_hash [simp]: "tenant_key_hash text_idkey k p = encode_to_string std_alphabet k"
  by (simp add: tenant_key_hash_def text_idkey_def)

lemma sample_presented:
  "\<exists>k. presented_key text_idkey (''Bearer '' @ key_of_7) iface_sys = Some k \<and> ak_TenantID (kr_key k) = 7"
  "\<exists>k. presented_key text_idkey (''Bearer '' @ key_of_7) iface_sys8 = Some k \<and> ak_TenantID (kr_key k) = 7"
  "presented_key text_idkey [] iface_sys = None"
proof -
  have b: "bearer (''Bearer '' @ key_of_7) = Some key_of_7" "bearer [] = None" by (simp_all only: bearer_Some) (simp add: bearer_def)
  have l: "12 \<le> length key_of_7" "take 12 key_of_7 = ''payd_test_7x''" "take 12 key_of_8 = ''payd_test_8x''"
    by (simp_all add: key_of_7_def key_of_8_def)
  show "\<exists>k. presented_key text_idkey (''Bearer '' @ key_of_7) iface_sys = Some k \<and> ak_TenantID (kr_key k) = 7"
    "\<exists>k. presented_key text_idkey (''Bearer '' @ key_of_7) iface_sys8 = Some k \<and> ak_TenantID (kr_key k) = 7"
    "presented_key text_idkey [] iface_sys = None"
    using l by (simp_all add: presented_key_def b b [simplified] active_key_def iface_sys8_def iface_sys_def new_key_def unexpired_def no_expiry_def)
qed

section \<open>Witnesses\<close>

lemma sample_program_simps [simp]:
  "pg_cfg sample_program = sample_config" "pg_idkey sample_program = text_idkey" "pg_libs sample_program = sample_libs"
  "pg_chi sample_program = sample_chi" "pg_decoders sample_program = sample_decoders"
  by (simp_all add: sample_program_def)

lemma iface_sys_simps [simp]: "session iface_sys = Unset" "session iface_sys8 = Unset" "tenants iface_sys = tenants tenant_sample_sys"
  "one_connection iface_sys"
  by (simp_all add: iface_sys_def iface_sys8_def tenant_sample_sys_def one_connection_def)

text \<open>The key of tenant 8 opens nothing of tenant 7.\<close>

lemma sample_lacks: "lacks_credentials sample_program 7 (view 7 iface_sys) (sample_request verb path (''Bearer '' @ key_of_8))"
proof -
  have b: "bearer (''Bearer '' @ key_of_8) = Some key_of_8" by (simp only: bearer_Some)
  have k: "encode_to_string std_alphabet key_of_7 \<noteq> encode_to_string std_alphabet key_of_8" by code_simp
  have p: "lb_parse sample_libs now (hmac_keyfunc ''s'') key_of_8 = Inl (Plain ''token signature is invalid'')" for now
    by (simp add: sample_libs_def key_of_8_def hmac_keyfunc_def)
  have "tv_api_keys (view 7 iface_sys) = [hd (api_keys iface_sys)]" by (simp add: view_def key_tenant_def iface_sys_def new_key_def)
  then show ?thesis
    using k unfolding lacks_credentials_def sample_request_simps b by (simp add: p sample_config_def iface_sys_def)
qed

definition sample_server :: server_env where
  "sample_server =
     \<lparr>se_process = sample_process, se_net = (\<lambda>n. busy_network), se_decoders = sample_decoders, se_files = sample_fs, se_chi = sample_chi,
      se_schema = migration_009\<rparr>"

theorem strangers_change_nothing_witness:
  "view 7 (ps_sys (run_process sample_server sample_program
       [Request (sample_request ''POST'' ''/v1/plans'' (''Bearer '' @ key_of_8)), Pooled Unset, Lifecycle_Tick,
        Request (sample_request ''DELETE'' ''/v1/keys/x'' (''Bearer '' @ key_of_8))]
       \<lparr>ps_sys = iface_sys, ps_limiter = NewRateLimiter 100, ps_gauges = Map.empty, ps_answers = []\<rparr>)) = view 7 iface_sys"
  by (rule strangers_change_nothing [THEN trans])
    (simp_all add: sample_chi_law sample_lacks [simplified] sample_server_def tenant_sample_sys_def tenant_of_def)

theorem process_keeps_database_witness:
  "\<exists>answers s'. main_process sample_server [Request (sample_request ''POST'' ''/v1/signup'' []), Gauges_Tick, Lifecycle_Tick] None tenant_sample_sys
       = (Exit 0, answers, s') \<and> db_ok s' \<and> prefix [(7, ''a'', ''a'', Some ''a'', 0), (8, ''b'', ''b'', Some ''b'', 0)] (map tenant_identity (tenants s'))"
proof -
  let ?hs = "[Request (sample_request ''POST'' ''/v1/signup'' []), Gauges_Tick, Lifecycle_Tick]"
  have "(case fst (start_up sample_process tenant_sample_sys) of Inr (cfg, caps) \<Rightarrow> 0 < cf_LifecycleJobInterval cfg | Inl e \<Rightarrow> False)"
    by code_simp
  then obtain cfg caps s1 where "start_up (se_process sample_server) tenant_sample_sys = (Inr (cfg, caps), s1)" "0 < cf_LifecycleJobInterval cfg"
    by (cases "start_up sample_process tenant_sample_sys") (auto simp: sample_server_def split: sum.splits)
  then obtain answers s' where m: "main_process sample_server ?hs None tenant_sample_sys = (Exit 0, answers, s')"
    by (simp add: main_process_def Let_def)
  have "db_ok tenant_sample_sys"
    by (simp add: db_ok_def oks tenant_sample_sys_def tenant_of_def valid_providers_def)
  from process_keeps_database [OF m this] show ?thesis
    using m by (intro exI [of _ answers] exI [of _ s'])
      (simp add: history_kept_def tenant_sample_sys_def tenant_of_def tenant_identity_def)
qed

theorem protected_handlers_witness:
  "\<exists>code msg. fst (serve sample_program (sample_request ''GET'' ''/v1/keys'' []) iface_sys (NewRateLimiter 100))
     = (writeErrorResponse 401 code msg, draw iface_sys)"
proof -
  obtain ps where "reaches sample_program (sample_request ''GET'' ''/v1/keys'' []) Api_Key List_Keys ps"
    using reached_entry_reaches [OF sample_reached(1)] by blast
  from protected_handlers [OF this, of iface_sys] show ?thesis by (simp add: open_endpoints_def sample_presented(3))
qed

text \<open>The two databases read by a role that bypasses row-level security.\<close>

theorem reading_shows_own_data_witness:
  "fst (fst (serve sample_program (sample_request ''GET'' ''/v1/plans/slug/pro'' (''Bearer '' @ key_of_7)) (iface_sys\<lparr>session := Bypass\<rparr>) (NewRateLimiter 1)))
     = fst (fst (serve sample_program (sample_request ''GET'' ''/v1/plans/slug/pro'' (''Bearer '' @ key_of_7)) (iface_sys8\<lparr>session := Bypass\<rparr>) (NewRateLimiter 1)))"
proof -
  let ?r = "sample_request ''GET'' ''/v1/plans/slug/pro'' (''Bearer '' @ key_of_7)"
  let ?s1 = "iface_sys\<lparr>session := Bypass\<rparr>" and ?s2 = "iface_sys8\<lparr>session := Bypass\<rparr>"
  obtain ps where r: "reaches sample_program ?r Api_Key Plan_By_Slug ps"
    using reached_entry_reaches [OF sample_reached(3)] by blast
  have any: "presented_key idkey h (s\<lparr>session := c\<rparr>) = presented_key idkey h s" for idkey h s c
  proof -
    have "active_key p (s\<lparr>session := c\<rparr>) = active_key p s" "clock (s\<lparr>session := c\<rparr>) = clock s" for p
      by (simp_all add: active_key_def)
    then show ?thesis unfolding presented_key_def by presburger
  qed
  obtain k1 where k1: "presented_key (pg_idkey sample_program) (auth_header ?r) ?s1 = Some k1" "ak_TenantID (kr_key k1) = 7"
    using sample_presented(1) by (auto simp: any)
  obtain k2 where k2: "presented_key (pg_idkey sample_program) (auth_header ?r) ?s2 = Some k2" "ak_TenantID (kr_key k2) = 7"
    using sample_presented(2) by (auto simp: any)
  have v: "view 7 ?s1 = view 7 ?s2" "pool ?s1 = pool ?s2" "acquired ?s1 = acquired ?s2" "next_uuid ?s1 = next_uuid ?s2"
    by (simp_all add: view_def pool_def iface_sys8_def iface_sys_def tenant_sample_sys_def next_uuid_def)
  have "Plan_By_Slug \<in> set reading_endpoints" by (simp add: reading_endpoints_def)
  from reading_shows_own_data [OF r this refl k1(1) k2(1) k1(2) k2(2) v] show ?thesis .
qed

text \<open>A signup, and the new key at \<open>/v1/me\<close>.\<close>

lemma Signup_ok:
  assumes "validate_signup input = None" "next_uuid (draw s) \<notin> tn_ID ` set (tenants s)" "api_keys s = []"
    and "signup_slug input \<notin> tn_Slug ` set (tenants s)" "Some (si_Email input) \<notin> tn_Email ` set (tenants s)"
  shows "\<exists>t pk s1. tenant_svc_Signup idkey env input s = (Inr (t, pk), s1)"
proof -
  let ?t = "\<lparr>tn_ID = next_uuid s, tn_Name = si_Name input, tn_Slug = signup_slug input, tn_Email = Some (si_Email input),
     tn_IsActive = True, tn_DefaultProviderName = [], tn_CreatedAt = 0, tn_UpdatedAt = 0\<rparr>"
  let ?k = "\<lparr>ck_Description = ''Initial key'', ck_ExpiresAt = None\<rparr>"
  obtain q s0 where c: "tenant_repo_Create ?t (draw s) = (q, s0)" by fastforce
  have email: "tn_Email ?t = Some (si_Email input)" by simp
  from c email have q: "q = Inr (new_tenant ?t (draw s)) \<and> s0 = (draw (draw s))\<lparr>tenants := tenants s @ [new_tenant ?t (draw s)]\<rparr>"
    by (cases rule: tenant_repo_Create_cases) (use assms in simp_all)
  then have "tn_ID (new_tenant ?t (draw s)) \<in> tn_ID ` set (tenants s0)" "api_keys s0 = []" using assms(3) by simp_all
  then obtain pk s1 where "tenant_svc_CreateKey idkey env (tn_ID (new_tenant ?t (draw s))) ?k s0 = (Inr pk, s1)"
    using CreateKey_ok [of ?k "tn_ID (new_tenant ?t (draw s))" s0 idkey env] by fastforce
  then show ?thesis using c q assms(1) by (simp add: tenant_svc_Signup_def signup_slug_def Let_def)
qed

lemma sample_signup:
  "\<exists>sg s'. fst (serve sample_program (sample_request ''POST'' ''/v1/signup'' []) tenant_sample_sys limiter) = (Response 201 (B_Signup sg), s')"
proof -
  obtain ps where r: "reaches sample_program (sample_request ''POST'' ''/v1/signup'' []) Public Signup ps"
    using reached_entry_reaches [OF sample_reached(4)] by blast
  have h: "validate_signup acme = None" "next_uuid (draw (draw tenant_sample_sys)) \<notin> tn_ID ` set (tenants (draw tenant_sample_sys))"
    "api_keys (draw tenant_sample_sys) = []" "signup_slug acme \<notin> tn_Slug ` set (tenants (draw tenant_sample_sys))"
    "Some (si_Email acme) \<notin> tn_Email ` set (tenants (draw tenant_sample_sys))"
    by code_simp+
  obtain t pk s1 where su: "tenant_svc_Signup text_idkey ''development'' acme (draw tenant_sample_sys) = (Inr (t, pk), s1)"
    using Signup_ok [OF h] by blast
  have c: "cf_AppEnv sample_config = ''development''" "sc_AllowSignup (signup_switches sample_config)"
    "\<not> sc_SignupRequiresPassword (signup_switches sample_config)" "si_Name acme \<noteq> []" "si_Email acme \<noteq> []" "si_Password acme = []"
    by (simp_all add: sample_config_def signup_switches_def acme_def)
  have "dc_signup sample_decoders b = Inr acme" for b by (simp add: sample_decoders_def Let_def)
  then show ?thesis
    by (simp add: serve_reached [OF r] guarded_cases(1) reply_def tenant_handler_Signup_def c su RespondCreated_def answer_def recovered_def)
qed

theorem signup_key_opens_interface_witness:
  "\<exists>sg s'. fst (serve sample_program (sample_request ''POST'' ''/v1/signup'' []) tenant_sample_sys (NewRateLimiter 1)) = (Response 201 (B_Signup sg), s')
     \<and> response_status (fst (fst (serve sample_program (sample_request ''GET'' ''/v1/me'' (''Bearer '' @ pk_Key (sg_APIKey sg))) s' (NewRateLimiter 1)))) = 200"
proof -
  let ?up = "sample_request ''POST'' ''/v1/signup'' []"
  obtain ps where r: "reaches sample_program ?up Public Signup ps"
    using reached_entry_reaches [OF sample_reached(4)] by blast
  obtain sg s' where "fst (serve sample_program ?up tenant_sample_sys (NewRateLimiter 1)) = (Response 201 (B_Signup sg), s')"
    using sample_signup by blast
  then obtain hs l where s: "serve sample_program ?up tenant_sample_sys (NewRateLimiter 1) = ((Response 201 (B_Signup sg), s'), hs, l)"
    by (metis prod.collapse)
  obtain ps2 where r2: "reaches sample_program (sample_request ''GET'' ''/v1/me'' (''Bearer '' @ pk_Key (sg_APIKey sg))) Api_Key Me ps2"
    using reached_entry_reaches [OF sample_reached(2)] by blast
  have "\<forall>k \<in> set (api_keys tenant_sample_sys). ak_KeyPrefix (kr_key k) = take 12 (pk_Key (sg_APIKey sg)) \<longrightarrow> \<not> ak_IsActive (kr_key k)"
    by (simp add: tenant_sample_sys_def)
  from signup_key_opens_interface [OF r s this sample_request_simps(3) r2] s show ?thesis
    by (auto simp: answer_def recovered_def)
qed

end
