(* ===== verification/Spec2Isabelle.thy ===== *)
theory Spec2Isabelle
  imports Renewal_Keys Tenant_Keys Credential_Rules Webhook Backoffice_Samples Rate_Limit_Rules Interface_Samples
begin

text \<open>
  Billax is a multi-tenant billing service in Go over PostgreSQL. This development models its
  domain code as functions on an explicit state and proves what the code promises, and, where it
  does not keep a promise, what it does instead.

  Architecture of the program. An HTTP request passes the middleware, which puts a request id and a
  tenant id in the context; a handler (\<open>handler.go\<close>) decodes it and calls a service
  (\<open>service.go\<close>), which validates and calls a repository (\<open>repository.go\<close>), one SQL statement per
  call; errors travel back as Go error chains and are mapped to a status by \<open>internal/errors\<close>.
  Payments go through the provider adapter to a connector. A background runner
  (\<open>subscription/lifecycle.go\<close>) renews and expires subscriptions.

  Theories, in the order of imports:
  \<^item> \<open>Prelude\<close>: machine types, results, tables (lists of rows) and their updates, pages.
  \<^item> \<open>Go_Strings\<close>, \<open>Go_Time\<close>, \<open>Calendar\<close>, \<open>Base64\<close>: the parts of Go's standard library the code uses.
    \<open>Calendar\<close> orders civil dates linearly and shows that date texts identify days.
  \<^item> \<open>Errors\<close>, \<open>Validation\<close>, \<open>Httputil\<close>: \<open>internal/errors\<close>, \<open>internal/validation\<close>,
    \<open>internal/httputil\<close> and \<open>internal/middleware/context.go\<close>.
  \<^item> \<open>Database\<close>: the domain structs, the state \<open>sys\<close> of the running system, and the SQL statements
    with row-level security and constraints as in \<open>migrations/\<close>.
  \<^item> \<open>Idempotent_Store\<close>: the contract of create-or-get by key as a locale, interpreted on plans by
    slug, payments and subscriptions by idempotency key.
  \<^item> \<open>Cursor\<close>, \<open>Plan\<close>, \<open>Provider\<close>, \<open>Payment\<close>, \<open>Subscription\<close>, \<open>Subscription_Service\<close>,
    \<open>Subscription_Rules\<close>: one group of definitions per repository, service and handler, in the order of
    the Go files; an operation is named after its package and method (\<open>sub_repo_Create\<close>,
    \<open>plan_svc_Update\<close>, \<open>pay_handler_List\<close>).
  \<^item> \<open>Lifecycle\<close>, \<open>Renewal_Keys\<close>: the lifecycle runner, over the contract \<open>payment_servicer\<close> of the
    payment service, and the idempotency keys of renewals.
  \<^item> \<open>Tenant\<close>, \<open>Auth\<close>, \<open>Tenant_Keys\<close>: tenants, the life cycle of API keys, and the middleware that
    authenticates a request; the hash Argon2id is a parameter (\<open>idkey\<close>).
  \<^item> \<open>Aes_Gcm\<close>, \<open>Hmac_Sha256\<close>, \<open>Json_Map\<close>: AES-256-GCM behind a locale of authenticated encryption, HMAC-SHA-256,
    and \<open>encoding/json\<close> on maps of strings.
  \<^item> \<open>Crypto\<close>, \<open>Credentials\<close>, \<open>Credential_Rules\<close>: stored provider credentials and their encryption.
  \<^item> \<open>Json_Value\<close>, \<open>Go_Float\<close>: decoding of JSON into structs as \<open>encoding/json\<close> does it, and float64 arithmetic
    as rounding of rationals.
  \<^item> \<open>Mercadopago\<close>, \<open>Webhook\<close>: the connector \<open>internal/provider/mercadopago\<close> (client with retries, mapper,
    signature of notifications) and \<open>internal/webhook\<close>; the network is a parameter.
  \<^item> \<open>Backoffice\<close>, \<open>Backoffice_Service\<close>: users of the admin interface, passwords, tokens, the middleware
    \<open>BackofficeAuth\<close> and the bootstrap of a first tenant; bcrypt and golang-jwt are parameters.
    \<open>Backoffice_Rules\<close> holds generated passwords and the invariant of the user table, \<open>Backoffice_Login\<close> who
    logs in and what a token is good for, \<open>Backoffice_Access\<close> password changes, refusals and failures, and
    \<open>Backoffice_Samples\<close> concrete libraries that satisfy the hypotheses, with the witnesses.
  \<^item> \<open>Rate_Limit\<close>, \<open>Rate_Limit_Rules\<close>: token buckets, the limiter and its middleware, and the chains the router
    builds; a locale \<open>budget\<close> bounds the successes of attempts and is interpreted on the buckets.
  \<^item> \<open>Go_Duration\<close>, \<open>Configuration\<close>, \<open>Process\<close>: parsers of settings, \<open>internal/config\<close>, and the process around the
    handlers (\<open>internal/db\<close>, the start and the poller of \<open>cmd/payd/main.go\<close>, response writers).
  \<^item> \<open>Ui\<close>, \<open>Routes\<close>: the files of the backoffice interface, and the route tables of the handlers, mounted as
    \<open>middleware/router.go\<close> and \<open>cmd/payd/main.go\<close> do it; \<open>run_handler\<close> gives the handler of a route and \<open>serve\<close>
    the answer to a request. Which route a path matches is decided by chi, a parameter with the law \<open>chi_law\<close>.
  \<^item> \<open>Server\<close>: the wiring of \<open>main\<close>, and a process as the sequence of what happens to it (requests, ticks of the
    background loops, connections of the pool, time) from its start to its end.
  \<^item> \<open>Tenant_View\<close>, \<open>Routes_Rules\<close>, \<open>Interface_Rules\<close>: the part of the database that belongs to a tenant, what every
    handler keeps of other tenants' parts, which guard each route is behind, and what a request is answered.
  \<^item> \<open>Server_Rules\<close>: what holds over the whole life of a process. An operation is classified by the table it
    writes, and the invariants of the components are put together. \<open>Interface_Samples\<close> has a concrete program,
    with a router, and the witnesses.
  \<^item> this theory: pagination across the lists.

  State. \<open>sys\<close> holds the clock, the row-level-security state of the connection in use and of the idle ones of
  the pool, the stream of random UUIDs, the tables, and the log of charge requests sent to providers. Operations
  take it and return it updated; what only reads takes it and returns a result. Errors are values of \<open>gerror\<close>.

  Connections. The middlewares set the tenant with a statement of its own (\<open>setRLSContext\<close>), after which the pool
  hands out a connection again (\<open>acquire\<close>): the one just set, or an idle one, on which another tenant or none may
  have been set, as an argument of the state (\<open>choices\<close>) says. Which one it is the code leaves open. Properties
  hold for every choice unless they say that the pool hands out the connection used last (\<open>one_connection\<close>), as
  the isolation of tenants needs: \<open>stale_connection_crosses_tenants\<close> is what happens otherwise. Services and jobs
  are stated for whatever the connection is set to; a job under row-level security acts on the rows its
  connection shows. The limit of the model: the code asks the pool before each statement, while here all
  statements of one handler, or of one tick of a background loop, run on the same connection.

  Conventions and bounds. Integers of the Go code are 64-bit words read as signed; interval counts
  must fit the 32-bit column. Times are nanoseconds in UTC (the process runs with TZ=UTC), columns keep
  microseconds. The clock stands still within a request. The text form and parser of UUIDs, the JSON
  normal form of PostgreSQL, Argon2id, bcrypt, the JWT library, the router, the decoding of JSON bodies into
  structs, the file system, the network and the printed form of a float64 in a raw response are parameters; what is
  assumed of them is a named hypothesis: \<open>jwt_law\<close> (a token that was signed is read back until it expires, for claims
  without \<open>nbf\<close>, which the code never sets), \<open>bcrypt_law\<close>, \<open>chi_law\<close>, and \<open>jsonb_ok\<close> (a text that PostgreSQL accepts
  as jsonb keeps its meaning; which texts it accepts is left open, and it refuses some that Go writes, such as
  those with \<open>\u0000\<close>). Case folding and trimming of strings are those of ASCII. Ties in an ORDER BY are broken by
  physical order.

  What the lemmas show. Per repository: the outcomes of each statement (\<open>.._cases\<close>), the laws of the
  locales, the constraints of the schema as an invariant kept by every operation. Per service: what is
  created, what an update or cancellation changes, what stays, which errors are answered with which
  status. Per runner: the effect of each job and its failure modes. For the interface: who reaches which handler,
  that a tenant's data is not changed by requests without its credentials, that the handlers whose statements name
  the tenant show no other tenant's data on any connection, and that a new key works. For the process: the
  constraints of all tables hold at any time and no record is lost, a failed start included.

  Not modelled: what is logged, the durations that are measured and the endpoint that serves them, the JavaScript
  of the user interface; time-outs of contexts and the length of the waits between attempts; concurrency between
  requests other than in the rate limiter (a request, or a tick of a background loop, is one transition of the
  state).
\<close>

section \<open>Pagination across the list operations\<close>

text \<open>C22. No list operation can be continued: a request with a cursor, whatever it is (so also one
  that the service handed out), is refused as invalid input with status 400 by all three lists.\<close>

theorem every_cursor_refused:
  "plan_repo_List uuid_parse uuid_string t (pin\<lparr>lp_Cursor := c # cs\<rparr>) s = Inl (Sentinel ErrInvalidInput)
   \<and> sub_repo_List uuid_parse uuid_string t (qin\<lparr>ls_Cursor := c # cs\<rparr>) s = Inl (Sentinel ErrInvalidInput)
   \<and> pay_repo_List uuid_parse uuid_string t (yin\<lparr>li_Cursor := c # cs\<rparr>) s = Inl (Sentinel ErrInvalidInput)
   \<and> HTTPStatusFor (Sentinel ErrInvalidInput) = 400"
  by (simp add: plan_repo_List_def sub_repo_List_def pay_repo_List_def Let_def list_cursor_cases sentinel_status_def)

lemma next_cursor_row:
  assumes "cut_page uuid_string created_at ident n rows = (xs, nc)" "nc \<noteq> []"
  shows "n < length rows" "nc = encode_cursor uuid_string (created_at (rows ! n)) (ident (rows ! n))" "xs = take n rows"
  using assms by (auto simp: cut_page_def split: if_splits)

lemma sub_repo_List_first:
  assumes "sub_repo_List uuid_parse uuid_string t input s = Inr r" "ls_Cursor input = []"
  defines "n \<equiv> nat (sint (repo_limit (ls_Limit input)))"
  shows "cut_page uuid_string sub_CreatedAt sub_ID n (map scan_subscription (page (n + 1) sub_order
      (\<lambda>r. visible s (row_tenant r) \<and> sub_list_filter t input None (sr_sub r)) (subscriptions s)))
    = (lsr_Subscriptions r, lsr_NextCursor r)"
  using assms(1,2) unfolding n_def
  by (auto simp: sub_repo_List_def Let_def list_cursor_cases split: option.splits prod.splits)

lemma pay_repo_List_first:
  assumes "pay_repo_List uuid_parse uuid_string t input s = Inr r" "li_Cursor input = []"
  defines "n \<equiv> nat (sint (repo_limit (li_Limit input)))"
  shows "cut_page uuid_string pay_CreatedAt pay_ID n (map scan_payment (page (n + 1) payment_order
      (\<lambda>p. visible s (pay_TenantID p) \<and> payment_list_filter t input None p) (payments s)))
    = (lir_Payments r, lir_NextCursor r)"
  using assms(1,2) unfolding n_def
  by (auto simp: pay_repo_List_def Let_def list_cursor_cases split: option.splits prod.splits)

lemma distinct_map_page:
  "distinct (map key rs) \<Longrightarrow> distinct (map key (take n (sort_key k (filter P rs))))"
proof -
  assume "distinct (map key rs)"
  then have "distinct (filter P rs) \<and> inj_on key (set (filter P rs))"
    by (auto simp: distinct_map intro: inj_on_subset)
  then have "distinct (map key (sort_key k (filter P rs)))" by (simp add: distinct_map)
  then show ?thesis by (simp add: take_map [symmetric])
qed

lemma nth_not_in_take:
  "distinct (map key xs) \<Longrightarrow> n < length xs \<Longrightarrow> key (xs ! n) \<notin> key ` set (take n xs)"
  by (auto simp: distinct_conv_nth in_set_conv_nth)

text \<open>The cursor of a page of subscriptions names the first row after the page instead of the last
  row on it, and the next page starts strictly after the cursor: that row is on neither page.\<close>

theorem cursor_row_on_no_page:
  assumes "sub_repo_List uuid_parse uuid_string t input s = Inr r" "ls_Cursor input = []" "lsr_NextCursor r \<noteq> []"
    and "subs_ok s"
  shows "\<exists>q \<in> set (subscriptions s). sub_list_filter t input None (sr_sub q)
    \<and> lsr_NextCursor r = encode_cursor uuid_string (sub_CreatedAt (sr_sub q)) (sub_ID (sr_sub q))
    \<and> sub_ID (sr_sub q) \<notin> sub_ID ` set (lsr_Subscriptions r)
    \<and> \<not> after_cursor (Some (sub_CreatedAt (sr_sub q), sub_ID (sr_sub q))) (sub_CreatedAt (sr_sub q)) (sub_ID (sr_sub q))"
proof -
  let ?n = "nat (sint (repo_limit (ls_Limit input)))"
  let ?P = "\<lambda>r. visible s (row_tenant r) \<and> sub_list_filter t input None (sr_sub r)"
  let ?rows = "page (?n + 1) sub_order ?P (subscriptions s)"
  note cut = next_cursor_row [OF sub_repo_List_first [OF assms(1,2)] assms(3)]
  have len: "?n < length ?rows" using cut(1) by simp
  have created: "sub_CreatedAt (scan_subscription q) = sub_CreatedAt (sr_sub q)" for q
    by (simp add: scan_subscription_def Let_def split: option.split)
  let ?q = "?rows ! ?n"
  have "?q \<in> set ?rows" using len by (rule nth_mem)
  then have q: "?q \<in> set (subscriptions s)" "?P ?q"
    using set_page [of "?n + 1" sub_order ?P "subscriptions s"] by blast+
  have "distinct (map (sub_ID \<circ> sr_sub) ?rows)"
    unfolding page_def by (rule distinct_map_page) (use assms(4) in \<open>simp add: subs_ok_def\<close>)
  then have "(sub_ID \<circ> sr_sub) ?q \<notin> (sub_ID \<circ> sr_sub) ` set (take ?n ?rows)"
    by (rule nth_not_in_take [OF _ len])
  then have "sub_ID (sr_sub ?q) \<notin> sub_ID ` set (lsr_Subscriptions r)"
    unfolding cut(3) by (force simp: take_map)
  moreover have "lsr_NextCursor r = encode_cursor uuid_string (sub_CreatedAt (sr_sub ?q)) (sub_ID (sr_sub ?q))"
    using cut(2) len by (simp add: created)
  ultimately show ?thesis using q after_cursor_irrefl by blast
qed

text \<open>Payments are listed newest first, while the next page asks for what is after the cursor: even if
  the cursor could be read, no payment that the first page left out would be on the second.\<close>

theorem payments_second_page_empty:
  assumes "pay_repo_List uuid_parse uuid_string t input s = Inr r" "li_Cursor input = []" "lir_NextCursor r \<noteq> []"
  shows "\<exists>c i. lir_NextCursor r = encode_cursor uuid_string c i
    \<and> (\<forall>q. q \<in> set (payments s) \<and> visible s (pay_TenantID q) \<and> payment_list_filter t input None q
          \<and> scan_payment q \<notin> set (lir_Payments r) \<longrightarrow> \<not> after_cursor (Some (c, i)) (pay_CreatedAt q) (pay_ID q))"
proof -
  let ?n = "nat (sint (repo_limit (li_Limit input)))"
  let ?P = "\<lambda>p. visible s (pay_TenantID p) \<and> payment_list_filter t input None p"
  let ?rows = "page (?n + 1) payment_order ?P (payments s)"
  note cut = next_cursor_row [OF pay_repo_List_first [OF assms(1,2)] assms(3)]
  have len: "?n < length ?rows" using cut(1) by simp
  let ?q = "?rows ! ?n"
  have q: "?q \<in> set ?rows" using len by (rule nth_mem)
  have last: "\<not> after_cursor (Some (pay_CreatedAt ?q, pay_ID ?q)) (pay_CreatedAt p) (pay_ID p)"
    if p: "p \<in> set (payments s)" "?P p" "scan_payment p \<notin> set (lir_Payments r)" for p
  proof (cases "p = ?q")
    case False
    have "payment_order ?q \<le> payment_order p"
    proof (cases "p \<in> set ?rows")
      case True
      then obtain k where k: "k < length ?rows" "p = ?rows ! k" by (auto simp: in_set_conv_nth)
      have "length ?rows \<le> ?n + 1" by (rule length_page)
      moreover have "\<not> k < ?n"
      proof
        assume "k < ?n"
        then have "p \<in> set (take ?n ?rows)" using k by (auto simp: in_set_conv_nth intro!: exI [of _ k])
        with p(3) show False unfolding cut(3) by (simp add: take_map)
      qed
      ultimately have "k = ?n" using k(1) by linarith
      with k False show ?thesis by simp
    next
      case False
      then show ?thesis using page_rest_ge [OF q p(1,2)] by blast
    qed
    then show ?thesis by (auto simp: payment_order_def after_cursor_def word_less_def)
  qed (simp add: after_cursor_irrefl)
  have "lir_NextCursor r = encode_cursor uuid_string (pay_CreatedAt ?q) (pay_ID ?q)" using cut(2) len by simp
  with last show ?thesis by blast
qed

section \<open>Concrete data for the witnesses\<close>

text \<open>Twenty-one subscriptions, or payments: one more than a page.\<close>

definition many_subs_sys :: sys where
  "many_subs_sys = pay_sample_sys\<lparr>subscriptions := map (\<lambda>k. pay_sample_sub
     \<lparr>sr_sub := (sr_sub pay_sample_sub)\<lparr>sub_ID := of_nat k, sub_SubscriptionKey := of_nat k, sub_CreatedAt := int k\<rparr>,
      sr_idempotency_key := nat_to_string k\<rparr>) [0..<21]\<rparr>"

definition many_payments_sys :: sys where
  "many_payments_sys = pay_sample_sys\<lparr>payments := map (\<lambda>k. sample_payment\<lparr>pay_ID := of_nat k, pay_CreatedAt := int k\<rparr>) [0..<21]\<rparr>"

definition first_subs :: list_subscriptions_input where
  "first_subs = \<lparr>ls_Status = [], ls_Tags = [], ls_Limit = 20, ls_Cursor = []\<rparr>"

definition first_payments :: list_payments_input where
  "first_payments = \<lparr>li_ProviderName = None, li_Status = [], li_Limit = 20, li_Cursor = []\<rparr>"

theorem cursor_row_on_no_page_witness:
  "\<exists>q \<in> set (subscriptions many_subs_sys). \<exists>r. sub_repo_List (\<lambda>_. None) (\<lambda>_. ''u'') 7 first_subs many_subs_sys = Inr r
     \<and> sub_ID (sr_sub q) \<notin> sub_ID ` set (lsr_Subscriptions r)"
proof -
  let ?l = "sub_repo_List (\<lambda>_. None) (\<lambda>_. ''u'') 7 first_subs many_subs_sys"
  have l: "(case ?l of Inr r \<Rightarrow> lsr_NextCursor r \<noteq> [] | Inl e \<Rightarrow> False)" "ls_Cursor first_subs = []" "subs_ok many_subs_sys"
    by code_simp+
  then obtain r where "?l = Inr r" "lsr_NextCursor r \<noteq> []" by (auto split: sum.splits)
  with cursor_row_on_no_page [OF this(1) l(2) this(2) l(3)] show ?thesis by blast
qed

theorem payments_second_page_empty_witness:
  "\<exists>r. pay_repo_List (\<lambda>_. None) (\<lambda>_. ''u'') 7 first_payments many_payments_sys = Inr r
     \<and> (\<exists>c i. lir_NextCursor r = encode_cursor (\<lambda>_. ''u'') c i)"
proof -
  let ?l = "pay_repo_List (\<lambda>_. None) (\<lambda>_. ''u'') 7 first_payments many_payments_sys"
  have l: "(case ?l of Inr r \<Rightarrow> lir_NextCursor r \<noteq> [] | Inl e \<Rightarrow> False)" "li_Cursor first_payments = []"
    by code_simp+
  then obtain r where "?l = Inr r" "lir_NextCursor r \<noteq> []" by (auto split: sum.splits)
  with payments_second_page_empty [OF this(1) l(2) this(2)] show ?thesis by blast
qed

end
